(* ===== verification/Prelude.thy ===== *)
theory Prelude
  imports Complex_Main "HOL-Library.AList"
begin

text \<open>
  What every component shares: Python text (strings whose code points are below 256),
  truthiness of optional strings, \<open>hmac.compare_digest\<close>, dictionaries as association
  lists in insertion order (\<open>AList.update\<close> writes in place or appends, exactly as a
  Python dict does), calendar days and datetimes as integers, and the generic lemmas on
  them. Dates are proleptic ordinals (\<open>date.toordinal\<close>), datetimes and times of day are
  microseconds, the resolution of Python's \<open>datetime\<close>.
\<close>

named_theorems dict_simps \<open>lookup and key facts of dictionaries\<close>
named_theorems time_simps \<open>the units and the conversions of the time model\<close>

section \<open>Text\<close>

type_synonym str = string

text \<open>Python's \<open>if s\<close> on an \<open>Optional[str]\<close>, and \<open>s or d\<close>.\<close>

definition truthy :: "str option \<Rightarrow> bool" where
  "truthy s = (case s of None \<Rightarrow> False | Some t \<Rightarrow> t \<noteq> [])"

definition or_else :: "str option \<Rightarrow> str \<Rightarrow> str" where
  "or_else s d = (case s of None \<Rightarrow> d | Some t \<Rightarrow> if t = [] then d else t)"

lemma truthy_simps [simp]:
  "truthy None = False" "truthy (Some t) = (t \<noteq> [])"
  by (simp_all add: truthy_def)

lemma or_else_simps [simp]:
  "or_else None d = d" "or_else (Some []) d = d" "or_else (Some (c # t)) d = c # t"
  by (simp_all add: or_else_def)

lemma truthy_iff: "truthy s \<longleftrightarrow> (\<exists>c t. s = Some (c # t))"
  by (cases s) (auto simp: neq_Nil_conv)

text \<open>The white space that \<open>str.strip\<close> and \<open>str.split\<close> remove, below code point 256.\<close>

definition py_space :: "char \<Rightarrow> bool" where
  "py_space c = (of_char c \<in> {9, 10, 11, 12, 13, 28, 29, 30, 31, 32, 133, 160::nat})"

definition lstrip :: "str \<Rightarrow> str" where
  "lstrip s = dropWhile py_space s"

definition strip :: "str \<Rightarrow> str" where
  "strip s = rev (dropWhile py_space (rev (lstrip s)))"

text \<open>\<open>str.lower\<close> below code point 256.\<close>

definition lower_char :: "char \<Rightarrow> char" where
  "lower_char c = (let n = (of_char c :: nat) in
     if (65 \<le> n \<and> n \<le> 90) \<or> (192 \<le> n \<and> n \<le> 222 \<and> n \<noteq> 215)
     then char_of (n + 32) else c)"

definition lower :: "str \<Rightarrow> str" where
  "lower s = map lower_char s"

text \<open>\<open>str.upper\<close> on ASCII, the only text it is applied to (hexadecimal identifiers).\<close>

definition upper_char :: "char \<Rightarrow> char" where
  "upper_char c = (let n = (of_char c :: nat) in
     if 97 \<le> n \<and> n \<le> 122 then char_of (n - 32) else c)"

definition upper :: "str \<Rightarrow> str" where
  "upper s = map upper_char s"

definition startswith :: "str \<Rightarrow> str \<Rightarrow> bool" where
  "startswith s p = (take (length p) s = p)"

lemma startswith_iff: "startswith s p \<longleftrightarrow> (\<exists>r. s = p @ r)"
  unfolding startswith_def by (metis append_eq_conv_conj append_take_drop_id)

text \<open>\<open>s.partition(c)\<close> for a one-character separator: head, whether it was found, tail.\<close>

fun partition_at :: "char \<Rightarrow> str \<Rightarrow> str \<times> bool \<times> str" where
  "partition_at c [] = ([], False, [])"
| "partition_at c (x # xs) =
     (if x = c then ([], True, xs)
      else (case partition_at c xs of (h, f, t) \<Rightarrow> (x # h, f, t)))"

lemma partition_at_found:
  "c \<notin> set h \<Longrightarrow> partition_at c (h @ c # t) = (h, True, t)"
  by (induction h) auto

lemma partition_at_append:
  "partition_at c s = (h, True, t) \<Longrightarrow> s = h @ c # t \<and> c \<notin> set h"
proof (induction s arbitrary: h)
  case Nil
  then show ?case by simp
next
  case (Cons x xs)
  then show ?case by (cases "x = c") (auto split: prod.splits)
qed

lemma partition_at_none: "c \<notin> set s \<Longrightarrow> partition_at c s = (s, False, [])"
  by (induction s) auto

lemma partition_at_flag: "fst (snd (partition_at c s)) = (c \<in> set s)"
  by (induction s) (auto split: prod.splits)

text \<open>\<open>c.join(parts)\<close> and \<open>s.split(c)\<close> for a one-character separator.\<close>

fun join_on :: "char \<Rightarrow> str list \<Rightarrow> str" where
  "join_on c [] = []"
| "join_on c [p] = p"
| "join_on c (p # q # ps) = p @ c # join_on c (q # ps)"

fun split_on :: "char \<Rightarrow> str \<Rightarrow> str list" where
  "split_on c [] = [[]]"
| "split_on c (x # xs) =
     (if x = c then [] # split_on c xs
      else (case split_on c xs of [] \<Rightarrow> [[x]] | p # ps \<Rightarrow> (x # p) # ps))"

lemma split_on_plain: "c \<notin> set p \<Longrightarrow> split_on c p = [p]"
  by (induction p) auto

lemma split_on_append: "c \<notin> set p \<Longrightarrow> split_on c (p @ c # s) = p # split_on c s"
  by (induction p) auto

lemma split_on_join:
  "ps \<noteq> [] \<Longrightarrow> \<forall>p \<in> set ps. c \<notin> set p \<Longrightarrow> split_on c (join_on c ps) = ps"
  by (induction c ps rule: join_on.induct) (auto simp: split_on_plain split_on_append)

text \<open>
  \<open>str(n)\<close>, and \<open>int(s)\<close>: surrounding white space, a sign and single underscores between
  digits are accepted, anything else is a ValueError (None). Digits are the ASCII ones,
  the only decimal digits below code point 256.
\<close>

definition is_digit :: "char \<Rightarrow> bool" where
  "is_digit c = (48 \<le> (of_char c :: nat) \<and> (of_char c :: nat) \<le> 57)"

fun show_nat :: "nat \<Rightarrow> str" where
  "show_nat n = (if n < 10 then [char_of (48 + n)]
     else show_nat (n div 10) @ [char_of (48 + n mod 10)])"

declare show_nat.simps [simp del]

definition show_int :: "int \<Rightarrow> str" where
  "show_int i = (if i < 0 then CHR ''-'' # show_nat (nat (- i)) else show_nat (nat i))"

fun digit_groups :: "str \<Rightarrow> bool" where
  "digit_groups [] = False"
| "digit_groups [c] = is_digit c"
| "digit_groups (c # d # ds) =
     (is_digit c \<and> (if d = CHR ''_'' then digit_groups ds else digit_groups (d # ds)))"

definition digits_value :: "str \<Rightarrow> int" where
  "digits_value s = foldl (\<lambda>v c. 10 * v + (of_char c - 48)) 0 (filter is_digit s)"

definition py_int :: "str \<Rightarrow> int option" where
  "py_int s =
     (case (case strip s of
              [] \<Rightarrow> (1, [])
            | c # t \<Rightarrow> if c = CHR ''-'' then (- 1, t) else if c = CHR ''+'' then (1, t) else (1, c # t))
      of (sign, u) \<Rightarrow> if digit_groups u then Some (sign * digits_value u) else None)"

lemma digit_char: "n < 10 \<Longrightarrow> of_char (char_of (48 + n) :: char) = (of_nat (48 + n) :: 'a::linordered_semidom)"
proof -
  assume "n < 10"
  then have "(of_char (char_of (48 + n) :: char) :: nat) = 48 + n" by simp
  then have "(of_nat (of_char (char_of (48 + n) :: char)) :: 'a) = of_nat (48 + n)" by simp
  then show ?thesis by (simp only: of_nat_of_char)
qed

lemma show_nat_digits: "\<forall>c \<in> set (show_nat n). is_digit c"
proof (induction n rule: show_nat.induct)
  case (1 n)
  show ?case using 1 by (subst show_nat.simps) (auto simp: is_digit_def)
qed

lemma show_nat_nonempty [simp]: "show_nat n \<noteq> []"
  by (subst show_nat.simps) simp

lemma digit_groups_digits: "s \<noteq> [] \<Longrightarrow> \<forall>c \<in> set s. is_digit c \<Longrightarrow> digit_groups s"
  by (induction s rule: digit_groups.induct) (auto simp: is_digit_def)

lemma digits_value_show_nat: "digits_value (show_nat n) = int n"
proof (induction n rule: show_nat.induct)
  case (1 n)
  have d: "is_digit (char_of (48 + n mod 10) :: char)" "n < 10 \<Longrightarrow> is_digit (char_of (48 + n) :: char)"
    by (auto simp: is_digit_def)
  show ?case
  proof (cases "n < 10")
    case True
    then show ?thesis using d by (subst show_nat.simps) (simp add: digits_value_def digit_char)
  next
    case False
    have "10 * int (n div 10) + int (n mod 10) = int n" by presburger
    then show ?thesis using False d 1 digit_char [of "n mod 10", where 'a = int]
      by (subst show_nat.simps) (simp add: digits_value_def)
  qed
qed

lemma strip_no_space: "\<forall>c \<in> set s. \<not> py_space c \<Longrightarrow> strip s = s"
proof -
  assume *: "\<forall>c \<in> set s. \<not> py_space c"
  have "dropWhile py_space t = t" if "\<forall>c \<in> set t. \<not> py_space c" for t
    using that by (cases t) auto
  from this [of s] this [of "rev s"] * show ?thesis by (simp add: strip_def lstrip_def)
qed

lemma digit_not_space: "is_digit c \<Longrightarrow> \<not> py_space c"
  by (auto simp: is_digit_def py_space_def)

lemma py_int_show_int: "py_int (show_int i) = Some i"
proof -
  have *: "\<forall>c \<in> set (show_nat n). \<not> py_space c" for n
    using show_nat_digits digit_not_space by blast
  have **: "digit_groups (show_nat n)" for n
    by (simp add: digit_groups_digits show_nat_digits)
  obtain c t where ct: "show_nat (nat i) = c # t" by (cases "show_nat (nat i)") auto
  then have "is_digit c" using show_nat_digits [of "nat i"] by simp
  then have c: "c \<noteq> CHR ''-''" "c \<noteq> CHR ''+''" by (auto simp: is_digit_def)
  show ?thesis
  proof (cases "i < 0")
    case True
    have "strip (CHR ''-'' # show_nat (nat (- i))) = CHR ''-'' # show_nat (nat (- i))"
      using * by (intro strip_no_space) (auto simp: py_space_def)
    then show ?thesis using True ** by (simp add: py_int_def show_int_def digits_value_show_nat)
  next
    case False
    have "strip (show_nat (nat i)) = show_nat (nat i)" using * by (intro strip_no_space)
    moreover have "digits_value (c # t) = i" "digit_groups (c # t)"
      using False ** digits_value_show_nat [of "nat i"] by (simp_all flip: ct)
    ultimately show ?thesis using False c by (simp add: py_int_def show_int_def ct)
  qed
qed

lemma show_int_chars: "c \<in> set (show_int i) \<Longrightarrow> is_digit c \<or> c = CHR ''-''"
  using show_nat_digits by (auto simp: show_int_def split: if_splits)

text \<open>
  \<open>hmac.compare_digest\<close> on two strings: a TypeError when either holds a non-ASCII
  character, equality otherwise. The result of a call that may raise is a sum.
\<close>

datatype exn = TypeError | ValueError

definition ascii :: "str \<Rightarrow> bool" where
  "ascii s = (\<forall>c \<in> set s. of_char c < (128::nat))"

definition compare_digest :: "str \<Rightarrow> str \<Rightarrow> exn + bool" where
  "compare_digest a b = (if ascii a \<and> ascii b then Inr (a = b) else Inl TypeError)"

lemma compare_digest_True [simp]:
  "compare_digest a b = Inr True \<longleftrightarrow> ascii a \<and> a = b"
  by (auto simp: compare_digest_def)

lemma compare_digest_False [simp]:
  "compare_digest a b = Inr False \<longleftrightarrow> ascii a \<and> ascii b \<and> a \<noteq> b"
  by (auto simp: compare_digest_def)

text \<open>Environment variables: \<open>os.getenv(name, default)\<close> returns the default only when unset.\<close>

type_synonym env = "str \<Rightarrow> str option"

definition getenv :: "env \<Rightarrow> str \<Rightarrow> str \<Rightarrow> str" where
  "getenv env n d = (case env n of None \<Rightarrow> d | Some v \<Rightarrow> v)"

section \<open>Dictionaries\<close>

type_synonym ('k, 'v) dict = "('k \<times> 'v) list"

definition dict_ok :: "('k, 'v) dict \<Rightarrow> bool" where
  "dict_ok d = distinct (map fst d)"

text \<open>
  The sweep every in-memory store runs: collect the keys whose value is dead, then pop
  each of them.
\<close>

definition dead_keys :: "('v \<Rightarrow> bool) \<Rightarrow> ('k, 'v) dict \<Rightarrow> 'k list" where
  "dead_keys dead d = map fst (filter (\<lambda>(k, v). dead v) d)"

definition sweep :: "('v \<Rightarrow> bool) \<Rightarrow> ('k, 'v) dict \<Rightarrow> ('k, 'v) dict" where
  "sweep dead d = fold AList.delete (dead_keys dead d) d"

lemma map_of_fold_delete:
  "map_of (fold AList.delete ks d) k = (if k \<in> set ks then None else map_of d k)"
  by (induction ks arbitrary: d) (auto simp: delete_conv)

lemma dict_ok_update [dict_simps]: "dict_ok d \<Longrightarrow> dict_ok (AList.update k v d)"
  by (simp add: dict_ok_def distinct_update)

lemma dict_ok_delete [dict_simps]: "dict_ok d \<Longrightarrow> dict_ok (AList.delete k d)"
  by (simp add: dict_ok_def distinct_delete)

lemma dict_ok_fold_delete: "dict_ok d \<Longrightarrow> dict_ok (fold AList.delete ks d)"
  by (induction ks arbitrary: d) (auto simp: dict_ok_delete)

lemma dict_ok_sweep [dict_simps]: "dict_ok d \<Longrightarrow> dict_ok (sweep dead d)"
  by (simp add: sweep_def dict_ok_fold_delete)

lemma map_of_sweep [dict_simps]:
  assumes "dict_ok d"
  shows "map_of (sweep dead d) k
    = (case map_of d k of None \<Rightarrow> None | Some v \<Rightarrow> if dead v then None else Some v)"
proof -
  have "k \<in> set (dead_keys dead d) \<longleftrightarrow> (\<exists>v. map_of d k = Some v \<and> dead v)"
    using assms by (force simp: dead_keys_def dict_ok_def)
  then show ?thesis
    by (auto simp: sweep_def map_of_fold_delete split: option.splits)
qed

lemma length_delete_le: "length (AList.delete k d) \<le> length d"
  by (simp add: AList.delete_eq)

lemma length_sweep_le: "length (sweep dead d) \<le> length d"
proof -
  have "length (fold AList.delete ks d) \<le> length d" for ks
    by (induction ks arbitrary: d) (auto intro: order_trans [OF _ length_delete_le])
  then show ?thesis by (simp add: sweep_def)
qed

lemma length_update: "length (AList.update k v d) \<le> Suc (length d)"
  by (induction d) auto

lemma map_of_update [dict_simps]:
  "map_of (AList.update k v d) k' = (if k' = k then Some v else map_of d k')"
  by (simp add: update_conv)

lemma map_of_delete [dict_simps]:
  "map_of (AList.delete k d) k' = (if k' = k then None else map_of d k')"
  by (simp add: delete_conv)

lemma length_update_present:
  "map_of d k = Some w \<Longrightarrow> length (AList.update k v d) = length d"
  by (induction d) (auto split: if_splits)

lemma dict_ok_Nil [simp]: "dict_ok []"
  by (simp add: dict_ok_def)

section \<open>Time\<close>

type_synonym date = int
type_synonym dtime = int
type_synonym tod = int

definition second_us :: int where "second_us = 1000000"
definition minute_us :: int where "minute_us = 60000000"
definition hour_us :: int where "hour_us = 3600000000"
definition day_us :: int where "day_us = 86400000000"

lemmas time_units [time_simps] = second_us_def minute_us_def hour_us_def day_us_def

text \<open>\<open>date.weekday()\<close>: Monday is 0; ordinal 1 (0001-01-01) is a Monday.\<close>

definition weekday :: "date \<Rightarrow> int" where
  "weekday d = (d + 6) mod 7"

definition midnight :: "date \<Rightarrow> dtime" where
  "midnight d = d * day_us"

definition date_of :: "dtime \<Rightarrow> date" where
  "date_of t = t div day_us"

definition tod_hour :: "tod \<Rightarrow> int" where
  "tod_hour t = t div hour_us"

definition tod_minute :: "tod \<Rightarrow> int" where
  "tod_minute t = (t div minute_us) mod 60"

definition valid_tod :: "tod \<Rightarrow> bool" where
  "valid_tod t = (0 \<le> t \<and> t < day_us)"

lemma weekday_range: "0 \<le> weekday d \<and> weekday d < 7"
  by (simp add: weekday_def)

lemma date_of_midnight [simp]: "date_of (midnight d) = d"
  by (simp add: date_of_def midnight_def day_us_def)

lemma date_of_iff: "date_of t = d \<longleftrightarrow> midnight d \<le> t \<and> t < midnight (d + 1)"
  unfolding date_of_def midnight_def day_us_def by auto

lemma tod_hour_range: "valid_tod t \<Longrightarrow> 0 \<le> tod_hour t \<and> tod_hour t < 24"
  unfolding valid_tod_def tod_hour_def time_units by auto

lemma tod_minute_range: "0 \<le> tod_minute t \<and> tod_minute t < 60"
  by (simp add: tod_minute_def)

text \<open>The inclusive list of days from a start to an end: empty when the end is earlier.\<close>

definition span :: "date \<Rightarrow> date \<Rightarrow> date list" where
  "span a b = map (\<lambda>n. a + int n) [0 ..< nat (b - a + 1)]"

lemma set_span [simp]: "set (span a b) = {a .. b}"
proof
  show "{a .. b} \<subseteq> set (span a b)"
  proof
    fix x assume x: "x \<in> {a .. b}"
    have "a + int (nat (x - a)) \<in> set (span a b)"
      unfolding span_def set_map by (rule imageI) (use x in simp)
    with x show "x \<in> set (span a b)" by simp
  qed
qed (auto simp: span_def)

lemma distinct_span [simp]: "distinct (span a b)"
  by (auto simp: span_def distinct_map inj_on_def)

lemma length_span [simp]: "length (span a b) = nat (b - a + 1)"
  by (simp add: span_def)

lemma span_single [simp]: "span a a = [a]"
  by (simp add: span_def)

lemma sorted_span: "sorted (span a b)"
  by (auto simp: span_def sorted_wrt_map sorted_wrt_iff_nth_less sorted_iff_nth_mono)

section \<open>Queries\<close>

text \<open>
  A table is the list of its rows in insertion order. \<open>first\<close> is SQLAlchemy's
  \<open>.first()\<close> on a filtered query, \<open>insert_unique\<close> the commit of one added row under a
  UNIQUE constraint: None is the \<open>IntegrityError\<close>.
\<close>

definition first :: "('r \<Rightarrow> bool) \<Rightarrow> 'r list \<Rightarrow> 'r option" where
  "first p rows = List.find p rows"

lemma first_Some: "first p rows = Some r \<Longrightarrow> r \<in> set rows \<and> p r"
  by (auto simp: first_def find_Some_iff in_set_conv_nth)

lemma first_None: "first p rows = None \<longleftrightarrow> (\<forall>r \<in> set rows. \<not> p r)"
  by (auto simp: first_def find_None_iff)

lemma first_simps [simp]:
  "first p [] = None"
  "first p (r # rs) = (if p r then Some r else first p rs)"
  by (simp_all add: first_def)

lemma first_append: "first p (xs @ ys) = (case first p xs of None \<Rightarrow> first p ys | Some x \<Rightarrow> Some x)"
  by (induction xs) auto

text \<open>\<open>order_by(key.desc()).first()\<close>: the first row of a stable descending sort.\<close>

definition newest :: "('r \<Rightarrow> 'k::linorder) \<Rightarrow> 'r list \<Rightarrow> 'r option" where
  "newest key rows = (case rows of [] \<Rightarrow> None
     | r # rs \<Rightarrow> Some (fold (\<lambda>x best. if key best < key x then x else best) rs r))"

lemma fold_newest:
  "fold (\<lambda>x best. if key best < key x then x else best) rs (r::'r) \<in> insert r (set rs)
   \<and> (\<forall>x \<in> insert r (set rs). (key x :: 'k::linorder)
        \<le> key (fold (\<lambda>x best. if key best < key x then x else best) rs r))"
proof (induction rs arbitrary: r)
  case Nil
  then show ?case by simp
next
  case (Cons a rs)
  show ?case using Cons.IH [of a] Cons.IH [of r] by (auto intro: order_trans less_imp_le)
qed

lemma newest_None [simp]: "newest key rows = None \<longleftrightarrow> rows = []"
  by (cases rows) (auto simp: newest_def)

lemma newest_Some:
  "newest key rows = Some r \<Longrightarrow> r \<in> set rows \<and> (\<forall>x \<in> set rows. key x \<le> key r)"
  using fold_newest by (cases rows) (fastforce simp: newest_def)+

definition insert_unique :: "('r \<Rightarrow> 'k) \<Rightarrow> 'r \<Rightarrow> 'r list \<Rightarrow> 'r list option" where
  "insert_unique key r rows =
     (if key r \<in> set (map key rows) then None else Some (rows @ [r]))"

lemma insert_unique_distinct:
  "insert_unique key r rows = Some rows' \<Longrightarrow> distinct (map key rows)
   \<Longrightarrow> distinct (map key rows')"
  by (auto simp: insert_unique_def split: if_splits)

text \<open>
  A bulk \<open>update\<close> or \<open>delete\<close> of the rows a filter selects, and a flush that adds several
  rows under a UNIQUE constraint.
\<close>

definition update_where :: "('r \<Rightarrow> bool) \<Rightarrow> ('r \<Rightarrow> 'r) \<Rightarrow> 'r list \<Rightarrow> 'r list" where
  "update_where p f rows = map (\<lambda>r. if p r then f r else r) rows"

definition count_where :: "('r \<Rightarrow> bool) \<Rightarrow> 'r list \<Rightarrow> nat" where
  "count_where p rows = length (filter p rows)"

definition delete_where :: "('r \<Rightarrow> bool) \<Rightarrow> 'r list \<Rightarrow> 'r list" where
  "delete_where p rows = filter (\<lambda>r. \<not> p r) rows"

fun insert_all :: "('r \<Rightarrow> 'k) \<Rightarrow> 'r list \<Rightarrow> 'r list \<Rightarrow> 'r list option" where
  "insert_all key [] rows = Some rows"
| "insert_all key (r # rs) rows =
     (case insert_unique key r rows of None \<Rightarrow> None | Some rows' \<Rightarrow> insert_all key rs rows')"

lemma insert_all_Some_iff:
  "insert_all key new rows = Some rows' \<longleftrightarrow>
     rows' = rows @ new \<and> distinct (map key new)
     \<and> set (map key new) \<inter> set (map key rows) = {}"
proof (induction new arbitrary: rows)
  case Nil
  then show ?case by auto
next
  case (Cons r rs)
  show ?case
    using Cons.IH [of "rows @ [r]"] by (auto simp: insert_unique_def)
qed

lemma insert_all_distinct:
  "insert_all key new rows = Some rows' \<Longrightarrow> distinct (map key rows) \<Longrightarrow> distinct (map key rows')"
  by (auto simp: insert_all_Some_iff)

lemma set_delete_where [simp]: "set (delete_where p rows) = {r \<in> set rows. \<not> p r}"
  by (auto simp: delete_where_def)

lemma distinct_delete_where: "distinct (map key rows) \<Longrightarrow> distinct (map key (delete_where p rows))"
  by (simp add: delete_where_def distinct_map_filter)

lemma set_update_where [simp]:
  "set (update_where p f rows) = (\<lambda>r. if p r then f r else r) ` set rows"
  by (simp add: update_where_def)

lemma keys_update_where:
  "(\<And>r. p r \<Longrightarrow> key (f r) = key r) \<Longrightarrow> map key (update_where p f rows) = map key rows"
  by (induction rows) (auto simp: update_where_def)

text \<open>A row found by its key is the only one with it.\<close>

lemma first_key:
  "distinct (map key rows) \<Longrightarrow> r \<in> set rows \<Longrightarrow> first (\<lambda>x. key x = key r) rows = Some r"
  by (induction rows) (auto simp: image_iff)

lemma first_key_iff:
  assumes "distinct (map key rows)"
  shows "first (\<lambda>x. key x = k) rows = Some r \<longleftrightarrow> r \<in> set rows \<and> key r = k"
proof
  assume "first (\<lambda>x. key x = k) rows = Some r"
  then show "r \<in> set rows \<and> key r = k" by (rule first_Some)
next
  assume "r \<in> set rows \<and> key r = k"
  with assms show "first (\<lambda>x. key x = k) rows = Some r" using first_key [of key rows r] by simp
qed

lemma count_key:
  assumes "distinct (map key rows)"
  shows "count_where (\<lambda>x. key x = k \<and> p x) rows
    = (case first (\<lambda>x. key x = k) rows of None \<Rightarrow> 0 | Some r \<Rightarrow> if p r then 1 else 0)"
  using assms
proof (induction rows)
  case Nil
  then show ?case by (simp add: count_where_def)
next
  case (Cons r rows)
  have "key r = k \<Longrightarrow> filter (\<lambda>x. key x = k \<and> p x) rows = []"
    using Cons.prems by (auto simp: filter_empty_conv image_iff)
  with Cons show ?case by (auto simp: count_where_def)
qed

lemma first_update_where:
  assumes "\<And>r. p r \<Longrightarrow> key (f r) = key r"
  shows "first (\<lambda>x. key x = k) (update_where p f rows)
    = map_option (\<lambda>r. if p r then f r else r) (first (\<lambda>x. key x = k) rows)"
  using assms by (induction rows) (auto simp: update_where_def)

end
