(* ===== verification/Interfaces.thy ===== *)
theory Interfaces
  imports Prelude
begin

text \<open>
  The contracts several components share, as locales: a machine with an invariant
  (\<open>machine\<close>) or with an invariant about its history (\<open>traced_machine\<close>), a step relation
  that refines an abstract one (\<open>simulation\<close>), a store whose
  entries expire (\<open>expiring_store\<close>) and a credential that can be redeemed once
  (\<open>one_shot\<close>). The components interpret them on their own operations.
\<close>

section \<open>Machines\<close>

text \<open>A run: the final state and the trace of events with their responses.\<close>

fun run :: "('s \<Rightarrow> 'e \<Rightarrow> 's \<times> 'o) \<Rightarrow> 's \<Rightarrow> 'e list \<Rightarrow> 's \<times> ('e \<times> 'o) list" where
  "run step s [] = (s, [])"
| "run step s (e # es) =
     (case step s e of (s', out) \<Rightarrow>
        (case run step s' es of (s'', tr) \<Rightarrow> (s'', (e, out) # tr)))"

lemma run_append:
  "run step s (xs @ ys) =
     (case run step s xs of (s', tr) \<Rightarrow>
        (case run step s' ys of (s'', tr') \<Rightarrow> (s'', tr @ tr')))"
  by (induction xs arbitrary: s) (auto split: prod.splits)

lemma run_Cons_proj:
  "fst (run step s (e # es)) = fst (run step (fst (step s e)) es)"
  "snd (run step s (e # es)) = (e, snd (step s e)) # snd (run step (fst (step s e)) es)"
  by (auto split: prod.splits)

lemma run_ConsE:
  assumes "run step s (e # es) = (s', tr)" and "step s e = (s1, out)"
  obtains tr' where "run step s1 es = (s', tr')" and "tr = (e, out) # tr'"
  using assms by (auto split: prod.splits)

lemma run_events: "run step s es = (s', tr) \<Longrightarrow> map fst tr = es"
  by (induction es arbitrary: s tr) (auto split: prod.splits)

locale traced_machine =
  fixes step :: "'s \<Rightarrow> 'e \<Rightarrow> 's \<times> 'o"
    and hinv :: "('e \<times> 'o) list \<Rightarrow> 's \<Rightarrow> bool"
  assumes hinv_step: "hinv h s \<Longrightarrow> step s e = (s', out) \<Longrightarrow> hinv (h @ [(e, out)]) s'"
begin

lemma hinv_run: "hinv h s \<Longrightarrow> run step s es = (s', tr) \<Longrightarrow> hinv (h @ tr) s'"
proof (induction es arbitrary: h s tr)
  case Nil
  then show ?case by simp
next
  case (Cons e es)
  obtain s1 out where s1: "step s e = (s1, out)" by fastforce
  obtain tr' where tr: "run step s1 es = (s', tr')" "tr = (e, out) # tr'"
    using Cons.prems(2) s1 by (rule run_ConsE)
  have "hinv (h @ [(e, out)]) s1" using Cons.prems(1) s1 by (rule hinv_step)
  from Cons.IH [OF this tr(1)] tr(2) show ?case by simp
qed

end

locale machine =
  fixes step :: "'s \<Rightarrow> 'e \<Rightarrow> 's \<times> 'o"
    and inv :: "'s \<Rightarrow> bool"
  assumes inv_step: "inv s \<Longrightarrow> inv (fst (step s e))"

sublocale machine \<subseteq> hist: traced_machine step "\<lambda>_ s. inv s"
  by unfold_locales (metis fst_conv inv_step)

context machine begin

lemma inv_run: "inv s \<Longrightarrow> run step s es = (s', tr) \<Longrightarrow> inv s'"
  by (rule hist.hinv_run)

end

section \<open>Simulations\<close>

text \<open>
  A concrete step relation with an invariant, each step of which is a step of an abstract
  specification on the abstracted states.
\<close>

locale simulation =
  fixes cstep :: "'s \<Rightarrow> 's \<Rightarrow> bool"
    and cinv :: "'s \<Rightarrow> bool"
    and absf :: "'s \<Rightarrow> 'a"
    and astep :: "'a \<Rightarrow> 'a \<Rightarrow> bool"
  assumes cinv_step: "cinv s \<Longrightarrow> cstep s s' \<Longrightarrow> cinv s'"
    and sim_step: "cinv s \<Longrightarrow> cstep s s' \<Longrightarrow> astep (absf s) (absf s')"
begin

lemma cinv_reach: "cstep\<^sup>*\<^sup>* s s' \<Longrightarrow> cinv s \<Longrightarrow> cinv s'"
  by (induction rule: rtranclp_induct) (auto intro: cinv_step)

lemma sim_reach: "cstep\<^sup>*\<^sup>* s s' \<Longrightarrow> cinv s \<Longrightarrow> astep\<^sup>*\<^sup>* (absf s) (absf s')"
proof (induction rule: rtranclp_induct)
  case base
  show ?case by simp
next
  case (step t u)
  have "cinv t" using step.hyps(1) step.prems by (rule cinv_reach)
  then have "astep (absf t) (absf u)" using step.hyps(2) by (rule sim_step)
  with step.IH [OF step.prems] show ?case by (rule rtranclp.rtrancl_into_rtrancl)
qed

end

section \<open>Expiring stores\<close>

text \<open>Whether an entry is dead at a clock reading; once dead, it stays dead.\<close>

locale expiring_store =
  fixes dead :: "real \<Rightarrow> 'v \<Rightarrow> bool"
  assumes dead_mono: "t \<le> t' \<Longrightarrow> dead t v \<Longrightarrow> dead t' v"
begin

lemma sweep_keeps_live:
  "dict_ok d \<Longrightarrow> map_of d k = Some v \<Longrightarrow> \<not> dead t v \<Longrightarrow> map_of (sweep (dead t) d) k = Some v"
  by (simp add: map_of_sweep)

lemma sweep_only_live:
  "dict_ok d \<Longrightarrow> map_of (sweep (dead t) d) k = Some v \<Longrightarrow> map_of d k = Some v \<and> \<not> dead t v"
  by (auto simp: map_of_sweep split: option.splits if_splits)

lemma sweep_sweep:
  assumes "dict_ok d" "t \<le> t'"
  shows "map_of (sweep (dead t') (sweep (dead t) d)) k = map_of (sweep (dead t') d) k"
  using assms dead_mono [OF assms(2)]
  by (auto simp: map_of_sweep dict_ok_sweep split: option.splits)

end

section \<open>One-shot credentials\<close>

text \<open>One attempt as a machine step, and the attempts of a trace that got key \<open>k\<close>'s value.\<close>

definition attempt :: "('t \<Rightarrow> 'k \<Rightarrow> 's \<Rightarrow> 's \<times> 'r option) \<Rightarrow> 's \<Rightarrow> 't \<times> 'k \<Rightarrow> 's \<times> 'r option" where
  "attempt redeem s e = redeem (fst e) (snd e) s"

definition wins :: "'k \<Rightarrow> (('t \<times> 'k) \<times> 'r option) list \<Rightarrow> (('t \<times> 'k) \<times> 'r option) list" where
  "wins k tr = filter (\<lambda>((t, k'), ro). k' = k \<and> ro \<noteq> None) tr"

lemma wins_simps [simp]:
  "wins k [] = []"
  "wins k ((e, ro) # tr) = (if snd e = k \<and> ro \<noteq> None then [(e, ro)] else []) @ wins k tr"
  by (auto simp: wins_def split: prod.splits)

locale one_shot =
  fixes redeem :: "'t \<Rightarrow> 'k \<Rightarrow> 's \<Rightarrow> 's \<times> 'r option"
    and spent :: "'k \<Rightarrow> 's \<Rightarrow> bool"
    and inv :: "'s \<Rightarrow> bool"
  assumes redeem_inv: "inv s \<Longrightarrow> redeem t k s = (s', ro) \<Longrightarrow> inv s'"
    and redeem_spends: "inv s \<Longrightarrow> redeem t k s = (s', Some r) \<Longrightarrow> spent k s'"
    and spent_stays: "spent k s \<Longrightarrow> redeem t k' s = (s', ro) \<Longrightarrow> spent k s'"
    and spent_refused: "spent k s \<Longrightarrow> redeem t k s = (s', ro) \<Longrightarrow> ro = None"
begin

lemma spent_no_win: "spent k s \<Longrightarrow> run (attempt redeem) s es = (s', tr) \<Longrightarrow> wins k tr = []"
proof (induction es arbitrary: s tr)
  case Nil
  then show ?case by simp
next
  case (Cons e es)
  obtain s1 ro where s1: "redeem (fst e) (snd e) s = (s1, ro)" by fastforce
  then have "attempt redeem s e = (s1, ro)" by (simp add: attempt_def)
  with Cons.prems(2) obtain tr' where
    tr: "run (attempt redeem) s1 es = (s', tr')" "tr = (e, ro) # tr'" by (rule run_ConsE)
  have "wins k tr' = []"
    using Cons.IH tr(1) spent_stays [OF Cons.prems(1) s1] by blast
  moreover have "snd e = k \<Longrightarrow> ro = None"
    using spent_refused [OF Cons.prems(1)] s1 by blast
  ultimately show ?case using tr(2) by auto
qed

lemma at_most_one_win:
  "inv s \<Longrightarrow> run (attempt redeem) s es = (s', tr) \<Longrightarrow> length (wins k tr) \<le> 1"
proof (induction es arbitrary: s tr)
  case Nil
  then show ?case by simp
next
  case (Cons e es)
  obtain s1 ro where s1: "redeem (fst e) (snd e) s = (s1, ro)" by fastforce
  then have "attempt redeem s e = (s1, ro)" by (simp add: attempt_def)
  with Cons.prems(2) obtain tr' where
    tr: "run (attempt redeem) s1 es = (s', tr')" "tr = (e, ro) # tr'" by (rule run_ConsE)
  show ?case
  proof (cases "snd e = k \<and> ro \<noteq> None")
    case True
    then have "spent k s1" using redeem_spends [OF Cons.prems(1)] s1 by fastforce
    then have "wins k tr' = []" using tr(1) by (rule spent_no_win)
    then show ?thesis using tr(2) by simp
  next
    case False
    then show ?thesis using Cons.IH [OF redeem_inv [OF Cons.prems(1) s1] tr(1)] tr(2) by auto
  qed
qed

end

end
