(* ===== verification/HandoffStore.thy ===== *)
theory HandoffStore
  imports Interfaces
begin

text \<open>
  The ticket store of the same-browser LINE hand-off, \<open>app/services/line_handoff_store.py\<close>:
  a ticket is created in the browser that starts the flow, resolved from LINE's in-app
  browser, and collected once by whoever presents the cookie. Clock readings
  (\<open>time.time()\<close>), the TTL and the \<open>secrets\<close> tokens are arguments of the operations.
\<close>

section \<open>State\<close>

datatype ticket_status = Pending | Resolved

record ticket =
  t_holder_secret :: str
  t_inner_hint :: str
  t_client_ip :: str
  t_status :: ticket_status
  t_line_user_id :: "str option"
  t_display_name :: "str option"
  t_picture_url :: "str option"
  t_expires_at :: real

record handoff_store =
  tickets :: "(str, ticket) dict"
  waiters :: nat

datatype resolve_outcome = RESOLVE_OK | RESOLVE_UNKNOWN | RESOLVE_ALREADY | RESOLVE_IP_MISMATCH

record new_ticket =
  ticket_id :: str
  cookie_value :: str

definition MAX_TICKETS :: nat where "MAX_TICKETS = 500"
definition MAX_CONCURRENT_WAITERS :: nat where "MAX_CONCURRENT_WAITERS = 32"

section \<open>Operations\<close>

definition handoff_is_enabled :: "env \<Rightarrow> bool" where
  "handoff_is_enabled env =
     (lower (strip (getenv env ''LINE_SAME_BROWSER_HANDOFF'' ''false''))
        \<in> {''1'', ''true'', ''yes''})"

definition ticket_expired :: "real \<Rightarrow> ticket \<Rightarrow> bool" where
  "ticket_expired now t = (t_expires_at t \<le> now)"

definition prune_locked :: "real \<Rightarrow> handoff_store \<Rightarrow> handoff_store" where
  "prune_locked now s = s\<lparr>tickets := sweep (ticket_expired now) (tickets s)\<rparr>"

definition create_ticket ::
  "str \<Rightarrow> str option \<Rightarrow> real \<Rightarrow> real \<Rightarrow> str \<Rightarrow> str \<Rightarrow> handoff_store
   \<Rightarrow> handoff_store \<times> new_ticket option" where
  "create_ticket inner_hint client_ip now ttl tid secret s =
     (let s1 = prune_locked now s in
      if length (tickets s1) \<ge> MAX_TICKETS then (s1, None)
      else (s1\<lparr>tickets := AList.update tid
              \<lparr>t_holder_secret = secret, t_inner_hint = inner_hint,
               t_client_ip = or_else client_ip [], t_status = Pending,
               t_line_user_id = None, t_display_name = None, t_picture_url = None,
               t_expires_at = now + ttl\<rparr> (tickets s1)\<rparr>,
            Some \<lparr>ticket_id = tid, cookie_value = tid @ ''.'' @ secret\<rparr>))"

definition resolve_ticket ::
  "str \<Rightarrow> str \<Rightarrow> str option \<Rightarrow> str option \<Rightarrow> str option \<Rightarrow> real \<Rightarrow> handoff_store
   \<Rightarrow> handoff_store \<times> (exn + resolve_outcome)" where
  "resolve_ticket tid line_user_id display_name picture_url client_ip now s =
     (case map_of (tickets s) tid of
        None \<Rightarrow> (s, Inr RESOLVE_UNKNOWN)
      | Some r \<Rightarrow>
          if t_expires_at r \<le> now then (s, Inr RESOLVE_UNKNOWN)
          else if t_status r \<noteq> Pending then (s, Inr RESOLVE_ALREADY)
          else (case compare_digest (t_client_ip r) (or_else client_ip []) of
                  Inl e \<Rightarrow> (s, Inl e)
                | Inr False \<Rightarrow> (s, Inr RESOLVE_IP_MISMATCH)
                | Inr True \<Rightarrow>
                    (s\<lparr>tickets := AList.update tid
                         (r\<lparr>t_status := Resolved, t_line_user_id := Some line_user_id,
                            t_display_name := display_name, t_picture_url := picture_url\<rparr>)
                         (tickets s)\<rparr>,
                     Inr RESOLVE_OK)))"

definition split_cookie :: "str option \<Rightarrow> (str \<times> str) option" where
  "split_cookie c = (if \<not> truthy c then None
     else (case partition_at (CHR ''.'') (or_else c []) of
             (tid, found, secret) \<Rightarrow>
               if \<not> found \<or> tid = [] \<or> secret = [] then None else Some (tid, secret)))"

definition authenticated_record_locked ::
  "str option \<Rightarrow> real \<Rightarrow> handoff_store \<Rightarrow> exn + (str \<times> ticket) option" where
  "authenticated_record_locked c now s =
     (case split_cookie c of
        None \<Rightarrow> Inr None
      | Some (tid, secret) \<Rightarrow>
          (case map_of (tickets s) tid of
             None \<Rightarrow> Inr None
           | Some r \<Rightarrow>
               if t_expires_at r \<le> now then Inr None
               else (case compare_digest (t_holder_secret r) secret of
                       Inl e \<Rightarrow> Inl e
                     | Inr eq \<Rightarrow> if \<not> eq then Inr None else Inr (Some (tid, r)))))"

definition peek :: "str option \<Rightarrow> real \<Rightarrow> handoff_store \<Rightarrow> exn + ticket_status option" where
  "peek c now s =
     (case authenticated_record_locked c now s of
        Inl e \<Rightarrow> Inl e
      | Inr None \<Rightarrow> Inr None
      | Inr (Some (tid, r)) \<Rightarrow> Inr (Some (t_status r)))"

definition take_resolved ::
  "str option \<Rightarrow> real \<Rightarrow> handoff_store \<Rightarrow> handoff_store \<times> (exn + ticket option)" where
  "take_resolved c now s =
     (case authenticated_record_locked c now s of
        Inl e \<Rightarrow> (s, Inl e)
      | Inr None \<Rightarrow> (s, Inr None)
      | Inr (Some (tid, r)) \<Rightarrow>
          if t_status r \<noteq> Resolved then (s, Inr None)
          else (s\<lparr>tickets := AList.delete tid (tickets s)\<rparr>, Inr (Some r)))"

definition try_acquire_waiter :: "handoff_store \<Rightarrow> handoff_store \<times> bool" where
  "try_acquire_waiter s =
     (if waiters s \<ge> MAX_CONCURRENT_WAITERS then (s, False)
      else (s\<lparr>waiters := waiters s + 1\<rparr>, True))"

definition release_waiter :: "handoff_store \<Rightarrow> handoff_store" where
  "release_waiter s = (if waiters s > 0 then s\<lparr>waiters := waiters s - 1\<rparr> else s)"

definition active_waiters :: "handoff_store \<Rightarrow> nat" where
  "active_waiters s = waiters s"

definition reset_state :: "handoff_store \<Rightarrow> handoff_store" where
  "reset_state s = s\<lparr>tickets := [], waiters := 0\<rparr>"

definition empty_store :: handoff_store where
  "empty_store = \<lparr>tickets = [], waiters = 0\<rparr>"

lemmas handoff_defs = prune_locked_def create_ticket_def resolve_ticket_def
  authenticated_record_locked_def peek_def take_resolved_def try_acquire_waiter_def
  release_waiter_def reset_state_def

section \<open>Histories\<close>

text \<open>The calls other modules make, with the clock reading and the randomness of each.\<close>

datatype handoff_op =
    CreateTicket str "str option" real real str str
  | ResolveTicket str str "str option" "str option" "str option" real
  | Peek "str option" real
  | TakeResolved "str option" real
  | TryAcquireWaiter
  | ReleaseWaiter

datatype handoff_out =
    Created "new_ticket option"
  | ResolvedAs "exn + resolve_outcome"
  | Peeked "exn + ticket_status option"
  | Taken "exn + ticket option"
  | Acquired bool
  | Released

fun handoff_step :: "handoff_store \<Rightarrow> handoff_op \<Rightarrow> handoff_store \<times> handoff_out" where
  "handoff_step s (CreateTicket hint ip now ttl tid secret) =
     (case create_ticket hint ip now ttl tid secret s of (s', r) \<Rightarrow> (s', Created r))"
| "handoff_step s (ResolveTicket tid uid dn pic ip now) =
     (case resolve_ticket tid uid dn pic ip now s of (s', r) \<Rightarrow> (s', ResolvedAs r))"
| "handoff_step s (Peek c now) = (s, Peeked (peek c now s))"
| "handoff_step s (TakeResolved c now) =
     (case take_resolved c now s of (s', r) \<Rightarrow> (s', Taken r))"
| "handoff_step s TryAcquireWaiter =
     (case try_acquire_waiter s of (s', r) \<Rightarrow> (s', Acquired r))"
| "handoff_step s ReleaseWaiter = (release_waiter s, Released)"

interpretation ticket_expiry: expiring_store ticket_expired
  by unfold_locales (simp add: ticket_expired_def)

section \<open>Capacity\<close>

definition handoff_inv :: "handoff_store \<Rightarrow> bool" where
  "handoff_inv s \<longleftrightarrow> dict_ok (tickets s) \<and> length (tickets s) \<le> MAX_TICKETS
     \<and> waiters s \<le> MAX_CONCURRENT_WAITERS"

lemma length_update_absent_le:
  "length d < n \<Longrightarrow> length (AList.update k v d) \<le> n"
  using length_update [of k v d] by simp

lemma length_delete_bound: "length d \<le> n \<Longrightarrow> length (AList.delete k d) \<le> n"
  using length_delete_le [of k d] by simp

lemma handoff_step_inv: "handoff_inv s \<Longrightarrow> handoff_inv (fst (handoff_step s e))"
proof (cases e)
  case (CreateTicket hint ip now ttl tid secret)
  assume "handoff_inv s"
  with CreateTicket length_sweep_le [of "ticket_expired now" "tickets s"] show ?thesis
    by (auto simp: handoff_inv_def create_ticket_def prune_locked_def Let_def dict_simps
        length_update_absent_le)
next
  case (ResolveTicket tid uid dn pic ip now)
  assume "handoff_inv s"
  with ResolveTicket show ?thesis
    by (auto simp: handoff_inv_def resolve_ticket_def dict_simps length_update_present
        split: option.splits sum.splits bool.splits)
next
  case (TakeResolved c now)
  assume "handoff_inv s"
  with TakeResolved show ?thesis
    by (auto simp: handoff_inv_def take_resolved_def dict_simps length_delete_bound
        split: option.splits sum.splits)
qed (auto simp: handoff_inv_def try_acquire_waiter_def release_waiter_def)

interpretation store: machine handoff_step handoff_inv
  by unfold_locales (rule handoff_step_inv)

lemma empty_store_inv: "handoff_inv empty_store"
  by (simp add: handoff_inv_def empty_store_def)

text \<open>
  However clients call the store, it never holds more than 500 tickets nor parks more
  than 32 long-polls, and no ticket id occurs twice.
\<close>

theorem handoff_bounded:
  assumes "run handoff_step empty_store es = (s, tr)"
  shows "length (tickets s) \<le> 500 \<and> active_waiters s \<le> 32 \<and> dict_ok (tickets s)"
  using store.inv_run [OF empty_store_inv assms]
  by (simp add: handoff_inv_def MAX_TICKETS_def MAX_CONCURRENT_WAITERS_def active_waiters_def)

section \<open>Delivery\<close>

text \<open>What a history must hold for a ticket of the store: its creation, and its resolution.\<close>

definition was_created :: "(handoff_op \<times> handoff_out) list \<Rightarrow> str \<Rightarrow> ticket \<Rightarrow> bool" where
  "was_created h tid r \<longleftrightarrow> (\<exists>ip now ttl.
     (CreateTicket (t_inner_hint r) ip now ttl tid (t_holder_secret r),
      Created (Some \<lparr>ticket_id = tid, cookie_value = tid @ ''.'' @ t_holder_secret r\<rparr>)) \<in> set h
     \<and> t_client_ip r = or_else ip [] \<and> t_expires_at r = now + ttl)"

definition was_resolved :: "(handoff_op \<times> handoff_out) list \<Rightarrow> str \<Rightarrow> ticket \<Rightarrow> bool" where
  "was_resolved h tid r \<longleftrightarrow> (\<exists>uid ip now.
     (ResolveTicket tid uid (t_display_name r) (t_picture_url r) ip now,
      ResolvedAs (Inr RESOLVE_OK)) \<in> set h
     \<and> t_line_user_id r = Some uid \<and> or_else ip [] = t_client_ip r \<and> now < t_expires_at r)"

definition delivery_inv :: "(handoff_op \<times> handoff_out) list \<Rightarrow> handoff_store \<Rightarrow> bool" where
  "delivery_inv h s \<longleftrightarrow> dict_ok (tickets s) \<and>
     (\<forall>tid r. map_of (tickets s) tid = Some r \<longrightarrow>
        was_created h tid r \<and> (t_status r = Resolved \<longrightarrow> was_resolved h tid r))"

lemma was_created_mono: "was_created h tid r \<Longrightarrow> was_created (h @ h') tid r"
  unfolding was_created_def set_append by blast

lemma was_resolved_mono: "was_resolved h tid r \<Longrightarrow> was_resolved (h @ h') tid r"
  unfolding was_resolved_def set_append by blast

lemmas history_mono = was_created_mono was_resolved_mono

lemma delivery_frame:
  assumes "delivery_inv h s" "dict_ok d"
    and "\<And>tid r. map_of d tid = Some r \<Longrightarrow> map_of (tickets s) tid = Some r
          \<or> was_created (h @ h') tid r \<and> (t_status r = Resolved \<longrightarrow> was_resolved (h @ h') tid r)"
  shows "delivery_inv (h @ h') (s\<lparr>tickets := d\<rparr>)"
  using assms unfolding delivery_inv_def by (auto intro: history_mono) (metis history_mono)+

lemma delivery_same: "delivery_inv h s \<Longrightarrow> tickets s' = tickets s \<Longrightarrow> delivery_inv (h @ h') s'"
  unfolding delivery_inv_def by (auto intro: history_mono)

lemma create_ticket_delivery:
  assumes inv: "delivery_inv h s"
    and step: "create_ticket hint ip now ttl tid secret s = (s', r)"
  shows "delivery_inv (h @ [(CreateTicket hint ip now ttl tid secret, Created r)]) s'"
proof -
  have ok: "dict_ok (tickets s)" using inv by (simp add: delivery_inv_def)
  have live: "map_of (sweep (ticket_expired now) (tickets s)) k = Some v
      \<Longrightarrow> map_of (tickets s) k = Some v" for k v
    using ticket_expiry.sweep_only_live [OF ok] by blast
  show ?thesis
  proof (cases r)
    case None
    then have "s' = prune_locked now s"
      using step by (auto simp: create_ticket_def Let_def split: if_splits)
    then show ?thesis
      unfolding prune_locked_def
      using delivery_frame [OF inv dict_ok_sweep [OF ok]] live by blast
  next
    case (Some nt)
    define t where "t = \<lparr>t_holder_secret = secret, t_inner_hint = hint,
      t_client_ip = or_else ip [], t_status = Pending, t_line_user_id = None,
      t_display_name = None, t_picture_url = None, t_expires_at = now + ttl\<rparr>"
    have s': "s' = s\<lparr>tickets := AList.update tid t (sweep (ticket_expired now) (tickets s))\<rparr>"
      and nt: "nt = \<lparr>ticket_id = tid, cookie_value = tid @ ''.'' @ secret\<rparr>"
      using step Some by (auto simp: create_ticket_def prune_locked_def t_def Let_def split: if_splits)
    have "was_created (h @ [(CreateTicket hint ip now ttl tid secret, Created r)]) tid t"
      unfolding was_created_def Some nt t_def by auto
    then show ?thesis
      unfolding s'
      by (intro delivery_frame [OF inv])
        (auto simp: map_of_update dict_ok_update dict_ok_sweep ok t_def dest: live split: if_splits)
  qed
qed

lemma resolve_ticket_delivery:
  assumes inv: "delivery_inv h s"
    and step: "resolve_ticket tid uid dn pic ip now s = (s', r)"
  shows "delivery_inv (h @ [(ResolveTicket tid uid dn pic ip now, ResolvedAs r)]) s'"
proof (cases "s' = s")
  case True
  then show ?thesis using delivery_same [OF inv] by simp
next
  case False
  then obtain t where t: "map_of (tickets s) tid = Some t" "\<not> t_expires_at t \<le> now"
      "t_client_ip t = or_else ip []" "r = Inr RESOLVE_OK"
      "s' = s\<lparr>tickets := AList.update tid
         (t\<lparr>t_status := Resolved, t_line_user_id := Some uid,
            t_display_name := dn, t_picture_url := pic\<rparr>) (tickets s)\<rparr>"
    using step by (auto simp: resolve_ticket_def
        split: option.splits if_splits sum.splits bool.splits)
  define t' where "t' = t\<lparr>t_status := Resolved, t_line_user_id := Some uid,
      t_display_name := dn, t_picture_url := pic\<rparr>"
  have "was_created h tid t" using inv t(1) by (simp add: delivery_inv_def)
  then have created: "was_created h tid t'" by (simp add: was_created_def t'_def)
  have resolved: "was_resolved (h @ [(ResolveTicket tid uid dn pic ip now, ResolvedAs r)]) tid t'"
    unfolding was_resolved_def t(4) using t(2,3)
    by (intro exI [of _ uid] exI [of _ ip] exI [of _ now]) (simp add: t'_def)
  have ok: "dict_ok (tickets s)" using inv by (simp add: delivery_inv_def)
  show ?thesis
    unfolding t(5) t'_def [symmetric]
    by (intro delivery_frame [OF inv])
      (auto simp: map_of_update dict_ok_update ok resolved was_created_mono [OF created]
        split: if_splits)
qed

lemma take_resolved_store:
  "take_resolved c now s = (s', r) \<Longrightarrow>
     s' = s \<or> (\<exists>tid. s' = s\<lparr>tickets := AList.delete tid (tickets s)\<rparr>)"
  by (auto simp: take_resolved_def split: option.splits sum.splits if_splits)

lemma delivery_step:
  assumes inv: "delivery_inv h s" and step: "handoff_step s e = (s', out)"
  shows "delivery_inv (h @ [(e, out)]) s'"
proof (cases e)
  case (CreateTicket hint ip now ttl tid secret)
  then show ?thesis using step create_ticket_delivery [OF inv] by (auto split: prod.splits)
next
  case (ResolveTicket tid uid dn pic ip now)
  then show ?thesis using step resolve_ticket_delivery [OF inv] by (auto split: prod.splits)
next
  case (TakeResolved c now)
  have "delivery_inv (h @ h') (s\<lparr>tickets := AList.delete tid (tickets s)\<rparr>)" for tid h'
    using inv by (intro delivery_frame [OF inv])
      (auto simp: dict_simps delivery_inv_def split: if_splits)
  moreover have "delivery_inv (h @ h') s" for h' using delivery_same [OF inv] by simp
  ultimately show ?thesis
    using step TakeResolved by (auto split: prod.splits dest!: take_resolved_store)
next
  case TryAcquireWaiter
  then show ?thesis
    using step by (auto simp: try_acquire_waiter_def intro!: delivery_same [OF inv] split: if_splits)
qed (use step in \<open>auto simp: release_waiter_def intro!: delivery_same [OF inv]\<close>)

interpretation delivery: traced_machine handoff_step delivery_inv
  by unfold_locales (rule delivery_step)

lemma delivery_empty: "delivery_inv [] empty_store"
  by (simp add: delivery_inv_def empty_store_def)

text \<open>The cookie is the one gate: what it takes to read a record.\<close>

lemma split_cookie_Some:
  "split_cookie c = Some (tid, secret) \<Longrightarrow> c = Some (tid @ ''.'' @ secret)"
  by (cases c) (auto simp: split_cookie_def or_else_def split: prod.splits if_splits
      dest!: partition_at_append)

lemma authenticated_Some:
  assumes "authenticated_record_locked c now s = Inr (Some (tid, r))"
  shows "c = Some (tid @ ''.'' @ t_holder_secret r) \<and> map_of (tickets s) tid = Some r
    \<and> now < t_expires_at r"
  using assms by (auto simp: authenticated_record_locked_def dest!: split_cookie_Some
      split: option.splits if_splits sum.splits)

lemma take_resolved_Some:
  assumes "take_resolved c now s = (s', Inr (Some r))"
  shows "\<exists>tid. c = Some (tid @ ''.'' @ t_holder_secret r) \<and> map_of (tickets s) tid = Some r
    \<and> now < t_expires_at r \<and> t_status r = Resolved
    \<and> s' = s\<lparr>tickets := AList.delete tid (tickets s)\<rparr>"
  using assms authenticated_Some
  by (fastforce simp: take_resolved_def split: sum.splits option.splits if_splits)

text \<open>
  The session goes only to the browser that started the flow: whenever a collection
  succeeds, the cookie presented is the cookie value an earlier \<open>create_ticket\<close> handed out,
  and the identity returned was parked on that very ticket by a LINE completion that came
  from the client address recorded at creation, both before the ticket expired.
\<close>

theorem handoff_delivers_to_originator:
  assumes "run handoff_step empty_store es = (s, tr)"
    and "take_resolved c now s = (s', Inr (Some r))"
  shows "\<exists>tid hint ip start ttl uid ip' t.
     (CreateTicket hint ip start ttl tid (t_holder_secret r),
        Created (Some \<lparr>ticket_id = tid, cookie_value = tid @ ''.'' @ t_holder_secret r\<rparr>)) \<in> set tr
     \<and> c = Some (tid @ ''.'' @ t_holder_secret r) \<and> t_inner_hint r = hint
     \<and> (ResolveTicket tid uid (t_display_name r) (t_picture_url r) ip' t,
        ResolvedAs (Inr RESOLVE_OK)) \<in> set tr
     \<and> t_line_user_id r = Some uid \<and> or_else ip' [] = or_else ip []
     \<and> t < start + ttl \<and> now < start + ttl"
proof -
  from assms(1) delivery.hinv_run [OF delivery_empty] have "delivery_inv tr s" by fastforce
  moreover from take_resolved_Some [OF assms(2)] obtain tid where
    tid: "c = Some (tid @ ''.'' @ t_holder_secret r)" "map_of (tickets s) tid = Some r"
      "now < t_expires_at r" "t_status r = Resolved" by blast
  ultimately have "was_created tr tid r" "was_resolved tr tid r"
    by (auto simp: delivery_inv_def)
  with tid show ?thesis unfolding was_created_def was_resolved_def by metis
qed

text \<open>A concrete flow, which the witnesses run: one ticket, opened and completed from one address.\<close>

definition demo_ops :: "handoff_op list" where
  "demo_ops =
     [CreateTicket ''oidc:q'' (Some ''10.0.0.7'') 100 300 ''tid'' ''sec'',
      ResolveTicket ''tid'' ''U1'' (Some ''Mali'') None (Some ''10.0.0.7'') 160]"

definition demo_ticket :: ticket where
  "demo_ticket = \<lparr>t_holder_secret = ''sec'', t_inner_hint = ''oidc:q'',
     t_client_ip = ''10.0.0.7'', t_status = Resolved, t_line_user_id = Some ''U1'',
     t_display_name = Some ''Mali'', t_picture_url = None, t_expires_at = 400\<rparr>"

lemma demo_run:
  "\<exists>tr. run handoff_step empty_store demo_ops = (\<lparr>tickets = [(''tid'', demo_ticket)], waiters = 0\<rparr>, tr)"
  by (simp add: demo_ops_def demo_ticket_def empty_store_def create_ticket_def prune_locked_def
      sweep_def dead_keys_def MAX_TICKETS_def resolve_ticket_def compare_digest_def ascii_def
      or_else_def)

lemma demo_take:
  "take_resolved (Some ''tid.sec'') 200 \<lparr>tickets = [(''tid'', demo_ticket)], waiters = 0\<rparr>
     = (\<lparr>tickets = [], waiters = 0\<rparr>, Inr (Some demo_ticket))"
  by (simp add: take_resolved_def authenticated_record_locked_def split_cookie_def
      demo_ticket_def compare_digest_def ascii_def or_else_def)

theorem handoff_bounded_witness:
  "length (tickets (fst (run handoff_step empty_store demo_ops))) \<le> 500"
proof -
  obtain tr where r: "run handoff_step empty_store demo_ops
      = (\<lparr>tickets = [(''tid'', demo_ticket)], waiters = 0\<rparr>, tr)"
    using demo_run by blast
  show ?thesis using handoff_bounded [OF r] r by simp
qed

theorem handoff_delivers_to_originator_witness:
  "\<exists>tr. run handoff_step empty_store demo_ops = (\<lparr>tickets = [(''tid'', demo_ticket)], waiters = 0\<rparr>, tr)
     \<and> (\<exists>ip start ttl. (CreateTicket ''oidc:q'' ip start ttl ''tid'' ''sec'',
          Created (Some \<lparr>ticket_id = ''tid'', cookie_value = ''tid.sec''\<rparr>)) \<in> set tr)"
proof -
  obtain tr where r: "run handoff_step empty_store demo_ops
      = (\<lparr>tickets = [(''tid'', demo_ticket)], waiters = 0\<rparr>, tr)"
    using demo_run by blast
  show ?thesis
    using r handoff_delivers_to_originator [OF r demo_take] by (auto simp: demo_ticket_def)
qed

section \<open>Once only\<close>

text \<open>A collection as its caller sees it: an identity, or none (an exception gives none).\<close>

definition collect :: "real \<Rightarrow> str option \<Rightarrow> handoff_store \<Rightarrow> handoff_store \<times> ticket option" where
  "collect now c s =
     (case take_resolved c now s of (s', r) \<Rightarrow> (s', case r of Inl e \<Rightarrow> None | Inr t \<Rightarrow> t))"

definition cookie_spent :: "str option \<Rightarrow> handoff_store \<Rightarrow> bool" where
  "cookie_spent c s = (case split_cookie c of None \<Rightarrow> True
     | Some (tid, secret) \<Rightarrow> map_of (tickets s) tid = None)"

lemma collect_Some:
  assumes "collect now c s = (s', Some r)"
  shows "cookie_spent c s'"
proof -
  from assms have "take_resolved c now s = (s', Inr (Some r))"
    by (auto simp: collect_def split: prod.splits sum.splits)
  then show ?thesis
    by (auto simp: take_resolved_def authenticated_record_locked_def cookie_spent_def
        map_of_delete split: option.splits sum.splits if_splits)
qed

lemma collect_spent_stays: "cookie_spent c s \<Longrightarrow> collect now c' s = (s', r) \<Longrightarrow> cookie_spent c s'"
  by (auto simp: collect_def cookie_spent_def map_of_delete
      split: prod.splits option.splits dest!: take_resolved_store)

lemma collect_spent_refused: "cookie_spent c s \<Longrightarrow> collect now c s = (s', r) \<Longrightarrow> r = None"
  by (auto simp: collect_def take_resolved_def authenticated_record_locked_def cookie_spent_def
      split: option.splits)

interpretation once: one_shot collect cookie_spent "\<lambda>_. True"
  by unfold_locales (simp | rule collect_Some collect_spent_stays collect_spent_refused; assumption)+

text \<open>
  Deliver-once: of any sequence of collections, at whatever times and with whatever
  other cookies in between, at most one with a given cookie gets an identity.
\<close>

theorem handoff_delivered_once:
  assumes "run (attempt collect) s es = (s', tr)"
  shows "length (wins c tr) \<le> 1"
  using TrueI assms by (rule once.at_most_one_win)

theorem handoff_delivered_once_witness:
  "length (wins (Some ''tid.sec'') (snd (run (attempt collect)
     \<lparr>tickets = [(''tid'', demo_ticket)], waiters = 0\<rparr>
     [(200, Some ''tid.sec''), (201, Some ''tid.sec'')]))) \<le> 1"
  by (rule handoff_delivered_once [OF prod.collapse [symmetric]])

text \<open>
  The legitimate flow completes: a ticket opened below capacity and resolved in time
  from the same address is handed to its cookie, and to nobody after.
\<close>

theorem handoff_roundtrip:
  assumes room: "length (sweep (ticket_expired t0) (tickets s)) < MAX_TICKETS"
    and id: "CHR ''.'' \<notin> set tid" "tid \<noteq> []" "secret \<noteq> []" "ascii secret"
    and ip: "ascii (or_else ip [])"
    and time: "t0 \<le> t1" "t1 \<le> t2" "t2 < t0 + ttl"
    and create: "create_ticket hint ip t0 ttl tid secret s = (s1, Some nt)"
    and resolve: "resolve_ticket (ticket_id nt) uid dn pic ip t1 s1 = (s2, out)"
  shows "out = Inr RESOLVE_OK \<and>
    (\<exists>r s3. take_resolved (Some (cookie_value nt)) t2 s2 = (s3, Inr (Some r))
       \<and> t_line_user_id r = Some uid \<and> t_display_name r = dn \<and> t_picture_url r = pic
       \<and> t_inner_hint r = hint
       \<and> take_resolved (Some (cookie_value nt)) t2 s3 = (s3, Inr None))"
proof -
  have cookie: "split_cookie (Some (tid @ ''.'' @ secret)) = Some (tid, secret)"
    using id(2,3) partition_at_found [OF id(1), of secret]
    by (auto simp: split_cookie_def or_else_def neq_Nil_conv)
  define t where "t = \<lparr>t_holder_secret = secret, t_inner_hint = hint,
      t_client_ip = or_else ip [], t_status = Pending, t_line_user_id = None,
      t_display_name = None, t_picture_url = None, t_expires_at = t0 + ttl\<rparr>"
  have nt: "nt = \<lparr>ticket_id = tid, cookie_value = tid @ ''.'' @ secret\<rparr>"
    and s1: "map_of (tickets s1) tid = Some t"
    using create room by (auto simp: create_ticket_def prune_locked_def Let_def t_def map_of_update
        split: if_splits)
  define t' where "t' = t\<lparr>t_status := Resolved, t_line_user_id := Some uid,
      t_display_name := dn, t_picture_url := pic\<rparr>"
  have s2: "out = Inr RESOLVE_OK" "map_of (tickets s2) tid = Some t'"
    using resolve s1 time ip
    by (auto simp: resolve_ticket_def nt t'_def map_of_update compare_digest_def t_def
        split: if_splits)
  have auth: "authenticated_record_locked (Some (tid @ ''.'' @ secret)) t2 s2 = Inr (Some (tid, t'))"
    using s2 time id unfolding authenticated_record_locked_def cookie
    by (simp add: t'_def t_def compare_digest_def)
  have gone: "authenticated_record_locked (Some (tid @ ''.'' @ secret)) t2
      (s2\<lparr>tickets := AList.delete tid (tickets s2)\<rparr>) = Inr None"
    unfolding authenticated_record_locked_def cookie by (simp add: map_of_delete)
  have "take_resolved (Some (cookie_value nt)) t2 s2
      = (s2\<lparr>tickets := AList.delete tid (tickets s2)\<rparr>, Inr (Some t'))"
    unfolding take_resolved_def nt new_ticket.simps auth by (simp add: t'_def)
  moreover have "take_resolved (Some (cookie_value nt)) t2
      (s2\<lparr>tickets := AList.delete tid (tickets s2)\<rparr>)
      = (s2\<lparr>tickets := AList.delete tid (tickets s2)\<rparr>, Inr None)"
    unfolding take_resolved_def nt new_ticket.simps gone by simp
  ultimately show ?thesis using s2(1) by (auto simp: t'_def t_def)
qed

theorem handoff_roundtrip_witness:
  "\<exists>s1 s2 out nt. create_ticket ''oidc:q'' (Some ''10.0.0.7'') 100 300 ''tid'' ''sec'' empty_store
       = (s1, Some nt)
     \<and> resolve_ticket (ticket_id nt) ''U1'' None None (Some ''10.0.0.7'') 160 s1 = (s2, out)
     \<and> out = Inr RESOLVE_OK"
proof -
  obtain s1 nt where c: "create_ticket ''oidc:q'' (Some ''10.0.0.7'') 100 300 ''tid'' ''sec''
      empty_store = (s1, Some nt)"
    by (simp add: create_ticket_def prune_locked_def empty_store_def sweep_def dead_keys_def
        MAX_TICKETS_def)
  obtain s2 out where
    r: "resolve_ticket (ticket_id nt) ''U1'' None None (Some ''10.0.0.7'') 160 s1 = (s2, out)"
    by fastforce
  have "out = Inr RESOLVE_OK"
    using handoff_roundtrip [OF _ _ _ _ _ _ _ _ _ c r, of 200]
    by (simp add: empty_store_def sweep_def dead_keys_def MAX_TICKETS_def ascii_def or_else_def)
  with c r show ?thesis by blast
qed

section \<open>Foreign cookies\<close>

text \<open>
  What a foreign secret learns. A wrong secret of ASCII characters is answered exactly
  as an unknown ticket; a wrong secret with a non-ASCII character is not: against a live
  ticket id \<open>hmac.compare_digest\<close> raises TypeError, against an unknown id the answer is None.
\<close>

theorem foreign_cookie_answers:
  assumes id: "CHR ''.'' \<notin> set tid" "tid \<noteq> []" "secret \<noteq> []"
    and c: "c = Some (tid @ ''.'' @ secret)"
    and foreign: "\<forall>r. map_of (tickets s) tid = Some r \<longrightarrow>
      ascii (t_holder_secret r) \<and> t_holder_secret r \<noteq> secret"
  shows "take_resolved c now s
    = (s, if \<not> ascii secret \<and> (\<exists>r. map_of (tickets s) tid = Some r \<and> now < t_expires_at r)
          then Inl TypeError else Inr None)"
proof -
  have cookie: "split_cookie c = Some (tid, secret)"
    using id partition_at_found [OF id(1), of secret] c
    by (auto simp: split_cookie_def or_else_def neq_Nil_conv)
  show ?thesis
    using foreign unfolding take_resolved_def authenticated_record_locked_def cookie
    by (auto simp: compare_digest_def split: option.splits)
qed

theorem foreign_cookie_answers_witness:
  "take_resolved (Some ''tid.x'') 200 \<lparr>tickets = [(''tid'', demo_ticket)], waiters = 0\<rparr>
     = (\<lparr>tickets = [(''tid'', demo_ticket)], waiters = 0\<rparr>, Inr None)
   \<and> take_resolved (Some (''tid.'' @ [char_of (195::nat)])) 200
        \<lparr>tickets = [(''tid'', demo_ticket)], waiters = 0\<rparr>
     = (\<lparr>tickets = [(''tid'', demo_ticket)], waiters = 0\<rparr>, Inl TypeError)"
  using foreign_cookie_answers [of "''tid''" "''x''" "Some ''tid.x''"
      "\<lparr>tickets = [(''tid'', demo_ticket)], waiters = 0\<rparr>" 200]
    foreign_cookie_answers [of "''tid''" "[char_of (195::nat)]" "Some (''tid.'' @ [char_of (195::nat)])"
      "\<lparr>tickets = [(''tid'', demo_ticket)], waiters = 0\<rparr>" 200]
  by (simp add: demo_ticket_def ascii_def)

end
