(* ===== verification/Tables.thy ===== *)
theory Tables
  imports Interfaces "HOL-Library.List_Lexorder" "HOL-Library.Char_ord" "HOL-Library.Product_Lexorder"
begin

text \<open>
  The database schema, \<open>app/models/models.py\<close> and \<open>app/models/staff_leave.py\<close>: one record
  per table row, the columns in the order of the source, and the keys its constraints
  make unique. A table is the list of its rows in insertion order. Left out of the rows
  are the autoincremented surrogate keys and the \<open>created_at\<close>, \<open>updated_at\<close> stamps that no
  modelled operation reads. A column with a CHECK ... IN constraint is a datatype.
\<close>

section \<open>Devices, employees, attendance\<close>

record device =
  dev_id :: int
  dev_name :: str
  dev_ip_address :: "str option"
  dev_port :: "int option"
  dev_password :: int
  dev_is_active :: bool
  dev_last_sync :: "dtime option"
  dev_device_type :: str
  dev_device_metadata :: "str option"

record employee =
  badge_number :: str
  english_name :: "str option"
  thai_name :: "str option"
  display_name :: str
  department :: "str option"
  position :: "str option"
  is_active :: bool
  is_hidden :: bool
  line_user_id :: "str option"
  line_display_name :: "str option"
  line_picture_url :: "str option"
  line_linking_code :: "str option"
  line_linking_code_generated_at :: "dtime option"
  emp_role :: "str option"
  default_shift_id :: "int option"
  emp_location :: "str option"
  email :: "str option"
  pending_approval :: bool
  join_source :: str
  nfc_card_uid :: "str option"

record attendance_record =
  ar_badge :: str
  ar_device_id :: int
  ar_timestamp :: dtime
  ar_punch_type :: int
  ar_status :: int
  ar_sync_status :: str
  ar_validation_status :: str

definition ar_key :: "attendance_record \<Rightarrow> str \<times> dtime \<times> int" where
  "ar_key r = (ar_badge r, ar_timestamp r, ar_punch_type r)"

section \<open>Shifts and schedules\<close>

record shift =
  shift_id :: int
  shift_code :: str
  shift_letter :: "str option"
  shift_name_th :: str
  start_time :: tod
  end_time :: tod
  shift_color :: "str option"
  shift_is_active :: bool

definition crosses_midnight_prop :: "shift \<Rightarrow> bool" where
  "crosses_midnight_prop s = (end_time s \<le> start_time s)"

record shift_assignment =
  sa_badge :: str
  sa_date :: date
  sa_shift_id :: "int option"

definition sa_key :: "shift_assignment \<Rightarrow> str \<times> date" where
  "sa_key a = (sa_badge a, sa_date a)"

record employee_schedule =
  es_badge :: str
  effective_from :: date
  es_role :: "str option"
  work_days :: "str option"
  work_start :: "tod option"
  work_end :: "tod option"

definition es_key :: "employee_schedule \<Rightarrow> str \<times> date" where
  "es_key e = (es_badge e, effective_from e)"

record employee_app_grant =
  eg_badge :: str
  eg_app_id :: str
  eg_granted_by :: "str option"

definition eg_key :: "employee_app_grant \<Rightarrow> str \<times> str" where
  "eg_key g = (eg_badge g, eg_app_id g)"

section \<open>Leaves\<close>

record leave_type_row =
  lt_code :: str
  lt_name_th :: str
  lt_color :: "str option"

record public_holiday =
  ph_date :: date
  ph_name :: str

record employee_leave =
  el_badge :: str
  el_date :: date
  el_leave_type :: str
  el_note :: "str option"

definition el_key :: "employee_leave \<Rightarrow> str \<times> date" where
  "el_key l = (el_badge l, el_date l)"

datatype leave_status = LeavePending | LeaveApproved | LeaveRejected | LeaveCancelled

datatype portion = Full | AM | PM

record staff_leave_request =
  sr_id :: str
  sr_badge :: str
  sr_employee_name :: str
  sr_department :: "str option"
  sr_location :: "str option"
  sr_leave_type :: str
  sr_portion :: portion
  sr_from :: date
  sr_to :: date
  sr_status :: leave_status
  sr_version :: int
  sr_cert :: "str option"
  sr_cert_type :: "str option"
  sr_cert_sha256 :: "str option"
  sr_cert_uploaded_at :: "dtime option"
  sr_family_reported_at :: "dtime option"
  sr_created_at :: dtime
  sr_updated_at :: dtime
  sr_reviewed_by :: "str option"
  sr_reviewed_at :: "dtime option"

record staff_leave_day =
  sd_badge :: str
  sd_date :: date
  sd_request_id :: str

definition sd_key :: "staff_leave_day \<Rightarrow> str \<times> date" where
  "sd_key d = (sd_badge d, sd_date d)"

record leave_db =
  employees :: "employee list"
  leaves :: "employee_leave list"
  requests :: "staff_leave_request list"
  leave_days :: "staff_leave_day list"
  holidays :: "public_holiday list"
  leave_types :: "leave_type_row list"

section \<open>Keys\<close>

text \<open>What the UNIQUE and PRIMARY KEY constraints of the leave tables say.\<close>

definition leave_keys_ok :: "leave_db \<Rightarrow> bool" where
  "leave_keys_ok db \<longleftrightarrow> distinct (map badge_number (employees db))
     \<and> distinct (map el_key (leaves db)) \<and> distinct (map sr_id (requests db))
     \<and> distinct (map sd_key (leave_days db)) \<and> distinct (map ph_date (holidays db))
     \<and> distinct (map lt_code (leave_types db))"

text \<open>\<open>db.get(StaffLeaveRequest, id)\<close>.\<close>

definition get_request :: "leave_db \<Rightarrow> str \<Rightarrow> staff_leave_request option" where
  "get_request db rid = first (\<lambda>r. sr_id r = rid) (requests db)"

lemma get_request_Some: "get_request db rid = Some r \<Longrightarrow> r \<in> set (requests db) \<and> sr_id r = rid"
  unfolding get_request_def by (rule first_Some)

lemma get_request_iff:
  "distinct (map sr_id (requests db)) \<Longrightarrow>
     get_request db rid = Some r \<longleftrightarrow> r \<in> set (requests db) \<and> sr_id r = rid"
  unfolding get_request_def by (rule first_key_iff)

text \<open>The colour format that the leave-type and the shift endpoints accept.\<close>

definition lower_hex :: "char \<Rightarrow> bool" where
  "lower_hex c = (is_digit c \<or> (97 \<le> (of_char c :: nat) \<and> (of_char c :: nat) \<le> 102))"

definition hex_color :: "str \<Rightarrow> bool" where
  "hex_color s = (let body = (if last s = CHR 0x0A then butlast s else s) in
     s \<noteq> [] \<and> hd s = CHR ''#'' \<and> length body = 7
       \<and> list_all (\<lambda>c. lower_hex (lower_char c)) (tl body))"

end
