(* ===== verification/StaffLeave.thy ===== *)
theory StaffLeave
  imports Tables
begin

text \<open>
  Employee leave requests: \<open>app/services/staff_leave.py\<close> with the half-day extension that
  \<open>app/services/staff_leave_options.py\<close> installs over it (the installed \<open>decide\<close> and
  \<open>calendar_days\<close>). A service call is one transaction: it returns the database it commits,
  or the database unchanged and the error it raises. Clock readings, the Bangkok date and
  the environment are arguments; the Thai texts of \<open>LeaveError\<close> are constructors.
\<close>

section \<open>Vocabulary\<close>

datatype leave_error =
    BadRange | OutsideWindow | BadYear | BadDate
  | BadButton | ForeignButton | ButtonExpired
  | BadTypeOrId | BadKind | NotEligible | IdAlreadyUsed | RosterHasLeave | OverlapsRequest
  | NotYourRequest | NotCancellable
  | BadDecision | NoSuchRequest | CertificateRequired | EmployeeInactive
  | StateChanged | RosterOverlap | RosterChanged
  | NotAttachable | AlreadyAttached
  | BadEdit | HalfDayNeedsOneDate | RequestChanged | NewRangeHasLeave | NewRangeOverlaps

definition TYPES :: "str list" where
  "TYPES = [''sick'', ''personal'', ''vacation'', ''public_holiday'']"

definition AUTO_REVIEWER :: str where "AUTO_REVIEWER = ''auto:staff-oa''"
definition MAX_DAYS :: int where "MAX_DAYS = 92"
definition FORM_TTL :: int where "FORM_TTL = 3600"
definition IMAGE_TTL :: int where "IMAGE_TTL = 86400"

definition id_re :: "str \<Rightarrow> bool" where
  "id_re s = (length s = 32 \<and> list_all lower_hex s)"

definition auto_approve_enabled :: "env \<Rightarrow> bool" where
  "auto_approve_enabled env =
     (lower (strip (getenv env ''STAFF_LEAVE_AUTO_APPROVE'' ''true''))
        \<in> {''1'', ''true'', ''yes'', ''on''})"

definition reference :: "staff_leave_request \<Rightarrow> str" where
  "reference r = ''HF-LV-'' @ upper (sr_id r)"

definition half_note :: "str \<Rightarrow> portion \<Rightarrow> str" where
  "half_note ref p = ref @ ''|half='' @
     (case p of Full \<Rightarrow> ''full'' | AM \<Rightarrow> ''am'' | PM \<Rightarrow> ''pm'')"

definition calendar_days :: "staff_leave_request \<Rightarrow> rat" where
  "calendar_days r = (if sr_portion r \<in> {AM, PM} then 1 / 2
     else of_int (sr_to r - sr_from r + 1))"

definition medical_certificate_required :: "staff_leave_request \<Rightarrow> bool" where
  "medical_certificate_required r = (sr_leave_type r = ''sick'' \<and> calendar_days r > 3)"

definition validate_dates :: "date \<Rightarrow> date \<Rightarrow> date \<Rightarrow> leave_error option" where
  "validate_dates today start end_d =
     (if end_d < start \<or> (end_d - start) + 1 > MAX_DAYS then Some BadRange
      else if start < today - 31 \<or> end_d > today + 366 then Some OutsideWindow
      else None)"

definition year_ce :: "int \<Rightarrow> leave_error + int" where
  "year_ce v = (if 2400 \<le> v \<and> v \<le> 2700 then Inr (v - 543)
     else if 2000 \<le> v \<and> v \<le> 2200 then Inr v else Inl BadYear)"

section \<open>Queries\<close>

definition roster_conflict :: "leave_db \<Rightarrow> str \<Rightarrow> date \<Rightarrow> date \<Rightarrow> bool" where
  "roster_conflict db badge a b =
     (first (\<lambda>l. el_badge l = badge \<and> a \<le> el_date l \<and> el_date l \<le> b) (leaves db) \<noteq> None)"

definition active_employee :: "leave_db \<Rightarrow> str \<Rightarrow> employee option" where
  "active_employee db badge =
     first (\<lambda>e. badge_number e = badge \<and> is_active e \<and> \<not> pending_approval e) (employees db)"

definition days_for :: "str \<Rightarrow> str \<Rightarrow> date \<Rightarrow> date \<Rightarrow> staff_leave_day list" where
  "days_for badge rid a b =
     map (\<lambda>d. \<lparr>sd_badge = badge, sd_date = d, sd_request_id = rid\<rparr>) (span a b)"

text \<open>SQLite's LIKE ignores the case of ASCII letters; the reference holds no wildcard.\<close>

definition ascii_lower :: "char \<Rightarrow> char" where
  "ascii_lower c = (let n = (of_char c :: nat) in
     if 65 \<le> n \<and> n \<le> 90 then char_of (n + 32) else c)"

definition like_prefix :: "str \<Rightarrow> str \<Rightarrow> bool" where
  "like_prefix p s = (map ascii_lower (take (length p) s) = map ascii_lower p)"

definition note_matches :: "str \<Rightarrow> str option \<Rightarrow> bool" where
  "note_matches ref note = (case note of None \<Rightarrow> False
     | Some n \<Rightarrow> n = ref \<or> like_prefix (ref @ ''|'') n)"

section \<open>Submission\<close>

definition same_request :: "staff_leave_request \<Rightarrow> str \<Rightarrow> str \<Rightarrow> date \<Rightarrow> date \<Rightarrow> bool" where
  "same_request r badge kind a b =
     ((sr_badge r, sr_leave_type r, sr_from r, sr_to r) = (badge, kind, a, b))"

definition new_request ::
  "employee \<Rightarrow> str \<Rightarrow> str \<Rightarrow> date \<Rightarrow> date \<Rightarrow> dtime \<Rightarrow> staff_leave_request" where
  "new_request e rid kind a b now =
     \<lparr>sr_id = rid, sr_badge = badge_number e,
      sr_employee_name = or_else (thai_name e) (display_name e),
      sr_department = department e, sr_location = emp_location e,
      sr_leave_type = kind, sr_portion = Full, sr_from = a, sr_to = b,
      sr_status = LeavePending, sr_version = 1,
      sr_cert = None, sr_cert_type = None, sr_cert_sha256 = None,
      sr_cert_uploaded_at = None, sr_family_reported_at = None,
      sr_created_at = now, sr_updated_at = now,
      sr_reviewed_by = None, sr_reviewed_at = None\<rparr>"

text \<open>After an IntegrityError: the row a concurrent replay of the same form stored, or an error.\<close>

definition submit_conflict ::
  "str \<Rightarrow> str \<Rightarrow> str \<Rightarrow> date \<Rightarrow> date \<Rightarrow> leave_db \<Rightarrow> leave_error + staff_leave_request" where
  "submit_conflict badge rid kind a b db =
     (case get_request db rid of
        Some r \<Rightarrow> if same_request r badge kind a b then Inr r else Inl OverlapsRequest
      | None \<Rightarrow> Inl OverlapsRequest)"

definition submit ::
  "date \<Rightarrow> dtime \<Rightarrow> employee \<Rightarrow> str \<Rightarrow> str \<Rightarrow> date \<Rightarrow> date \<Rightarrow> leave_db
   \<Rightarrow> leave_db \<times> (leave_error + staff_leave_request)" where
  "submit today now e rid kind a b db =
     (if \<not> id_re rid \<or> kind \<notin> set TYPES then (db, Inl BadTypeOrId)
      else if \<not> is_active e \<or> pending_approval e then (db, Inl NotEligible)
      else case get_request db rid of
        Some r \<Rightarrow> if \<not> same_request r (badge_number e) kind a b then (db, Inl IdAlreadyUsed)
                  else (db, Inr r)
      | None \<Rightarrow>
          (case validate_dates today a b of
             Some err \<Rightarrow> (db, Inl err)
           | None \<Rightarrow>
               if roster_conflict db (badge_number e) a b then (db, Inl RosterHasLeave)
               else let row = new_request e rid kind a b now in
                 (case insert_unique sr_id row (requests db) of
                    None \<Rightarrow> (db, submit_conflict (badge_number e) rid kind a b db)
                  | Some rs \<Rightarrow>
                      (case insert_all sd_key (days_for (badge_number e) rid a b) (leave_days db) of
                         None \<Rightarrow> (db, submit_conflict (badge_number e) rid kind a b db)
                       | Some ds \<Rightarrow>
                           (db\<lparr>requests := rs, leave_days := ds\<rparr>, Inr row)))))"

section \<open>Cancellation\<close>

definition cancellable :: "staff_leave_request \<Rightarrow> bool" where
  "cancellable r = (sr_status r = LeavePending
     \<or> sr_status r = LeaveApproved \<and> sr_reviewed_by r = Some AUTO_REVIEWER)"

definition cancelled_row :: "dtime \<Rightarrow> staff_leave_request \<Rightarrow> staff_leave_request" where
  "cancelled_row now r = r\<lparr>sr_status := LeaveCancelled, sr_version := sr_version r + 1,
     sr_cert := None, sr_cert_type := None, sr_cert_sha256 := None,
     sr_cert_uploaded_at := None, sr_updated_at := now\<rparr>"

definition cancel ::
  "dtime \<Rightarrow> str \<Rightarrow> str \<Rightarrow> leave_db \<Rightarrow> leave_db \<times> (leave_error + staff_leave_request)" where
  "cancel now badge rid db =
     (case get_request db rid of
        None \<Rightarrow> (db, Inl NotYourRequest)
      | Some row \<Rightarrow>
          if sr_badge row \<noteq> badge then (db, Inl NotYourRequest)
          else if sr_status row = LeaveCancelled then (db, Inr row)
          else
            let auto = (sr_status row = LeaveApproved \<and> sr_reviewed_by row = Some AUTO_REVIEWER);
                hit = (\<lambda>r. sr_id r = rid \<and> sr_badge r = badge \<and> cancellable r)
            in if count_where hit (requests db) \<noteq> 1 then (db, Inl NotCancellable)
               else
                 let ref = reference row;
                     mine = (\<lambda>l. el_badge l = badge \<and> sr_from row \<le> el_date l
                               \<and> el_date l \<le> sr_to row \<and> note_matches ref (el_note l));
                     db' = db\<lparr>requests := update_where hit (cancelled_row now) (requests db),
                              leave_days := delete_where (\<lambda>d. sd_request_id d = rid) (leave_days db),
                              leaves := (if auto then delete_where mine (leaves db) else leaves db)\<rparr>
                 in (db', Inr (cancelled_row now row)))"

section \<open>Decision\<close>

definition decided_row ::
  "bool \<Rightarrow> str \<Rightarrow> dtime \<Rightarrow> staff_leave_request \<Rightarrow> staff_leave_request" where
  "decided_row approve reviewer now r =
     r\<lparr>sr_status := (if approve then LeaveApproved else LeaveRejected),
       sr_version := sr_version r + 1, sr_reviewed_by := Some reviewer,
       sr_reviewed_at := Some now, sr_updated_at := now\<rparr>"

definition leaves_for :: "staff_leave_request \<Rightarrow> employee_leave list" where
  "leaves_for r = map (\<lambda>d. \<lparr>el_badge = sr_badge r, el_date = d, el_leave_type = sr_leave_type r,
     el_note = Some (reference r)\<rparr>) (span (sr_from r) (sr_to r))"

definition decide_full ::
  "dtime \<Rightarrow> str \<Rightarrow> str \<Rightarrow> int \<Rightarrow> str \<Rightarrow> leave_db
   \<Rightarrow> leave_db \<times> (leave_error + staff_leave_request)" where
  "decide_full now rid decision version reviewer db =
     (if decision \<notin> {''approved'', ''rejected''} \<or> reviewer = [] then (db, Inl BadDecision)
      else case get_request db rid of
        None \<Rightarrow> (db, Inl NoSuchRequest)
      | Some row \<Rightarrow>
          let approve = (decision = ''approved'');
              hit = (\<lambda>r. sr_id r = rid \<and> sr_status r = LeavePending \<and> sr_version r = version)
          in
          if approve \<and> medical_certificate_required row \<and> \<not> truthy (sr_cert row)
          then (db, Inl CertificateRequired)
          else if approve \<and> active_employee db (sr_badge row) = None
          then (db, Inl EmployeeInactive)
          else if count_where hit (requests db) \<noteq> 1 then (db, Inl StateChanged)
          else
            let db1 = db\<lparr>requests := update_where hit (decided_row approve reviewer now) (requests db)\<rparr>;
                done = Inr (decided_row approve reviewer now row)
            in if approve
               then if roster_conflict db1 (sr_badge row) (sr_from row) (sr_to row)
                    then (db, Inl RosterOverlap)
                    else (case insert_all el_key (leaves_for row) (leaves db1) of
                            None \<Rightarrow> (db, Inl RosterChanged)
                          | Some ls \<Rightarrow> (db1\<lparr>leaves := ls\<rparr>, done))
               else (db1\<lparr>leave_days := delete_where (\<lambda>d. sd_request_id d = rid) (leave_days db1)\<rparr>,
                     done))"

definition decide_half ::
  "dtime \<Rightarrow> staff_leave_request \<Rightarrow> str \<Rightarrow> int \<Rightarrow> str \<Rightarrow> leave_db
   \<Rightarrow> leave_db \<times> (leave_error + staff_leave_request)" where
  "decide_half now row decision version reviewer db =
     (if decision \<notin> {''approved'', ''rejected''} \<or> reviewer = [] then (db, Inl BadDecision)
      else
        let approve = (decision = ''approved'');
            hit = (\<lambda>r. sr_id r = sr_id row \<and> sr_status r = LeavePending \<and> sr_version r = version)
        in
        if approve \<and> active_employee db (sr_badge row) = None
        then (db, Inl EmployeeInactive)
        else if count_where hit (requests db) \<noteq> 1 then (db, Inl StateChanged)
        else
          let db1 = db\<lparr>requests := update_where hit (decided_row approve reviewer now) (requests db)\<rparr>;
              done = Inr (decided_row approve reviewer now row);
              new = \<lparr>el_badge = sr_badge row, el_date = sr_from row,
                     el_leave_type = sr_leave_type row,
                     el_note = Some (half_note (reference row) (sr_portion row))\<rparr>
          in if approve
             then if first (\<lambda>l. el_badge l = sr_badge row \<and> el_date l = sr_from row)
                       (leaves db1) \<noteq> None
                  then (db, Inl RosterOverlap)
                  else (case insert_unique el_key new (leaves db1) of
                          None \<Rightarrow> (db, Inl RosterChanged)
                        | Some ls \<Rightarrow> (db1\<lparr>leaves := ls\<rparr>, done))
             else (db1\<lparr>leave_days :=
                     delete_where (\<lambda>d. sd_request_id d = sr_id row) (leave_days db1)\<rparr>, done))"

text \<open>The \<open>decide\<close> that \<open>staff_leave_options.install\<close> puts in place of the original.\<close>

definition decide ::
  "dtime \<Rightarrow> str \<Rightarrow> str \<Rightarrow> int \<Rightarrow> str \<Rightarrow> leave_db
   \<Rightarrow> leave_db \<times> (leave_error + staff_leave_request)" where
  "decide now rid decision version reviewer db =
     (case get_request db rid of
        Some row \<Rightarrow>
          if sr_portion row \<in> {AM, PM} then decide_half now row decision version reviewer db
          else decide_full now rid decision version reviewer db
      | None \<Rightarrow> decide_full now rid decision version reviewer db)"

definition maybe_auto_approve ::
  "env \<Rightarrow> dtime \<Rightarrow> staff_leave_request \<Rightarrow> leave_db
   \<Rightarrow> leave_db \<times> staff_leave_request option" where
  "maybe_auto_approve env now row db =
     (if sr_status row \<noteq> LeavePending \<or> \<not> auto_approve_enabled env then (db, Some row)
      else (case decide now (sr_id row) ''approved'' (sr_version row) AUTO_REVIEWER db of
              (db', Inr r) \<Rightarrow> (db', Some r)
            | (db', Inl _) \<Rightarrow> (db, get_request db (sr_id row))))"

definition submit_half ::
  "env \<Rightarrow> date \<Rightarrow> dtime \<Rightarrow> employee \<Rightarrow> str \<Rightarrow> str \<Rightarrow> date \<Rightarrow> portion \<Rightarrow> leave_db
   \<Rightarrow> leave_db \<times> (leave_error + staff_leave_request option)" where
  "submit_half env today now e rid kind on_date p db =
     (case get_request db rid of
        Some r \<Rightarrow>
          if sr_portion r \<noteq> p then (db, Inl IdAlreadyUsed)
          else (case maybe_auto_approve env now r db of (db', res) \<Rightarrow> (db', Inr res))
      | None \<Rightarrow>
          (case submit today now e rid kind on_date on_date db of
             (db1, Inl err) \<Rightarrow> (db1, Inl err)
           | (db1, Inr row) \<Rightarrow>
               let row' = row\<lparr>sr_portion := p, sr_updated_at := now\<rparr>;
                   db2 = db1\<lparr>requests := update_where (\<lambda>r. sr_id r = rid) (\<lambda>_. row') (requests db1)\<rparr>
               in (case maybe_auto_approve env now row' db2 of (db', res) \<Rightarrow> (db', Inr res))))"

section \<open>Medical certificates\<close>

definition medical_target :: "leave_db \<Rightarrow> employee \<Rightarrow> staff_leave_request option" where
  "medical_target db e =
     newest (\<lambda>r. (sr_created_at r, sr_id r))
       (filter (\<lambda>r. sr_badge r = badge_number e \<and> sr_status r = LeavePending
          \<and> sr_leave_type r = ''sick'' \<and> sr_cert r = None) (requests db))"

definition attach_medical_certificate ::
  "dtime \<Rightarrow> staff_leave_request \<Rightarrow> str \<Rightarrow> str \<Rightarrow> str \<Rightarrow> leave_db
   \<Rightarrow> leave_db \<times> (leave_error + staff_leave_request option)" where
  "attach_medical_certificate now row content content_type digest db =
     (if sr_status row \<noteq> LeavePending \<or> sr_leave_type row \<noteq> ''sick'' then (db, Inl NotAttachable)
      else
        let hit = (\<lambda>r. sr_id r = sr_id row \<and> sr_status r = LeavePending \<and> sr_cert r = None) in
        if count_where hit (requests db) \<noteq> 1 then (db, Inl AlreadyAttached)
        else let db' = db\<lparr>requests := update_where hit
                 (\<lambda>r. r\<lparr>sr_cert := Some content, sr_cert_type := Some content_type,
                        sr_cert_sha256 := Some digest, sr_cert_uploaded_at := Some now,
                        sr_version := sr_version r + 1, sr_updated_at := now\<rparr>) (requests db)\<rparr>
             in (db', Inr (get_request db' (sr_id row))))"

lemmas leave_defs = submit_def cancel_def decide_full_def decide_half_def decide_def
  maybe_auto_approve_def submit_half_def attach_medical_certificate_def

end
