(* ===== verification/LeaveRoster.thy ===== *)
theory LeaveRoster
  imports StaffLeave
begin

text \<open>
  The roster as the single source of truth: \<open>app/services/staff_leave_roster.py\<close> (what LINE
  shows about a request, recomputed from the roster rows that carry its reference),
  \<open>app/services/staff_leave_manage.py\<close> (editing and the cancel picker) and the admin API
  \<open>app/api/leaves.py\<close>, with the half-day marker of \<open>EmployeeLeave.note\<close> that all of them share.
\<close>

section \<open>The half-day marker\<close>

text \<open>
  The regular expressions, matched at the head of a text. \<open>$\<close> matches at the end and before
  a final newline. \<open>half_at\<close> is \<open>\|half=(am|pm)(?=$|\|)\<close> of the API, \<open>half_at_end\<close> is
  \<open>\|half=(am|pm)$\<close> of the LINE side; \<open>search\<close> takes the first match from the left.
\<close>

definition at_end :: "str \<Rightarrow> bool" where
  "at_end s = (s = [] \<or> s = [CHR 0x0A])"

definition half_at :: "str \<Rightarrow> (portion \<times> str) option" where
  "half_at s =
     (let r = drop 8 s in
      if at_end r \<or> startswith r ''|'' then
        if take 8 s = ''|half=am'' then Some (AM, r)
        else if take 8 s = ''|half=pm'' then Some (PM, r) else None
      else None)"

definition half_at_end :: "str \<Rightarrow> portion option" where
  "half_at_end s =
     (if at_end (drop 8 s) then
        if take 8 s = ''|half=am'' then Some AM
        else if take 8 s = ''|half=pm'' then Some PM else None
      else None)"

fun search_half :: "str \<Rightarrow> portion option" where
  "search_half [] = None"
| "search_half (c # cs) = (case half_at (c # cs) of Some (p, _) \<Rightarrow> Some p | None \<Rightarrow> search_half cs)"

fun search_half_end :: "str \<Rightarrow> portion option" where
  "search_half_end [] = None"
| "search_half_end (c # cs) =
     (case half_at_end (c # cs) of Some p \<Rightarrow> Some p | None \<Rightarrow> search_half_end cs)"

function sub_half :: "str \<Rightarrow> str" where
  "sub_half [] = []"
| "sub_half (c # cs) =
     (case half_at (c # cs) of Some (_, r) \<Rightarrow> sub_half r | None \<Rightarrow> c # sub_half cs)"
  by pat_completeness auto

lemma half_at_length: "half_at s = Some (p, r) \<Longrightarrow> length r < length s"
  by (cases s) (auto simp: half_at_def Let_def split: if_splits)

termination sub_half
  by (relation "measure length") (use half_at_length in fastforce)+

definition portion_from_note :: "str option \<Rightarrow> portion" where
  "portion_from_note note = (case search_half (or_else note []) of Some p \<Rightarrow> p | None \<Rightarrow> Full)"

definition portion_from_leave_note :: "str option \<Rightarrow> portion" where
  "portion_from_leave_note note =
     (if \<not> truthy note then Full
      else case search_half_end (or_else note []) of Some p \<Rightarrow> p | None \<Rightarrow> Full)"

definition strip_bar :: "str \<Rightarrow> str" where
  "strip_bar s = (let p = (\<lambda>c. c = CHR '' '' \<or> c = CHR ''|'') in
     rev (dropWhile p (rev (dropWhile p s))))"

definition clean_leave_note :: "str option \<Rightarrow> str option" where
  "clean_leave_note note =
     (if \<not> truthy note then None
      else let cleaned = strip_bar (sub_half (or_else note [])) in
        if cleaned = [] then None else Some cleaned)"

definition portion_text :: "portion \<Rightarrow> str" where
  "portion_text p = (case p of Full \<Rightarrow> ''full'' | AM \<Rightarrow> ''am'' | PM \<Rightarrow> ''pm'')"

definition note_with_portion :: "str option \<Rightarrow> portion \<Rightarrow> str option" where
  "note_with_portion note p =
     (let clean = clean_leave_note note in
      if p = Full then clean
      else let marker = ''|half='' @ portion_text p in
        Some (if truthy clean then or_else clean [] @ marker else marker))"

section \<open>Roster rows of a request\<close>

definition request_id_from_note :: "str option \<Rightarrow> str option" where
  "request_id_from_note note =
     (let n = or_else note [] in
      if \<not> startswith n ''HF-LV-'' then None
      else let g = takeWhile (\<lambda>c. c \<noteq> CHR ''|'') (drop 6 n) in
        if g = [] then None else Some (lower g))"

definition roster_rows_for_request :: "leave_db \<Rightarrow> staff_leave_request \<Rightarrow> employee_leave list" where
  "roster_rows_for_request db r =
     sort_key el_date (filter (\<lambda>l. el_badge l = sr_badge r \<and> note_matches (reference r) (el_note l))
       (leaves db))"

datatype effective_status =
    EffPending | EffRejected | EffRecorded | EffPartial | EffCancelled | EffCancelledRoster

datatype leave_source = FromLine | FromRoster

record effective_leave =
  eff_status :: effective_status
  eff_dates :: "date list"
  eff_from :: "date option"
  eff_to :: "date option"
  eff_type :: str
  eff_portion :: portion
  eff_source :: leave_source
  eff_request :: "staff_leave_request option"

definition ROSTER_ADMIN_REVIEWER :: str where
  "ROSTER_ADMIN_REVIEWER = ''admin:shifts-admin''"

definition effective_state :: "leave_db \<Rightarrow> staff_leave_request \<Rightarrow> effective_leave" where
  "effective_state db r =
     (let bare = (\<lambda>st. \<lparr>eff_status = st, eff_dates = [], eff_from = None, eff_to = None,
            eff_type = sr_leave_type r, eff_portion = sr_portion r,
            eff_source = FromLine, eff_request = Some r\<rparr>);
          filed = (\<lambda>st. \<lparr>eff_status = st, eff_dates = span (sr_from r) (sr_to r),
            eff_from = Some (sr_from r), eff_to = Some (sr_to r),
            eff_type = sr_leave_type r, eff_portion = sr_portion r,
            eff_source = FromLine, eff_request = Some r\<rparr>)
      in case sr_status r of
        LeavePending \<Rightarrow> filed EffPending
      | LeaveRejected \<Rightarrow> filed EffRejected
      | LeaveCancelled \<Rightarrow>
          bare (if sr_reviewed_by r = Some ROSTER_ADMIN_REVIEWER then EffCancelledRoster
                else EffCancelled)
      | LeaveApproved \<Rightarrow>
          (case roster_rows_for_request db r of
             [] \<Rightarrow> bare EffCancelledRoster
           | l # ls \<Rightarrow>
               let dates = sort (map el_date (l # ls)) in
               \<lparr>eff_status = (if dates = span (sr_from r) (sr_to r) then EffRecorded else EffPartial),
                eff_dates = dates, eff_from = Some (hd dates), eff_to = Some (last dates),
                eff_type = el_leave_type l,
                eff_portion = portion_from_leave_note (el_note l),
                eff_source = FromLine, eff_request = Some r\<rparr>))"

text \<open>Contiguous runs of one type, and the run that ends last (Python's \<open>max\<close> keeps the first).\<close>

fun leave_runs :: "employee_leave list \<Rightarrow> employee_leave \<Rightarrow> employee_leave list
    \<Rightarrow> employee_leave list list" where
  "leave_runs current prev [] = [current]"
| "leave_runs current prev (cur # rest) =
     (if el_leave_type cur = el_leave_type prev \<and> el_date cur - el_date prev = 1
      then leave_runs (current @ [cur]) cur rest
      else current # leave_runs [cur] cur rest)"

definition newest_admin_run :: "employee_leave list \<Rightarrow> employee_leave list option" where
  "newest_admin_run rows =
     (case rows of [] \<Rightarrow> None
      | r # rs \<Rightarrow> newest (\<lambda>days. el_date (last days)) (leave_runs [r] r rs))"

definition latest_request :: "leave_db \<Rightarrow> str \<Rightarrow> staff_leave_request option" where
  "latest_request db badge =
     newest (\<lambda>r. (sr_created_at r, sr_id r)) (filter (\<lambda>r. sr_badge r = badge) (requests db))"

definition latest_effective_leave :: "leave_db \<Rightarrow> str \<Rightarrow> effective_leave option" where
  "latest_effective_leave db badge =
     (let request = latest_request db badge;
          admin_rows = filter (\<lambda>l. request_id_from_note (el_note l) = None)
            (sort_key el_date (filter (\<lambda>l. el_badge l = badge) (leaves db)));
          line = map_option (effective_state db) request
      in case newest_admin_run admin_rows of
           None \<Rightarrow> line
         | Some days \<Rightarrow>
             if (case request of None \<Rightarrow> True
                 | Some r \<Rightarrow> el_date (last days) > date_of (sr_created_at r))
             then Some \<lparr>eff_status = EffRecorded, eff_dates = map el_date days,
                    eff_from = Some (el_date (hd days)), eff_to = Some (el_date (last days)),
                    eff_type = el_leave_type (hd days),
                    eff_portion = portion_from_leave_note (el_note (hd days)),
                    eff_source = FromRoster, eff_request = None\<rparr>
             else line)"

definition release_request_days :: "leave_db \<Rightarrow> staff_leave_request \<Rightarrow> leave_db" where
  "release_request_days db r =
     db\<lparr>leave_days := delete_where (\<lambda>d. sd_request_id d = sr_id r) (leave_days db)\<rparr>"

definition roster_ended_row :: "dtime \<Rightarrow> staff_leave_request \<Rightarrow> staff_leave_request" where
  "roster_ended_row now r =
     r\<lparr>sr_status := LeaveCancelled, sr_reviewed_by := Some ROSTER_ADMIN_REVIEWER,
       sr_reviewed_at := Some now, sr_version := sr_version r + 1, sr_cert := None,
       sr_cert_type := None, sr_updated_at := now\<rparr>"

definition on_roster_leave_removed ::
  "dtime \<Rightarrow> str \<Rightarrow> date \<Rightarrow> str option \<Rightarrow> leave_db \<Rightarrow> leave_db" where
  "on_roster_leave_removed now badge on_date note db =
     (case request_id_from_note note of
        None \<Rightarrow> db
      | Some rid \<Rightarrow>
          (case get_request db rid of
             None \<Rightarrow> db
           | Some row \<Rightarrow>
               if sr_badge row \<noteq> badge then db
               else
                 let db1 = db\<lparr>leave_days := delete_where
                       (\<lambda>d. sd_request_id d = sr_id row \<and> sd_date d = on_date) (leave_days db)\<rparr>
                 in if sr_status row = LeaveApproved \<and> roster_rows_for_request db1 row = []
                    then release_request_days
                      (db1\<lparr>requests := update_where (\<lambda>r. sr_id r = rid) (roster_ended_row now)
                              (requests db1)\<rparr>) row
                    else db1))"

section \<open>Editing from LINE\<close>

definition is_cancellable :: "leave_db \<Rightarrow> staff_leave_request option \<Rightarrow> int \<Rightarrow> bool" where
  "is_cancellable db row expected =
     (case row of None \<Rightarrow> False
      | Some r \<Rightarrow>
          if sr_version r \<noteq> expected then False
          else if sr_status r = LeavePending then True
          else if sr_status r \<noteq> LeaveApproved \<or> sr_reviewed_by r \<noteq> Some AUTO_REVIEWER then False
          else eff_status (effective_state db r) \<in> {EffRecorded, EffPartial})"

definition editable_rows :: "leave_db \<Rightarrow> str \<Rightarrow> bool \<Rightarrow> nat \<Rightarrow> staff_leave_request list" where
  "editable_rows db badge cancel_mode n_max =
     (let rows = take n_max (rev (sort_key sr_created_at (sort_key sr_id
            (filter (\<lambda>r. sr_badge r = badge \<and>
               (if cancel_mode then cancellable r else sr_status r = LeavePending)) (requests db)))))
      in if cancel_mode then filter (\<lambda>r. is_cancellable db (Some r) (sr_version r)) rows else rows)"

definition edited_row ::
  "dtime \<Rightarrow> str \<Rightarrow> date \<Rightarrow> date \<Rightarrow> portion \<Rightarrow> staff_leave_request \<Rightarrow> staff_leave_request" where
  "edited_row now kind a b p r =
     r\<lparr>sr_leave_type := kind, sr_from := a, sr_to := b, sr_portion := p,
       sr_version := sr_version r + 1, sr_cert := None, sr_cert_type := None,
       sr_cert_sha256 := None, sr_cert_uploaded_at := None, sr_updated_at := now\<rparr>"

definition edit_request ::
  "date \<Rightarrow> dtime \<Rightarrow> employee \<Rightarrow> str \<Rightarrow> int \<Rightarrow> str \<Rightarrow> date \<Rightarrow> date \<Rightarrow> portion \<Rightarrow> leave_db
   \<Rightarrow> leave_db \<times> (leave_error + staff_leave_request)" where
  "edit_request today now e rid expected kind a b p db =
     (if kind \<notin> set TYPES then (db, Inl BadEdit)
      else if p \<noteq> Full \<and> a \<noteq> b then (db, Inl HalfDayNeedsOneDate)
      else case validate_dates today a b of
        Some err \<Rightarrow> (db, Inl err)
      | None \<Rightarrow>
        (case get_request db rid of
           None \<Rightarrow> (db, Inl NotYourRequest)
         | Some row \<Rightarrow>
             if sr_badge row \<noteq> badge_number e then (db, Inl NotYourRequest)
             else
               let same = ((sr_leave_type row, sr_from row, sr_to row, sr_portion row)
                             = (kind, a, b, p)) in
               if sr_status row = LeavePending \<and> sr_version row = expected + 1 \<and> same
               then (db, Inr row)
               else if sr_status row \<noteq> LeavePending \<or> sr_version row \<noteq> expected
               then (db, Inl RequestChanged)
               else if same then (db, Inr row)
               else if roster_conflict db (badge_number e) a b then (db, Inl NewRangeHasLeave)
               else (case insert_all sd_key (days_for (badge_number e) (sr_id row) a b)
                            (delete_where (\<lambda>d. sd_request_id d = sr_id row) (leave_days db)) of
                       None \<Rightarrow> (db, Inl NewRangeOverlaps)
                     | Some ds \<Rightarrow>
                         (db\<lparr>leave_days := ds,
                             requests := update_where (\<lambda>r. sr_id r = rid)
                               (edited_row now kind a b p) (requests db)\<rparr>,
                          Inr (edited_row now kind a b p row)))))"

section \<open>The admin API\<close>

datatype http_error =
    BadLeaveType | BadPortion | DateAndRange | MissingDate | ToBeforeFrom | RangeTooLong
  | HalfDaySingleDate | EmployeeNotFound | YearOutOfRange | UnknownLeaveType | BadColor

definition validate_range :: "date \<Rightarrow> date \<Rightarrow> int \<Rightarrow> http_error option" where
  "validate_range a b max_days =
     (if b < a then Some ToBeforeFrom
      else if b - a > max_days then Some RangeTooLong else None)"

definition ALLOWED_LEAVE_TYPES :: "str list" where
  "ALLOWED_LEAVE_TYPES = [''vacation'', ''personal'', ''sick'', ''public_holiday'']"

definition portion_of_text :: "str \<Rightarrow> portion option" where
  "portion_of_text s = (if s = ''full'' then Some Full else if s = ''am'' then Some AM
     else if s = ''pm'' then Some PM else None)"

record leave_in =
  li_badge :: str
  li_type :: str
  li_portion :: str
  li_date :: "date option"
  li_from :: "date option"
  li_to :: "date option"
  li_note :: "str option"

definition leave_range :: "leave_in \<Rightarrow> http_error + date \<times> date" where
  "leave_range body =
     (if li_date body \<noteq> None \<and> (li_from body \<noteq> None \<or> li_to body \<noteq> None) then Inl DateAndRange
      else case li_date body of
        Some d \<Rightarrow> Inr (d, d)
      | None \<Rightarrow> (case (li_from body, li_to body) of
                   (Some a, Some b) \<Rightarrow> Inr (a, b)
                 | _ \<Rightarrow> Inl MissingDate))"

text \<open>One day of the range: insert, or overwrite in place and recompute the LINE link.\<close>

definition write_leave_day ::
  "dtime \<Rightarrow> str \<Rightarrow> str \<Rightarrow> str option \<Rightarrow> str option \<Rightarrow> date \<Rightarrow> leave_db \<Rightarrow> leave_db" where
  "write_leave_day now badge kind body_note stored d db =
     (case first (\<lambda>l. el_key l = (badge, d)) (leaves db) of
        None \<Rightarrow> db\<lparr>leaves := leaves db @
            [\<lparr>el_badge = badge, el_date = d, el_leave_type = kind, el_note = stored\<rparr>]\<rparr>
      | Some old \<Rightarrow>
          let new_note = (if body_note = None \<and> request_id_from_note (el_note old) \<noteq> None
                          then el_note old else stored);
              db1 = db\<lparr>leaves := update_where (\<lambda>l. el_key l = (badge, d))
                      (\<lambda>l. l\<lparr>el_leave_type := kind, el_note := new_note\<rparr>) (leaves db)\<rparr>
          in if request_id_from_note new_note \<noteq> request_id_from_note (el_note old)
             then on_roster_leave_removed now badge d (el_note old) db1
             else db1)"

definition create_employee_leaves ::
  "dtime \<Rightarrow> leave_in \<Rightarrow> leave_db \<Rightarrow> leave_db \<times> (http_error + unit)" where
  "create_employee_leaves now body db =
     (if li_type body \<notin> set ALLOWED_LEAVE_TYPES then (db, Inl BadLeaveType)
      else case portion_of_text (li_portion body) of
        None \<Rightarrow> (db, Inl BadPortion)
      | Some p \<Rightarrow>
        (case leave_range body of
           Inl e \<Rightarrow> (db, Inl e)
         | Inr (a, b) \<Rightarrow>
           (case validate_range a b 92 of
              Some e \<Rightarrow> (db, Inl e)
            | None \<Rightarrow>
                if p \<noteq> Full \<and> a \<noteq> b then (db, Inl HalfDaySingleDate)
                else if first (\<lambda>e. badge_number e = li_badge body) (employees db) = None
                then (db, Inl EmployeeNotFound)
                else (fold (write_leave_day now (li_badge body) (li_type body) (li_note body)
                              (note_with_portion (li_note body) p)) (span a b) db, Inr ()))))"

definition delete_employee_leave :: "dtime \<Rightarrow> str \<Rightarrow> date \<Rightarrow> leave_db \<Rightarrow> leave_db" where
  "delete_employee_leave now badge on_date db =
     (let old = first (\<lambda>l. el_key l = (badge, on_date)) (leaves db);
          db1 = db\<lparr>leaves := delete_where (\<lambda>l. el_key l = (badge, on_date)) (leaves db)\<rparr>
      in case old of None \<Rightarrow> db1
         | Some l \<Rightarrow> on_roster_leave_removed now badge on_date (el_note l) db1)"

definition list_employee_leaves ::
  "date \<Rightarrow> date \<Rightarrow> str option \<Rightarrow> leave_db \<Rightarrow> http_error + employee_leave list" where
  "list_employee_leaves a b badge db =
     (case validate_range a b 366 of Some e \<Rightarrow> Inl e
      | None \<Rightarrow> Inr (sort_key (\<lambda>l. (el_date l, el_badge l))
          (filter (\<lambda>l. a \<le> el_date l \<and> el_date l \<le> b
             \<and> (truthy badge \<longrightarrow> Some (el_badge l) = badge)) (leaves db))))"

definition list_holidays :: "date \<Rightarrow> date \<Rightarrow> leave_db \<Rightarrow> http_error + public_holiday list" where
  "list_holidays a b db =
     (case validate_range a b 366 of Some e \<Rightarrow> Inl e
      | None \<Rightarrow> Inr (sort_key ph_date
          (filter (\<lambda>h. a \<le> ph_date h \<and> ph_date h \<le> b) (holidays db))))"

definition create_holiday :: "date \<Rightarrow> str \<Rightarrow> leave_db \<Rightarrow> leave_db" where
  "create_holiday d name db =
     (case first (\<lambda>h. ph_date h = d) (holidays db) of
        None \<Rightarrow> db\<lparr>holidays := holidays db @ [\<lparr>ph_date = d, ph_name = name\<rparr>]\<rparr>
      | Some _ \<Rightarrow> db\<lparr>holidays := update_where (\<lambda>h. ph_date h = d) (\<lambda>h. h\<lparr>ph_name := name\<rparr>)
                       (holidays db)\<rparr>)"

definition delete_holiday :: "date \<Rightarrow> leave_db \<Rightarrow> leave_db" where
  "delete_holiday d db = db\<lparr>holidays := delete_where (\<lambda>h. ph_date h = d) (holidays db)\<rparr>"

definition update_leave_type_color ::
  "str \<Rightarrow> str option \<Rightarrow> leave_db \<Rightarrow> leave_db \<times> (http_error + leave_type_row)" where
  "update_leave_type_color code color db =
     (case first (\<lambda>t. lt_code t = code) (leave_types db) of
        None \<Rightarrow> (db, Inl UnknownLeaveType)
      | Some lt \<Rightarrow>
          let c = (if color = Some [] then None else color) in
          if (case c of None \<Rightarrow> False | Some s \<Rightarrow> \<not> hex_color s) then (db, Inl BadColor)
          else (db\<lparr>leave_types := update_where (\<lambda>t. lt_code t = code) (\<lambda>t. t\<lparr>lt_color := c\<rparr>)
                     (leave_types db)\<rparr>,
                Inr (lt\<lparr>lt_color := c\<rparr>)))"

lemmas roster_defs = on_roster_leave_removed_def release_request_days_def edit_request_def
  write_leave_day_def create_employee_leaves_def delete_employee_leave_def
  create_holiday_def delete_holiday_def update_leave_type_color_def

end
