(* ===== verification/LeaveService.thy ===== *)
theory LeaveService
  imports LeaveRoster
begin

text \<open>
  The leave subsystem as a whole: the LINE handlers and endpoints that call the services
  (\<open>_messages\<close> and \<open>handle_event\<close> of \<open>staff_leave.py\<close>, the installed \<open>messages\<close> of
  \<open>staff_leave_options.py\<close> and \<open>staff_leave_manage.py\<close>, \<open>review\<close> of \<open>app/api/staff_leave.py\<close>),
  as one machine over the leave tables, and the invariant every one of them keeps.
\<close>

section \<open>Handlers\<close>

definition employee_for_event :: "leave_db \<Rightarrow> str option \<Rightarrow> employee option" where
  "employee_for_event db uid =
     (if \<not> truthy uid then None
      else first (\<lambda>e. line_user_id e = uid \<and> is_active e \<and> \<not> pending_approval e) (employees db))"

datatype line_result = NotLinked | Refused leave_error | Shown "staff_leave_request option"

definition with_employee ::
  "leave_db \<Rightarrow> str option \<Rightarrow> (employee \<Rightarrow> leave_db \<times> line_result) \<Rightarrow> leave_db \<times> line_result" where
  "with_employee db uid f =
     (case employee_for_event db uid of None \<Rightarrow> (db, NotLinked) | Some e \<Rightarrow> f e)"

definition line_submit ::
  "env \<Rightarrow> date \<Rightarrow> dtime \<Rightarrow> employee \<Rightarrow> str \<Rightarrow> str \<Rightarrow> date \<Rightarrow> date \<Rightarrow> leave_db
   \<Rightarrow> leave_db \<times> line_result" where
  "line_submit env today now e rid kind a b db =
     (if kind \<notin> set TYPES then (db, Refused BadKind)
      else case submit today now e rid kind a b db of
        (db1, Inl err) \<Rightarrow> (db1, Refused err)
      | (db1, Inr row) \<Rightarrow>
          (case maybe_auto_approve env now row db1 of (db2, res) \<Rightarrow> (db2, Shown res)))"

definition line_submit_half ::
  "env \<Rightarrow> date \<Rightarrow> dtime \<Rightarrow> employee \<Rightarrow> str \<Rightarrow> str \<Rightarrow> date \<Rightarrow> portion \<Rightarrow> leave_db
   \<Rightarrow> leave_db \<times> line_result" where
  "line_submit_half env today now e rid kind d p db =
     (case submit_half env today now e rid kind d p db of
        (db1, Inl err) \<Rightarrow> (db1, Refused err)
      | (db1, Inr res) \<Rightarrow> (db1, Shown res))"

definition line_cancel ::
  "dtime \<Rightarrow> employee \<Rightarrow> str \<Rightarrow> int \<Rightarrow> leave_db \<Rightarrow> leave_db \<times> line_result" where
  "line_cancel now e rid expected db =
     (case get_request db rid of
        None \<Rightarrow> (db, Refused NotYourRequest)
      | Some row \<Rightarrow>
          if sr_badge row \<noteq> badge_number e then (db, Refused NotYourRequest)
          else if sr_status row = LeaveCancelled \<and> sr_version row = expected + 1
          then (db, Shown (Some row))
          else if \<not> is_cancellable db (Some row) expected then (db, Refused RequestChanged)
          else (case cancel now (badge_number e) rid db of
                  (db', Inl err) \<Rightarrow> (db', Refused err)
                | (db', Inr r) \<Rightarrow> (db', Shown (Some r))))"

definition line_edit ::
  "env \<Rightarrow> date \<Rightarrow> dtime \<Rightarrow> employee \<Rightarrow> str \<Rightarrow> int \<Rightarrow> str \<Rightarrow> date \<Rightarrow> date \<Rightarrow> portion \<Rightarrow> leave_db
   \<Rightarrow> leave_db \<times> line_result" where
  "line_edit env today now e rid expected kind a b p db =
     (if (case get_request db rid of None \<Rightarrow> True | Some row \<Rightarrow> sr_badge row \<noteq> badge_number e)
      then (db, Refused NotYourRequest)
      else if kind \<notin> set TYPES then (db, Refused BadKind)
      else case validate_dates today a b of
        Some err \<Rightarrow> (db, Refused err)
      | None \<Rightarrow>
          (case edit_request today now e rid expected kind a b p db of
             (db1, Inl err) \<Rightarrow> (db1, Refused err)
           | (db1, Inr row) \<Rightarrow>
               (case maybe_auto_approve env now row db1 of (db2, res) \<Rightarrow> (db2, Shown res))))"

text \<open>The image branch of \<open>handle_event\<close>; the download yields the normalised JPEG and its digest.\<close>

definition line_image ::
  "env \<Rightarrow> dtime \<Rightarrow> employee \<Rightarrow> leave_error + str \<times> str \<times> str \<Rightarrow> leave_db
   \<Rightarrow> leave_db \<times> line_result" where
  "line_image env now e download db =
     (case medical_target db e of
        None \<Rightarrow> (db, Refused NoSuchRequest)
      | Some row \<Rightarrow>
          (case download of
             Inl err \<Rightarrow> (db, Refused err)
           | Inr (content, ctype, digest) \<Rightarrow>
               (case attach_medical_certificate now row content ctype digest db of
                  (db1, Inl err) \<Rightarrow> (db1, Refused err)
                | (db1, Inr None) \<Rightarrow> (db1, Shown None)
                | (db1, Inr (Some r)) \<Rightarrow>
                    (case maybe_auto_approve env now r db1 of (db2, res) \<Rightarrow> (db2, Shown res)))))"

datatype review_result = Forbidden | Conflict leave_error | Reviewed staff_leave_request

definition ORIGIN :: str where "ORIGIN = ''https://erp.thehfhotel.org''"

definition review ::
  "dtime \<Rightarrow> str \<Rightarrow> str option \<Rightarrow> str option \<Rightarrow> str \<Rightarrow> str \<Rightarrow> int \<Rightarrow> leave_db
   \<Rightarrow> leave_db \<times> review_result" where
  "review now action origin manager rid decision version db =
     (if \<not> truthy manager then (db, Forbidden)
      else if action \<noteq> ''review'' \<or> (case origin of None \<Rightarrow> ORIGIN | Some s \<Rightarrow> s) \<noteq> ORIGIN
      then (db, Forbidden)
      else (case decide now rid decision version (or_else manager []) db of
              (db', Inl err) \<Rightarrow> (db, Conflict err)
            | (db', Inr r) \<Rightarrow> (db', Reviewed r)))"

section \<open>The machine\<close>

datatype leave_op =
    LineSubmit env date dtime "str option" str str date date
  | LineSubmitHalf env date dtime "str option" str str date portion
  | LineCancel dtime "str option" str int
  | LineEdit env date dtime "str option" str int str date date portion
  | LineImage env dtime "str option" "leave_error + str \<times> str \<times> str"
  | ManagerReview dtime str "str option" "str option" str str int
  | AdminCreate dtime leave_in
  | AdminDelete dtime str date
  | HolidayCreate date str
  | HolidayDelete date
  | LeaveColor str "str option"

datatype leave_out =
    LineOut line_result | ReviewOut review_result | AdminOut "http_error + unit" | NoContent

fun leave_step :: "leave_db \<Rightarrow> leave_op \<Rightarrow> leave_db \<times> leave_out" where
  "leave_step db (LineSubmit env today now uid rid kind a b) =
     (case with_employee db uid (\<lambda>e. line_submit env today now e rid kind a b db) of
        (db', r) \<Rightarrow> (db', LineOut r))"
| "leave_step db (LineSubmitHalf env today now uid rid kind d p) =
     (case with_employee db uid (\<lambda>e. line_submit_half env today now e rid kind d p db) of
        (db', r) \<Rightarrow> (db', LineOut r))"
| "leave_step db (LineCancel now uid rid expected) =
     (case with_employee db uid (\<lambda>e. line_cancel now e rid expected db) of
        (db', r) \<Rightarrow> (db', LineOut r))"
| "leave_step db (LineEdit env today now uid rid expected kind a b p) =
     (case with_employee db uid (\<lambda>e. line_edit env today now e rid expected kind a b p db) of
        (db', r) \<Rightarrow> (db', LineOut r))"
| "leave_step db (LineImage env now uid download) =
     (case with_employee db uid (\<lambda>e. line_image env now e download db) of
        (db', r) \<Rightarrow> (db', LineOut r))"
| "leave_step db (ManagerReview now action origin manager rid decision version) =
     (case review now action origin manager rid decision version db of
        (db', r) \<Rightarrow> (db', ReviewOut r))"
| "leave_step db (AdminCreate now body) =
     (case create_employee_leaves now body db of (db', r) \<Rightarrow> (db', AdminOut r))"
| "leave_step db (AdminDelete now badge d) = (delete_employee_leave now badge d db, NoContent)"
| "leave_step db (HolidayCreate d name) = (create_holiday d name db, NoContent)"
| "leave_step db (HolidayDelete d) = (delete_holiday d db, NoContent)"
| "leave_step db (LeaveColor code color) =
     (case update_leave_type_color code color db of
        (db', r) \<Rightarrow> (db', AdminOut (map_sum id (\<lambda>_. ()) r)))"

section \<open>The invariant\<close>

definition live :: "staff_leave_request \<Rightarrow> bool" where
  "live r = (sr_status r \<in> {LeavePending, LeaveApproved})"

definition days_owned :: "staff_leave_request list \<Rightarrow> staff_leave_day list \<Rightarrow> bool" where
  "days_owned rs ds \<longleftrightarrow> (\<forall>d \<in> set ds. \<exists>r \<in> set rs. sr_id r = sd_request_id d
     \<and> sr_badge r = sd_badge d \<and> sr_from r \<le> sd_date d \<and> sd_date d \<le> sr_to r \<and> live r)"

definition request_ok :: "staff_leave_request \<Rightarrow> bool" where
  "request_ok r \<longleftrightarrow> sr_from r \<le> sr_to r \<and> (sr_portion r \<noteq> Full \<longrightarrow> sr_from r = sr_to r)
     \<and> (sr_status r = LeaveApproved \<longrightarrow> medical_certificate_required r \<longrightarrow> truthy (sr_cert r))"

definition leave_inv :: "leave_db \<Rightarrow> bool" where
  "leave_inv db \<longleftrightarrow> leave_keys_ok db \<and> days_owned (requests db) (leave_days db)
     \<and> (\<forall>r \<in> set (requests db). request_ok r)"

lemma leave_inv_keys:
  assumes "leave_inv db"
  shows "distinct (map el_key (leaves db))" "distinct (map sr_id (requests db))"
    "distinct (map sd_key (leave_days db))"
  using assms by (auto simp: leave_inv_def leave_keys_ok_def)

lemma same_id_same_row:
  assumes "leave_inv db" "get_request db rid = Some row" "y \<in> set (requests db)" "sr_id y = rid"
  shows "y = row"
proof -
  have "get_request db rid = Some y"
    using assms(3,4) leave_inv_keys(2) [OF assms(1)] by (simp add: get_request_iff)
  with assms(2) show ?thesis by simp
qed

text \<open>
  The shape every update of a request has: the rows that match are replaced by rows with
  the same id, badge and dates, and a day row may only stay if its request stays live.
\<close>

lemma leave_inv_update:
  assumes inv: "leave_inv db"
    and rs: "requests db' = update_where P g (requests db)"
    and key: "\<And>r. sr_id (g r) = sr_id r \<and> sr_badge (g r) = sr_badge r
      \<and> sr_from (g r) = sr_from r \<and> sr_to (g r) = sr_to r"
    and ok: "\<And>r. r \<in> set (requests db) \<Longrightarrow> P r \<Longrightarrow> request_ok (g r)"
    and days: "set (leave_days db') \<subseteq> set (leave_days db)" "distinct (map sd_key (leave_days db'))"
    and live: "\<And>r d. r \<in> set (requests db) \<Longrightarrow> P r \<Longrightarrow> d \<in> set (leave_days db')
      \<Longrightarrow> sd_request_id d = sr_id r \<Longrightarrow> live (g r)"
    and ls: "distinct (map el_key (leaves db'))"
    and rest: "employees db' = employees db" "holidays db' = holidays db"
      "leave_types db' = leave_types db"
  shows "leave_inv db'"
proof -
  have ids: "map sr_id (requests db') = map sr_id (requests db)"
    unfolding rs by (rule keys_update_where) (simp add: key)
  have "days_owned (requests db') (leave_days db')"
    unfolding days_owned_def
  proof
    fix d assume d: "d \<in> set (leave_days db')"
    with days(1) have "d \<in> set (leave_days db)" by blast
    then obtain r where r: "r \<in> set (requests db)" "sr_id r = sd_request_id d"
        "sr_badge r = sd_badge d" "sr_from r \<le> sd_date d" "sd_date d \<le> sr_to r" "live r"
      using inv unfolding leave_inv_def days_owned_def by blast
    then have "(if P r then g r else r) \<in> set (requests db')" by (simp add: rs)
    moreover have "live (if P r then g r else r)" using live r d by auto
    ultimately show "\<exists>r \<in> set (requests db'). sr_id r = sd_request_id d
       \<and> sr_badge r = sd_badge d \<and> sr_from r \<le> sd_date d \<and> sd_date d \<le> sr_to r \<and> live r"
      using r key by (intro bexI [of _ "if P r then g r else r"]) auto
  qed
  moreover have "\<forall>r \<in> set (requests db'). request_ok r"
    using inv ok by (auto simp: rs leave_inv_def)
  ultimately show ?thesis
    using inv days(2) ls rest by (simp add: leave_inv_def leave_keys_ok_def ids)
qed

lemma leave_inv_frame:
  assumes "leave_inv db" "requests db' = requests db" "set (leave_days db') \<subseteq> set (leave_days db)"
    "distinct (map sd_key (leave_days db'))" "distinct (map el_key (leaves db'))"
    "employees db' = employees db" "distinct (map ph_date (holidays db'))"
    "distinct (map lt_code (leave_types db'))"
  shows "leave_inv db'"
  using assms by (auto simp: leave_inv_def leave_keys_ok_def days_owned_def)

lemma days_for_keys [simp]: "distinct (map sd_key (days_for badge rid a b))"
  by (auto simp: days_for_def sd_key_def comp_def distinct_map inj_on_def)

lemma leaves_for_keys [simp]: "distinct (map el_key (leaves_for r))"
  by (auto simp: leaves_for_def el_key_def comp_def distinct_map inj_on_def)

lemma set_days_for:
  "d \<in> set (days_for badge rid a b) \<longleftrightarrow>
     sd_badge d = badge \<and> sd_request_id d = rid \<and> a \<le> sd_date d \<and> sd_date d \<le> b"
  by (cases d) (auto simp: days_for_def)

lemma validate_dates_None: "validate_dates today a b = None \<Longrightarrow> a \<le> b"
  by (auto simp: validate_dates_def split: if_splits)

section \<open>Each operation keeps it\<close>

lemma submit_inv:
  assumes inv: "leave_inv db" and step: "submit today now e rid kind a b db = (db', r)"
  shows "leave_inv db'"
proof (cases "db' = db")
  case True
  with inv show ?thesis by simp
next
  case False
  define row where "row = new_request e rid kind a b now"
  from False step obtain rs ds where
    v: "validate_dates today a b = None"
    and rs: "insert_unique sr_id row (requests db) = Some rs"
    and ds: "insert_all sd_key (days_for (badge_number e) rid a b) (leave_days db) = Some ds"
    and db': "db' = db\<lparr>requests := rs, leave_days := ds\<rparr>"
    by (auto simp: submit_def row_def Let_def split: if_splits option.splits)
  have rs': "rs = requests db @ [row]" using rs by (auto simp: insert_unique_def split: if_splits)
  have ds': "ds = leave_days db @ days_for (badge_number e) rid a b"
    using ds by (simp add: insert_all_Some_iff)
  have row: "sr_id row = rid" "sr_badge row = badge_number e" "sr_from row = a" "sr_to row = b"
      "live row" "request_ok row"
    using validate_dates_None [OF v] by (auto simp: row_def new_request_def live_def request_ok_def)
  have "days_owned rs ds"
    using inv row by (auto simp: leave_inv_def days_owned_def rs' ds' set_days_for)
  then show ?thesis
    using inv row insert_unique_distinct [OF rs] insert_all_distinct [OF ds] rs'
    by (auto simp: leave_inv_def leave_keys_ok_def db')
qed

lemma cancel_inv:
  assumes inv: "leave_inv db" and step: "cancel now badge rid db = (db', r)"
  shows "leave_inv db'"
proof (cases "db' = db")
  case True
  with inv show ?thesis by simp
next
  case False
  note k = leave_inv_keys [OF inv]
  show ?thesis
    using step False k inv
    by (auto simp: cancel_def Let_def split: option.splits if_splits
        intro!: leave_inv_update [OF inv, where g = "cancelled_row now"] distinct_delete_where)
      (auto simp: cancelled_row_def request_ok_def leave_inv_def)
qed

lemma decided_row_simps [simp]:
  "sr_id (decided_row a w now r) = sr_id r" "sr_badge (decided_row a w now r) = sr_badge r"
  "sr_from (decided_row a w now r) = sr_from r" "sr_to (decided_row a w now r) = sr_to r"
  "sr_cert (decided_row a w now r) = sr_cert r" "sr_portion (decided_row a w now r) = sr_portion r"
  "sr_leave_type (decided_row a w now r) = sr_leave_type r"
  "sr_status (decided_row a w now r) = (if a then LeaveApproved else LeaveRejected)"
  "sr_version (decided_row a w now r) = sr_version r + 1"
  "sr_reviewed_by (decided_row a w now r) = Some w"
  "sr_created_at (decided_row a w now r) = sr_created_at r"
  "medical_certificate_required (decided_row a w now r) = medical_certificate_required r"
  by (simp_all add: decided_row_def medical_certificate_required_def calendar_days_def)

lemma decided_row_ok:
  "request_ok r \<Longrightarrow> (a \<longrightarrow> medical_certificate_required r \<longrightarrow> truthy (sr_cert r))
   \<Longrightarrow> request_ok (decided_row a w now r)"
  by (auto simp: request_ok_def)

text \<open>
  What a call that returns has done: the one pending row with the expected version is
  decided, an approval adds the roster rows of the request, a rejection frees its days.
\<close>

definition recorded_leaves :: "staff_leave_request \<Rightarrow> employee_leave list" where
  "recorded_leaves r = (if sr_portion r = Full then leaves_for r
     else [\<lparr>el_badge = sr_badge r, el_date = sr_from r, el_leave_type = sr_leave_type r,
            el_note = Some (half_note (reference r) (sr_portion r))\<rparr>])"

definition decided_db ::
  "bool \<Rightarrow> str \<Rightarrow> dtime \<Rightarrow> staff_leave_request \<Rightarrow> leave_db \<Rightarrow> leave_db" where
  "decided_db approve w now row db =
     (let db1 = db\<lparr>requests := update_where (\<lambda>r. sr_id r = sr_id row) (decided_row approve w now)
            (requests db)\<rparr>
      in if approve then db1\<lparr>leaves := leaves db @ recorded_leaves row\<rparr>
         else db1\<lparr>leave_days := delete_where (\<lambda>d. sd_request_id d = sr_id row) (leave_days db)\<rparr>)"

definition free_of_leaves :: "leave_db \<Rightarrow> staff_leave_request \<Rightarrow> bool" where
  "free_of_leaves db r \<longleftrightarrow> (\<forall>l \<in> set (leaves db). el_badge l = sr_badge r \<longrightarrow>
     \<not> (sr_from r \<le> el_date l \<and> el_date l \<le> sr_to r))"

lemma roster_conflict_iff:
  "roster_conflict db (sr_badge r) (sr_from r) (sr_to r) \<longleftrightarrow> \<not> free_of_leaves db r"
  by (auto simp: roster_conflict_def free_of_leaves_def first_None)

lemma decide_Inl: "decide now rid dec v w db = (db', Inl e) \<Longrightarrow> db' = db"
  by (auto simp: decide_def decide_full_def decide_half_def Let_def
      split: option.splits if_splits)

lemma hit_unique:
  assumes keys: "distinct (map sr_id (requests db))" and row: "get_request db rid = Some row"
    and one: "count_where (\<lambda>r. sr_id r = rid \<and> Q r) (requests db) = 1"
  shows "Q row" "update_where (\<lambda>r. sr_id r = rid \<and> Q r) g (requests db)
    = update_where (\<lambda>r. sr_id r = rid) g (requests db)"
proof -
  have "first (\<lambda>r. sr_id r = rid) (requests db) = Some row" using row by (simp only: get_request_def)
  with count_key [OF keys, of rid Q] one have "(if Q row then 1 else 0) = (1::nat)" by simp
  then show "Q row" by (cases "Q row") simp_all
  have "r = row" if "r \<in> set (requests db)" "sr_id r = rid" for r
    using that row keys by (simp add: get_request_iff distinct_map inj_on_def)
  with \<open>Q row\<close> show "update_where (\<lambda>r. sr_id r = rid \<and> Q r) g (requests db)
    = update_where (\<lambda>r. sr_id r = rid) g (requests db)"
    by (auto simp: update_where_def)
qed

lemma decide_full_Inr:
  assumes keys: "distinct (map sr_id (requests db))" and row: "get_request db rid = Some row"
    and full: "sr_portion row = Full"
    and step: "decide_full now rid dec v w db = (db', Inr r)"
  shows "sr_status row = LeavePending \<and> sr_version row = v \<and> w \<noteq> []
    \<and> dec \<in> {''approved'', ''rejected''}
    \<and> r = decided_row (dec = ''approved'') w now row
    \<and> db' = decided_db (dec = ''approved'') w now row db
    \<and> (dec = ''approved'' \<longrightarrow> free_of_leaves db row \<and> active_employee db (sr_badge row) \<noteq> None
         \<and> (medical_certificate_required row \<longrightarrow> truthy (sr_cert row)))"
proof -
  have id: "sr_id row = rid" using get_request_Some [OF row] by simp
  from step row have one: "count_where (\<lambda>r. sr_id r = rid
      \<and> (sr_status r = LeavePending \<and> sr_version r = v)) (requests db) = 1"
    by (auto simp: decide_full_def Let_def split: if_splits option.splits)
  note hit = hit_unique [OF keys row one]
  show ?thesis
    using step row hit full
    by (auto simp: decide_full_def Let_def decided_db_def recorded_leaves_def id insert_all_Some_iff
        free_of_leaves_def roster_conflict_def first_None split: if_splits option.splits)
qed

lemma decide_half_Inr:
  assumes keys: "distinct (map sr_id (requests db))" and row: "get_request db rid = Some row"
    and half: "sr_portion row \<noteq> Full" "sr_from row = sr_to row"
    and step: "decide_half now row dec v w db = (db', Inr r)"
  shows "sr_status row = LeavePending \<and> sr_version row = v \<and> w \<noteq> []
    \<and> dec \<in> {''approved'', ''rejected''}
    \<and> r = decided_row (dec = ''approved'') w now row
    \<and> db' = decided_db (dec = ''approved'') w now row db
    \<and> (dec = ''approved'' \<longrightarrow> free_of_leaves db row \<and> active_employee db (sr_badge row) \<noteq> None
         \<and> (medical_certificate_required row \<longrightarrow> truthy (sr_cert row)))"
proof -
  have id: "sr_id row = rid" using get_request_Some [OF row] by simp
  from step have one: "count_where (\<lambda>r. sr_id r = rid
      \<and> (sr_status r = LeavePending \<and> sr_version r = v)) (requests db) = 1"
    by (auto simp: decide_half_def Let_def id split: if_splits option.splits)
  note hit = hit_unique [OF keys row one]
  have nocert: "\<not> medical_certificate_required row"
    using half(1) by (cases "sr_portion row") (auto simp: medical_certificate_required_def calendar_days_def)
  show ?thesis
    using step hit half nocert
    by (auto simp: decide_half_def Let_def decided_db_def recorded_leaves_def id insert_unique_def
        free_of_leaves_def first_None split: if_splits option.splits)
qed

lemma decide_Inr:
  assumes inv: "leave_inv db" and step: "decide now rid dec v w db = (db', Inr r)"
  obtains row where "get_request db rid = Some row" "sr_status row = LeavePending"
    "sr_version row = v" "w \<noteq> []" "dec \<in> {''approved'', ''rejected''}"
    "r = decided_row (dec = ''approved'') w now row"
    "db' = decided_db (dec = ''approved'') w now row db"
    "dec = ''approved'' \<Longrightarrow> free_of_leaves db row \<and> active_employee db (sr_badge row) \<noteq> None
       \<and> (medical_certificate_required row \<longrightarrow> truthy (sr_cert row))"
proof -
  obtain row where row: "get_request db rid = Some row"
    using step by (auto simp: decide_def decide_full_def split: option.splits if_splits)
  have ok: "request_ok row" using inv get_request_Some [OF row] by (simp add: leave_inv_def)
  note keys = leave_inv_keys(2) [OF inv]
  show thesis
  proof (cases "sr_portion row = Full")
    case True
    then show thesis
      using that [OF row] step row decide_full_Inr [OF keys row True] by (simp add: decide_def)
  next
    case False
    then have "sr_portion row \<in> {AM, PM}" by (cases "sr_portion row") auto
    then show thesis
      using that [OF row] step row ok decide_half_Inr [OF keys row False]
      by (simp add: decide_def request_ok_def False)
  qed
qed

lemma recorded_leaves_keys:
  assumes inv: "leave_inv db" and row: "row \<in> set (requests db)" and free: "free_of_leaves db row"
  shows "distinct (map el_key (leaves db @ recorded_leaves row))"
proof -
  have "request_ok row" using inv row by (simp add: leave_inv_def)
  then show ?thesis
    using leave_inv_keys(1) [OF inv] free
    by (auto simp: recorded_leaves_def leaves_for_def request_ok_def free_of_leaves_def el_key_def
        distinct_map inj_on_def)
qed

lemma decided_db_inv:
  assumes inv: "leave_inv db" and row: "row \<in> set (requests db)"
    and ok: "a \<longrightarrow> free_of_leaves db row \<and> (medical_certificate_required row \<longrightarrow> truthy (sr_cert row))"
  shows "leave_inv (decided_db a w now row db)"
proof (rule leave_inv_update [OF inv, where P = "\<lambda>r. sr_id r = sr_id row" and g = "decided_row a w now"])
  fix r assume "r \<in> set (requests db)" "sr_id r = sr_id row"
  then have "r = row" using leave_inv_keys(2) [OF inv] row by (simp add: distinct_map inj_on_def)
  with ok inv row show "request_ok (decided_row a w now r)"
    by (intro decided_row_ok) (auto simp: leave_inv_def)
next
  show "distinct (map el_key (leaves (decided_db a w now row db)))"
    using recorded_leaves_keys [OF inv row] ok leave_inv_keys(1) [OF inv]
    by (simp add: decided_db_def Let_def del: map_append)
next
  show "distinct (map sd_key (leave_days (decided_db a w now row db)))"
    using leave_inv_keys(3) [OF inv] by (simp add: decided_db_def Let_def distinct_delete_where)
qed (auto simp: decided_db_def Let_def live_def split: if_splits)

lemma decide_inv:
  assumes inv: "leave_inv db" and step: "decide now rid dec v w db = (db', r)"
  shows "leave_inv db'"
proof (cases r)
  case (Inl e)
  with step inv decide_Inl show ?thesis by blast
next
  case (Inr x)
  from step [unfolded Inr] obtain row where "get_request db rid = Some row"
    "db' = decided_db (dec = ''approved'') w now row db"
    "dec = ''approved'' \<Longrightarrow> free_of_leaves db row
       \<and> (medical_certificate_required row \<longrightarrow> truthy (sr_cert row))"
    using inv by (auto elim!: decide_Inr)
  with inv show ?thesis using decided_db_inv get_request_Some by blast
qed

lemma maybe_auto_approve_inv:
  "leave_inv db \<Longrightarrow> maybe_auto_approve env now row db = (db', r) \<Longrightarrow> leave_inv db'"
  by (auto simp: maybe_auto_approve_def split: if_splits prod.splits sum.splits dest: decide_inv)

lemma submit_Inr:
  assumes "submit today now e rid kind a b db = (db', Inr r)" and "get_request db rid = None"
  shows "r = new_request e rid kind a b now \<and> id_re rid \<and> kind \<in> set TYPES
    \<and> is_active e \<and> \<not> pending_approval e \<and> validate_dates today a b = None
    \<and> \<not> roster_conflict db (badge_number e) a b
    \<and> set (map sd_key (days_for (badge_number e) rid a b)) \<inter> set (map sd_key (leave_days db)) = {}
    \<and> db' = db\<lparr>requests := requests db @ [r],
               leave_days := leave_days db @ days_for (badge_number e) rid a b\<rparr>"
  using assms
  by (auto simp: submit_def submit_conflict_def Let_def insert_all_Some_iff insert_unique_def
      split: option.splits if_splits)

lemma submit_half_inv:
  assumes inv: "leave_inv db" and step: "submit_half env today now e rid kind d p db = (db', r)"
  shows "leave_inv db'"
proof (cases "get_request db rid")
  case (Some x)
  with inv step show ?thesis
    by (auto simp: submit_half_def split: if_splits prod.splits dest: maybe_auto_approve_inv)
next
  case None
  show ?thesis
  proof (cases "submit today now e rid kind d d db")
    case (Pair db1 res)
    note inv1 = submit_inv [OF inv Pair]
    show ?thesis
    proof (cases res)
      case (Inl err)
      with Pair None step inv1 show ?thesis by (simp add: submit_half_def)
    next
      case (Inr row)
      define row' where "row' = row\<lparr>sr_portion := p, sr_updated_at := now\<rparr>"
      have row: "row = new_request e rid kind d d now"
        using submit_Inr [OF Pair [unfolded Inr] None] by simp
      have "leave_inv (db1\<lparr>requests := update_where (\<lambda>r. sr_id r = rid) (\<lambda>_. row') (requests db1)\<rparr>)"
      proof -
        have db1: "db1 = db\<lparr>requests := requests db @ [row],
               leave_days := leave_days db @ days_for (badge_number e) rid d d\<rparr>"
          using submit_Inr [OF Pair [unfolded Inr] None] by simp
        have old: "sr_id x \<noteq> rid" if "x \<in> set (requests db)" for x
          using None that by (auto simp: get_request_def first_None)
        then have "update_where (\<lambda>r. sr_id r = rid) (\<lambda>_. row') (requests db1) = requests db @ [row']"
          by (auto simp: db1 update_where_def row new_request_def intro: map_idI)
        then show ?thesis
          using inv1 unfolding db1 leave_inv_def leave_keys_ok_def days_owned_def
          by (auto simp: row'_def row new_request_def request_ok_def live_def)
      qed
      with Pair Inr None step show ?thesis
        by (auto simp: submit_half_def row'_def Let_def split: prod.splits
            dest: maybe_auto_approve_inv)
    qed
  qed
qed

lemma attach_inv:
  assumes inv: "leave_inv db"
    and step: "attach_medical_certificate now row c t g db = (db', r)"
  shows "leave_inv db'"
proof (cases "db' = db")
  case False
  note k = leave_inv_keys [OF inv]
  show ?thesis
    using step False k inv
    by (auto simp: attach_medical_certificate_def Let_def split: if_splits
        intro!: leave_inv_update [OF inv,
          where g = "\<lambda>r. r\<lparr>sr_cert := Some c, sr_cert_type := Some t, sr_cert_sha256 := Some g,
              sr_cert_uploaded_at := Some now, sr_version := sr_version r + 1, sr_updated_at := now\<rparr>"])
      (auto simp: request_ok_def leave_inv_def live_def)
qed (use inv in simp)

lemma on_roster_leave_removed_inv:
  assumes inv: "leave_inv db"
  shows "leave_inv (on_roster_leave_removed now badge d note db)"
proof -
  note k = leave_inv_keys [OF inv]
  define db1 where "db1 rid = db\<lparr>leave_days := delete_where
      (\<lambda>x. sd_request_id x = rid \<and> sd_date x = d) (leave_days db)\<rparr>" for rid
  have inv1: "leave_inv (db1 rid)" for rid
    by (rule leave_inv_frame [OF inv])
      (use k inv in \<open>auto simp: db1_def distinct_delete_where leave_inv_def leave_keys_ok_def\<close>)
  have "leave_inv (release_request_days ((db1 rid)\<lparr>requests :=
      update_where (\<lambda>r. sr_id r = rid) (roster_ended_row now) (requests (db1 rid))\<rparr>) row)"
    if "sr_id row = rid" for rid row
    by (rule leave_inv_update [OF inv1, where P = "\<lambda>r. sr_id r = rid" and g = "roster_ended_row now"])
      (use k inv that in \<open>auto simp: roster_ended_row_def release_request_days_def db1_def
         request_ok_def leave_inv_def distinct_delete_where\<close>)
  then show ?thesis
    using inv inv1
    by (auto simp: on_roster_leave_removed_def Let_def db1_def dest: get_request_Some
        split: option.splits)
qed

lemma edit_request_inv:
  assumes inv: "leave_inv db"
    and step: "edit_request today now e rid v kind a b p db = (db', r)"
  shows "leave_inv db'"
proof (cases "db' = db")
  case False
  note k = leave_inv_keys [OF inv]
  let ?rest = "delete_where (\<lambda>d. sd_request_id d = rid) (leave_days db)"
  from False step obtain row ds where
    v: "validate_dates today a b = None" and half: "p \<noteq> Full \<longrightarrow> a = b"
    and row: "get_request db rid = Some row" "sr_badge row = badge_number e"
      "sr_status row = LeavePending"
    and ds: "insert_all sd_key (days_for (badge_number e) rid a b) ?rest = Some ds"
    and db': "db' = db\<lparr>leave_days := ds,
        requests := update_where (\<lambda>r. sr_id r = rid) (edited_row now kind a b p) (requests db)\<rparr>"
    by (auto simp: edit_request_def Let_def dest: get_request_Some split: if_splits option.splits)
  have this_row: "x = row" if "x \<in> set (requests db)" "sr_id x = rid" for x
    using that row(1) k(2) by (simp add: get_request_iff distinct_map inj_on_def)
  have ids: "map sr_id (requests db') = map sr_id (requests db)"
    unfolding db' by (simp add: edited_row_def keys_update_where)
  have ds': "ds = ?rest @ days_for (badge_number e) rid a b" using ds by (simp add: insert_all_Some_iff)
  have "days_owned (requests db') ds"
    unfolding days_owned_def
  proof
    fix d assume d: "d \<in> set ds"
    show "\<exists>r \<in> set (requests db'). sr_id r = sd_request_id d \<and> sr_badge r = sd_badge d
      \<and> sr_from r \<le> sd_date d \<and> sd_date d \<le> sr_to r \<and> live r"
    proof (cases "sd_request_id d = rid")
      case True
      with d have "d \<in> set (days_for (badge_number e) rid a b)" by (auto simp: ds')
      moreover have "edited_row now kind a b p row \<in> set (requests db')"
        using get_request_Some [OF row(1)] by (auto simp: db')
      ultimately show ?thesis
        using True row get_request_Some [OF row(1)]
        by (intro bexI [of _ "edited_row now kind a b p row"])
          (auto simp: edited_row_def live_def set_days_for)
    next
      case False
      with d have "d \<in> set (leave_days db)" by (auto simp: ds' set_days_for)
      then obtain r where "r \<in> set (requests db)" "sr_id r = sd_request_id d" "sr_badge r = sd_badge d"
          "sr_from r \<le> sd_date d" "sd_date d \<le> sr_to r" "live r"
        using inv unfolding leave_inv_def days_owned_def by blast
      with False show ?thesis by (intro bexI [of _ r]) (auto simp: db')
    qed
  qed
  moreover have "request_ok r" if "r \<in> set (requests db')" for r
    using that inv validate_dates_None [OF v] half row(3) this_row
    by (auto simp: db' leave_inv_def edited_row_def request_ok_def)
  moreover have "distinct (map sd_key ds)"
    using insert_all_distinct [OF ds] k(3) by (simp add: distinct_delete_where)
  ultimately show ?thesis
    using inv ids by (auto simp: leave_inv_def leave_keys_ok_def db')
qed (use inv in simp)

lemma update_leave_keys:
  "distinct (map el_key ls)
   \<Longrightarrow> distinct (map el_key (update_where P (\<lambda>l. l\<lparr>el_leave_type := k, el_note := n\<rparr>) ls))"
  by (subst keys_update_where) (simp_all add: el_key_def)

lemma write_leave_day_inv:
  assumes inv: "leave_inv db"
  shows "leave_inv (write_leave_day now badge kind bn stored d db)"
proof -
  note k = leave_inv_keys [OF inv]
  have new: "leave_inv (db\<lparr>leaves := leaves db @
      [\<lparr>el_badge = badge, el_date = d, el_leave_type = kind, el_note = stored\<rparr>]\<rparr>)"
    if "first (\<lambda>l. el_key l = (badge, d)) (leaves db) = None"
    by (rule leave_inv_frame [OF inv])
      (use inv that k in \<open>auto simp: leave_inv_def leave_keys_ok_def first_None el_key_def\<close>)
  have over: "leave_inv (db\<lparr>leaves := update_where (\<lambda>l. el_key l = (badge, d))
      (\<lambda>l. l\<lparr>el_leave_type := kind, el_note := n\<rparr>) (leaves db)\<rparr>)" for n
    by (rule leave_inv_frame [OF inv])
      (use inv k in \<open>auto simp: leave_inv_def leave_keys_ok_def update_leave_keys\<close>)
  show ?thesis
    using new over on_roster_leave_removed_inv
    by (simp add: write_leave_day_def Let_def split: option.split)
qed

lemma write_leave_days_inv:
  "leave_inv db \<Longrightarrow> leave_inv (fold (write_leave_day now badge kind bn stored) ds db)"
  by (induction ds arbitrary: db) (auto simp: write_leave_day_inv)

lemma delete_employee_leave_inv:
  assumes inv: "leave_inv db"
  shows "leave_inv (delete_employee_leave now badge d db)"
proof -
  have "leave_inv (db\<lparr>leaves := delete_where (\<lambda>l. el_key l = (badge, d)) (leaves db)\<rparr>)"
    by (rule leave_inv_frame [OF inv])
      (use inv in \<open>auto simp: leave_inv_def leave_keys_ok_def distinct_delete_where\<close>)
  then show ?thesis
    by (auto simp: delete_employee_leave_def Let_def on_roster_leave_removed_inv split: option.split)
qed

lemma calendar_inv:
  assumes inv: "leave_inv db"
  shows "leave_inv (create_holiday d name db)" "leave_inv (delete_holiday d db)"
    "leave_inv (fst (update_leave_type_color code c db))"
proof -
  have k: "distinct (map ph_date (holidays db))" "distinct (map lt_code (leave_types db))"
    using inv by (auto simp: leave_inv_def leave_keys_ok_def)
  have "distinct (map ph_date (update_where (\<lambda>h. ph_date h = d) (ph_name_update (\<lambda>_. name))
      (holidays db)))"
    using k by (subst keys_update_where) auto
  then show "leave_inv (create_holiday d name db)"
    using inv by (auto simp: create_holiday_def leave_inv_def leave_keys_ok_def first_None
        split: option.split)
  show "leave_inv (delete_holiday d db)"
    using inv k by (auto simp: delete_holiday_def leave_inv_def leave_keys_ok_def distinct_delete_where)
  have "distinct (map lt_code (update_where (\<lambda>t. lt_code t = code) (lt_color_update (\<lambda>_. x))
      (leave_types db)))" for x
    using k by (subst keys_update_where) auto
  then show "leave_inv (fst (update_leave_type_color code c db))"
    using inv by (auto simp: update_leave_type_color_def leave_inv_def leave_keys_ok_def Let_def
        split: option.split)
qed

lemmas leave_op_inv = submit_inv cancel_inv decide_inv maybe_auto_approve_inv submit_half_inv
  attach_inv edit_request_inv

lemma create_employee_leaves_inv:
  "leave_inv db \<Longrightarrow> create_employee_leaves now body db = (db', r) \<Longrightarrow> leave_inv db'"
  by (auto simp: create_employee_leaves_def write_leave_days_inv write_leave_day_inv
      split: if_splits option.splits sum.splits prod.splits)

lemma line_inv:
  assumes inv: "leave_inv db"
  shows "leave_inv (fst (line_submit env today now e rid kind a b db))"
    "leave_inv (fst (line_submit_half env today now e rid kind d p db))"
    "leave_inv (fst (line_cancel now e rid v db))"
    "leave_inv (fst (line_edit env today now e rid v kind a b p db))"
    "leave_inv (fst (line_image env now e dl db))"
    "leave_inv (fst (review now act origin m rid dec v db))"
proof -
  show "leave_inv (fst (line_submit env today now e rid kind a b db))"
    using inv by (auto simp: line_submit_def split: prod.splits sum.splits dest: leave_op_inv)
  show "leave_inv (fst (line_submit_half env today now e rid kind d p db))"
    using inv by (auto simp: line_submit_half_def split: prod.splits sum.splits dest: leave_op_inv)
  show "leave_inv (fst (line_cancel now e rid v db))"
    using inv by (auto simp: line_cancel_def split: option.splits prod.splits sum.splits
        dest: leave_op_inv)
  show "leave_inv (fst (line_edit env today now e rid v kind a b p db))"
    using inv by (auto simp: line_edit_def split: option.splits prod.splits sum.splits
        dest: leave_op_inv)
  show "leave_inv (fst (line_image env now e dl db))"
    using inv by (auto simp: line_image_def split: option.splits prod.splits sum.splits
        dest: leave_op_inv)
  show "leave_inv (fst (review now act origin m rid dec v db))"
    using inv by (auto simp: review_def split: option.splits prod.splits sum.splits
        dest: leave_op_inv)
qed

lemma with_employee_inv:
  "leave_inv db \<Longrightarrow> (\<And>e. leave_inv (fst (f e))) \<Longrightarrow> leave_inv (fst (with_employee db uid f))"
  by (auto simp: with_employee_def split: option.split)

lemma leave_step_inv: "leave_inv db \<Longrightarrow> leave_inv (fst (leave_step db op))"
  by (cases op) (auto simp: split_beta line_inv with_employee_inv calendar_inv
      delete_employee_leave_inv intro: create_employee_leaves_inv [OF _ prod.collapse [symmetric]])

interpretation leave_machine: machine leave_step leave_inv
  by unfold_locales (rule leave_step_inv)

end
