(* ===== verification/LeaveLifecycle.thy ===== *)
theory LeaveLifecycle
  imports LeaveService
begin

text \<open>
  What the leave machine guarantees over time: the life of one request (its status, its
  version, its decision) and the reservation of its days.
\<close>

section \<open>The life of a request\<close>

definition lifecycle :: "leave_status \<Rightarrow> leave_status \<Rightarrow> bool" where
  "lifecycle s s' \<longleftrightarrow> s = LeavePending \<or> s' = s \<or> s = LeaveApproved \<and> s' = LeaveCancelled"

definition row_progress :: "staff_leave_request \<Rightarrow> staff_leave_request \<Rightarrow> bool" where
  "row_progress r r' \<longleftrightarrow> (r' = r \<or> sr_version r < sr_version r')
     \<and> sr_badge r' = sr_badge r \<and> sr_created_at r' = sr_created_at r
     \<and> lifecycle (sr_status r) (sr_status r')"

definition progress :: "leave_db \<Rightarrow> leave_db \<Rightarrow> bool" where
  "progress db db' \<longleftrightarrow> (\<forall>rid r. get_request db rid = Some r \<longrightarrow>
     (\<exists>r'. get_request db' rid = Some r' \<and> row_progress r r'))"

lemma lifecycle_refl [simp]: "lifecycle s s"
  by (simp add: lifecycle_def)

lemma lifecycle_trans: "lifecycle a b \<Longrightarrow> lifecycle b c \<Longrightarrow> lifecycle a c"
  by (cases a; cases b; cases c) (auto simp: lifecycle_def)

lemma row_progress_refl [simp]: "row_progress r r"
  by (simp add: row_progress_def)

lemma row_progress_trans: "row_progress a b \<Longrightarrow> row_progress b c \<Longrightarrow> row_progress a c"
  unfolding row_progress_def by (elim conjE disjE) (simp_all add: lifecycle_trans)

lemma progress_refl [simp]: "progress db db"
  by (simp add: progress_def)

lemma progress_trans: "progress a b \<Longrightarrow> progress b c \<Longrightarrow> progress a c"
  unfolding progress_def using row_progress_trans by blast

lemma progress_same: "requests db' = requests db \<Longrightarrow> progress db db'"
  by (simp add: progress_def get_request_def)

lemma progress_append: "requests db' = requests db @ rs \<Longrightarrow> progress db db'"
  by (simp add: progress_def get_request_def first_append)

lemma progress_update:
  assumes "requests db' = update_where P g (requests db)" "\<And>r. sr_id (g r) = sr_id r"
    and "\<And>r. r \<in> set (requests db) \<Longrightarrow> P r \<Longrightarrow> row_progress r (g r)"
  shows "progress db db'"
  using assms
  by (auto simp: progress_def get_request_def first_update_where dest: first_Some)

lemma submit_progress: "submit today now e rid kind a b db = (db', r) \<Longrightarrow> progress db db'"
proof (cases "db' = db")
  case False
  moreover assume "submit today now e rid kind a b db = (db', r)"
  ultimately obtain row where "requests db' = requests db @ [row]"
    by (auto simp: submit_def Let_def insert_unique_def split: option.splits if_splits)
  then show ?thesis by (rule progress_append)
qed simp

lemma cancel_progress: "cancel now badge rid db = (db', r) \<Longrightarrow> progress db db'"
  by (auto simp: cancel_def Let_def cancellable_def cancelled_row_def row_progress_def lifecycle_def
      intro!: progress_update [where g = "cancelled_row now"] split: option.splits if_splits)

lemma decide_progress:
  assumes inv: "leave_inv db" and step: "decide now rid dec v w db = (db', r)"
  shows "progress db db'"
proof (cases r)
  case (Inl e)
  with step decide_Inl show ?thesis by fastforce
next
  case (Inr x)
  from step [unfolded Inr] inv obtain row where row: "get_request db rid = Some row"
    "sr_status row = LeavePending" "db' = decided_db (dec = ''approved'') w now row db"
    by (auto elim: decide_Inr)
  have pend: "sr_status y = LeavePending" if "y \<in> set (requests db)" "sr_id y = sr_id row" for y
    using same_id_same_row [OF inv row(1) that(1)] that(2) row(2) get_request_Some [OF row(1)] by simp
  show ?thesis
    by (rule progress_update [where P = "\<lambda>y. sr_id y = sr_id row"
          and g = "decided_row (dec = ''approved'') w now"])
      (auto simp: row decided_db_def Let_def row_progress_def lifecycle_def pend)
qed

lemma maybe_auto_progress:
  "leave_inv db \<Longrightarrow> maybe_auto_approve env now row db = (db', r) \<Longrightarrow> progress db db'"
  by (auto simp: maybe_auto_approve_def split: if_splits prod.splits sum.splits
      dest: decide_progress)

lemma submit_half_progress:
  assumes inv: "leave_inv db" and step: "submit_half env today now e rid kind d p db = (db', r)"
  shows "progress db db'"
proof (cases "get_request db rid")
  case (Some x)
  with inv step show ?thesis
    by (auto simp: submit_half_def split: if_splits prod.splits dest: maybe_auto_progress)
next
  case None
  show ?thesis
  proof (cases "\<exists>db1 row. submit today now e rid kind d d db = (db1, Inr row)")
    case False
    with None step submit_progress show ?thesis
      by (fastforce simp: submit_half_def split: prod.splits sum.splits)
  next
    case True
    then obtain db1 row where sub: "submit today now e rid kind d d db = (db1, Inr row)" by blast
    let ?row' = "row\<lparr>sr_portion := p, sr_updated_at := now\<rparr>"
    let ?db2 = "db1\<lparr>requests := update_where (\<lambda>r. sr_id r = rid) (\<lambda>_. ?row') (requests db1)\<rparr>"
    note S = submit_Inr [OF sub None]
    have old: "sr_id x \<noteq> rid" if "x \<in> set (requests db)" for x
      using None that by (auto simp: get_request_def first_None)
    then have rs: "requests ?db2 = requests db @ [?row']"
      using S by (auto simp: update_where_def new_request_def intro: map_idI)
    have "progress db ?db2" using rs by (rule progress_append)
    moreover have "submit_half env today now e rid kind d p db =
        (case maybe_auto_approve env now ?row' ?db2 of (db', res) \<Rightarrow> (db', Inr res))"
      using sub None by (simp add: submit_half_def Let_def)
    moreover have "leave_inv ?db2"
    proof -
      have "fst (submit_half (\<lambda>_. Some ''off'') today now e rid kind d p db) = ?db2"
        using sub None by (simp add: submit_half_def Let_def maybe_auto_approve_def
            auto_approve_enabled_def getenv_def strip_def lstrip_def lower_def lower_char_def
            py_space_def)
      then show ?thesis using submit_half_inv [OF inv prod.collapse [symmetric]] by metis
    qed
    ultimately show ?thesis
      using step by (auto split: prod.splits dest: maybe_auto_progress intro: progress_trans)
  qed
qed

lemma attach_progress:
  "attach_medical_certificate now row c t g db = (db', r) \<Longrightarrow> progress db db'"
  by (auto simp: attach_medical_certificate_def Let_def row_progress_def
      intro!: progress_update [where g = "\<lambda>r. r\<lparr>sr_cert := Some c, sr_cert_type := Some t,
        sr_cert_sha256 := Some g, sr_cert_uploaded_at := Some now,
        sr_version := sr_version r + 1, sr_updated_at := now\<rparr>"] split: if_splits)

lemma edit_progress:
  assumes step: "edit_request today now e rid v kind a b p db = (db', r)"
  shows "progress db db'"
proof (cases "db' = db")
  case False
  with step obtain row where row: "get_request db rid = Some row" "sr_status row = LeavePending"
    "requests db' = update_where (\<lambda>r. sr_id r = rid) (edited_row now kind a b p) (requests db)"
    by (auto simp: edit_request_def Let_def split: if_splits option.splits)
  show ?thesis
    by (rule progress_update [OF row(3)]) (auto simp: edited_row_def row_progress_def)
qed simp

lemma on_roster_progress:
  assumes inv: "leave_inv db"
  shows "progress db (on_roster_leave_removed now badge d note db)"
proof -
  have "row_progress y (roster_ended_row now y)"
    if "get_request db rid = Some row" "sr_status row = LeaveApproved" "y \<in> set (requests db)"
      "sr_id y = rid" for rid row y
    using that leave_inv_keys(2) [OF inv]
    by (auto simp: get_request_iff distinct_map inj_on_def row_progress_def roster_ended_row_def
        lifecycle_def)
  then have "progress db db'" if "get_request db rid = Some row" "sr_status row = LeaveApproved"
      "requests db' = update_where (\<lambda>r. sr_id r = rid) (roster_ended_row now) (requests db)"
    for rid row db'
    using that by (intro progress_update [OF that(3)]) (simp_all add: roster_ended_row_def)
  then show ?thesis
    unfolding on_roster_leave_removed_def release_request_days_def
    by (simp add: Let_def progress_same split: option.split)
qed

lemma leave_overwrite_inv:
  assumes inv: "leave_inv db"
  shows "leave_inv (db\<lparr>leaves := update_where (\<lambda>l. el_key l = k)
      (\<lambda>l. l\<lparr>el_leave_type := kind, el_note := n\<rparr>) (leaves db)\<rparr>)"
  by (rule leave_inv_frame [OF inv])
    (use inv in \<open>auto simp: leave_inv_def leave_keys_ok_def update_leave_keys\<close>)

lemma write_leave_day_progress:
  assumes inv: "leave_inv db"
  shows "progress db (write_leave_day now badge kind bn stored d db)"
proof -
  have "progress db (on_roster_leave_removed now badge d old (db\<lparr>leaves := update_where
      (\<lambda>l. el_key l = (badge, d)) (\<lambda>l. l\<lparr>el_leave_type := kind, el_note := n\<rparr>) (leaves db)\<rparr>))"
    for n old
    by (rule progress_trans [OF progress_same on_roster_progress [OF leave_overwrite_inv [OF inv]]]) simp
  then show ?thesis
    by (auto simp: write_leave_day_def Let_def intro: progress_same split: option.split)
qed

lemma write_leave_days_progress:
  "leave_inv db \<Longrightarrow> progress db (fold (write_leave_day now badge kind bn stored) ds db)"
  by (induction ds arbitrary: db)
    (auto intro: progress_trans write_leave_day_progress write_leave_day_inv)

lemma delete_leave_progress:
  assumes inv: "leave_inv db"
  shows "progress db (delete_employee_leave now badge d db)"
proof -
  let ?db1 = "db\<lparr>leaves := delete_where (\<lambda>l. el_key l = (badge, d)) (leaves db)\<rparr>"
  have "leave_inv ?db1"
    by (rule leave_inv_frame [OF inv])
      (use inv in \<open>auto simp: leave_inv_def leave_keys_ok_def distinct_delete_where\<close>)
  then have "progress db (on_roster_leave_removed now badge d old ?db1)" for old
    by (intro progress_trans [OF progress_same on_roster_progress]) simp_all
  then show ?thesis
    by (auto simp: delete_employee_leave_def Let_def intro: progress_same split: option.split)
qed

lemmas service_progress = submit_progress cancel_progress decide_progress maybe_auto_progress
  submit_half_progress attach_progress edit_progress

lemma auto_after:
  assumes "progress db db1" "leave_inv db1"
  shows "progress db (fst (maybe_auto_approve env now row db1))"
  using assms maybe_auto_progress [OF assms(2) prod.collapse [symmetric]] progress_trans by blast

lemma line_progress:
  assumes inv: "leave_inv db"
  shows "progress db (fst (line_submit env today now e rid kind a b db))"
    "progress db (fst (line_submit_half env today now e rid kind d p db))"
    "progress db (fst (line_cancel now e rid v db))"
    "progress db (fst (line_edit env today now e rid v kind a b p db))"
    "progress db (fst (line_image env now e dl db))"
    "progress db (fst (review now act origin m rid dec v db))"
proof -
  show "progress db (fst (line_submit env today now e rid kind a b db))"
  proof (cases "submit today now e rid kind a b db")
    case (Pair db1 res)
    with submit_progress [OF Pair] submit_inv [OF inv Pair] show ?thesis
      by (cases res) (auto simp: line_submit_def split_beta auto_after)
  qed
  show "progress db (fst (line_submit_half env today now e rid kind d p db))"
  proof (cases "submit_half env today now e rid kind d p db")
    case (Pair db1 res)
    with submit_half_progress [OF inv Pair] show ?thesis
      by (cases res) (auto simp: line_submit_half_def)
  qed
  show "progress db (fst (line_cancel now e rid v db))"
  proof (cases "cancel now (badge_number e) rid db")
    case (Pair db1 res)
    with cancel_progress [OF Pair] show ?thesis
      by (cases res) (auto simp: line_cancel_def split: option.split)
  qed
  show "progress db (fst (line_edit env today now e rid v kind a b p db))"
  proof (cases "edit_request today now e rid v kind a b p db")
    case (Pair db1 res)
    with edit_progress [OF Pair] edit_request_inv [OF inv Pair] show ?thesis
      by (cases res) (auto simp: line_edit_def split_beta auto_after split: option.split)
  qed
  show "progress db (fst (line_image env now e dl db))"
  proof (cases "\<exists>row c t g. medical_target db e = Some row \<and> dl = Inr (c, t, g)")
    case True
    then obtain row c t g where m: "medical_target db e = Some row" "dl = Inr (c, t, g)" by blast
    show ?thesis
    proof (cases "attach_medical_certificate now row c t g db")
      case (Pair db1 res)
      with m attach_progress [OF Pair] attach_inv [OF inv Pair] show ?thesis
        by (cases res) (auto simp: line_image_def split_beta auto_after split: option.split)
    qed
  qed (auto simp: line_image_def split: option.split sum.split prod.split)
  show "progress db (fst (review now act origin m rid dec v db))"
    using decide_progress [OF inv]
    by (fastforce simp: review_def split: option.split sum.split prod.split)
qed

lemma leave_step_progress: "leave_inv db \<Longrightarrow> progress db (fst (leave_step db op))"
proof (cases op)
  case (AdminCreate now body)
  assume "leave_inv db"
  with AdminCreate show ?thesis
    by (auto simp: create_employee_leaves_def split_beta write_leave_days_progress
        write_leave_day_progress split: sum.split option.split)
qed (auto simp: split_beta line_progress with_employee_def delete_leave_progress create_holiday_def
    delete_holiday_def update_leave_type_color_def Let_def intro: progress_same split: option.split)

lemma run_progress:
  "leave_inv db \<Longrightarrow> run leave_step db es = (db', tr) \<Longrightarrow> progress db db'"
proof (induction es arbitrary: db tr)
  case (Cons e es)
  obtain db1 out where s: "leave_step db e = (db1, out)" by fastforce
  with Cons.prems obtain tr' where "run leave_step db1 es = (db', tr')" by (blast elim: run_ConsE)
  with Cons.IH leave_step_inv [OF Cons.prems(1), of e] s have "progress db1 db'" by simp
  with leave_step_progress [OF Cons.prems(1), of e] s show ?case by (auto intro: progress_trans)
qed simp

section \<open>A concrete employee\<close>

definition demo_id :: str where "demo_id = ''0123456789abcdef0123456789abcdef''"

definition demo_employee :: employee where
  "demo_employee = \<lparr>badge_number = ''7'', english_name = None, thai_name = None,
     display_name = ''Mali'', department = None, position = None, is_active = True,
     is_hidden = False, line_user_id = Some ''U1'', line_display_name = None,
     line_picture_url = None, line_linking_code = None, line_linking_code_generated_at = None,
     emp_role = None, default_shift_id = None, emp_location = None, email = None,
     pending_approval = False, join_source = ''device'', nfc_card_uid = None\<rparr>"

definition demo_db :: leave_db where
  "demo_db = \<lparr>employees = [demo_employee], leaves = [], requests = [], leave_days = [],
     holidays = [], leave_types = []\<rparr>"

definition auto_off :: env where "auto_off = (\<lambda>_. Some ''off'')"
definition auto_on :: env where "auto_on = (\<lambda>_. None)"

definition demo_request :: staff_leave_request where
  "demo_request = new_request demo_employee demo_id ''personal'' 739000 739001 0"

definition demo_pending :: leave_db where
  "demo_pending = demo_db\<lparr>requests := [demo_request],
     leave_days := days_for ''7'' demo_id 739000 739001\<rparr>"

lemma demo_inv: "leave_inv demo_db"
  by (simp add: leave_inv_def leave_keys_ok_def demo_db_def days_owned_def)

lemma demo_submit:
  "leave_step demo_db (LineSubmit auto_off 739000 0 (Some ''U1'') demo_id ''personal'' 739000 739001)
     = (demo_pending, LineOut (Shown (Some demo_request)))"
  by code_simp

lemma demo_pending_inv: "leave_inv demo_pending"
  using leave_step_inv [OF demo_inv] demo_submit by (metis fst_conv)

definition demo_review :: leave_op where
  "demo_review = ManagerReview 5 ''review'' None (Some ''m@x'') demo_id ''approved'' 1"

section \<open>Properties\<close>



text \<open>The managers' reviews of one request that were accepted, in a trace.\<close>

definition accepted_review :: "str \<Rightarrow> leave_op \<times> leave_out \<Rightarrow> bool" where
  "accepted_review rid e =
     (case e of (ManagerReview now act origin m rid' dec v, ReviewOut (Reviewed r)) \<Rightarrow> rid' = rid
      | _ \<Rightarrow> False)"

definition reviews_of :: "str \<Rightarrow> (leave_op \<times> leave_out) list \<Rightarrow> (leave_op \<times> leave_out) list" where
  "reviews_of rid tr = filter (accepted_review rid) tr"

definition settled :: "leave_db \<Rightarrow> str \<Rightarrow> bool" where
  "settled db rid = (case get_request db rid of None \<Rightarrow> False
     | Some r \<Rightarrow> sr_status r \<noteq> LeavePending)"

lemma settled_progress: "progress db db' \<Longrightarrow> settled db rid \<Longrightarrow> settled db' rid"
proof -
  assume p: "progress db db'" and "settled db rid"
  then obtain r where r: "get_request db rid = Some r" "sr_status r \<noteq> LeavePending"
    by (auto simp: settled_def split: option.splits)
  with p obtain r' where "get_request db' rid = Some r'" "row_progress r r'"
    unfolding progress_def by blast
  with r(2) show ?thesis by (auto simp: settled_def row_progress_def lifecycle_def)
qed

lemma requests_decided_db:
  "requests (decided_db a w now row db)
     = update_where (\<lambda>r. sr_id r = sr_id row) (decided_row a w now) (requests db)"
  by (simp add: decided_db_def Let_def)

lemma first_decided:
  assumes "leave_inv db" "get_request db rid = Some row"
  shows "get_request (decided_db a w now row db) rid = Some (decided_row a w now row)"
  using assms(2) get_request_Some [OF assms(2)]
  by (simp add: get_request_def requests_decided_db first_update_where)

lemma review_Reviewed:
  assumes inv: "leave_inv db"
    and step: "review now act origin m rid dec v db = (db', Reviewed r)"
  shows "\<not> settled db rid \<and> settled db' rid"
proof -
  from step have "decide now rid dec v (or_else m []) db = (db', Inr r)"
    by (auto simp: review_def split: if_splits prod.splits sum.splits)
  with inv obtain row where "get_request db rid = Some row" "sr_status row = LeavePending"
      "db' = decided_db (dec = ''approved'') (or_else m []) now row db"
    by (auto elim: decide_Inr)
  then show ?thesis using first_decided [OF inv] by (simp add: settled_def)
qed

definition review_hist :: "(leave_op \<times> leave_out) list \<Rightarrow> leave_db \<Rightarrow> bool" where
  "review_hist h db \<longleftrightarrow> leave_inv db \<and> (\<forall>rid. length (reviews_of rid h) \<le> 1
     \<and> (reviews_of rid h \<noteq> [] \<longrightarrow> settled db rid))"

lemma review_hist_step:
  assumes h: "review_hist h db" and step: "leave_step db e = (db', out)"
  shows "review_hist (h @ [(e, out)]) db'"
proof -
  have inv: "leave_inv db" using h by (simp add: review_hist_def)
  have prog: "progress db db'" and inv': "leave_inv db'"
    using leave_step_progress [OF inv, of e] leave_step_inv [OF inv, of e] step by simp_all
  have "length (reviews_of rid (h @ [(e, out)])) \<le> 1
     \<and> (reviews_of rid (h @ [(e, out)]) \<noteq> [] \<longrightarrow> settled db' rid)" for rid
  proof (cases "accepted_review rid (e, out)")
    case False
    with h settled_progress [OF prog] show ?thesis
      by (simp add: review_hist_def reviews_of_def)
  next
    case True
    then obtain now act origin m dec v r where e: "e = ManagerReview now act origin m rid dec v"
        "out = ReviewOut (Reviewed r)"
      by (auto simp: accepted_review_def split: leave_op.splits leave_out.splits review_result.splits)
    with step have "review now act origin m rid dec v db = (db', Reviewed r)"
      by (auto split: prod.splits)
    from review_Reviewed [OF inv this] h True show ?thesis
      by (auto simp: review_hist_def reviews_of_def)
  qed
  with inv' show ?thesis by (simp add: review_hist_def)
qed

interpretation reviewed: traced_machine leave_step review_hist
  by unfold_locales (rule review_hist_step)

text \<open>
  C4. A request is reviewed at most once: in any history of the leave subsystem, whatever
  edits, cancellations and roster changes happen in between, at most one manager's
  decision on a given request is accepted.
\<close>

theorem reviewed_at_most_once:
  assumes "leave_inv db" "run leave_step db es = (db', tr)"
  shows "length (reviews_of rid tr) \<le> 1"
proof -
  have "review_hist [] db" using assms(1) by (simp add: review_hist_def reviews_of_def)
  from reviewed.hinv_run [OF this assms(2)] show ?thesis by (simp add: review_hist_def)
qed

theorem reviewed_at_most_once_witness:
  "length (reviews_of demo_id (snd (run leave_step demo_pending [demo_review, demo_review]))) \<le> 1"
  by (rule reviewed_at_most_once [OF demo_pending_inv prod.collapse [symmetric]])

text \<open>
  C3. What the tables promise in every reachable state: a reserved day belongs to exactly one
  request, which is pending or approved, is the same employee's and covers the day; no two
  rows reserve, or take, the same day for an employee; and no approved sick leave of more
  than three days is without its medical certificate.
\<close>

theorem leave_tables_consistent:
  assumes "leave_inv db" "run leave_step db es = (db', tr)"
  shows "(\<forall>d \<in> set (leave_days db'). \<exists>!r. r \<in> set (requests db') \<and> sr_id r = sd_request_id d
        \<and> sr_badge r = sd_badge d \<and> sr_from r \<le> sd_date d \<and> sd_date d \<le> sr_to r
        \<and> sr_status r \<in> {LeavePending, LeaveApproved})
    \<and> distinct (map sd_key (leave_days db')) \<and> distinct (map el_key (leaves db'))
    \<and> (\<forall>r \<in> set (requests db'). sr_status r = LeaveApproved \<longrightarrow>
         medical_certificate_required r \<longrightarrow> truthy (sr_cert r))"
proof -
  have inv: "leave_inv db'" using leave_machine.inv_run assms by blast
  have "\<exists>!r. r \<in> set (requests db') \<and> sr_id r = sd_request_id d
        \<and> sr_badge r = sd_badge d \<and> sr_from r \<le> sd_date d \<and> sd_date d \<le> sr_to r
        \<and> sr_status r \<in> {LeavePending, LeaveApproved}" if day: "d \<in> set (leave_days db')" for d
  proof -
    obtain r where r: "r \<in> set (requests db')" "sr_id r = sd_request_id d" "sr_badge r = sd_badge d"
        "sr_from r \<le> sd_date d" "sd_date d \<le> sr_to r" "live r"
      using inv day unfolding leave_inv_def days_owned_def by blast
    then have get: "get_request db' (sd_request_id d) = Some r"
      using leave_inv_keys(2) [OF inv] by (simp add: get_request_iff)
    show ?thesis
    proof (rule ex1I [of _ r])
      show "r \<in> set (requests db') \<and> sr_id r = sd_request_id d
        \<and> sr_badge r = sd_badge d \<and> sr_from r \<le> sd_date d \<and> sd_date d \<le> sr_to r
        \<and> sr_status r \<in> {LeavePending, LeaveApproved}"
        using r by (simp add: live_def)
    qed (use same_id_same_row [OF inv get] in blast)
  qed
  moreover have "\<forall>r \<in> set (requests db'). sr_status r = LeaveApproved \<longrightarrow>
      medical_certificate_required r \<longrightarrow> truthy (sr_cert r)"
    using inv unfolding leave_inv_def request_ok_def by blast
  ultimately show ?thesis using leave_inv_keys(1,3) [OF inv] by blast
qed

theorem leave_tables_consistent_witness:
  "\<exists>db'. fst (run leave_step demo_pending [demo_review]) = db'
     \<and> leaves db' \<noteq> [] \<and> distinct (map el_key (leaves db'))"
proof -
  have "leaves (fst (run leave_step demo_pending [demo_review])) \<noteq> []" by code_simp
  then show ?thesis
    using leave_tables_consistent [OF demo_pending_inv prod.collapse [symmetric], of "[demo_review]"]
    by blast
qed

end
