(* ===== verification/LeaveBooking.thy ===== *)
theory LeaveBooking
  imports LeaveLifecycle
begin

text \<open>
  Reservation and recording: a pending request holds every day it asks for, an approval
  writes exactly its days into the roster, an employee's cancellation takes exactly those
  back, and the roster's own removal ends a request.
\<close>

section \<open>References\<close>

lemma lower_upper_hex: "lower_hex c \<Longrightarrow> lower_char (upper_char c) = c"
proof -
  assume c: "lower_hex c"
  show ?thesis
  proof (cases "is_digit c")
    case True
    then show ?thesis by (auto simp: is_digit_def upper_char_def lower_char_def Let_def)
  next
    case False
    with c have n: "97 \<le> (of_char c :: nat)" "(of_char c :: nat) \<le> 102"
      by (auto simp: lower_hex_def)
    then have "(of_char (char_of ((of_char c :: nat) - 32) :: char) :: nat) = of_char c - 32"
      by (simp add: of_char_of)
    moreover have "65 \<le> (of_char c :: nat) - 32" "(of_char c :: nat) - 32 \<le> 90" using n by auto
    ultimately show ?thesis using n by (simp add: upper_char_def lower_char_def Let_def)
  qed
qed

lemma lower_upper_id: "id_re i \<Longrightarrow> lower (upper i) = i"
  by (auto simp: id_re_def lower_def upper_def list_all_iff lower_upper_hex intro!: map_idI)

lemma upper_hex_bar: "lower_hex c \<Longrightarrow> upper_char c \<noteq> CHR ''|''"
proof
  assume "lower_hex c" "upper_char c = CHR ''|''"
  with lower_upper_hex have "c = lower_char (CHR ''|'')" by metis
  then have "c = CHR ''|''" by (simp add: lower_char_def)
  with \<open>lower_hex c\<close> show False by (simp add: lower_hex_def is_digit_def)
qed

lemma id_no_bar: "id_re i \<Longrightarrow> CHR ''|'' \<notin> set (upper i)"
  by (auto simp: id_re_def upper_def list_all_iff dest!: upper_hex_bar)

lemma id_nonempty: "id_re i \<Longrightarrow> upper i \<noteq> []"
  by (auto simp: id_re_def upper_def)

lemma takeWhile_bar:
  "CHR ''|'' \<notin> set u \<Longrightarrow> t = [] \<or> hd t = CHR ''|'' \<Longrightarrow> takeWhile (\<lambda>c. c \<noteq> CHR ''|'') (u @ t) = u"
  by (induction u) (auto simp: takeWhile_eq_Nil_iff)

lemma request_id_from_reference:
  assumes "id_re (sr_id r)" "t = [] \<or> hd t = CHR ''|''"
  shows "request_id_from_note (Some (reference r @ t)) = Some (sr_id r)"
proof -
  have "takeWhile (\<lambda>c. c \<noteq> CHR ''|'') (upper (sr_id r) @ t) = upper (sr_id r)"
    by (rule takeWhile_bar [OF id_no_bar [OF assms(1)] assms(2)])
  then show ?thesis
    using lower_upper_id [OF assms(1)] id_nonempty [OF assms(1)]
    by (simp add: request_id_from_note_def reference_def startswith_def or_else_def)
qed

section \<open>The reservation invariant\<close>

definition note_settled :: "leave_db \<Rightarrow> str option \<Rightarrow> bool" where
  "note_settled db n \<longleftrightarrow> (\<forall>rid. request_id_from_note n = Some rid \<longrightarrow> settled db rid)"

definition reserved :: "leave_db \<Rightarrow> bool" where
  "reserved db \<longleftrightarrow> (\<forall>r \<in> set (requests db). sr_status r = LeavePending \<longrightarrow>
     (\<forall>d. sr_from r \<le> d \<and> d \<le> sr_to r \<longrightarrow> (\<exists>x \<in> set (leave_days db).
        sd_badge x = sr_badge r \<and> sd_date x = d \<and> sd_request_id x = sr_id r)))"

definition book_inv :: "leave_db \<Rightarrow> bool" where
  "book_inv db \<longleftrightarrow> leave_inv db \<and> reserved db \<and> (\<forall>r \<in> set (requests db). id_re (sr_id r))
     \<and> (\<forall>l \<in> set (leaves db). note_settled db (el_note l))"

text \<open>An admin's note that does not pose as the reference of a LINE request.\<close>

definition plain_notes :: "leave_op \<Rightarrow> bool" where
  "plain_notes op = (case op of
     AdminCreate now body \<Rightarrow>
       list_all (\<lambda>p. request_id_from_note (note_with_portion (li_note body) p) = None) [Full, AM, PM]
   | _ \<Rightarrow> True)"

lemma note_settled_progress: "progress db db' \<Longrightarrow> note_settled db n \<Longrightarrow> note_settled db' n"
  unfolding note_settled_def using settled_progress by blast

lemma reserved_frame:
  assumes res: "reserved db"
    and rows: "\<And>r'. r' \<in> set (requests db') \<Longrightarrow> sr_status r' = LeavePending \<Longrightarrow>
      \<exists>r \<in> set (requests db). sr_status r = LeavePending \<and> sr_id r = sr_id r'
        \<and> sr_badge r = sr_badge r' \<and> sr_from r = sr_from r' \<and> sr_to r = sr_to r'"
    and days: "\<And>x r'. x \<in> set (leave_days db) \<Longrightarrow> r' \<in> set (requests db')
      \<Longrightarrow> sr_status r' = LeavePending \<Longrightarrow> sr_id r' = sd_request_id x \<Longrightarrow> x \<in> set (leave_days db')"
  shows "reserved db'"
  unfolding reserved_def
proof (intro ballI impI allI)
  fix r' d assume r': "r' \<in> set (requests db')" "sr_status r' = LeavePending"
    and d: "sr_from r' \<le> d \<and> d \<le> sr_to r'"
  from rows [OF r'] obtain r where r: "r \<in> set (requests db)" "sr_status r = LeavePending"
    "sr_id r = sr_id r'" "sr_badge r = sr_badge r'" "sr_from r = sr_from r'" "sr_to r = sr_to r'"
    by blast
  with res d obtain x where "x \<in> set (leave_days db)" "sd_badge x = sr_badge r" "sd_date x = d"
      "sd_request_id x = sr_id r"
    unfolding reserved_def by metis
  with days r r' show "\<exists>x \<in> set (leave_days db').
      sd_badge x = sr_badge r' \<and> sd_date x = d \<and> sd_request_id x = sr_id r'"
    by (metis (no_types))
qed

lemma book_inv_frame:
  assumes "book_inv db" "leave_inv db'" "progress db db'" "reserved db'"
    and "\<forall>r \<in> set (requests db'). id_re (sr_id r)"
    and "\<And>l. l \<in> set (leaves db') \<Longrightarrow> l \<in> set (leaves db) \<or> note_settled db' (el_note l)"
  shows "book_inv db'"
  using assms note_settled_progress unfolding book_inv_def by blast

lemma book_inv_submit:
  assumes inv: "book_inv db" and step: "submit today now e rid kind a b db = (db', r)"
  shows "book_inv db'"
proof (cases "db' = db")
  case False
  have linv: "leave_inv db" using inv by (simp add: book_inv_def)
  from False step obtain row where get: "get_request db rid = None" and r: "r = Inr row"
    by (auto simp: submit_def submit_conflict_def Let_def split: if_splits option.splits)
  note S = submit_Inr [OF step [unfolded r] get]
  have "reserved db'"
    unfolding reserved_def
  proof (intro ballI impI allI)
    fix q d assume q: "q \<in> set (requests db')" "sr_status q = LeavePending"
      and d: "sr_from q \<le> d \<and> d \<le> sr_to q"
    show "\<exists>x \<in> set (leave_days db'). sd_badge x = sr_badge q \<and> sd_date x = d \<and> sd_request_id x = sr_id q"
    proof (cases "q = row")
      case True
      with S d show ?thesis
        by (intro bexI [of _ "\<lparr>sd_badge = badge_number e, sd_date = d, sd_request_id = rid\<rparr>"])
          (auto simp: new_request_def set_days_for)
    next
      case False
      with q S have "q \<in> set (requests db)" by auto
      with inv q d have "\<exists>x \<in> set (leave_days db). sd_badge x = sr_badge q \<and> sd_date x = d
          \<and> sd_request_id x = sr_id q"
        unfolding book_inv_def reserved_def by blast
      with S show ?thesis by auto
    qed
  qed
  then show ?thesis
    using S inv submit_inv [OF linv step] submit_progress [OF step]
    by (intro book_inv_frame [OF inv]) (auto simp: book_inv_def new_request_def)
qed (use inv in simp)

lemma book_inv_same_tables:
  assumes inv: "book_inv db" and linv: "leave_inv db'" and rs: "requests db' = requests db"
    and days: "\<And>x. x \<in> set (leave_days db) \<Longrightarrow> settled db (sd_request_id x) \<or> x \<in> set (leave_days db')"
    and ls: "\<And>l. l \<in> set (leaves db') \<Longrightarrow> l \<in> set (leaves db) \<or> note_settled db' (el_note l)"
  shows "book_inv db'"
proof (rule book_inv_frame [OF inv linv progress_same [OF rs] _ _ ls])
  have l: "leave_inv db" using inv by (simp add: book_inv_def)
  show "reserved db'"
  proof (rule reserved_frame)
    show "reserved db" using inv by (simp add: book_inv_def)
  next
    fix x r' assume x: "x \<in> set (leave_days db)" and r': "r' \<in> set (requests db')"
      "sr_status r' = LeavePending" "sr_id r' = sd_request_id x"
    then have "get_request db (sd_request_id x) = Some r'"
      using leave_inv_keys(2) [OF l] by (simp add: get_request_iff rs)
    with r' have "\<not> settled db (sd_request_id x)" by (simp add: settled_def)
    with days x show "x \<in> set (leave_days db')" by blast
  qed (use rs in auto)
qed (use inv rs in \<open>auto simp: book_inv_def\<close>)

text \<open>A request that leaves the pending state, or stays in it with its dates, keeps the rest.\<close>

lemma book_inv_update:
  assumes inv: "book_inv db" and linv: "leave_inv db'" and prog: "progress db db'"
    and rs: "requests db' = update_where (\<lambda>r. sr_id r = rid) g (requests db)"
    and g: "\<And>r. sr_id (g r) = sr_id r \<and> sr_badge (g r) = sr_badge r"
    and same: "\<And>r. r \<in> set (requests db) \<Longrightarrow> sr_id r = rid \<Longrightarrow> sr_status (g r) = LeavePending \<Longrightarrow>
      sr_status r = LeavePending \<and> sr_from (g r) = sr_from r \<and> sr_to (g r) = sr_to r"
    and days: "\<And>x. x \<in> set (leave_days db) \<Longrightarrow> x \<in> set (leave_days db')
      \<or> sd_request_id x = rid \<and> (\<forall>r \<in> set (requests db). sr_id r = rid \<longrightarrow> sr_status (g r) \<noteq> LeavePending)"
    and ls: "\<And>l. l \<in> set (leaves db') \<Longrightarrow> l \<in> set (leaves db) \<or> note_settled db' (el_note l)"
  shows "book_inv db'"
proof (rule book_inv_frame [OF inv linv prog _ _ ls])
  show "reserved db'"
  proof (rule reserved_frame)
    show "reserved db" using inv by (simp add: book_inv_def)
  next
    fix r' assume "r' \<in> set (requests db')" "sr_status r' = LeavePending"
    then obtain r where r: "r \<in> set (requests db)" "r' = (if sr_id r = rid then g r else r)"
        "sr_status r' = LeavePending"
      by (auto simp: rs)
    then show "\<exists>r \<in> set (requests db). sr_status r = LeavePending \<and> sr_id r = sr_id r'
        \<and> sr_badge r = sr_badge r' \<and> sr_from r = sr_from r' \<and> sr_to r = sr_to r'"
      using g [of r] same [of r] by (intro bexI [of _ r]) (auto split: if_splits)
  next
    fix x r' assume "x \<in> set (leave_days db)" "r' \<in> set (requests db')"
      "sr_status r' = LeavePending" "sr_id r' = sd_request_id x"
    then show "x \<in> set (leave_days db')"
      using days g by (auto simp: rs split: if_splits)
  qed
  show "\<forall>r \<in> set (requests db'). id_re (sr_id r)" using inv g by (auto simp: rs book_inv_def)
qed

lemma settled_get: "get_request db rid = Some r \<Longrightarrow> settled db rid \<longleftrightarrow> sr_status r \<noteq> LeavePending"
  by (simp add: settled_def)

lemma recorded_note:
  assumes "id_re (sr_id r)" "l \<in> set (recorded_leaves r)"
  shows "request_id_from_note (el_note l) = Some (sr_id r)"
  using assms request_id_from_reference [OF assms(1), of "[]"]
    request_id_from_reference [OF assms(1), of "''|half='' @ x" for x]
  by (auto simp: recorded_leaves_def leaves_for_def half_note_def split: if_splits)

lemma book_inv_decide:
  assumes inv: "book_inv db" and step: "decide now rid dec v w db = (db', r)"
  shows "book_inv db'"
proof (cases r)
  case (Inl e)
  with step decide_Inl inv show ?thesis by fastforce
next
  case (Inr x)
  have linv: "leave_inv db" using inv by (simp add: book_inv_def)
  from step [unfolded Inr] linv obtain row where row: "get_request db rid = Some row"
    "sr_status row = LeavePending" and db': "db' = decided_db (dec = ''approved'') w now row db"
    by (auto elim: decide_Inr)
  have id: "sr_id row = rid" "id_re rid" using get_request_Some [OF row(1)] inv by (auto simp: book_inv_def)
  have "settled db' rid"
    using first_decided [OF linv row(1)] by (simp add: db' settled_def)
  then have nt: "note_settled db' (el_note l)" if "l \<in> set (recorded_leaves row)" for l
    using recorded_note [of row l] that id by (simp add: note_settled_def)
  show ?thesis
    by (rule book_inv_update [OF inv decide_inv [OF linv step] decide_progress [OF linv step],
          where rid = rid and g = "decided_row (dec = ''approved'') w now"])
      (use nt id in \<open>auto simp: db' decided_db_def Let_def split: if_splits\<close>)
qed

lemma book_inv_auto:
  "book_inv db \<Longrightarrow> maybe_auto_approve env now row db = (db', r) \<Longrightarrow> book_inv db'"
  by (auto simp: maybe_auto_approve_def split: if_splits prod.splits sum.splits dest: book_inv_decide)

lemma book_inv_submit_half:
  assumes inv: "book_inv db" and step: "submit_half env today now e rid kind d p db = (db', r)"
  shows "book_inv db'"
proof (cases "\<exists>db1 row. get_request db rid = None \<and> submit today now e rid kind d d db = (db1, Inr row)")
  case False
  with inv step show ?thesis
    by (auto simp: submit_half_def split: option.splits prod.splits sum.splits if_splits
        dest: book_inv_auto book_inv_submit)
next
  case True
  then obtain db1 row where get: "get_request db rid = None"
    and sub: "submit today now e rid kind d d db = (db1, Inr row)" by blast
  have linv: "leave_inv db" using inv by (simp add: book_inv_def)
  define row' where "row' = row\<lparr>sr_portion := p, sr_updated_at := now\<rparr>"
  define db2 where "db2 = db1\<lparr>requests := update_where (\<lambda>r. sr_id r = rid) (\<lambda>_. row') (requests db1)\<rparr>"
  note S = submit_Inr [OF sub get]
  have "sr_id x \<noteq> rid" if "x \<in> set (requests db)" for x
    using get that by (auto simp: get_request_def first_None)
  then have rs: "requests db2 = requests db @ [row']"
    using S by (auto simp: db2_def update_where_def new_request_def intro: map_idI)
  have eq: "submit_half env today now e rid kind d p db =
      (case maybe_auto_approve env now row' db2 of (db', res) \<Rightarrow> (db', Inr res))" for env
    using sub get by (simp add: submit_half_def Let_def row'_def db2_def)
  have "fst (submit_half auto_off today now e rid kind d p db) = db2"
    unfolding eq by (simp add: maybe_auto_approve_def auto_off_def auto_approve_enabled_def
        getenv_def strip_def lstrip_def lower_def lower_char_def py_space_def)
  then have l2: "leave_inv db2" using submit_half_inv [OF linv prod.collapse [symmetric]] by metis
  have b1: "book_inv db1" using inv sub by (rule book_inv_submit)
  have "book_inv db2"
  proof (rule book_inv_frame [OF inv l2 progress_append [OF rs]])
    show "reserved db2"
    proof (rule reserved_frame)
      show "reserved db1" using b1 by (simp add: book_inv_def)
    next
      fix r' assume "r' \<in> set (requests db2)" "sr_status r' = LeavePending"
      then show "\<exists>r \<in> set (requests db1). sr_status r = LeavePending \<and> sr_id r = sr_id r'
        \<and> sr_badge r = sr_badge r' \<and> sr_from r = sr_from r' \<and> sr_to r = sr_to r'"
        using S by (auto simp: rs row'_def)
    qed (simp add: db2_def)
    show "\<forall>r \<in> set (requests db2). id_re (sr_id r)"
      using inv S by (auto simp: rs row'_def book_inv_def new_request_def)
  qed (use S in \<open>simp add: db2_def\<close>)
  with step show ?thesis unfolding eq by (auto split: prod.splits dest: book_inv_auto)
qed

lemma book_inv_cancel:
  assumes inv: "book_inv db" and step: "cancel now badge rid db = (db', r)"
  shows "book_inv db'"
proof (cases "db' = db")
  case False
  have linv: "leave_inv db" using inv by (simp add: book_inv_def)
  from step False obtain row where row: "get_request db rid = Some row" "sr_badge row = badge"
    and rs: "requests db' = update_where (\<lambda>r. sr_id r = rid \<and> (sr_badge r = badge \<and> cancellable r))
        (cancelled_row now) (requests db)"
    and one: "count_where (\<lambda>r. sr_id r = rid \<and> (sr_badge r = badge \<and> cancellable r)) (requests db) = 1"
    and days: "leave_days db' = delete_where (\<lambda>d. sd_request_id d = rid) (leave_days db)"
    and ls: "set (leaves db') \<subseteq> set (leaves db)"
    by (auto simp: cancel_def Let_def split: option.splits if_splits)
  note upd = hit_unique(2) [OF leave_inv_keys(2) [OF linv] row(1) one]
  show ?thesis
    by (rule book_inv_update [OF inv cancel_inv [OF linv step] cancel_progress [OF step],
          where rid = rid and g = "cancelled_row now"])
      (use ls days rs upd in \<open>auto simp: cancelled_row_def\<close>)
qed (use inv in simp)

lemma book_inv_attach:
  assumes inv: "book_inv db" and step: "attach_medical_certificate now row c t k db = (db', r)"
    and row: "row \<in> set (requests db)"
  shows "book_inv db'"
proof (cases "db' = db")
  case False
  let ?g = "\<lambda>r. r\<lparr>sr_cert := Some c, sr_cert_type := Some t, sr_cert_sha256 := Some k,
              sr_cert_uploaded_at := Some now, sr_version := sr_version r + 1, sr_updated_at := now\<rparr>"
  have linv: "leave_inv db" using inv by (simp add: book_inv_def)
  then have get: "get_request db (sr_id row) = Some row"
    using row leave_inv_keys(2) by (simp add: get_request_iff)
  from step False have rs: "requests db' = update_where (\<lambda>r. sr_id r = sr_id row
        \<and> (sr_status r = LeavePending \<and> sr_cert r = None)) ?g (requests db)"
    and one: "count_where (\<lambda>r. sr_id r = sr_id row
        \<and> (sr_status r = LeavePending \<and> sr_cert r = None)) (requests db) = 1"
    and rest: "leave_days db' = leave_days db" "leaves db' = leaves db"
    by (auto simp: attach_medical_certificate_def Let_def split: if_splits)
  note upd = hit_unique(2) [OF leave_inv_keys(2) [OF linv] get one]
  show ?thesis
    by (rule book_inv_update [OF inv attach_inv [OF linv step] attach_progress [OF step],
          where rid = "sr_id row" and g = ?g])
      (use rest rs upd in auto)
qed (use inv in simp)

lemma book_inv_edit:
  assumes inv: "book_inv db" and step: "edit_request today now e rid v kind a b p db = (db', r)"
  shows "book_inv db'"
proof (cases "db' = db")
  case False
  have linv: "leave_inv db" using inv by (simp add: book_inv_def)
  let ?rest = "delete_where (\<lambda>d. sd_request_id d = rid) (leave_days db)"
  from False step obtain row where
    row: "get_request db rid = Some row" "sr_badge row = badge_number e"
    and db': "db' = db\<lparr>leave_days := ?rest @ days_for (badge_number e) rid a b,
        requests := update_where (\<lambda>r. sr_id r = rid) (edited_row now kind a b p) (requests db)\<rparr>"
    by (auto simp: edit_request_def Let_def insert_all_Some_iff dest: get_request_Some
        split: if_splits option.splits)
  have "reserved db'"
    unfolding reserved_def
  proof (intro ballI impI allI)
    fix q d assume q: "q \<in> set (requests db')" "sr_status q = LeavePending"
      and d: "sr_from q \<le> d \<and> d \<le> sr_to q"
    from q obtain q0 where q0: "q0 \<in> set (requests db)"
        "q = (if sr_id q0 = rid then edited_row now kind a b p q0 else q0)" by (auto simp: db')
    show "\<exists>x \<in> set (leave_days db'). sd_badge x = sr_badge q \<and> sd_date x = d \<and> sd_request_id x = sr_id q"
    proof (cases "sr_id q0 = rid")
      case True
      then have "q0 = row" using same_id_same_row [OF linv row(1) q0(1)] by simp
      with True q0 d row show ?thesis
        by (intro bexI [of _ "\<lparr>sd_badge = badge_number e, sd_date = d, sd_request_id = rid\<rparr>"])
          (auto simp: db' edited_row_def set_days_for)
    next
      case False
      with q0 q d inv have "\<exists>x \<in> set (leave_days db). sd_badge x = sr_badge q \<and> sd_date x = d
          \<and> sd_request_id x = sr_id q"
        unfolding book_inv_def reserved_def by auto
      with False q0(2) show ?thesis by (auto simp: db')
    qed
  qed
  then show ?thesis
    using inv edit_request_inv [OF linv step] edit_progress [OF step]
    by (intro book_inv_frame [OF inv]) (auto simp: db' book_inv_def edited_row_def)
qed (use inv in simp)

lemma book_inv_removed:
  assumes inv: "book_inv db" and nt: "note_settled db n"
  shows "book_inv (on_roster_leave_removed now badge d n db)"
proof (cases "\<exists>rid row. request_id_from_note n = Some rid \<and> get_request db rid = Some row")
  case False
  with inv show ?thesis by (auto simp: on_roster_leave_removed_def split: option.split)
next
  case True
  then obtain rid row where n: "request_id_from_note n = Some rid" and row: "get_request db rid = Some row"
    by blast
  let ?db' = "on_roster_leave_removed now badge d n db"
  have linv: "leave_inv db" using inv by (simp add: book_inv_def)
  have np: "sr_status row \<noteq> LeavePending" "settled db rid"
    using nt n row by (auto simp: note_settled_def settled_def)
  have days: "x \<in> set (leave_days ?db') \<or> sd_request_id x = rid" if "x \<in> set (leave_days db)" for x
    using that n row get_request_Some [OF row]
    by (auto simp: on_roster_leave_removed_def release_request_days_def Let_def)
  have rs: "requests ?db' = requests db
      \<or> requests ?db' = update_where (\<lambda>r. sr_id r = rid) (roster_ended_row now) (requests db)"
    using n row by (auto simp: on_roster_leave_removed_def release_request_days_def Let_def)
  have ls: "leaves ?db' = leaves db"
    using n row by (auto simp: on_roster_leave_removed_def release_request_days_def Let_def)
  from rs show ?thesis
  proof
    assume "requests ?db' = requests db"
    with days np ls show ?thesis
      by (intro book_inv_same_tables [OF inv on_roster_leave_removed_inv [OF linv]]) auto
  next
    assume rs: "requests ?db' = update_where (\<lambda>r. sr_id r = rid) (roster_ended_row now) (requests db)"
    show ?thesis
      by (rule book_inv_update [OF inv on_roster_leave_removed_inv [OF linv]
            on_roster_progress [OF linv] rs])
        (use days ls in \<open>auto simp: roster_ended_row_def\<close>)
  qed
qed

lemma book_inv_leaves:
  assumes inv: "book_inv db" and linv: "leave_inv (db\<lparr>leaves := ls\<rparr>)"
    and ls: "\<And>l. l \<in> set ls \<Longrightarrow> l \<in> set (leaves db) \<or> note_settled db (el_note l)"
  shows "book_inv (db\<lparr>leaves := ls\<rparr>)"
proof -
  have "note_settled (db\<lparr>leaves := ls\<rparr>) n = note_settled db n" for n
    by (simp add: note_settled_def settled_def get_request_def)
  with ls show ?thesis by (intro book_inv_same_tables [OF inv linv]) auto
qed

lemma book_inv_write_day:
  assumes inv: "book_inv db" and plain: "request_id_from_note stored = None"
  shows "book_inv (write_leave_day now badge kind bn stored d db)"
proof -
  have linv: "leave_inv db" using inv by (simp add: book_inv_def)
  have st: "note_settled db stored" using plain by (simp add: note_settled_def)
  show ?thesis
  proof (cases "first (\<lambda>l. el_key l = (badge, d)) (leaves db)")
    case None
    have "leave_inv (write_leave_day now badge kind bn stored d db)" by (rule write_leave_day_inv [OF linv])
    with None st inv show ?thesis
      by (auto simp: write_leave_day_def intro!: book_inv_leaves)
  next
    case (Some old)
    then have old: "note_settled db (el_note old)"
      using inv by (auto simp: book_inv_def dest: first_Some)
    define n where "n = (if bn = None \<and> request_id_from_note (el_note old) \<noteq> None
                          then el_note old else stored)"
    define db1 where "db1 = db\<lparr>leaves := update_where (\<lambda>l. el_key l = (badge, d))
                      (\<lambda>l. l\<lparr>el_leave_type := kind, el_note := n\<rparr>) (leaves db)\<rparr>"
    have b1: "book_inv db1"
      unfolding db1_def using old st
      by (intro book_inv_leaves [OF inv leave_overwrite_inv [OF linv]]) (auto simp: n_def)
    moreover have "note_settled db1 (el_note old)"
      using old by (simp add: note_settled_def settled_def get_request_def db1_def)
    ultimately have "book_inv (on_roster_leave_removed now badge d (el_note old) db1)"
      by (rule book_inv_removed)
    moreover have "write_leave_day now badge kind bn stored d db
        = (if request_id_from_note n \<noteq> request_id_from_note (el_note old)
           then on_roster_leave_removed now badge d (el_note old) db1 else db1)"
      by (simp only: write_leave_day_def Some option.case Let_def n_def db1_def)
    ultimately show ?thesis using b1 by simp
  qed
qed

lemma book_inv_write_days:
  "book_inv db \<Longrightarrow> request_id_from_note stored = None
   \<Longrightarrow> book_inv (fold (write_leave_day now badge kind bn stored) ds db)"
  by (induction ds arbitrary: db) (auto simp: book_inv_write_day)

lemma book_inv_delete:
  assumes inv: "book_inv db"
  shows "book_inv (delete_employee_leave now badge d db)"
proof -
  let ?db1 = "db\<lparr>leaves := delete_where (\<lambda>l. el_key l = (badge, d)) (leaves db)\<rparr>"
  have linv: "leave_inv db" using inv by (simp add: book_inv_def)
  have "leave_inv ?db1"
    by (rule leave_inv_frame [OF linv])
      (use linv in \<open>auto simp: leave_inv_def leave_keys_ok_def distinct_delete_where\<close>)
  then have b1: "book_inv ?db1" by (intro book_inv_leaves [OF inv]) auto
  have "note_settled ?db1 (el_note l)" if "first (\<lambda>l. el_key l = (badge, d)) (leaves db) = Some l" for l
    using inv first_Some [OF that]
    by (auto simp: book_inv_def note_settled_def settled_def get_request_def)
  with b1 show ?thesis
    by (auto simp: delete_employee_leave_def Let_def book_inv_removed split: option.split)
qed

lemmas book_inv_service = book_inv_submit book_inv_submit_half book_inv_cancel book_inv_edit
  book_inv_decide book_inv_auto

lemma book_inv_lines:
  assumes inv: "book_inv db"
  shows "book_inv (fst (line_submit env today now e rid kind a b db))"
    "book_inv (fst (line_submit_half env today now e rid kind d p db))"
    "book_inv (fst (line_cancel now e rid v db))"
    "book_inv (fst (line_edit env today now e rid v kind a b p db))"
    "book_inv (fst (line_image env now e dl db))"
    "book_inv (fst (review now act origin m rid dec v db))"
proof -
  show "book_inv (fst (line_submit env today now e rid kind a b db))"
    using inv by (auto simp: line_submit_def split: prod.splits sum.splits dest: book_inv_service)
  show "book_inv (fst (line_submit_half env today now e rid kind d p db))"
    using inv by (auto simp: line_submit_half_def split: prod.splits sum.splits dest: book_inv_service)
  show "book_inv (fst (line_cancel now e rid v db))"
    using inv by (auto simp: line_cancel_def split: option.splits prod.splits sum.splits
        dest: book_inv_service)
  show "book_inv (fst (line_edit env today now e rid v kind a b p db))"
    using inv by (auto simp: line_edit_def split: option.splits prod.splits sum.splits
        dest: book_inv_service)
  have "row \<in> set (requests db)" if "medical_target db e = Some row" for row
    using that by (auto simp: medical_target_def dest!: newest_Some)
  then show "book_inv (fst (line_image env now e dl db))"
    using inv by (auto simp: line_image_def split: option.splits prod.splits sum.splits
        dest: book_inv_service book_inv_attach)
  show "book_inv (fst (review now act origin m rid dec v db))"
    using inv by (auto simp: review_def split: option.splits prod.splits sum.splits
        dest: book_inv_service)
qed

lemma book_inv_create:
  assumes inv: "book_inv db" and plain: "plain_notes (AdminCreate now body)"
  shows "book_inv (fst (create_employee_leaves now body db))"
proof -
  have "request_id_from_note (note_with_portion (li_note body) p) = None" for p
    using plain by (cases p) (auto simp: plain_notes_def)
  with inv show ?thesis
    by (simp add: create_employee_leaves_def split_beta book_inv_write_days book_inv_write_day
        split: option.split sum.split)
qed

lemma book_inv_calendar:
  "book_inv db \<Longrightarrow> leave_inv db' \<Longrightarrow> requests db' = requests db \<Longrightarrow> leave_days db' = leave_days db
   \<Longrightarrow> leaves db' = leaves db \<Longrightarrow> book_inv db'"
  by (rule book_inv_same_tables) auto

lemma book_inv_step:
  assumes inv: "book_inv db" and plain: "plain_notes op"
  shows "book_inv (fst (leave_step db op))"
proof -
  have linv: "leave_inv db" using inv by (simp add: book_inv_def)
  note l = leave_step_inv [OF linv, of op]
  show ?thesis
  proof (cases op)
    case (AdminCreate now body)
    with book_inv_create [OF inv] plain show ?thesis by (simp add: split_beta)
  next
    case (HolidayCreate d name)
    with l show ?thesis
      by (intro book_inv_calendar [OF inv]) (auto simp: create_holiday_def split: option.splits)
  next
    case (HolidayDelete d)
    with l show ?thesis by (intro book_inv_calendar [OF inv]) (auto simp: delete_holiday_def)
  next
    case (LeaveColor code c)
    with l show ?thesis
      by (intro book_inv_calendar [OF inv])
        (auto simp: update_leave_type_color_def Let_def split_beta split: option.splits)
  qed (use inv in \<open>auto simp: split_beta with_employee_def book_inv_lines book_inv_delete
         split: option.split\<close>)
qed

lemma book_inv_run:
  "book_inv db \<Longrightarrow> list_all plain_notes es \<Longrightarrow> run leave_step db es = (db', tr) \<Longrightarrow> book_inv db'"
proof (induction es arbitrary: db tr)
  case (Cons e es)
  obtain db1 out where s: "leave_step db e = (db1, out)" by fastforce
  with Cons.prems obtain tr' where "run leave_step db1 es = (db', tr')" by (blast elim: run_ConsE)
  with Cons.IH book_inv_step [OF Cons.prems(1), of e] Cons.prems(2) s show ?case by auto
qed simp

text \<open>
  C2. No double booking: as long as admins do not type a LINE reference as their own note,
  two different pending requests of one employee never share a day, and a pending request
  never shares a day with an approved one that still reserves it.
\<close>

theorem no_double_booking:
  assumes "book_inv db" "list_all plain_notes es" "run leave_step db es = (db', tr)"
    and "q \<in> set (requests db')" "r \<in> set (requests db')" "q \<noteq> r" "sr_badge q = sr_badge r"
    and "sr_status q = LeavePending"
    and "sr_from q \<le> d" "d \<le> sr_to q"
  shows "(sr_status r = LeavePending \<longrightarrow> \<not> (sr_from r \<le> d \<and> d \<le> sr_to r))
    \<and> (\<forall>x \<in> set (leave_days db'). sd_request_id x = sr_id r \<longrightarrow> sd_date x \<noteq> d)"
proof -
  have inv: "book_inv db'" using book_inv_run assms(1-3) by blast
  then have linv: "leave_inv db'" and res: "reserved db'" by (auto simp: book_inv_def)
  note k = leave_inv_keys [OF linv]
  have ids: "sr_id q \<noteq> sr_id r" using assms(4-6) k(2) by (auto simp: distinct_map inj_on_def)
  obtain x where x: "x \<in> set (leave_days db')" "sd_badge x = sr_badge q" "sd_date x = d"
      "sd_request_id x = sr_id q"
    using res assms(4,8-10) unfolding reserved_def by blast
  have other: "\<not> (sd_badge y = sr_badge q \<and> sd_date y = d \<and> sd_request_id y = sr_id r)"
    if "y \<in> set (leave_days db')" for y
  proof
    assume y: "sd_badge y = sr_badge q \<and> sd_date y = d \<and> sd_request_id y = sr_id r"
    then have "sd_key y = sd_key x" using x by (simp add: sd_key_def)
    with that x(1) k(3) have "y = x" by (auto simp: distinct_map inj_on_def)
    with y x(4) ids show False by simp
  qed
  have owner: "sd_badge y = sr_badge r" if "y \<in> set (leave_days db')" "sd_request_id y = sr_id r" for y
  proof -
    from linv that(1) obtain z where "z \<in> set (requests db')" "sr_id z = sd_request_id y"
        "sr_badge z = sd_badge y" unfolding leave_inv_def days_owned_def by blast
    with that(2) assms(5) k(2) show ?thesis by (auto simp: distinct_map inj_on_def)
  qed
  have "\<not> (sr_from r \<le> d \<and> d \<le> sr_to r)" if p: "sr_status r = LeavePending"
    using res assms(5,7) p other unfolding reserved_def by metis
  with other owner assms(7) show ?thesis by metis
qed

definition demo_id2 :: str where "demo_id2 = ''fedcba9876543210fedcba9876543210''"

definition demo_request2 :: staff_leave_request where
  "demo_request2 = new_request demo_employee demo_id2 ''vacation'' 739010 739010 0"

definition demo_second :: leave_op where
  "demo_second = LineSubmit auto_off 739000 0 (Some ''U1'') demo_id2 ''vacation'' 739010 739010"

lemma demo_two:
  "requests (fst (run leave_step demo_pending [demo_second])) = [demo_request, demo_request2]"
  by code_simp

lemma demo_book: "book_inv demo_pending"
proof -
  have b: "book_inv demo_db"
    using demo_inv by (simp add: book_inv_def reserved_def demo_db_def)
  have p: "plain_notes (LineSubmit auto_off 739000 0 (Some ''U1'') demo_id ''personal'' 739000 739001)"
    by (simp add: plain_notes_def)
  from book_inv_step [OF b p, unfolded demo_submit] show ?thesis by simp
qed

theorem no_double_booking_witness:
  "\<not> (sr_from demo_request2 \<le> 739000 \<and> 739000 \<le> sr_to demo_request2)"
proof -
  have "demo_request \<noteq> demo_request2" by (simp add: demo_request_def demo_request2_def new_request_def)
  moreover have "list_all plain_notes [demo_second]" by (simp add: plain_notes_def demo_second_def)
  ultimately show ?thesis
    using no_double_booking [OF demo_book _ prod.collapse [symmetric],
        of "[demo_second]" demo_request demo_request2 739000] demo_two
    by (simp add: demo_request_def demo_request2_def new_request_def del: run.simps)
qed

end
