(* ===== verification/LeaveEffects.thy ===== *)
theory LeaveEffects
  imports LeaveBooking
begin

text \<open>
  What single operations of the leave subsystem do: an approval and what LINE then shows,
  an employee's cancellation of an auto-recorded leave, the finality of a manager's
  decision, the end of a request by the roster, the admin upsert, and the half-day marker.
\<close>

section \<open>Matching notes\<close>

lemma like_prefix_append [simp]: "like_prefix p (p @ t)"
  by (simp add: like_prefix_def)

lemma note_matches_recorded:
  "l \<in> set (recorded_leaves r) \<Longrightarrow> note_matches (reference r) (el_note l)"
  using like_prefix_append [of "reference r @ ''|''"]
  by (auto simp: recorded_leaves_def leaves_for_def note_matches_def half_note_def split: if_splits)

lemma half_at_plain:
  "c \<noteq> CHR ''|'' \<Longrightarrow> half_at (c # s) = None" "c \<noteq> CHR ''|'' \<Longrightarrow> half_at_end (c # s) = None"
  by (simp_all add: half_at_def half_at_end_def Let_def)

lemma search_half_end_skip: "CHR ''|'' \<notin> set u \<Longrightarrow> search_half_end (u @ t) = search_half_end t"
proof (induction u)
  case (Cons c u)
  then have "c \<noteq> CHR ''|''" by auto
  with Cons show ?case by (simp add: half_at_plain)
qed simp

lemma search_half_skip: "CHR ''|'' \<notin> set u \<Longrightarrow> search_half (u @ t) = search_half t"
proof (induction u)
  case (Cons c u)
  then have "c \<noteq> CHR ''|''" by auto
  with Cons show ?case by (simp add: half_at_plain)
qed simp

lemma sub_half_skip: "CHR ''|'' \<notin> set u \<Longrightarrow> sub_half (u @ t) = u @ sub_half t"
proof (induction u)
  case (Cons c u)
  then have "c \<noteq> CHR ''|''" by auto
  with Cons show ?case by (simp add: half_at_plain)
qed simp

lemma marker_eval:
  assumes "p \<noteq> Full"
  shows "search_half_end (''|half='' @ portion_text p) = Some p"
    "search_half (''|half='' @ portion_text p) = Some p"
    "sub_half (''|half='' @ portion_text p) = []"
  using assms by (cases p; simp add: portion_text_def half_at_end_def half_at_def at_end_def)+

lemma reference_no_bar: "id_re (sr_id r) \<Longrightarrow> CHR ''|'' \<notin> set (reference r)"
  using id_no_bar by (simp add: reference_def)

lemma portion_recorded:
  assumes "id_re (sr_id r)" "l \<in> set (recorded_leaves r)"
  shows "portion_from_leave_note (el_note l) = sr_portion r"
proof (cases "sr_portion r = Full")
  case True
  then have "el_note l = Some (reference r)"
    using assms(2) by (auto simp: recorded_leaves_def leaves_for_def)
  then show ?thesis
    using True search_half_end_skip [OF reference_no_bar [OF assms(1)], of "[]"]
    by (simp add: portion_from_leave_note_def reference_def or_else_def)
next
  case False
  then have "el_note l = Some (reference r @ ''|half='' @ portion_text (sr_portion r))"
    using assms(2) by (cases "sr_portion r") (auto simp: recorded_leaves_def half_note_def portion_text_def)
  then show ?thesis
    using search_half_end_skip [OF reference_no_bar [OF assms(1)],
        of "''|half='' @ portion_text (sr_portion r)"] marker_eval(1) [OF False]
    by (simp add: portion_from_leave_note_def reference_def or_else_def)
qed

section \<open>Approval\<close>

lemma recorded_dates:
  assumes "request_ok r"
  shows "map el_date (recorded_leaves r) = span (sr_from r) (sr_to r)"
  using assms by (auto simp: recorded_leaves_def leaves_for_def request_ok_def comp_def)

lemma recorded_facts:
  "l \<in> set (recorded_leaves r) \<Longrightarrow> el_badge l = sr_badge r \<and> el_leave_type l = sr_leave_type r"
  by (auto simp: recorded_leaves_def leaves_for_def split: if_splits)

lemma reference_decided [simp]: "reference (decided_row a w now r) = reference r"
  by (simp add: reference_def)

lemma sort_key_sorted: "sorted (map f xs) \<Longrightarrow> sort_key f xs = xs"
  by (induction xs) (auto simp: insort_is_Cons)



section \<open>Cancellation by the employee\<close>

lemma auto_approve_Approved:
  assumes inv: "leave_inv db" and get: "get_request db rid = Some row" "sr_status row = LeavePending"
    and step: "maybe_auto_approve env now row db = (db', Some r)" and appr: "sr_status r = LeaveApproved"
  shows "r = decided_row True AUTO_REVIEWER now row \<and> db' = decided_db True AUTO_REVIEWER now row db
    \<and> free_of_leaves db row"
proof -
  have id: "sr_id row = rid" using get_request_Some [OF get(1)] by simp
  have "decide now rid ''approved'' (sr_version row) AUTO_REVIEWER db = (db', Inr r)"
    using step appr get id
    by (auto simp: maybe_auto_approve_def split: if_splits prod.splits sum.splits)
  with inv get(1) show ?thesis by (auto elim: decide_Inr)
qed



section \<open>A manager's decision is final for the employee\<close>

text \<open>
  C12. What a manager decided, the employee cannot undo from LINE: on a request approved by
  anyone but the automatic recorder, cancelling, editing, resubmitting the form and sending
  a certificate all leave every table as it is.
\<close>

theorem manager_decision_is_final:
  assumes inv: "leave_inv db" and get: "get_request db rid = Some r"
    and appr: "sr_status r = LeaveApproved" "sr_reviewed_by r \<noteq> Some AUTO_REVIEWER"
  shows "cancel now badge rid db = (db, Inl (if sr_badge r = badge then NotCancellable else NotYourRequest))
    \<and> fst (line_cancel now e rid v db) = db
    \<and> fst (line_edit env today now e rid v kind a b p db) = db
    \<and> fst (line_submit env today now e rid kind a b db) = db
    \<and> fst (line_submit_half env today now e rid kind a p db) = db
    \<and> fst (attach_medical_certificate now r c t g db) = db"
proof -
  have "count_where (\<lambda>x. sr_id x = rid \<and> (sr_badge x = badge \<and> cancellable x)) (requests db) = 0"
    using count_key [OF leave_inv_keys(2) [OF inv], of rid "\<lambda>x. sr_badge x = badge \<and> cancellable x"]
      get appr by (simp add: get_request_def cancellable_def)
  then have c: "cancel now badge rid db
      = (db, Inl (if sr_badge r = badge then NotCancellable else NotYourRequest))" for badge
    using count_key [OF leave_inv_keys(2) [OF inv], of rid "\<lambda>x. sr_badge x = badge \<and> cancellable x"]
      get appr by (simp add: cancel_def get_request_def cancellable_def)
  have "fst (line_cancel now e rid v db) = db"
    using get by (simp add: line_cancel_def c)
  moreover have "fst (line_edit env today now e rid v kind a b p db) = db"
    using get appr by (auto simp: line_edit_def edit_request_def Let_def split: option.split)
  moreover have "maybe_auto_approve env now r db = (db, Some r)"
    using appr by (simp add: maybe_auto_approve_def)
  then have "fst (line_submit env today now e rid kind a b db) = db"
    "fst (line_submit_half env today now e rid kind a p db) = db"
    using get by (auto simp: line_submit_def submit_def line_submit_half_def submit_half_def)
  moreover have "fst (attach_medical_certificate now r c t g db) = db"
    using appr by (simp add: attach_medical_certificate_def)
  ultimately show ?thesis using c by blast
qed

definition demo_approved :: leave_db where
  "demo_approved = decided_db True ''m@x'' 5 demo_request demo_pending"

lemma demo_approved_inv: "leave_inv demo_approved"
  unfolding demo_approved_def
  using demo_book demo_pending_inv
  by (intro decided_db_inv)
    (auto simp: demo_pending_def demo_db_def free_of_leaves_def medical_certificate_required_def
      demo_request_def new_request_def)

lemma demo_approved_get:
  "get_request demo_approved demo_id = Some (decided_row True ''m@x'' 5 demo_request)"
  unfolding demo_approved_def
  by (rule first_decided [OF demo_pending_inv])
    (simp add: demo_pending_def get_request_def demo_request_def new_request_def)

theorem manager_decision_is_final_witness:
  "cancel 9 ''7'' demo_id demo_approved = (demo_approved, Inl NotCancellable)"
  using manager_decision_is_final [OF demo_approved_inv demo_approved_get, of 9 "''7''"]
  by (simp add: AUTO_REVIEWER_def demo_request_def new_request_def demo_employee_def)

section \<open>The roster ends a request\<close>

lemma el_key_unique:
  assumes "distinct (map el_key ls)" "l \<in> set ls" "x \<in> set ls" "el_key x = el_key l"
  shows "x = l"
  using assms by (auto simp: distinct_map inj_on_def)

text \<open>
  When an admin removes the last roster row of an approved request, the request is
  cancelled by the roster: LINE shows it so, all its days are free again, and the
  certificate image is erased. Its digest and upload time, which the employee's own
  cancellation erases too, stay behind.
\<close>

theorem roster_removal_ends_request:
  assumes inv: "leave_inv db" and get: "get_request db rid = Some r"
    and appr: "sr_status r = LeaveApproved" "sr_badge r = badge"
    and l: "l \<in> set (leaves db)" "el_key l = (badge, d)" "request_id_from_note (el_note l) = Some rid"
    and only: "roster_rows_for_request db r = [l]"
  shows "get_request (delete_employee_leave now badge d db) rid = Some (roster_ended_row now r)
    \<and> eff_status (effective_state (delete_employee_leave now badge d db) (roster_ended_row now r))
        = EffCancelledRoster
    \<and> list_all (\<lambda>x. sd_request_id x \<noteq> rid) (leave_days (delete_employee_leave now badge d db))
    \<and> sr_cert (roster_ended_row now r) = None \<and> sr_cert_type (roster_ended_row now r) = None
    \<and> sr_cert_sha256 (roster_ended_row now r) = sr_cert_sha256 r
    \<and> sr_cert_uploaded_at (roster_ended_row now r) = sr_cert_uploaded_at r
    \<and> sr_cert_sha256 (cancelled_row now r) = None \<and> sr_cert_uploaded_at (cancelled_row now r) = None"
proof -
  note k = leave_inv_keys [OF inv]
  define db1 where "db1 = db\<lparr>leaves := delete_where (\<lambda>x. el_key x = (badge, d)) (leaves db)\<rparr>"
  have old: "first (\<lambda>x. el_key x = (badge, d)) (leaves db) = Some l"
    using first_key [OF k(1) l(1)] l(2) by simp
  have "x = l" if "x \<in> set (leaves db)" "el_badge x = sr_badge r" "note_matches (reference r) (el_note x)" for x
  proof -
    have "x \<in> set (roster_rows_for_request db r)" using that by (simp add: roster_rows_for_request_def)
    with only show ?thesis by simp
  qed
  then have none: "roster_rows_for_request (db1\<lparr>leave_days := ds\<rparr>) r = []" for ds
  proof -
    have "filter (\<lambda>x. el_badge x = sr_badge r \<and> note_matches (reference r) (el_note x))
        (delete_where (\<lambda>x. el_key x = (badge, d)) (leaves db)) = []"
      using l(2) \<open>\<And>x. x \<in> set (leaves db) \<Longrightarrow> el_badge x = sr_badge r
        \<Longrightarrow> note_matches (reference r) (el_note x) \<Longrightarrow> x = l\<close>
      by (auto simp: filter_empty_conv)
    then show ?thesis by (simp add: roster_rows_for_request_def db1_def)
  qed
  have id: "sr_id r = rid" using get_request_Some [OF get] by simp
  have get1: "get_request db1 rid = Some r" using get by (simp add: db1_def get_request_def)
  have "delete_employee_leave now badge d db = on_roster_leave_removed now badge d (el_note l) db1"
    by (simp add: delete_employee_leave_def old flip: db1_def)
  also have "\<dots> = release_request_days (db1\<lparr>leave_days := delete_where
         (\<lambda>x. sd_request_id x = rid \<and> sd_date x = d) (leave_days db1),
       requests := update_where (\<lambda>x. sr_id x = rid) (roster_ended_row now) (requests db1)\<rparr>) r"
    using l(3) get1 appr none by (simp add: on_roster_leave_removed_def Let_def id)
  finally have eq: "delete_employee_leave now badge d db = \<dots>" .
  have "get_request (delete_employee_leave now badge d db) rid = Some (roster_ended_row now r)"
    unfolding eq using get1
    by (simp add: release_request_days_def get_request_def first_update_where roster_ended_row_def id)
  moreover have "list_all (\<lambda>x. sd_request_id x \<noteq> rid) (leave_days (delete_employee_leave now badge d db))"
    unfolding eq by (simp add: release_request_days_def id list_all_iff)
  ultimately show ?thesis
    by (simp add: roster_ended_row_def cancelled_row_def effective_state_def Let_def)
qed

definition demo_sick :: staff_leave_request where
  "demo_sick = (new_request demo_employee demo_id ''sick'' 739000 739000 0)
     \<lparr>sr_status := LeaveApproved, sr_version := 3, sr_cert := Some ''jpeg'',
      sr_cert_type := Some ''image/jpeg'', sr_cert_sha256 := Some ''digest'',
      sr_cert_uploaded_at := Some 1, sr_reviewed_by := Some AUTO_REVIEWER\<rparr>"

definition demo_sick_db :: leave_db where
  "demo_sick_db = demo_db\<lparr>requests := [demo_sick], leaves := leaves_for demo_sick,
     leave_days := days_for ''7'' demo_id 739000 739000\<rparr>"

theorem roster_removal_ends_request_witness:
  "get_request (delete_employee_leave 9 ''7'' 739000 demo_sick_db) demo_id
     = Some (roster_ended_row 9 demo_sick)
   \<and> sr_cert_sha256 (roster_ended_row 9 demo_sick) = Some ''digest''"
proof -
  have inv: "leave_inv demo_sick_db"
    by (simp add: leave_inv_def leave_keys_ok_def demo_sick_db_def demo_db_def days_owned_def
        demo_sick_def new_request_def request_ok_def live_def days_for_def leaves_for_def sd_key_def
        demo_employee_def)
  have get: "get_request demo_sick_db demo_id = Some demo_sick"
    by (simp add: demo_sick_db_def get_request_def demo_sick_def new_request_def)
  have ls: "leaves demo_sick_db = [\<lparr>el_badge = ''7'', el_date = 739000, el_leave_type = ''sick'',
      el_note = Some (reference demo_sick)\<rparr>]" (is "_ = [?l]")
    by (simp add: demo_sick_db_def leaves_for_def demo_sick_def new_request_def demo_employee_def)
  have rid: "request_id_from_note (el_note ?l) = Some demo_id" by code_simp
  have rows: "roster_rows_for_request demo_sick_db demo_sick = [?l]"
    by (simp add: roster_rows_for_request_def ls note_matches_def demo_sick_def new_request_def
        demo_employee_def)
  have b: "sr_badge demo_sick = ''7''" "sr_status demo_sick = LeaveApproved"
      "sr_cert_sha256 demo_sick = Some ''digest''"
    by (simp_all add: demo_sick_def new_request_def demo_employee_def)
  have l: "?l \<in> set (leaves demo_sick_db)" "el_key ?l = (''7'', 739000)" by (simp_all add: ls el_key_def)
  from roster_removal_ends_request [OF inv get b(2,1) l rid rows, of 9, unfolded b(3)]
  show ?thesis by blast
qed

section \<open>The admin upsert\<close>

definition day_written :: "str \<Rightarrow> str \<Rightarrow> str option \<Rightarrow> str option \<Rightarrow> date \<Rightarrow> leave_db \<Rightarrow> bool" where
  "day_written badge kind bn stored d db \<longleftrightarrow>
     (\<exists>l. first (\<lambda>x. el_key x = (badge, d)) (leaves db) = Some l \<and> el_leave_type l = kind
        \<and> (el_note l = stored \<or> bn = None \<and> request_id_from_note (el_note l) \<noteq> None))"

lemma removed_leaves [simp]: "leaves (on_roster_leave_removed now badge d n db) = leaves db"
  by (simp add: on_roster_leave_removed_def release_request_days_def Let_def split: option.split)

lemma write_leave_day_leaves:
  "leaves (write_leave_day now badge kind bn stored d db) =
     (case first (\<lambda>l. el_key l = (badge, d)) (leaves db) of
        None \<Rightarrow> leaves db @ [\<lparr>el_badge = badge, el_date = d, el_leave_type = kind, el_note = stored\<rparr>]
      | Some old \<Rightarrow> update_where (\<lambda>l. el_key l = (badge, d))
          (\<lambda>l. l\<lparr>el_leave_type := kind, el_note :=
             (if bn = None \<and> request_id_from_note (el_note old) \<noteq> None then el_note old else stored)\<rparr>)
          (leaves db))"
  by (simp add: write_leave_day_def Let_def split: option.split)

lemma el_key_simps [simp]:
  "el_key (l\<lparr>el_leave_type := kind, el_note := n\<rparr>) = el_key l"
  "el_key \<lparr>el_badge = b, el_date = d, el_leave_type = kind, el_note = n\<rparr> = (b, d)"
  by (simp_all add: el_key_def)

lemma first_overwrite:
  "first (\<lambda>l. el_key l = k) (update_where P (\<lambda>l. l\<lparr>el_leave_type := kind, el_note := n\<rparr>) ls)
    = map_option (\<lambda>l. if P l then l\<lparr>el_leave_type := kind, el_note := n\<rparr> else l)
        (first (\<lambda>l. el_key l = k) ls)"
  by (rule first_update_where) simp

lemma write_day_writes: "day_written badge kind bn stored d (write_leave_day now badge kind bn stored d db)"
proof (cases "first (\<lambda>l. el_key l = (badge, d)) (leaves db)")
  case None
  then show ?thesis by (simp add: day_written_def write_leave_day_leaves first_append)
next
  case (Some old)
  then show ?thesis
    using first_Some [OF Some]
    by (simp add: day_written_def write_leave_day_leaves first_overwrite)
qed

lemma write_day_keeps:
  assumes "day_written badge kind bn stored d db" "d' \<noteq> d"
  shows "day_written badge kind bn stored d (write_leave_day now badge kind bn stored d' db)"
proof -
  obtain l where l: "first (\<lambda>x. el_key x = (badge, d)) (leaves db) = Some l" "el_leave_type l = kind"
      "el_note l = stored \<or> bn = None \<and> request_id_from_note (el_note l) \<noteq> None"
    using assms(1) by (auto simp: day_written_def)
  moreover have "el_key l \<noteq> (badge, d')" using first_Some [OF l(1)] assms(2) by simp
  ultimately show ?thesis
    by (auto simp: day_written_def write_leave_day_leaves first_append first_overwrite
        split: option.split)
qed

lemma write_days_keep:
  "day_written badge kind bn stored d db \<Longrightarrow> d \<notin> set ds
   \<Longrightarrow> day_written badge kind bn stored d (fold (write_leave_day now badge kind bn stored) ds db)"
  by (induction ds arbitrary: db) (auto simp: write_day_keeps)

lemma write_days_write:
  "distinct ds \<Longrightarrow> d \<in> set ds
   \<Longrightarrow> day_written badge kind bn stored d (fold (write_leave_day now badge kind bn stored) ds db)"
  by (induction ds arbitrary: db) (auto simp: write_day_writes write_days_keep)

lemma update_where_id: "(\<And>x. x \<in> set xs \<Longrightarrow> P x \<Longrightarrow> f x = x) \<Longrightarrow> update_where P f xs = xs"
  by (induction xs) (auto simp: update_where_def)

lemma write_written:
  assumes inv: "leave_inv db" and w: "day_written badge kind bn stored d db"
  shows "write_leave_day now badge kind bn stored d db = db"
proof -
  obtain l where l: "first (\<lambda>x. el_key x = (badge, d)) (leaves db) = Some l" "el_leave_type l = kind"
      "el_note l = stored \<or> bn = None \<and> request_id_from_note (el_note l) \<noteq> None"
    using w by (auto simp: day_written_def)
  define n where "n = (if bn = None \<and> request_id_from_note (el_note l) \<noteq> None then el_note l else stored)"
  have n: "n = el_note l" using l(3) by (auto simp: n_def)
  have "x = l" if "x \<in> set (leaves db)" "el_key x = (badge, d)" for x
    using el_key_unique [OF leave_inv_keys(1) [OF inv]] first_Some [OF l(1)] that by simp
  then have "update_where (\<lambda>x. el_key x = (badge, d)) (\<lambda>x. x\<lparr>el_leave_type := kind, el_note := n\<rparr>)
      (leaves db) = leaves db"
    using l(2) n by (intro update_where_id) auto
  moreover have "write_leave_day now badge kind bn stored d db =
      (let db1 = db\<lparr>leaves := update_where (\<lambda>x. el_key x = (badge, d))
          (\<lambda>x. x\<lparr>el_leave_type := kind, el_note := n\<rparr>) (leaves db)\<rparr>
       in if request_id_from_note n \<noteq> request_id_from_note (el_note l)
          then on_roster_leave_removed now badge d (el_note l) db1 else db1)"
    by (simp only: write_leave_day_def l(1) option.case Let_def n_def)
  ultimately show ?thesis by (simp add: n)
qed

lemma write_written_days:
  "leave_inv db \<Longrightarrow> (\<And>d. d \<in> set ds \<Longrightarrow> day_written badge kind bn stored d db)
   \<Longrightarrow> fold (write_leave_day now badge kind bn stored) ds db = db"
  by (induction ds arbitrary: db) (auto simp: write_written)

text \<open>
  The admin's upsert is idempotent: sending the same body again, at any later time,
  changes nothing, whether it inserted, overwrote, kept a LINE link or cut one.
\<close>

theorem admin_upsert_idempotent:
  assumes inv: "leave_inv db" and step: "create_employee_leaves now body db = (db', Inr u)"
  shows "create_employee_leaves now' body db' = (db', Inr ())"
proof -
  obtain p a b where body: "li_type body \<in> set ALLOWED_LEAVE_TYPES"
      "portion_of_text (li_portion body) = Some p" "leave_range body = Inr (a, b)"
      "validate_range a b 92 = None" "\<not> (p \<noteq> Full \<and> a \<noteq> b)"
    and emp: "first (\<lambda>e. badge_number e = li_badge body) (employees db) \<noteq> None"
    and db': "db' = fold (write_leave_day now (li_badge body) (li_type body) (li_note body)
                (note_with_portion (li_note body) p)) (span a b) db"
    using step
    by (auto simp: create_employee_leaves_def split: if_splits option.splits sum.splits prod.splits)
  have emps: "employees (write_leave_day now bg k bn st d x) = employees x" for now bg k bn st d x
    by (auto simp: write_leave_day_def on_roster_leave_removed_def release_request_days_def Let_def
        split: option.split)
  have "employees (fold (write_leave_day now bg k bn st) ds x) = employees x" for now bg k bn st ds x
    by (induction ds arbitrary: x) (auto simp: emps)
  then have emp': "first (\<lambda>e. badge_number e = li_badge body) (employees db') \<noteq> None"
    using emp by (simp add: db')
  have "leave_inv db'" unfolding db' using inv by (rule write_leave_days_inv)
  then have "fold (write_leave_day now' (li_badge body) (li_type body) (li_note body)
                (note_with_portion (li_note body) p)) (span a b) db' = db'"
    by (rule write_written_days) (simp add: db' write_days_write)
  with body emp' show ?thesis by (auto simp: create_employee_leaves_def)
qed

definition demo_body :: leave_in where
  "demo_body = \<lparr>li_badge = ''7'', li_type = ''sick'', li_portion = ''full'', li_date = None,
     li_from = Some 739000, li_to = Some 739001, li_note = Some ''flu''\<rparr>"

theorem admin_upsert_idempotent_witness:
  "\<exists>db'. create_employee_leaves 6 demo_body demo_approved = (db', Inr ())
     \<and> create_employee_leaves 7 demo_body db' = (db', Inr ())"
proof -
  have "snd (create_employee_leaves 6 demo_body demo_approved) = Inr ()" by code_simp
  then obtain db' where d: "create_employee_leaves 6 demo_body demo_approved = (db', Inr ())"
    by (metis prod.collapse)
  from admin_upsert_idempotent [OF demo_approved_inv d] d show ?thesis by blast
qed

section \<open>The half-day marker\<close>

definition plain_text :: "str option \<Rightarrow> bool" where
  "plain_text n = (CHR ''|'' \<notin> set (or_else n []))"

lemma strip_bar_set: "set (strip_bar s) \<subseteq> set s"
  by (auto simp: strip_bar_def Let_def dest!: set_dropWhileD)

lemma dropWhile_idem: "dropWhile p (dropWhile p xs) = dropWhile p xs"
  by (induction xs) auto

lemma strip_bar_idem: "strip_bar (strip_bar s) = strip_bar s"
proof -
  define p where "p = (\<lambda>c. c = CHR '' '' \<or> c = CHR ''|'')"
  define a where "a = dropWhile p s"
  define b where "b = rev (dropWhile p (rev a))"
  have b: "strip_bar s = b" by (simp add: strip_bar_def b_def a_def p_def Let_def)
  have "dropWhile p b = b"
  proof (cases b)
    case (Cons c t)
    obtain e where e: "a = b @ e"
      unfolding b_def by (metis rev_append rev_rev_ident takeWhile_dropWhile_id)
    then have "a = c # (t @ e)" using Cons by simp
    then have "\<not> p c" unfolding a_def by (metis dropWhile_idem dropWhile.simps(2) list.inject not_Cons_self2 dropWhile_eq_Cons_conv)
    then show ?thesis using Cons by simp
  qed simp
  moreover have "rev (dropWhile p (rev b)) = b" by (simp add: b_def dropWhile_idem)
  ultimately show ?thesis unfolding b by (simp add: strip_bar_def Let_def flip: p_def)
qed

lemma clean_plain:
  assumes "plain_text n"
  shows "clean_leave_note n = (let c = strip_bar (or_else n []) in if c = [] then None else Some c)"
proof (cases "truthy n")
  case True
  have "sub_half (or_else n []) = or_else n []"
    using sub_half_skip [of "or_else n []" "[]"] assms by (simp add: plain_text_def)
  with True show ?thesis by (simp add: clean_leave_note_def)
next
  case False
  then have "or_else n [] = []" by (auto simp: or_else_def truthy_def split: option.splits)
  with False show ?thesis by (simp add: clean_leave_note_def strip_bar_def)
qed

text \<open>
  The half-day marker round-trips: for a note without a vertical bar, the note the admin
  API stores for a portion is read back as that portion by the API and by the LINE and
  attendance side alike, and shows the admin the same text as a full-day note.
\<close>

theorem portion_marker_roundtrip:
  assumes "plain_text n"
  shows "portion_from_note (note_with_portion n p) = p
    \<and> portion_from_leave_note (note_with_portion n p) = p
    \<and> clean_leave_note (note_with_portion n p) = clean_leave_note n"
proof -
  define c where "c = strip_bar (or_else n [])"
  have c: "CHR ''|'' \<notin> set c" using assms strip_bar_set by (auto simp: c_def plain_text_def)
  have clean: "clean_leave_note n = (if c = [] then None else Some c)"
    using clean_plain [OF assms] by (simp add: c_def Let_def)
  have idem: "strip_bar c = c" by (simp add: c_def strip_bar_idem)
  show ?thesis
  proof (cases "p = Full")
    case True
    have "search_half c = None" "search_half_end c = None" "sub_half c = c"
      using search_half_skip [OF c, of "[]"] search_half_end_skip [OF c, of "[]"]
        sub_half_skip [OF c, of "[]"] by simp_all
    moreover have "note_with_portion n p = (if c = [] then None else Some c)"
      by (simp only: note_with_portion_def clean Let_def True simp_thms if_True)
    ultimately show ?thesis
      unfolding clean using True idem
      by (cases c) (simp_all add: portion_from_note_def portion_from_leave_note_def
          clean_leave_note_def)
  next
    case False
    define m where "m = ''|half='' @ portion_text p"
    note eval = marker_eval [OF False, folded m_def]
    have m: "m \<noteq> []" by (simp add: m_def)
    have stored: "note_with_portion n p = Some (c @ m)"
      using False by (cases c) (simp_all add: note_with_portion_def clean Let_def m_def)
    have ne: "or_else (Some (c @ m)) [] = c @ m" using m by (cases "c @ m") simp_all
    have "search_half (c @ m) = Some p" "search_half_end (c @ m) = Some p" "sub_half (c @ m) = c"
      using search_half_skip [OF c] search_half_end_skip [OF c] sub_half_skip [OF c] eval by simp_all
    then show ?thesis
      unfolding stored clean using idem m
      by (simp add: ne portion_from_note_def portion_from_leave_note_def
          clean_leave_note_def Let_def)
  qed
qed

theorem portion_marker_roundtrip_witness:
  "portion_from_leave_note (note_with_portion (Some ''clinic'') PM) = PM"
  using portion_marker_roundtrip [of "Some ''clinic''" PM] by (simp add: plain_text_def)

text \<open>
  Where the marker does not round-trip: a full-day note that ends in a marker and a blank
  loses the blank and is then read as a half day; an afternoon note built on it is read as
  the morning by the admin API and as the afternoon by LINE and the attendance report.
\<close>

lemma trailing_marker_misread:
  "note_with_portion (Some ''x|half=am '') Full = Some ''x|half=am''
   \<and> portion_from_note (note_with_portion (Some ''x|half=am '') Full) = AM
   \<and> portion_from_note (note_with_portion (Some ''x|half=am '') PM) = AM
   \<and> portion_from_leave_note (note_with_portion (Some ''x|half=am '') PM) = PM"
  by code_simp

end
