(* ===== verification/LeaveForms.thy ===== *)
theory LeaveForms
  imports LeaveRoster
begin

text \<open>
  The signed forms of the leave flow (\<open>action_data\<close>, \<open>_parse_action\<close>, \<open>image_url\<close>,
  \<open>valid_image_token\<close> of \<open>app/services/staff_leave.py\<close>) and the verbs
  \<open>staff_leave_manage.py\<close> puts into them. The hexadecimal HMAC-SHA256 digest is a parameter.
\<close>

section \<open>Tokens\<close>

datatype form_error = NotReady | FormBadButton | FormForeign | FormExpired | FormBadInput

type_synonym mac_fn = "str \<Rightarrow> str \<Rightarrow> str"

definition mac_of :: "mac_fn \<Rightarrow> str option \<Rightarrow> str \<Rightarrow> str \<Rightarrow> form_error + str" where
  "mac_of hmac secret purpose txt =
     (if \<not> truthy secret then Inl NotReady
      else Inr (hmac (or_else secret []) (purpose @ [CHR 0x0A] @ txt)))"

definition PREFIX :: str where "PREFIX = ''hfleave:''"
definition FORM_PURPOSE :: str where "FORM_PURPOSE = ''staff-leave-form-v1''"
definition IMAGE_PURPOSE :: str where "IMAGE_PURPOSE = ''staff-leave-image-v1''"

definition action_data ::
  "mac_fn \<Rightarrow> str option \<Rightarrow> str \<Rightarrow> str \<Rightarrow> str \<Rightarrow> str \<Rightarrow> str \<Rightarrow> str \<Rightarrow> int \<Rightarrow> form_error + str" where
  "action_data hmac secret verb badge rid kind start end_s expires =
     (let body = join_on (CHR '':'') [verb, rid, kind, start, end_s, show_int expires] in
      case mac_of hmac secret FORM_PURPOSE (badge @ '':'' @ body) of
        Inl e \<Rightarrow> Inl e
      | Inr m \<Rightarrow> Inr (PREFIX @ body @ '':'' @ m))"

definition parse_action ::
  "mac_fn \<Rightarrow> str option \<Rightarrow> int \<Rightarrow> str \<Rightarrow> str
   \<Rightarrow> form_error + str \<times> str \<times> str \<times> str \<times> str \<times> int" where
  "parse_action hmac secret now data badge =
     (let parts = split_on (CHR '':'') (drop (length PREFIX) data) in
      if length parts \<noteq> 7 \<or> \<not> id_re (parts ! 1) then Inl FormBadButton
      else
        let body = join_on (CHR '':'') (butlast parts) in
        (case mac_of hmac secret FORM_PURPOSE (badge @ '':'' @ body) of
           Inl e \<Rightarrow> Inl e
         | Inr m \<Rightarrow>
             (case compare_digest m (last parts) of
                Inl _ \<Rightarrow> Inl FormBadInput
              | Inr same \<Rightarrow>
                  if \<not> same then Inl FormForeign
                  else (case py_int (parts ! 5) of
                          None \<Rightarrow> Inl FormBadButton
                        | Some expires \<Rightarrow>
                            if \<not> (now < expires \<and> expires \<le> now + FORM_TTL + 5) then Inl FormExpired
                            else Inr (parts ! 0, parts ! 1, parts ! 2, parts ! 3, parts ! 4, expires)))))"

definition image_body :: "str \<Rightarrow> int \<Rightarrow> int \<Rightarrow> str" where
  "image_body rid version expires = join_on (CHR '':'') [rid, show_int version, show_int expires]"

definition image_signature ::
  "mac_fn \<Rightarrow> str option \<Rightarrow> staff_leave_request \<Rightarrow> int \<Rightarrow> form_error + str" where
  "image_signature hmac secret r expires =
     mac_of hmac secret IMAGE_PURPOSE (image_body (sr_id r) (sr_version r) expires)"

definition hex64 :: "str \<Rightarrow> bool" where
  "hex64 s = (length s = 64 \<and> list_all lower_hex s)"

definition valid_image_token ::
  "mac_fn \<Rightarrow> str option \<Rightarrow> int \<Rightarrow> str \<Rightarrow> int \<Rightarrow> int \<Rightarrow> str \<Rightarrow> bool" where
  "valid_image_token hmac secret now rid version expires signature =
     (if \<not> id_re rid \<or> \<not> hex64 signature \<or> \<not> truthy secret then False
      else if \<not> (now < expires \<and> expires \<le> now + IMAGE_TTL + 5) then False
      else (case mac_of hmac secret IMAGE_PURPOSE (image_body rid version expires) of
              Inl _ \<Rightarrow> False | Inr m \<Rightarrow> compare_digest m signature = Inr True))"

text \<open>The receipt endpoint: the signed version must still be the stored one.\<close>

definition receipt_image ::
  "mac_fn \<Rightarrow> str option \<Rightarrow> int \<Rightarrow> str \<Rightarrow> int \<Rightarrow> int \<Rightarrow> str \<Rightarrow> leave_db
   \<Rightarrow> staff_leave_request option" where
  "receipt_image hmac secret now rid version expires signature db =
     (if \<not> valid_image_token hmac secret now rid version expires signature then None
      else case get_request db rid of
        None \<Rightarrow> None
      | Some r \<Rightarrow> if sr_version r \<noteq> version then None else Some r)"

section \<open>Round trips\<close>

lemma show_int_no_colon: "CHR '':'' \<notin> set (show_int i)"
  using show_int_chars by (fastforce simp: is_digit_def)

lemma hex_no_colon: "list_all lower_hex s \<Longrightarrow> CHR '':'' \<notin> set s"
  by (auto simp: list_all_iff lower_hex_def is_digit_def)

lemma hex_ascii: "list_all lower_hex s \<Longrightarrow> ascii s"
  by (auto simp: list_all_iff lower_hex_def is_digit_def ascii_def)

lemma id_re_no_colon: "id_re s \<Longrightarrow> CHR '':'' \<notin> set s"
  by (simp add: id_re_def hex_no_colon)

text \<open>
  A leave button works for its account and only while it lasts: the data signed for an
  employee parses back to the same verb, request, type, dates and expiry within the hour;
  for another account whose digest differs it is refused as foreign; after its expiry it is
  refused as expired. HMAC-SHA256 is only assumed to print 64 lower-case hex digits.
\<close>

theorem action_data_roundtrip:
  assumes hex: "\<And>k m. hex64 (hmac k m)"
    and secret: "truthy secret"
    and plain: "CHR '':'' \<notin> set verb" "CHR '':'' \<notin> set kind" "CHR '':'' \<notin> set start"
      "CHR '':'' \<notin> set end_s"
    and rid: "id_re rid"
    and data: "action_data hmac secret verb badge rid kind start end_s expires = Inr d"
  shows "(now < expires \<and> expires \<le> now + 3605
      \<longrightarrow> parse_action hmac secret now d badge = Inr (verb, rid, kind, start, end_s, expires))
    \<and> (\<not> (now < expires \<and> expires \<le> now + 3605)
      \<longrightarrow> parse_action hmac secret now d badge = Inl FormExpired)
    \<and> (mac_of hmac secret FORM_PURPOSE (badge2 @ '':'' @
          join_on (CHR '':'') [verb, rid, kind, start, end_s, show_int expires])
        \<noteq> mac_of hmac secret FORM_PURPOSE (badge @ '':'' @
          join_on (CHR '':'') [verb, rid, kind, start, end_s, show_int expires])
      \<longrightarrow> parse_action hmac secret now d badge2 = Inl FormForeign)"
proof -
  define fields where "fields = [verb, rid, kind, start, end_s, show_int expires]"
  define body where "body = join_on (CHR '':'') fields"
  define mac where "mac b = hmac (or_else secret []) (FORM_PURPOSE @ [CHR 0x0A] @ b @ '':'' @ body)" for b
  have mac: "mac_of hmac secret FORM_PURPOSE (b @ '':'' @ body) = Inr (mac b)" for b
    using secret by (simp add: mac_of_def mac_def)
  have mac1: "mac_of hmac secret FORM_PURPOSE (b @ CHR '':'' # body) = Inr (mac b)" for b
    using mac [of b] by simp
  have hx: "list_all lower_hex (mac b)" for b using hex by (simp add: mac_def hex64_def)
  have d: "d = PREFIX @ body @ '':'' @ mac badge"
    using data by (simp add: action_data_def mac1 flip: fields_def body_def)
  have "body @ '':'' @ mac badge = join_on (CHR '':'') (fields @ [mac badge])"
    by (simp add: body_def fields_def)
  then have parts: "split_on (CHR '':'') (drop (length PREFIX) d) = fields @ [mac badge]"
    using split_on_join [of "fields @ [mac badge]" "CHR '':''"] plain rid
      hex_no_colon [OF hx] show_int_no_colon id_re_no_colon
    by (simp add: d fields_def)
  have cmp: "compare_digest (mac b) (mac badge) = Inr (mac b = mac badge)" for b
    using hex_ascii [OF hx] by (simp add: compare_digest_def)
  have parse: "parse_action hmac secret now d b =
      (if mac b \<noteq> mac badge then Inl FormForeign
       else if \<not> (now < expires \<and> expires \<le> now + 3605) then Inl FormExpired
       else Inr (verb, rid, kind, start, end_s, expires))" for b
  proof -
    have "fields ! 1 = rid" "length fields = 6" "fields ! 0 = verb" "fields ! 2 = kind"
        "fields ! 3 = start" "fields ! 4 = end_s" "fields ! 5 = show_int expires"
      by (simp_all add: fields_def)
    then show ?thesis
      using rid
      by (simp add: parse_action_def parts Let_def nth_append mac1 cmp py_int_show_int FORM_TTL_def
          flip: body_def)
  qed
  have "mac_of hmac secret FORM_PURPOSE (badge2 @ '':'' @ body)
      \<noteq> mac_of hmac secret FORM_PURPOSE (badge @ '':'' @ body) \<longleftrightarrow> mac badge2 \<noteq> mac badge"
    by (simp only: mac sum.inject)
  then show ?thesis by (simp only: parse body_def fields_def) simp
qed

theorem action_data_roundtrip_witness:
  "parse_action (\<lambda>k m. replicate 64 (CHR ''a'')) (Some ''s'') 100
     (case action_data (\<lambda>k m. replicate 64 (CHR ''a'')) (Some ''s'') ''submit'' ''7''
        ''0123456789abcdef0123456789abcdef'' ''sick'' ''2026-09-01'' ''2026-09-02'' 3700 of Inr d \<Rightarrow> d)
     ''7'' = Inr (''submit'', ''0123456789abcdef0123456789abcdef'', ''sick'', ''2026-09-01'', ''2026-09-02'', 3700)"
proof -
  have h: "hex64 (replicate 64 (CHR ''a''))"
    by (simp add: hex64_def list_all_iff lower_hex_def)
  obtain d where d: "action_data (\<lambda>k m. replicate 64 (CHR ''a'')) (Some ''s'') ''submit'' ''7''
        ''0123456789abcdef0123456789abcdef'' ''sick'' ''2026-09-01'' ''2026-09-02'' 3700 = Inr d"
    by (auto simp: action_data_def mac_of_def Let_def)
  have i: "id_re ''0123456789abcdef0123456789abcdef''" by code_simp
  from action_data_roundtrip [OF h _ _ _ _ _ i d, of 100] show ?thesis by (simp add: d)
qed

definition demo_row :: staff_leave_request where
  "demo_row = \<lparr>sr_id = ''0123456789abcdef0123456789abcdef'', sr_badge = ''7'',
     sr_employee_name = ''Mali'', sr_department = None, sr_location = None,
     sr_leave_type = ''sick'', sr_portion = Full, sr_from = 739000, sr_to = 739000,
     sr_status = LeavePending, sr_version = 1, sr_cert = None, sr_cert_type = None,
     sr_cert_sha256 = None, sr_cert_uploaded_at = None, sr_family_reported_at = None,
     sr_created_at = 0, sr_updated_at = 0, sr_reviewed_by = None, sr_reviewed_at = None\<rparr>"

definition demo_row_db :: leave_db where
  "demo_row_db = \<lparr>employees = [], leaves = [], requests = [demo_row], leave_days = [],
     holidays = [], leave_types = []\<rparr>"

text \<open>
  A receipt link shows exactly one state of one request: the link signed for a row opens
  while it lasts and the row is unchanged, and any change of the row closes it.
\<close>

theorem receipt_link_shows_signed_version:
  assumes hex: "\<And>k m. hex64 (hmac k m)"
    and id: "id_re (sr_id r)"
    and sign: "image_signature hmac secret r expires = Inr s"
    and time: "now < expires" "expires \<le> now + 86405"
    and stored: "get_request db (sr_id r) = Some r'"
  shows "receipt_image hmac secret now (sr_id r) (sr_version r) expires s db
    = (if sr_version r' = sr_version r then Some r' else None)"
proof -
  have h: "hex64 s" "truthy secret"
    using sign hex by (auto simp: image_signature_def mac_of_def split: if_splits)
  then have "ascii s" by (simp add: hex64_def hex_ascii)
  then show ?thesis
    using h sign id time stored
    by (simp add: receipt_image_def valid_image_token_def image_signature_def IMAGE_TTL_def)
qed

theorem receipt_link_shows_signed_version_witness:
  "\<exists>s. image_signature (\<lambda>k m. replicate 64 (CHR ''a'')) (Some ''s'') demo_row 200 = Inr s
     \<and> receipt_image (\<lambda>k m. replicate 64 (CHR ''a'')) (Some ''s'') 100 (sr_id demo_row)
          (sr_version demo_row) 200 s demo_row_db = Some demo_row"
proof -
  have h: "hex64 (replicate 64 (CHR ''a''))"
    by (simp add: hex64_def list_all_iff lower_hex_def)
  obtain s where s: "image_signature (\<lambda>k m. replicate 64 (CHR ''a'')) (Some ''s'') demo_row 200 = Inr s"
    by (auto simp: image_signature_def mac_of_def)
  have i: "id_re (sr_id demo_row)" by code_simp
  have g: "get_request demo_row_db (sr_id demo_row) = Some demo_row"
    by (simp add: demo_row_db_def get_request_def)
  from receipt_link_shows_signed_version [OF h i s _ _ g, of 100] s show ?thesis by simp
qed

end
