(* ===== verification/ShiftService.thy ===== *)
theory ShiftService
  imports Tables
begin

text \<open>
  Which shift an employee works on a Bangkok date and when its punches count:
  \<open>app/services/shift_service.py\<close>, the UTC+7 conversion of \<open>app/utils/timezone.py\<close> and the
  assignment endpoints of \<open>app/api/shifts.py\<close>. A call that may raise returns a sum.
\<close>

section \<open>Tables and results\<close>

record shift_db =
  shifts :: "shift list"
  assignments :: "shift_assignment list"
  schedules :: "employee_schedule list"

datatype shift_source =
    Override | OverrideOff | Schedule | ScheduleOffDay | ScheduleReceptionOff
  | EmployeeDefault | RoleDefault | Untracked

record effective_shift =
  es_shift :: "shift option"
  es_is_off :: bool
  es_source :: shift_source
  es_eff_role :: "str option"

definition DEFAULT_SHIFT_CODE_BY_ROLE :: "(str \<times> str) list" where
  "DEFAULT_SHIFT_CODE_BY_ROLE =
     [(''housekeeping'', ''MORNING''), (''technician'', ''NORMAL''), (''admin'', ''NORMAL'')]"

definition ROLES_REQUIRING_DAILY_ASSIGNMENT :: "str list" where
  "ROLES_REQUIRING_DAILY_ASSIGNMENT = [''reception'']"

definition eff :: "shift option \<Rightarrow> bool \<Rightarrow> shift_source \<Rightarrow> effective_shift" where
  "eff s off src = \<lparr>es_shift = s, es_is_off = off, es_source = src, es_eff_role = None\<rparr>"

section \<open>Resolution\<close>

definition role_default_shift :: "shift_db \<Rightarrow> str option \<Rightarrow> shift option" where
  "role_default_shift db r =
     (if \<not> truthy r then None
      else case map_of DEFAULT_SHIFT_CODE_BY_ROLE (or_else r []) of
        None \<Rightarrow> None
      | Some code \<Rightarrow> if code = [] then None else first (\<lambda>s. shift_code s = code) (shifts db))"

definition schedule_as_of :: "shift_db \<Rightarrow> str \<Rightarrow> date \<Rightarrow> employee_schedule option" where
  "schedule_as_of db badge d =
     newest effective_from (filter (\<lambda>v. es_badge v = badge \<and> effective_from v \<le> d) (schedules db))"

fun parse_ints :: "str list \<Rightarrow> int list option" where
  "parse_ints [] = Some []"
| "parse_ints (p # ps) =
     (if strip p = [] then parse_ints ps
      else case (py_int p, parse_ints ps) of (Some i, Some is) \<Rightarrow> Some (i # is) | _ \<Rightarrow> None)"

definition parse_work_days :: "str option \<Rightarrow> exn + int list" where
  "parse_work_days raw =
     (if \<not> truthy raw then Inr []
      else case parse_ints (split_on (CHR '','') (or_else raw [])) of
        None \<Rightarrow> Inl ValueError | Some is \<Rightarrow> Inr is)"

definition shift_for_hours :: "shift_db \<Rightarrow> tod \<Rightarrow> tod \<Rightarrow> shift" where
  "shift_for_hours db a b =
     (case first (\<lambda>s. start_time s = a \<and> end_time s = b \<and> shift_is_active s
             \<and> shift_code s \<noteq> ''OFF'') (shifts db) of
        Some s \<Rightarrow> s
      | None \<Rightarrow> \<lparr>shift_id = 0, shift_code = ''CUSTOM'', shift_letter = None, shift_name_th = ''custom'',
           start_time = a, end_time = b, shift_color = None, shift_is_active = True\<rparr>)"

definition resolve_role :: "shift_db \<Rightarrow> str option \<Rightarrow> effective_shift" where
  "resolve_role db r =
     (if (case r of None \<Rightarrow> False | Some x \<Rightarrow> x \<in> fst ` set DEFAULT_SHIFT_CODE_BY_ROLE) then
        (case role_default_shift db r of
           Some s \<Rightarrow> eff (Some s) False RoleDefault
         | None \<Rightarrow> eff None False Untracked)
      else eff None False Untracked)"

definition resolve_from_schedule ::
  "shift_db \<Rightarrow> employee_schedule \<Rightarrow> date \<Rightarrow> exn + effective_shift" where
  "resolve_from_schedule db v d =
     (if es_role v = Some ''reception'' then Inr (eff None True ScheduleReceptionOff)
      else case parse_work_days (work_days v) of
        Inl e \<Rightarrow> Inl e
      | Inr days \<Rightarrow>
          (case (work_start v, work_end v) of
             (Some a, Some b) \<Rightarrow>
               if days \<noteq> [] then
                 if weekday d \<notin> set days then Inr (eff None True ScheduleOffDay)
                 else Inr (eff (Some (shift_for_hours db a b)) False Schedule)
               else Inr (resolve_role db (es_role v))
           | _ \<Rightarrow> Inr (resolve_role db (es_role v))))"

definition shift_by_id :: "shift_db \<Rightarrow> int \<Rightarrow> shift option" where
  "shift_by_id db i = first (\<lambda>s. shift_id s = i) (shifts db)"

definition resolve_shift ::
  "shift_db \<Rightarrow> employee \<Rightarrow> date \<Rightarrow> employee_schedule option \<Rightarrow> exn + effective_shift" where
  "resolve_shift db e d version =
     (case first (\<lambda>a. sa_key a = (badge_number e, d)) (assignments db) of
        Some a \<Rightarrow>
          (case sa_shift_id a of
             None \<Rightarrow> Inr (eff None True OverrideOff)
           | Some i \<Rightarrow> Inr (eff (shift_by_id db i) False Override))
      | None \<Rightarrow>
          (case version of
             Some v \<Rightarrow> resolve_from_schedule db v d
           | None \<Rightarrow>
               (case default_shift_id e of
                  Some i \<Rightarrow> Inr (eff (shift_by_id db i) False EmployeeDefault)
                | None \<Rightarrow>
                    if (case emp_role e of None \<Rightarrow> False
                        | Some r \<Rightarrow> r \<in> set ROLES_REQUIRING_DAILY_ASSIGNMENT)
                    then Inr (eff None True OverrideOff)
                    else (case role_default_shift db (emp_role e) of
                            Some s \<Rightarrow> Inr (eff (Some s) False RoleDefault)
                          | None \<Rightarrow> Inr (eff None False Untracked)))))"

definition effective_shift_of :: "shift_db \<Rightarrow> employee \<Rightarrow> date \<Rightarrow> exn + effective_shift" where
  "effective_shift_of db e d =
     (let version = schedule_as_of db (badge_number e) d;
          r = (case version of Some v \<Rightarrow> es_role v | None \<Rightarrow> emp_role e)
      in map_sum id (\<lambda>x. x\<lparr>es_eff_role := r\<rparr>) (resolve_shift db e d version))"

section \<open>Windows\<close>

text \<open>
  A Bangkok wall-clock instant is an integer like a naive UTC one; the zone is UTC+7 all
  year. \<open>shift_window_for\<close> uses the hour and the minute of a shift's times.
\<close>

definition bkk_offset :: int where "bkk_offset = 7 * hour_us"

definition to_bangkok :: "dtime \<Rightarrow> dtime" where "to_bangkok t = t + bkk_offset"
definition bkk_to_utc :: "dtime \<Rightarrow> dtime" where "bkk_to_utc t = t - bkk_offset"

record shift_window =
  w_start_utc :: dtime
  w_end_utc :: dtime
  w_shift_start_bkk :: dtime
  w_crosses_midnight :: bool

definition SHIFT_WINDOW_BUFFER :: int where "SHIFT_WINDOW_BUFFER = 2 * hour_us"

definition crosses_midnight :: "tod \<Rightarrow> tod \<Rightarrow> bool" where
  "crosses_midnight a b = (b \<le> a)"

definition hm_us :: "tod \<Rightarrow> int" where
  "hm_us t = tod_hour t * hour_us + tod_minute t * minute_us"

definition shift_window_for :: "shift \<Rightarrow> date \<Rightarrow> shift_window" where
  "shift_window_for s d =
     (let start = midnight d + hm_us (start_time s);
          crosses = crosses_midnight (start_time s) (end_time s);
          stop = (if crosses then midnight d + day_us + hm_us (end_time s)
                  else midnight d + hm_us (end_time s))
      in \<lparr>w_start_utc = bkk_to_utc (start - SHIFT_WINDOW_BUFFER),
          w_end_utc = bkk_to_utc (stop + SHIFT_WINDOW_BUFFER),
          w_shift_start_bkk = start, w_crosses_midnight = crosses\<rparr>)"

section \<open>Assignments\<close>

datatype shift_http_error =
    ShiftEmployeeNotFound | NotAssignable str | UnknownShift str | ShiftBadColor | ShiftBadRange

definition resolve_shift_code :: "shift_db \<Rightarrow> str option \<Rightarrow> shift_http_error + shift option" where
  "resolve_shift_code db code =
     (case code of
        None \<Rightarrow> Inr None
      | Some c \<Rightarrow>
          if c = ''OFF'' then Inl (NotAssignable c)
          else if c = ''HK_WORK'' then Inl (NotAssignable c)
          else (case first (\<lambda>s. shift_code s = c) (shifts db) of
                  None \<Rightarrow> Inl (UnknownShift c)
                | Some s \<Rightarrow> Inr (Some s)))"

definition put_assignment ::
  "employee list \<Rightarrow> str \<Rightarrow> date \<Rightarrow> str option \<Rightarrow> shift_db
   \<Rightarrow> shift_db \<times> (shift_http_error + shift_assignment)" where
  "put_assignment emps badge d code db =
     (if first (\<lambda>e. badge_number e = badge) emps = None then (db, Inl ShiftEmployeeNotFound)
      else case resolve_shift_code db code of
        Inl e \<Rightarrow> (db, Inl e)
      | Inr s \<Rightarrow>
          let sid = map_option shift_id s in
          (case first (\<lambda>a. sa_key a = (badge, d)) (assignments db) of
             None \<Rightarrow>
               let a = \<lparr>sa_badge = badge, sa_date = d, sa_shift_id = sid\<rparr> in
               (db\<lparr>assignments := assignments db @ [a]\<rparr>, Inr a)
           | Some a \<Rightarrow>
               (db\<lparr>assignments := update_where (\<lambda>x. sa_key x = (badge, d))
                      (\<lambda>x. x\<lparr>sa_shift_id := sid\<rparr>) (assignments db)\<rparr>,
                Inr (a\<lparr>sa_shift_id := sid\<rparr>))))"

definition delete_assignment :: "str \<Rightarrow> date \<Rightarrow> shift_db \<Rightarrow> shift_db" where
  "delete_assignment badge d db =
     db\<lparr>assignments := delete_where (\<lambda>a. sa_key a = (badge, d)) (assignments db)\<rparr>"

definition list_shifts :: "shift_db \<Rightarrow> shift list" where
  "list_shifts db = sort_key start_time (filter shift_is_active (shifts db))"

definition list_assignments ::
  "date \<Rightarrow> date \<Rightarrow> shift_db \<Rightarrow> shift_http_error + shift_assignment list" where
  "list_assignments a b db =
     (if b < a then Inl ShiftBadRange
      else if b - a > 31 then Inl ShiftBadRange
      else Inr (sort_key (\<lambda>x. (sa_date x, sa_badge x))
        (filter (\<lambda>x. a \<le> sa_date x \<and> sa_date x \<le> b) (assignments db))))"

definition update_shift_color ::
  "str \<Rightarrow> str option \<Rightarrow> shift_db \<Rightarrow> shift_db \<times> (shift_http_error + shift)" where
  "update_shift_color code color db =
     (case first (\<lambda>s. shift_code s = code) (shifts db) of
        None \<Rightarrow> (db, Inl (UnknownShift code))
      | Some s \<Rightarrow>
          let c = (if color = Some [] then None else color) in
          if (case c of None \<Rightarrow> False | Some x \<Rightarrow> \<not> hex_color x) then (db, Inl ShiftBadColor)
          else (db\<lparr>shifts := update_where (\<lambda>x. shift_code x = code) (\<lambda>x. x\<lparr>shift_color := c\<rparr>)
                     (shifts db)\<rparr>,
                Inr (s\<lparr>shift_color := c\<rparr>)))"

section \<open>History\<close>

lemma schedule_as_of_later:
  assumes "es_badge v \<noteq> badge \<or> d < effective_from v"
  shows "schedule_as_of (db\<lparr>schedules := schedules db @ [v]\<rparr>) badge d = schedule_as_of db badge d"
  using assms by (auto simp: schedule_as_of_def)

lemma resolve_shift_schedules [simp]:
  "role_default_shift (db\<lparr>schedules := x\<rparr>) r = role_default_shift db r"
  "shift_for_hours (db\<lparr>schedules := x\<rparr>) a b = shift_for_hours db a b"
  "shift_by_id (db\<lparr>schedules := x\<rparr>) i = shift_by_id db i"
  by (simp_all add: role_default_shift_def shift_for_hours_def shift_by_id_def split: option.split)

lemma resolve_schedules [simp]:
  "resolve_role (db\<lparr>schedules := x\<rparr>) r = resolve_role db r"
  "resolve_from_schedule (db\<lparr>schedules := x\<rparr>) v d = resolve_from_schedule db v d"
  "resolve_shift (db\<lparr>schedules := x\<rparr>) e d w = resolve_shift db e d w"
  by (simp_all add: resolve_role_def resolve_from_schedule_def resolve_shift_def
      split: option.split sum.split)


definition demo_staff :: employee where
  "demo_staff = \<lparr>badge_number = ''7'', english_name = None, thai_name = None,
     display_name = ''Mali'', department = None, position = None, is_active = True,
     is_hidden = False, line_user_id = None, line_display_name = None,
     line_picture_url = None, line_linking_code = None, line_linking_code_generated_at = None,
     emp_role = Some ''admin'', default_shift_id = None, emp_location = None, email = None,
     pending_approval = False, join_source = ''device'', nfc_card_uid = None\<rparr>"

definition demo_shift :: shift where
  "demo_shift = \<lparr>shift_id = 1, shift_code = ''NORMAL'', shift_letter = None, shift_name_th = ''n'',
     start_time = 8 * 3600000000, end_time = 17 * 3600000000, shift_color = None,
     shift_is_active = True\<rparr>"

definition demo_version :: employee_schedule where
  "demo_version = \<lparr>es_badge = ''7'', effective_from = 738000, es_role = Some ''admin'',
     work_days = Some ''0,1,2,3,4'', work_start = Some (8 * 3600000000),
     work_end = Some (17 * 3600000000)\<rparr>"

definition demo_shift_db :: shift_db where
  "demo_shift_db = \<lparr>shifts = [demo_shift], assignments = [], schedules = [demo_version]\<rparr>"


section \<open>Overrides\<close>

lemma sa_key_update [simp]: "sa_key (a\<lparr>sa_shift_id := i\<rparr>) = sa_key a"
  by (simp add: sa_key_def)

lemma sa_key_new [simp]: "sa_key \<lparr>sa_badge = b, sa_date = d, sa_shift_id = i\<rparr> = (b, d)"
  by (simp add: sa_key_def)

lemma put_assignment_lookup:
  assumes "put_assignment emps badge d code db = (db', Inr a)"
  shows "\<exists>s. resolve_shift_code db code = Inr s \<and> shifts db' = shifts db \<and> schedules db' = schedules db
    \<and> (\<forall>b x. first (\<lambda>y. sa_key y = (b, x)) (assignments db')
         = (if (b, x) = (badge, d) then Some a else first (\<lambda>y. sa_key y = (b, x)) (assignments db)))
    \<and> sa_shift_id a = map_option shift_id s"
proof -
  obtain s where s: "resolve_shift_code db code = Inr s"
    using assms by (auto simp: put_assignment_def split: if_splits sum.splits)
  show ?thesis
  proof (cases "first (\<lambda>y. sa_key y = (badge, d)) (assignments db)")
    case None
    with assms s show ?thesis
      by (auto simp: put_assignment_def Let_def first_append split: if_splits option.split)
  next
    case (Some old)
    have "first (\<lambda>y. sa_key y = k) (update_where P (\<lambda>y. y\<lparr>sa_shift_id := i\<rparr>) as)
        = map_option (\<lambda>y. if P y then y\<lparr>sa_shift_id := i\<rparr> else y) (first (\<lambda>y. sa_key y = k) as)"
      for k P i as by (rule first_update_where) simp
    with assms s Some first_Some [OF Some] show ?thesis
      by (fastforce simp: put_assignment_def Let_def option.map_comp split: if_splits
          intro!: option.map_ident_strong dest: first_Some)
  qed
qed

lemma resolve_from_same:
  assumes "shifts db' = shifts db"
  shows "resolve_from_schedule db' v d = resolve_from_schedule db v d"
    "role_default_shift db' r = role_default_shift db r"
proof -
  show "role_default_shift db' r = role_default_shift db r" for r
    by (simp only: role_default_shift_def assms)
  then show "resolve_from_schedule db' v d = resolve_from_schedule db v d"
    by (simp only: resolve_from_schedule_def resolve_role_def shift_for_hours_def assms)
qed

text \<open>
  A roster override decides its day alone: after an assignment is stored, that employee
  works exactly the named shift that day, or is off for a null code, whatever the role or the
  schedule says; every other day and every other employee keeps the shift it had.
\<close>

theorem override_decides_its_day:
  assumes put: "put_assignment emps (badge_number e) d code db = (db', Inr a)"
    and ids: "distinct (map shift_id (shifts db))"
  shows "(case code of
       None \<Rightarrow> map_sum id es_is_off (effective_shift_of db' e d) = Inr True
         \<and> map_sum id es_shift (effective_shift_of db' e d) = Inr None
     | Some c \<Rightarrow> (\<exists>s. s \<in> set (shifts db) \<and> shift_code s = c
         \<and> map_sum id es_shift (effective_shift_of db' e d) = Inr (Some s)
         \<and> map_sum id es_is_off (effective_shift_of db' e d) = Inr False))
    \<and> ((badge_number e', d') \<noteq> (badge_number e, d)
       \<longrightarrow> effective_shift_of db' e' d' = effective_shift_of db e' d')"
proof -
  obtain s where s: "resolve_shift_code db code = Inr s" "shifts db' = shifts db"
      "schedules db' = schedules db" "sa_shift_id a = map_option shift_id s"
    and look: "\<And>b x. first (\<lambda>y. sa_key y = (b, x)) (assignments db')
         = (if (b, x) = (badge_number e, d) then Some a else first (\<lambda>y. sa_key y = (b, x)) (assignments db))"
    using put_assignment_lookup [OF put] by blast
  have db': "db' = db\<lparr>assignments := assignments db'\<rparr>" using s(2,3) by simp
  have other: "effective_shift_of db' e' d' = effective_shift_of db e' d'"
    if "(badge_number e', d') \<noteq> (badge_number e, d)"
  proof -
    have "resolve_shift db' e' d' v = resolve_shift db e' d' v" for v
    proof -
      have "first (\<lambda>y. sa_key y = (badge_number e', d')) (assignments db')
          = first (\<lambda>y. sa_key y = (badge_number e', d')) (assignments db)"
        by (subst look, subst if_not_P [OF that]) (rule refl)
      then show ?thesis
        by (simp only: resolve_shift_def shift_by_id_def s(2) resolve_from_same [OF s(2)])
    qed
    then show ?thesis by (simp add: effective_shift_of_def schedule_as_of_def s)
  qed
  have this_day: "effective_shift_of db' e d = Inr \<lparr>es_shift =
        (case sa_shift_id a of None \<Rightarrow> None | Some i \<Rightarrow> shift_by_id db i),
      es_is_off = (sa_shift_id a = None),
      es_source = (if sa_shift_id a = None then OverrideOff else Override),
      es_eff_role = (case schedule_as_of db (badge_number e) d of
         Some v \<Rightarrow> es_role v | None \<Rightarrow> emp_role e)\<rparr>"
    using look [of "badge_number e" d]
    by (simp add: effective_shift_of_def resolve_shift_def eff_def Let_def schedule_as_of_def s(3)
        shift_by_id_def s(2) split: option.split)
  show ?thesis
  proof (cases code)
    case None
    with s have "sa_shift_id a = None" by (simp add: resolve_shift_code_def)
    with None this_day other show ?thesis by simp
  next
    case (Some c)
    with s(1) obtain x where x: "first (\<lambda>y. shift_code y = c) (shifts db) = Some x" "s = Some x"
      by (auto simp: resolve_shift_code_def split: if_splits option.splits)
    have "shift_by_id db (shift_id x) = Some x"
      using first_Some [OF x(1)] first_key [OF ids, of x] by (simp add: shift_by_id_def)
    with Some this_day other s(4) x first_Some [OF x(1)] show ?thesis by auto
  qed
qed

theorem override_decides_its_day_witness:
  "\<exists>db' a. put_assignment [demo_staff] ''7'' 738050 None demo_shift_db = (db', Inr a)
     \<and> map_sum id es_is_off (effective_shift_of db' demo_staff 738050) = Inr True"
proof -
  obtain db' a where p: "put_assignment [demo_staff] (badge_number demo_staff) 738050 None demo_shift_db
      = (db', Inr a)"
    by (simp add: put_assignment_def demo_staff_def demo_shift_db_def resolve_shift_code_def Let_def)
  have "badge_number demo_staff = ''7''" by (simp add: demo_staff_def)
  with override_decides_its_day [OF p] p show ?thesis
    by (auto simp: demo_shift_db_def)
qed

end
