(* ===== verification/Attendance.thy ===== *)
theory Attendance
  imports ShiftService LeaveRoster
begin

text \<open>
  The attendance views of \<open>app/api/consolidated_attendance.py\<close>, per day (\<open>/by-date\<close>) and per
  month (\<open>/monthly\<close>), with the half-day wrappers that \<open>staff_leave_options.install\<close> puts
  around them. Instants are microseconds; naive UTC for stored punches, Bangkok wall clock
  for what is shown. Python's \<open>round(x, 2)\<close> on a float is a parameter, the hours of a
  duration.
\<close>

section \<open>Calendar\<close>

definition is_leap :: "int \<Rightarrow> bool" where
  "is_leap y = (y mod 4 = 0 \<and> (y mod 100 \<noteq> 0 \<or> y mod 400 = 0))"

definition days_in_month :: "int \<Rightarrow> int \<Rightarrow> int" where
  "days_in_month y m = (if m = 2 then (if is_leap y then 29 else 28)
     else if m \<in> {4, 6, 9, 11} then 30 else 31)"

definition days_before_year :: "int \<Rightarrow> int" where
  "days_before_year y = (y - 1) * 365 + (y - 1) div 4 - (y - 1) div 100 + (y - 1) div 400"

definition ordinal :: "int \<Rightarrow> int \<Rightarrow> int \<Rightarrow> date" where
  "ordinal y m d = days_before_year y + sum_list (map (days_in_month y) [1 .. m - 1]) + d"

section \<open>Lateness\<close>

definition late_minutes :: "dtime option \<Rightarrow> dtime \<Rightarrow> int" where
  "late_minutes first_in start =
     (case first_in of None \<Rightarrow> 0
      | Some t \<Rightarrow> if t - start \<le> 0 then 0 else (t - start) div minute_us)"

definition LATE_GRACE_MINUTES :: int where "LATE_GRACE_MINUTES = 5"
definition LATE_NOTE_MINUTES :: int where "LATE_NOTE_MINUTES = 15"
definition LATE_SEVERE_MINUTES :: int where "LATE_SEVERE_MINUTES = 30"

definition late_tier :: "int \<Rightarrow> nat" where
  "late_tier m = (if m < LATE_GRACE_MINUTES then 0 else if m < LATE_NOTE_MINUTES then 1
     else if m < LATE_SEVERE_MINUTES then 2 else 3)"

datatype day_status =
    DayOff | DayAbsent | DayLate | DayOnTime
  | DayLeave | DayPresent | DayUntracked | DayFuture | DayPending

definition compute_status :: "dtime option \<Rightarrow> dtime \<Rightarrow> bool \<Rightarrow> day_status" where
  "compute_status first_in start off =
     (if off then DayOff
      else case first_in of None \<Rightarrow> DayAbsent
        | Some t \<Rightarrow> if t > start then DayLate else DayOnTime)"

definition compute_hours_worked :: "(int \<Rightarrow> real) \<Rightarrow> dtime option \<Rightarrow> dtime option \<Rightarrow> real option" where
  "compute_hours_worked round_h first_in last_out =
     (case (first_in, last_out) of
        (Some a, Some b) \<Rightarrow> if b \<le> a then None else Some (round_h (b - a))
      | _ \<Rightarrow> None)"

section \<open>One day\<close>

definition hh_mm :: "dtime \<Rightarrow> int \<times> int" where
  "hh_mm t = (let tod = t mod day_us in (tod_hour tod, tod_minute tod))"

datatype shown_name = Named str | Unnamed str

definition resolve_display_name :: "employee \<Rightarrow> shown_name" where
  "resolve_display_name e =
     (if display_name e \<noteq> [] then Named (display_name e)
      else if truthy (english_name e) then Named (or_else (english_name e) [])
      else Unnamed (badge_number e))"

record day_row =
  dr_shift :: "shift option"
  dr_first_in :: "(int \<times> int) option"
  dr_last_out :: "(int \<times> int) option"
  dr_hours :: "real option"
  dr_status :: day_status
  dr_late_minutes :: int
  dr_late_tier :: nat
  dr_in_assumed :: bool
  dr_out_assumed :: bool
  dr_leave_type :: "str option"
  dr_leave_note :: "str option"
  dr_leave_portion :: "portion option"

definition blank_row :: day_row where
  "blank_row = \<lparr>dr_shift = None, dr_first_in = None, dr_last_out = None, dr_hours = None,
     dr_status = DayOff, dr_late_minutes = 0, dr_late_tier = 0, dr_in_assumed = False,
     dr_out_assumed = False, dr_leave_type = None, dr_leave_note = None, dr_leave_portion = None\<rparr>"

definition punches_between ::
  "attendance_record list \<Rightarrow> str \<Rightarrow> dtime \<Rightarrow> dtime \<Rightarrow> attendance_record list" where
  "punches_between recs badge a b =
     filter (\<lambda>r. ar_badge r = badge \<and> a \<le> ar_timestamp r \<and> ar_timestamp r < b) recs"

definition min_ts :: "attendance_record list \<Rightarrow> dtime option" where
  "min_ts rs = (case map ar_timestamp rs of [] \<Rightarrow> None | t # ts \<Rightarrow> Some (fold min ts t))"

definition max_ts :: "attendance_record list \<Rightarrow> dtime option" where
  "max_ts rs = (case map ar_timestamp rs of [] \<Rightarrow> None | t # ts \<Rightarrow> Some (fold max ts t))"

definition holiday_applies :: "public_holiday option \<Rightarrow> effective_shift \<Rightarrow> bool" where
  "holiday_applies h e = (h \<noteq> None \<and> es_eff_role e \<noteq> Some ''reception'')"

text \<open>
  \<open>_build_shift_row\<close>; the employee fields of the row are those of the employee and left out.
  A shift of None that is not an off day cannot reach it (the caller skips it).
\<close>

definition build_shift_row ::
  "(int \<Rightarrow> real) \<Rightarrow> attendance_record list \<Rightarrow> employee \<Rightarrow> date \<Rightarrow> effective_shift
   \<Rightarrow> public_holiday option \<Rightarrow> employee_leave option \<Rightarrow> day_row" where
  "build_shift_row round_h recs e d es holiday leave =
     (if holiday_applies holiday es then
        blank_row\<lparr>dr_leave_type := Some ''public_holiday'',
          dr_leave_note := map_option ph_name holiday\<rparr>
      else case leave of
        Some l \<Rightarrow> blank_row\<lparr>dr_leave_type := Some (el_leave_type l), dr_leave_note := el_note l\<rparr>
      | None \<Rightarrow>
          (case (es_is_off es, es_shift es) of
             (False, Some s) \<Rightarrow>
               let w = shift_window_for s d;
                   rs = punches_between recs (badge_number e) (w_start_utc w) (w_end_utc w);
                   first_in = map_option to_bangkok (min_ts rs);
                   last_out = map_option to_bangkok (max_ts rs)
               in blank_row\<lparr>dr_shift := Some s, dr_first_in := map_option hh_mm first_in,
                    dr_last_out := map_option hh_mm last_out,
                    dr_hours := compute_hours_worked round_h (min_ts rs) (max_ts rs),
                    dr_status := compute_status first_in (w_shift_start_bkk w) False\<rparr>
           | _ \<Rightarrow> blank_row))"

definition leave_portion_of :: "employee_leave option \<Rightarrow> portion" where
  "leave_portion_of leave = (case leave of None \<Rightarrow> Full | Some l \<Rightarrow> portion_from_leave_note (el_note l))"

definition with_half_leave :: "employee_leave \<Rightarrow> portion \<Rightarrow> day_row \<Rightarrow> day_row" where
  "with_half_leave l p row = row\<lparr>dr_leave_type := Some (el_leave_type l),
     dr_leave_note := el_note l, dr_leave_portion := Some p\<rparr>"

definition installed_shift_row ::
  "(int \<Rightarrow> real) \<Rightarrow> attendance_record list \<Rightarrow> employee \<Rightarrow> date \<Rightarrow> effective_shift
   \<Rightarrow> public_holiday option \<Rightarrow> employee_leave option \<Rightarrow> day_row" where
  "installed_shift_row round_h recs e d es holiday leave =
     (let p = leave_portion_of leave in
      case leave of
        Some l \<Rightarrow> if p = Full then build_shift_row round_h recs e d es holiday leave
                  else with_half_leave l p (build_shift_row round_h recs e d es holiday None)
      | None \<Rightarrow> build_shift_row round_h recs e d es holiday None)"

section \<open>One day of the month\<close>

definition fetch_punches_for_month ::
  "attendance_record list \<Rightarrow> str \<Rightarrow> dtime \<Rightarrow> dtime \<Rightarrow> (dtime \<times> int) list" where
  "fetch_punches_for_month recs badge a b =
     map (\<lambda>r. (ar_timestamp r, ar_punch_type r)) (sort_key ar_timestamp (punches_between recs badge a b))"

definition shift_end_bkk :: "shift \<Rightarrow> dtime \<Rightarrow> dtime" where
  "shift_end_bkk s start =
     (let a = tod_hour (start_time s) * 60 + tod_minute (start_time s);
          b = tod_hour (end_time s) * 60 + tod_minute (end_time s);
          duration = b - a
      in start + (if duration \<le> 0 then duration + 24 * 60 else duration) * minute_us)"

text \<open>Position within the shift decides; the type only near the middle (an hour either side).\<close>

definition is_check_in :: "dtime \<Rightarrow> dtime \<times> int \<Rightarrow> bool" where
  "is_check_in mid p =
     (let near = (\<bar>fst p - mid\<bar> \<le> hour_us) in
      if near \<and> snd p = 0 then True
      else if near \<and> snd p = 1 then False
      else fst p \<le> mid)"

definition build_month_day ::
  "(int \<Rightarrow> real) \<Rightarrow> employee \<Rightarrow> date \<Rightarrow> effective_shift \<Rightarrow> (dtime \<times> int) list \<Rightarrow> date \<Rightarrow> dtime
   \<Rightarrow> public_holiday option \<Rightarrow> employee_leave option \<Rightarrow> day_row" where
  "build_month_day round_h e d es punches today now_bkk holiday leave =
     (if d > today then blank_row\<lparr>dr_status := DayFuture\<rparr>
      else if holiday_applies holiday es then
        blank_row\<lparr>dr_leave_type := Some ''public_holiday'',
          dr_leave_note := map_option ph_name holiday\<rparr>
      else case leave of
        Some l \<Rightarrow> blank_row\<lparr>dr_status := DayLeave, dr_leave_type := Some (el_leave_type l),
                    dr_leave_note := el_note l\<rparr>
      | None \<Rightarrow>
        if es_is_off es then blank_row
        else case es_shift es of
          None \<Rightarrow> blank_row\<lparr>dr_status := DayUntracked\<rparr>
        | Some s \<Rightarrow>
          let w = shift_window_for s d;
              in_window = filter (\<lambda>(ts, pt). w_start_utc w \<le> ts \<and> ts < w_end_utc w) punches;
              start = w_shift_start_bkk w
          in if in_window = [] then
               blank_row\<lparr>dr_shift := Some s,
                 dr_status := (if d = today \<and> now_bkk < start then DayPending else DayAbsent)\<rparr>
             else
               let stop = shift_end_bkk s start;
                   mid = start + (stop - start) div 2;
                   bkk = map (\<lambda>(ts, pt). (to_bangkok ts, pt)) in_window;
                   ins = map fst (filter (is_check_in mid) bkk);
                   outs = map fst (filter (\<lambda>p. \<not> is_check_in mid p) bkk);
                   check_in = (case ins of [] \<Rightarrow> start | t # ts \<Rightarrow> fold min ts t);
                   late = (if ins \<noteq> [] then late_minutes (Some check_in) start else 0);
                   check_out = (case outs of t # ts \<Rightarrow> Some (fold max ts t)
                     | [] \<Rightarrow> if now_bkk \<ge> stop then Some stop else None)
               in blank_row\<lparr>dr_shift := Some s,
                    dr_first_in := Some (hh_mm check_in),
                    dr_last_out := map_option hh_mm check_out,
                    dr_hours := (case check_out of None \<Rightarrow> None
                      | Some t \<Rightarrow> if t > check_in then Some (round_h (t - check_in)) else None),
                    dr_status := DayPresent,
                    dr_late_minutes := late,
                    dr_late_tier := late_tier late,
                    dr_in_assumed := (ins = []),
                    dr_out_assumed := (outs = [] \<and> now_bkk \<ge> stop)\<rparr>)"

definition installed_month_day ::
  "(int \<Rightarrow> real) \<Rightarrow> employee \<Rightarrow> date \<Rightarrow> effective_shift \<Rightarrow> (dtime \<times> int) list \<Rightarrow> date \<Rightarrow> dtime
   \<Rightarrow> public_holiday option \<Rightarrow> employee_leave option \<Rightarrow> day_row" where
  "installed_month_day round_h e d es punches today now_bkk holiday leave =
     (let p = leave_portion_of leave in
      case leave of
        Some l \<Rightarrow>
          if p = Full then
            (build_month_day round_h e d es punches today now_bkk holiday leave)
              \<lparr>dr_leave_portion := Some Full\<rparr>
          else with_half_leave l p (build_month_day round_h e d es punches today now_bkk holiday None)
      | None \<Rightarrow>
          let row = build_month_day round_h e d es punches today now_bkk holiday None in
          if dr_leave_type row = Some ''public_holiday'' then row\<lparr>dr_leave_portion := Some Full\<rparr>
          else row)"

section \<open>Totals\<close>

record month_totals =
  worked_days :: rat
  absent_days :: rat
  off_days :: rat
  leave_total :: rat
  late_count :: nat
  late_minutes_total :: int
  severe_count :: nat
  hours_total :: real

definition empty_month_totals :: month_totals where
  "empty_month_totals = \<lparr>worked_days = 0, absent_days = 0, off_days = 0, leave_total = 0,
     late_count = 0, late_minutes_total = 0, severe_count = 0, hours_total = 0\<rparr>"

definition add_day :: "(real \<Rightarrow> real) \<Rightarrow> day_row \<Rightarrow> month_totals \<Rightarrow> month_totals" where
  "add_day round2 row t =
     (case dr_status row of
        DayPresent \<Rightarrow>
          let t1 = t\<lparr>worked_days := worked_days t + 1,
                hours_total := (case dr_hours row of None \<Rightarrow> hours_total t
                  | Some h \<Rightarrow> round2 (hours_total t + h))\<rparr>;
              t2 = (if dr_late_tier row \<ge> 1
                    then t1\<lparr>late_count := late_count t1 + 1,
                            late_minutes_total := late_minutes_total t1 + dr_late_minutes row\<rparr>
                    else t1)
          in if dr_late_tier row \<ge> 3 then t2\<lparr>severe_count := severe_count t2 + 1\<rparr> else t2
      | DayAbsent \<Rightarrow> t\<lparr>absent_days := absent_days t + 1\<rparr>
      | DayOff \<Rightarrow> t\<lparr>off_days := off_days t + 1\<rparr>
      | DayLeave \<Rightarrow> t\<lparr>leave_total := leave_total t + 1\<rparr>
      | _ \<Rightarrow> t)"

text \<open>\<open>recount_monthly_day_totals\<close>: one employee's day totals again, with half days.\<close>

definition half_row :: "day_row \<Rightarrow> bool" where
  "half_row row = (dr_leave_portion row \<in> {Some AM, Some PM})"

definition recount_day :: "day_row \<Rightarrow> rat \<times> rat \<times> rat \<times> rat \<Rightarrow> rat \<times> rat \<times> rat \<times> rat" where
  "recount_day row acc =
     (case acc of (worked, absent, off, leave) \<Rightarrow>
        if dr_status row \<in> {DayUntracked, DayFuture, DayPending} then acc
        else
          let half = half_row row;
              weight = (if half then 1 / 2 else 1);
              leave1 = (if half then leave + 1 / 2 else leave)
          in if dr_status row = DayPresent then (worked + weight, absent, off, leave1)
             else if dr_status row = DayAbsent then (worked, absent + weight, off, leave1)
             else if dr_status row = DayOff then (worked, absent, off + weight, leave1)
             else if dr_status row = DayLeave \<and> \<not> half then (worked, absent, off, leave1 + 1)
             else (worked, absent, off, leave1))"

definition recount_totals :: "day_row list \<Rightarrow> month_totals \<Rightarrow> month_totals" where
  "recount_totals rows t =
     (case fold recount_day rows (0, 0, 0, 0) of (worked, absent, off, leave) \<Rightarrow>
        t\<lparr>worked_days := worked, absent_days := absent, off_days := off, leave_total := leave\<rparr>)"

section \<open>The two views\<close>

datatype att_error = BadMonth | BadYearRange | BadLocation | ShiftFailure exn

record att_db =
  ad_employees :: "employee list"
  ad_records :: "attendance_record list"
  ad_shifts :: shift_db
  ad_holidays :: "public_holiday list"
  ad_leaves :: "employee_leave list"

fun traverse :: "('a \<Rightarrow> 'e + 'b) \<Rightarrow> 'a list \<Rightarrow> 'e + 'b list" where
  "traverse f [] = Inr []"
| "traverse f (x # xs) = (case f x of Inl e \<Rightarrow> Inl e
     | Inr y \<Rightarrow> (case traverse f xs of Inl e \<Rightarrow> Inl e | Inr ys \<Rightarrow> Inr (y # ys)))"

definition bad_location :: "str option \<Rightarrow> bool" where
  "bad_location l = (l \<notin> {None, Some ''HF'', Some ''HF_VILLE''})"

definition in_location :: "str option \<Rightarrow> employee \<Rightarrow> bool" where
  "in_location l e = (l = None \<or> emp_location e = l)"

definition status_order :: "day_status \<Rightarrow> int" where
  "status_order s = (case s of DayLate \<Rightarrow> 0 | DayAbsent \<Rightarrow> 1 | DayOnTime \<Rightarrow> 2 | DayOff \<Rightarrow> 3 | _ \<Rightarrow> 99)"

definition attendance_by_date ::
  "(int \<Rightarrow> real) \<Rightarrow> (shown_name \<Rightarrow> str) \<Rightarrow> date \<Rightarrow> str option \<Rightarrow> att_db
   \<Rightarrow> att_error + (employee \<times> day_row) list" where
  "attendance_by_date round_h casefold d location db =
     (if bad_location location then Inl BadLocation
      else
        let holiday = first (\<lambda>h. ph_date h = d) (ad_holidays db);
            leave_of = (\<lambda>badge. first (\<lambda>l. el_badge l = badge)
              (rev (filter (\<lambda>l. el_date l = d) (ad_leaves db))));
            staff = filter (\<lambda>e. is_active e \<and> in_location location e) (ad_employees db)
        in case traverse (\<lambda>e. map_sum id (\<lambda>es. (e, es)) (effective_shift_of (ad_shifts db) e d)) staff of
             Inl x \<Rightarrow> Inl (ShiftFailure x)
           | Inr ress \<Rightarrow>
               Inr (sort_key (\<lambda>(e, row). (status_order (dr_status row), casefold (resolve_display_name e)))
                 (map (\<lambda>(e, es). (e, installed_shift_row round_h (ad_records db) e d es holiday
                          (leave_of (badge_number e))))
                   (filter (\<lambda>(e, es). es_shift es \<noteq> None \<or> es_is_off es) ress))))"

definition month_range :: "date \<Rightarrow> date \<Rightarrow> dtime \<times> dtime" where
  "month_range month_start month_end =
     (bkk_to_utc (midnight month_start - 3 * hour_us), bkk_to_utc (midnight month_end + 2 * day_us))"

definition employee_month ::
  "(int \<Rightarrow> real) \<Rightarrow> (real \<Rightarrow> real) \<Rightarrow> date \<Rightarrow> date \<Rightarrow> dtime \<Rightarrow> att_db \<Rightarrow> employee
   \<Rightarrow> exn + day_row list \<times> month_totals" where
  "employee_month round_h round2 month_start month_end now_bkk db e =
     (let (a, b) = month_range month_start month_end;
          punches = fetch_punches_for_month (ad_records db) (badge_number e) a b
      in case traverse (effective_shift_of (ad_shifts db) e) (span month_start month_end) of
           Inl x \<Rightarrow> Inl x
         | Inr ess \<Rightarrow>
             let rows = map (\<lambda>(d, es). installed_month_day round_h e d es punches (date_of now_bkk) now_bkk
                   (first (\<lambda>h. ph_date h = d) (ad_holidays db))
                   (first (\<lambda>l. el_key l = (badge_number e, d)) (ad_leaves db)))
                 (zip (span month_start month_end) ess)
             in Inr (rows, fold (add_day round2) rows empty_month_totals))"

definition attendance_monthly ::
  "(int \<Rightarrow> real) \<Rightarrow> (real \<Rightarrow> real) \<Rightarrow> (shown_name \<Rightarrow> str) \<Rightarrow> int \<Rightarrow> int \<Rightarrow> str option \<Rightarrow> dtime \<Rightarrow> att_db
   \<Rightarrow> att_error + (employee \<times> day_row list \<times> month_totals) list" where
  "attendance_monthly round_h round2 casefold year month location now_bkk db =
     (if month < 1 \<or> month > 12 then Inl BadMonth
      else if year < 2000 \<or> year > 2100 then Inl BadYearRange
      else if bad_location location then Inl BadLocation
      else
        let staff = filter (\<lambda>e. is_active e \<and> in_location location e) (ad_employees db);
            a = ordinal year month 1;
            b = ordinal year month (days_in_month year month)
        in case traverse (\<lambda>e. map_sum id (\<lambda>m. (e, m))
                 (employee_month round_h round2 a b now_bkk db e)) staff of
             Inl x \<Rightarrow> Inl (ShiftFailure x)
           | Inr ms \<Rightarrow>
               Inr (map (\<lambda>(e, rows, t). (e, rows, recount_totals rows t))
                 (sort_key (\<lambda>(e, rows, t). (or_else (emp_location e) ''~'', casefold (resolve_display_name e)))
                   (filter (\<lambda>(e, rows, t). list_ex (\<lambda>r. dr_status r \<notin> {DayUntracked, DayFuture}) rows)
                     ms))))"

section \<open>Geometry of a shift\<close>

definition whole_minutes :: "shift \<Rightarrow> bool" where
  "whole_minutes s \<longleftrightarrow> valid_tod (start_time s) \<and> valid_tod (end_time s)
     \<and> minute_us dvd start_time s \<and> minute_us dvd end_time s"

lemma whole_minute_tod:
  assumes "valid_tod t" "minute_us dvd t"
  shows "hm_us t = t" "(tod_hour t * 60 + tod_minute t) * minute_us = t"
proof -
  obtain k where k: "t = minute_us * k" using assms(2) by blast
  have "tod_hour t = k div 60" "tod_minute t = k mod 60"
    unfolding k tod_hour_def tod_minute_def time_units
    by (simp_all add: zdiv_zmult2_eq [of 60 60000000 "60000000 * k", simplified])
  then show "hm_us t = t" "(tod_hour t * 60 + tod_minute t) * minute_us = t"
    unfolding k hm_us_def time_units by (simp_all add: algebra_simps) presburger+
qed

text \<open>
  The two computations of a shift's end agree, overnight or not: the window of a shift
  with whole-minute times opens two hours before its start, closes two hours after the end
  the monthly report assumes, and the shift lasts more than zero and at most 24 hours.
\<close>

lemma shift_window_geometry:
  assumes "whole_minutes s"
  shows "to_bangkok (w_start_utc (shift_window_for s d)) = w_shift_start_bkk (shift_window_for s d) - 2 * hour_us
    \<and> to_bangkok (w_end_utc (shift_window_for s d))
        = shift_end_bkk s (w_shift_start_bkk (shift_window_for s d)) + 2 * hour_us
    \<and> w_shift_start_bkk (shift_window_for s d) = midnight d + start_time s
    \<and> shift_end_bkk s (w_shift_start_bkk (shift_window_for s d)) - w_shift_start_bkk (shift_window_for s d)
        \<in> {1 .. day_us}"
proof -
  have hm: "hm_us (start_time s) = start_time s" "hm_us (end_time s) = end_time s"
    and mins: "(tod_hour (start_time s) * 60 + tod_minute (start_time s)) * minute_us = start_time s"
      "(tod_hour (end_time s) * 60 + tod_minute (end_time s)) * minute_us = end_time s"
    using assms whole_minute_tod by (auto simp: whole_minutes_def)
  have bounds: "0 \<le> start_time s" "start_time s < day_us" "0 \<le> end_time s" "end_time s < day_us"
    using assms by (auto simp: whole_minutes_def valid_tod_def)
  have "shift_end_bkk s x = x + (if end_time s \<le> start_time s then end_time s - start_time s + day_us
      else end_time s - start_time s)" for x
    using mins unfolding shift_end_bkk_def Let_def time_units by (auto simp: algebra_simps)
  then show ?thesis
    using bounds
    by (auto simp: shift_window_for_def Let_def to_bangkok_def bkk_to_utc_def SHIFT_WINDOW_BUFFER_def
        crosses_midnight_def hm)
qed

lemma shift_window_geometry_witness:
  "shift_end_bkk demo_shift (w_shift_start_bkk (shift_window_for demo_shift 739000))
     - w_shift_start_bkk (shift_window_for demo_shift 739000) \<in> {1 .. day_us}"
proof -
  have "whole_minutes demo_shift"
    by (simp add: whole_minutes_def demo_shift_def valid_tod_def time_units)
  from shift_window_geometry [OF this] show ?thesis by blast
qed

section \<open>The month and the day agree\<close>

lemma window_in_month:
  assumes s: "whole_minutes s" and d: "a \<le> d" "d \<le> b"
    and late: "d < b \<or> start_time s < end_time s \<or> end_time s \<le> 22 * hour_us"
  shows "fst (month_range a b) \<le> w_start_utc (shift_window_for s d)
    \<and> w_end_utc (shift_window_for s d) \<le> snd (month_range a b)"
proof -
  have hm: "hm_us (start_time s) = start_time s" "hm_us (end_time s) = end_time s"
    using s whole_minute_tod by (auto simp: whole_minutes_def)
  have bounds: "0 \<le> start_time s" "start_time s < day_us" "0 \<le> end_time s" "end_time s < day_us"
    using s by (auto simp: whole_minutes_def valid_tod_def)
  have "midnight a \<le> midnight d" "midnight d \<le> midnight b" using d by (auto simp: midnight_def day_us_def)
  moreover have "d < b \<Longrightarrow> midnight d + day_us \<le> midnight b" by (auto simp: midnight_def day_us_def)
  ultimately show ?thesis
    using bounds late
    by (auto simp: month_range_def shift_window_for_def Let_def bkk_to_utc_def SHIFT_WINDOW_BUFFER_def
        crosses_midnight_def hm time_units)
qed

lemma in_window_fetched:
  assumes "A \<le> a" "b \<le> B"
  shows "filter (\<lambda>(ts, pt). a \<le> ts \<and> ts < b) (fetch_punches_for_month recs badge A B) = []
    \<longleftrightarrow> punches_between recs badge a b = []"
  using assms
  by (auto simp: fetch_punches_for_month_def punches_between_def filter_empty_conv)

lemma min_ts_Nil [simp]: "min_ts [] = None"
  by (simp add: min_ts_def)

lemma min_ts_None [simp]: "min_ts rs = None \<longleftrightarrow> rs = []"
  by (cases rs) (auto simp: min_ts_def)


definition demo_eff :: effective_shift where
  "demo_eff = \<lparr>es_shift = Some demo_shift, es_is_off = False, es_source = Schedule, es_eff_role = None\<rparr>"

lemma demo_whole: "whole_minutes demo_shift"
  by (simp add: whole_minutes_def demo_shift_def valid_tod_def time_units)


text \<open>
  The exception is real: for an overnight shift that ends after 22:00, the window of the
  month's last day reaches past the range the monthly report reads.
\<close>

lemma late_overnight_window_cut:
  assumes s: "whole_minutes s" and overnight: "end_time s \<le> start_time s" "22 * hour_us < end_time s"
  shows "snd (month_range a b) < w_end_utc (shift_window_for s b)"
proof -
  have hm: "hm_us (end_time s) = end_time s" using s whole_minute_tod by (auto simp: whole_minutes_def)
  show ?thesis
    using overnight
    by (auto simp: month_range_def shift_window_for_def Let_def bkk_to_utc_def SHIFT_WINDOW_BUFFER_def
        crosses_midnight_def hm time_units)
qed

lemma late_overnight_window_cut_witness:
  "snd (month_range 738990 739010) < w_end_utc (shift_window_for
     (demo_shift\<lparr>start_time := 23 * 3600000000, end_time := 23 * 3600000000\<rparr>) 739010)"
  by (rule late_overnight_window_cut)
    (simp_all add: whole_minutes_def demo_shift_def valid_tod_def time_units)

section \<open>Assumed times and totals\<close>

lemma month_day_cases:
  assumes "dr_status (build_month_day rh e d es ps today now h leave) = DayPresent"
  obtains s w bkk mid start stop ins outs where "es_shift es = Some s"
    "w = shift_window_for s d" "start = w_shift_start_bkk w" "stop = shift_end_bkk s start"
    "mid = start + (stop - start) div 2"
    "bkk = map (\<lambda>(ts, pt). (to_bangkok ts, pt))
       (filter (\<lambda>(ts, pt). w_start_utc w \<le> ts \<and> ts < w_end_utc w) ps)"
    "ins = map fst (filter (is_check_in mid) bkk)"
    "outs = map fst (filter (\<lambda>p. \<not> is_check_in mid p) bkk)"
    "build_month_day rh e d es ps today now h leave =
      (let check_in = (case ins of [] \<Rightarrow> start | t # ts \<Rightarrow> fold min ts t);
           late = (if ins \<noteq> [] then late_minutes (Some check_in) start else 0);
           check_out = (case outs of t # ts \<Rightarrow> Some (fold max ts t)
             | [] \<Rightarrow> if now \<ge> stop then Some stop else None)
       in blank_row\<lparr>dr_shift := Some s,
            dr_first_in := Some (hh_mm check_in),
            dr_last_out := map_option hh_mm check_out,
            dr_hours := (case check_out of None \<Rightarrow> None
              | Some t \<Rightarrow> if t > check_in then Some (rh (t - check_in)) else None),
            dr_status := DayPresent,
            dr_late_minutes := late,
            dr_late_tier := late_tier late,
            dr_in_assumed := (ins = []),
            dr_out_assumed := (outs = [] \<and> now \<ge> stop)\<rparr>)"
proof -
  obtain s where s: "es_shift es = Some s" "\<not> d > today" "\<not> holiday_applies h es" "leave = None"
      "\<not> es_is_off es"
    "filter (\<lambda>(ts, pt). w_start_utc (shift_window_for s d) \<le> ts \<and> ts < w_end_utc (shift_window_for s d)) ps \<noteq> []"
    using assms
    by (auto simp: build_month_day_def blank_row_def Let_def split: if_splits option.splits)
  show thesis
    by (rule that [OF s(1) refl refl refl refl refl refl refl])
      (use s in \<open>simp add: build_month_day_def Let_def\<close>)
qed

text \<open>
  The monthly report never passes a guess off as a punch. On a present day: an assumed
  check-in is the shift's start and never late; an assumed check-out is the shift's end and
  only after it has passed, a missing one only before; lateness is a whole number of minutes
  that is zero unless there is a check-in, and the tier is 0 exactly below five minutes.
\<close>

theorem assumed_times_are_marked:
  assumes "dr_status (build_month_day rh e d es ps today now h leave) = DayPresent"
  shows "\<exists>s start. es_shift es = Some s \<and> start = w_shift_start_bkk (shift_window_for s d)
    \<and> (let r = build_month_day rh e d es ps today now h leave in
        (dr_in_assumed r \<longrightarrow> dr_first_in r = Some (hh_mm start) \<and> dr_late_minutes r = 0)
        \<and> (dr_out_assumed r \<longrightarrow> dr_last_out r = Some (hh_mm (shift_end_bkk s start))
             \<and> shift_end_bkk s start \<le> now)
        \<and> (dr_last_out r = None \<longrightarrow> now < shift_end_bkk s start \<and> dr_hours r = None)
        \<and> 0 \<le> dr_late_minutes r \<and> (dr_late_tier r = 0 \<longleftrightarrow> dr_late_minutes r < 5)
        \<and> dr_leave_type r = None)"
  using assms
proof (rule month_day_cases)
  fix s w bkk mid start stop ins outs
  assume s: "es_shift es = Some s" and w: "w = shift_window_for s d" "start = w_shift_start_bkk w"
    and stop: "stop = shift_end_bkk s start"
    and row: "build_month_day rh e d es ps today now h leave =
      (let check_in = (case ins of [] \<Rightarrow> start | t # ts \<Rightarrow> fold min ts t);
           late = (if ins \<noteq> [] then late_minutes (Some check_in) start else 0);
           check_out = (case outs of t # ts \<Rightarrow> Some (fold max ts t)
             | [] \<Rightarrow> if now \<ge> stop then Some stop else None)
       in blank_row\<lparr>dr_shift := Some s,
            dr_first_in := Some (hh_mm check_in),
            dr_last_out := map_option hh_mm check_out,
            dr_hours := (case check_out of None \<Rightarrow> None
              | Some t \<Rightarrow> if t > check_in then Some (rh (t - check_in)) else None),
            dr_status := DayPresent,
            dr_late_minutes := late,
            dr_late_tier := late_tier late,
            dr_in_assumed := (ins = []),
            dr_out_assumed := (outs = [] \<and> now \<ge> stop)\<rparr>)"
  have late: "0 \<le> late_minutes x y" "late_tier m = 0 \<longleftrightarrow> m < 5" for x y m
    by (auto simp: late_minutes_def late_tier_def LATE_GRACE_MINUTES_def LATE_NOTE_MINUTES_def
        LATE_SEVERE_MINUTES_def time_units pos_imp_zdiv_nonneg_iff split: option.split)
  have st: "stop = shift_end_bkk s (w_shift_start_bkk (shift_window_for s d))"
    and sta: "start = w_shift_start_bkk (shift_window_for s d)"
    using stop w by simp_all
  show ?thesis
    by (rule exI [of _ s], rule exI [of _ start])
      (auto simp: row s Let_def blank_row_def late st sta split: list.splits option.splits)
qed

theorem assumed_times_are_marked_witness:
  "(dr_late_tier (build_month_day (\<lambda>_. 8) demo_staff 739000 demo_eff
      [(w_start_utc (shift_window_for demo_shift 739000), 0)] 739001 (midnight 739001) None None) = 0)
   = (dr_late_minutes (build_month_day (\<lambda>_. 8) demo_staff 739000 demo_eff
      [(w_start_utc (shift_window_for demo_shift 739000), 0)] 739001 (midnight 739001) None None) < 5)"
proof -
  have "w_start_utc (shift_window_for demo_shift 739000) < w_end_utc (shift_window_for demo_shift 739000)"
    by code_simp
  then have "dr_status (build_month_day (\<lambda>_. 8) demo_staff 739000 demo_eff
      [(w_start_utc (shift_window_for demo_shift 739000), 0)] 739001 (midnight 739001) None None) = DayPresent"
    by (simp add: build_month_day_def demo_eff_def holiday_applies_def blank_row_def Let_def)
  from assumed_times_are_marked [OF this] show ?thesis by (auto simp: Let_def)
qed

lemma month_day_half: "dr_leave_portion (build_month_day rh e d es ps today now h leave) = None"
  by (simp add: build_month_day_def Let_def blank_row_def split: option.split)

lemma month_day_leave: "dr_status (build_month_day rh e d es ps today now h None) \<noteq> DayLeave"
  "dr_status (build_month_day rh e d es ps today now h leave) \<notin> {DayLate, DayOnTime}"
  by (simp_all add: build_month_day_def Let_def blank_row_def split: option.split)

lemma installed_half_not_leave:
  "half_row (installed_month_day rh e d es ps today now h leave)
   \<Longrightarrow> dr_status (installed_month_day rh e d es ps today now h leave) \<noteq> DayLeave"
  using month_day_leave(1) month_day_half
  by (auto simp: installed_month_day_def half_row_def with_half_leave_def Let_def
      split: option.splits if_splits)

lemma installed_status:
  "dr_status (installed_month_day rh e d es ps today now h leave) \<notin> {DayLate, DayOnTime}"
  using month_day_leave(2)
  by (auto simp: installed_month_day_def with_half_leave_def Let_def split: option.split)

definition month_row_ok :: "day_row \<Rightarrow> bool" where
  "month_row_ok r \<longleftrightarrow> dr_status r \<notin> {DayLate, DayOnTime} \<and> (half_row r \<longrightarrow> dr_status r \<noteq> DayLeave)"

definition counted :: "day_row \<Rightarrow> bool" where
  "counted r = (dr_status r \<notin> {DayUntracked, DayFuture, DayPending})"

lemma recount_day_sum:
  assumes "month_row_ok r" "recount_day r (w, a, f, l) = (w', a', f', l')"
  shows "w' + a' + f' + l' = w + a + f + l + (if counted r then 1 else 0)"
  using assms by (cases "dr_status r")
    (auto simp: recount_day_def month_row_ok_def counted_def Let_def split: if_splits)

lemma recount_sum:
  "list_all month_row_ok rows \<Longrightarrow> fold recount_day rows (w, a, f, l) = (w', a', f', l')
   \<Longrightarrow> w' + a' + f' + l' = w + a + f + l + of_nat (length (filter counted rows))"
proof (induction rows arbitrary: w a f l)
  case (Cons r rows)
  obtain w1 a1 f1 l1 where r: "recount_day r (w, a, f, l) = (w1, a1, f1, l1)"
    by (cases "recount_day r (w, a, f, l)")
  with Cons recount_day_sum [OF _ r] show ?case by auto
qed simp

lemma traverse_length: "traverse f xs = Inr ys \<Longrightarrow> length ys = length xs"
  by (induction xs arbitrary: ys) (auto split: sum.splits)

text \<open>
  C31. Every counted day is counted once: after the half-day recount, an employee's worked,
  absent, off and leave days of the month add up to exactly the number of days that are
  neither untracked, in the future, nor still pending.
\<close>

theorem month_totals_add_up:
  assumes "employee_month rh r2 a b now db e = Inr (rows, t)"
  shows "worked_days (recount_totals rows t) + absent_days (recount_totals rows t)
      + off_days (recount_totals rows t) + leave_total (recount_totals rows t)
    = of_nat (length (filter counted rows)) \<and> length rows = nat (b - a + 1)"
proof -
  obtain ess where ess: "traverse (effective_shift_of (ad_shifts db) e) (span a b) = Inr ess"
    and rows: "rows = map (\<lambda>(d, es). installed_month_day rh e d es
          (fetch_punches_for_month (ad_records db) (badge_number e) (fst (month_range a b)) (snd (month_range a b)))
          (date_of now) now (first (\<lambda>h. ph_date h = d) (ad_holidays db))
          (first (\<lambda>l. el_key l = (badge_number e, d)) (ad_leaves db)))
        (zip (span a b) ess)"
    using assms by (auto simp: employee_month_def Let_def split: sum.splits prod.splits)
  have ok: "list_all month_row_ok rows"
    unfolding rows list_all_iff using installed_half_not_leave installed_status
    by (auto simp: month_row_ok_def)
  obtain w x y z where f: "fold recount_day rows (0, 0, 0, 0) = (w, x, y, z)"
    by (cases "fold recount_day rows (0, 0, 0, 0)")
  from recount_sum [OF ok f] have "w + x + y + z = of_nat (length (filter counted rows))" by simp
  moreover have "length rows = nat (b - a + 1)"
    using traverse_length [OF ess] by (simp add: rows)
  ultimately show ?thesis by (simp add: recount_totals_def f)
qed

definition demo_att_db :: att_db where
  "demo_att_db = \<lparr>ad_employees = [demo_staff], ad_records = [], ad_shifts = demo_shift_db,
     ad_holidays = [], ad_leaves = []\<rparr>"

theorem month_totals_add_up_witness:
  "\<exists>rows t. employee_month (\<lambda>_. 8) id 738050 738053 0 demo_att_db demo_staff = Inr (rows, t)
     \<and> length rows = 4"
proof -
  have "traverse (effective_shift_of demo_shift_db demo_staff) (span 738050 738053) \<in> range Inr"
  proof -
    have "\<not> isl (traverse (effective_shift_of demo_shift_db demo_staff) (span 738050 738053))"
      by code_simp
    then show ?thesis by (metis rangeI sum.collapse(2))
  qed
  then obtain rows t where r: "employee_month (\<lambda>_. 8) id 738050 738053 0 demo_att_db demo_staff = Inr (rows, t)"
    by (auto simp: employee_month_def demo_att_db_def Let_def month_range_def)
  from month_totals_add_up [OF r] r show ?thesis by auto
qed

end
