(* ===== verification/WebText.thy ===== *)
theory WebText
  imports Prelude
begin

text \<open>
  The text functions of Python's library that the web endpoints call, on strings whose
  code points are below 256: \<open>str.split()\<close>, \<open>str.rstrip\<close>, \<open>str.replace\<close>,
  \<open>urllib.parse.quote\<close> and \<open>urlencode\<close>, and the bearer header parsing they share.
\<close>

section \<open>Splitting\<close>

text \<open>\<open>s.split(None, 1)\<close>: at most two parts, the second keeps its trailing white space.\<close>

definition word_of :: "str \<Rightarrow> str" where
  "word_of s = takeWhile (\<lambda>c. \<not> py_space c) (lstrip s)"

definition after_word :: "str \<Rightarrow> str" where
  "after_word s = lstrip (dropWhile (\<lambda>c. \<not> py_space c) (lstrip s))"

lemma after_word_shorter: "lstrip s \<noteq> [] \<Longrightarrow> length (after_word s) < length s"
proof -
  assume s: "lstrip s \<noteq> []"
  then have "\<not> py_space (hd (lstrip s))" unfolding lstrip_def by (rule hd_dropWhile)
  then obtain c r where cr: "lstrip s = c # r" "\<not> py_space c" using s by (cases "lstrip s") auto
  have "after_word s = lstrip (dropWhile (\<lambda>c. \<not> py_space c) r)"
    by (simp add: after_word_def cr)
  then have "length (after_word s) \<le> length r"
    unfolding lstrip_def using le_trans [OF length_dropWhile_le length_dropWhile_le] by simp
  also have "\<dots> < length (lstrip s)" by (simp add: cr)
  also have "\<dots> \<le> length s" by (simp add: lstrip_def length_dropWhile_le)
  finally show ?thesis .
qed

definition split_once :: "str \<Rightarrow> str list" where
  "split_once s = (if lstrip s = [] then []
     else if after_word s = [] then [word_of s] else [word_of s, after_word s])"

text \<open>\<open>s.split()\<close>.\<close>

function words :: "str \<Rightarrow> str list" where
  "words s = (if lstrip s = [] then [] else word_of s # words (after_word s))"
  by auto

termination by (relation "measure length") (auto simp: after_word_shorter)

declare words.simps [simp del]

definition rstrip_char :: "char \<Rightarrow> str \<Rightarrow> str" where
  "rstrip_char c s = rev (dropWhile (\<lambda>x. x = c) (rev s))"

text \<open>\<open>s.replace(ab, c)\<close> for a pattern of two different characters.\<close>

fun replace_pair :: "char \<Rightarrow> char \<Rightarrow> str \<Rightarrow> str \<Rightarrow> str" where
  "replace_pair a b r (x # y # s) =
     (if x = a \<and> y = b then r @ replace_pair a b r s else x # replace_pair a b r (y # s))"
| "replace_pair a b r s = s"

section \<open>Percent encoding\<close>

definition utf8_char :: "char \<Rightarrow> nat list" where
  "utf8_char c = (let n = (of_char c :: nat) in
     if n < 128 then [n] else [192 + n div 64, 128 + n mod 64])"

definition hex_digit :: "nat \<Rightarrow> char" where
  "hex_digit n = (if n < 10 then char_of (48 + n) else char_of (55 + n))"

definition unreserved :: "nat \<Rightarrow> bool" where
  "unreserved n = ((48 \<le> n \<and> n \<le> 57) \<or> (65 \<le> n \<and> n \<le> 90) \<or> (97 \<le> n \<and> n \<le> 122)
     \<or> n \<in> {45, 46, 95, 126})"

definition quote_byte :: "nat \<Rightarrow> str" where
  "quote_byte n = (if unreserved n then [char_of n]
     else [CHR ''%'', hex_digit (n div 16), hex_digit (n mod 16)])"

text \<open>\<open>quote(s, safe="")\<close> and \<open>quote_plus(s)\<close>.\<close>

definition quote :: "str \<Rightarrow> str" where
  "quote s = concat (map quote_byte (concat (map utf8_char s)))"

definition quote_plus :: "str \<Rightarrow> str" where
  "quote_plus s = concat (map (\<lambda>n. if n = 32 then ''+'' else quote_byte n) (concat (map utf8_char s)))"

definition urlencode :: "(str \<times> str) list \<Rightarrow> str" where
  "urlencode ps = join_on (CHR ''&'') (map (\<lambda>(k, v). quote_plus k @ CHR ''='' # quote_plus v) ps)"

text \<open>What the endpoints do to add a query to an address that may have one.\<close>

definition with_query :: "str \<Rightarrow> (str \<times> str) list \<Rightarrow> str" where
  "with_query uri ps = uri @ (if CHR ''?'' \<in> set uri then CHR ''&'' else CHR ''?'') # urlencode ps"

lemma quote_byte_safe:
  assumes "n < 256" "c \<in> set (quote_byte n)"
  shows "unreserved (of_char c) \<or> c = CHR ''%''"
proof -
  have "unreserved (of_char (hex_digit m) :: nat)" if "m < 16" for m
  proof -
    have "m \<in> set [0 ..< 16]" using that by simp
    then show ?thesis by (auto simp: upt_conv_Cons hex_digit_def unreserved_def)
  qed
  moreover have "n div 16 < 16" "n mod 16 < 16" using assms(1) by auto
  ultimately show ?thesis using assms by (auto simp: quote_byte_def split: if_splits)
qed

lemma utf8_bytes: "n \<in> set (utf8_char c) \<Longrightarrow> n < 256"
proof -
  have "(of_char c :: nat) < 256" by simp
  then have "(of_char c :: nat) div 64 < 4" by linarith
  then show "n \<in> set (utf8_char c) \<Longrightarrow> n < 256"
    by (auto simp: utf8_char_def Let_def split: if_splits)
qed

text \<open>Quoted text holds nothing that ends or splits a query, a path or a fragment.\<close>

lemma quote_safe: "c \<in> set (quote s) \<Longrightarrow> unreserved (of_char c) \<or> c = CHR ''%''"
  unfolding quote_def using utf8_bytes quote_byte_safe by fastforce

lemma quote_plus_safe: "c \<in> set (quote_plus s) \<Longrightarrow> unreserved (of_char c) \<or> c \<in> {CHR ''%'', CHR ''+''}"
  unfolding quote_plus_def using utf8_bytes quote_byte_safe
  by (fastforce split: if_splits)

section \<open>Bearer headers\<close>

text \<open>The token of an \<open>Authorization: Bearer\<close> header; None is HTTP 401.\<close>

definition bearer_token :: "str option \<Rightarrow> str option" where
  "bearer_token h =
     (if \<not> truthy h then None
      else case split_once (or_else h []) of
        [scheme, rest] \<Rightarrow>
          if lower scheme \<noteq> ''bearer'' \<or> strip rest = [] then None else Some (strip rest)
      | _ \<Rightarrow> None)"

lemma bearer_token_plain:
  assumes "t \<noteq> []" "\<forall>c \<in> set t. \<not> py_space c"
  shows "bearer_token (Some (''Bearer '' @ t)) = Some t"
proof -
  have w: "word_of (''Bearer '' @ t) = ''Bearer''"
    by (simp add: word_of_def lstrip_def py_space_def)
  have l: "lstrip t = t" using assms by (cases t) (auto simp: lstrip_def)
  have a: "after_word (''Bearer '' @ t) = t"
    using l by (simp add: after_word_def lstrip_def py_space_def)
  have e: "lstrip (''Bearer '' @ t) \<noteq> []" by (simp add: lstrip_def py_space_def)
  have lo: "lower ''Bearer'' = ''bearer''" by code_simp
  show ?thesis
    using assms w a e lo strip_no_space [OF assms(2)]
    by (simp add: bearer_token_def split_once_def or_else_def)
qed

end
