(* ===== verification/LineAuth.thy ===== *)
theory LineAuth
  imports WebText Interfaces
begin

text \<open>
  \<open>app/services/line_auth_service.py\<close>: the login states that protect the LINE callback
  against forgery, the authorization address, and the session tokens. \<open>time.time()\<close> is a real
  number of seconds, an argument; so are the random state, the environment and the two
  functions of the JWT library. The HTTP calls to LINE are not modelled.
\<close>

section \<open>Configuration\<close>

definition PLACEHOLDER_SECRET :: str where
  "PLACEHOLDER_SECRET = ''your-secret-key-change-in-production''"

text \<open>\<open>_resolve_jwt_secret\<close>; None is the RuntimeError that stops the start-up.\<close>

definition resolve_jwt_secret :: "env \<Rightarrow> str option" where
  "resolve_jwt_secret env =
     (let raw = strip (getenv env ''JWT_SECRET'' []) in
      if raw = [] \<or> raw = PLACEHOLDER_SECRET then
        (let name = lower (getenv env ''ENV'' (getenv env ''ENVIRONMENT'' ''production''));
             testing = (lower (getenv env ''TESTING'' []) \<in> {''1'', ''true'', ''yes''}
               \<or> truthy (env ''PYTEST_CURRENT_TEST''))
         in if name \<notin> {''dev'', ''development'', ''local'', ''test''} \<and> \<not> testing then None
            else Some ''dev-jwt-secret-CHANGE-ME'')
      else Some raw)"

record line_config =
  channel_id :: str
  channel_secret :: str
  callback_url :: str
  jwt_secret :: str

definition DEFAULT_LINE_CALLBACK_URL :: str where
  "DEFAULT_LINE_CALLBACK_URL = ''http://localhost:5000/fingerprintlogs/api/auth/line/callback''"

definition line_config_of :: "env \<Rightarrow> line_config option" where
  "line_config_of env =
     map_option (\<lambda>secret. \<lparr>channel_id = getenv env ''LINE_CHANNEL_ID'' [],
        channel_secret = getenv env ''LINE_CHANNEL_SECRET'' [],
        callback_url = (let u = strip (getenv env ''LINE_CALLBACK_URL'' []) in
          if u = [] then DEFAULT_LINE_CALLBACK_URL else u),
        jwt_secret = secret\<rparr>)
       (resolve_jwt_secret env)"

section \<open>The in-app browser\<close>

text \<open>The search for \<open>(?<![A-Za-z0-9])Line/\d\<close>, ignoring case; \<open>prev\<close> is the character before.\<close>

definition alnum :: "char \<Rightarrow> bool" where
  "alnum c = (let n = (of_char c :: nat) in
     (48 \<le> n \<and> n \<le> 57) \<or> (65 \<le> n \<and> n \<le> 90) \<or> (97 \<le> n \<and> n \<le> 122))"

fun line_token_at :: "str \<Rightarrow> bool" where
  "line_token_at (a # b # c # d # e # f # s) =
     (lower [a, b, c, d] = ''line'' \<and> e = CHR ''/'' \<and> is_digit f)"
| "line_token_at s = False"

fun search_line :: "char option \<Rightarrow> str \<Rightarrow> bool" where
  "search_line prev [] = False"
| "search_line prev (c # s) =
     ((case prev of None \<Rightarrow> True | Some p \<Rightarrow> \<not> alnum p) \<and> line_token_at (c # s)
      \<or> search_line (Some c) s)"

definition is_line_in_app_browser :: "str option \<Rightarrow> bool" where
  "is_line_in_app_browser ua = (truthy ua \<and> search_line None (or_else ua []))"

section \<open>Login states\<close>

type_synonym state_store = "(str, real \<times> str option) dict"

definition STATE_TTL :: real where "STATE_TTL = 600"

definition state_dead :: "real \<Rightarrow> real \<times> str option \<Rightarrow> bool" where
  "state_dead now v = (now - fst v > STATE_TTL)"

definition cleanup_expired_states :: "real \<Rightarrow> state_store \<Rightarrow> state_store" where
  "cleanup_expired_states now d = sweep (state_dead now) d"

definition login_params :: "line_config \<Rightarrow> str \<Rightarrow> str option \<Rightarrow> bool \<Rightarrow> str option \<Rightarrow> (str \<times> str) list" where
  "login_params cfg st hint prefer_qr ua =
     [(''response_type'', ''code''), (''client_id'', channel_id cfg),
      (''redirect_uri'', callback_url cfg), (''state'', st), (''scope'', ''profile openid email'')]
     @ (if prefer_qr then [(''initial_amr_display'', ''lineqr'')] else [])
     @ (if startswith (or_else hint []) ''oidc:'' \<and> \<not> is_line_in_app_browser ua
        then [(''disable_auto_login'', ''true'')] else [])"

text \<open>
  \<open>generate_authorization_url\<close>: the state is the caller's or, when that is falsy, a fresh
  one; the clock is read when storing and again by the cleanup. None: LINE not configured.
\<close>

definition generate_authorization_url ::
  "line_config \<Rightarrow> str option \<Rightarrow> str \<Rightarrow> str option \<Rightarrow> bool \<Rightarrow> str option \<Rightarrow> real \<Rightarrow> real \<Rightarrow> state_store
   \<Rightarrow> state_store \<times> (str \<times> str) option" where
  "generate_authorization_url cfg given fresh hint prefer_qr ua now now' d =
     (if channel_id cfg = [] \<or> channel_id cfg = ''your_channel_id'' then (d, None)
      else
        let st = or_else given fresh;
            d1 = cleanup_expired_states now' (AList.update st (now, hint) d)
        in (d1, Some (''https://access.line.me/oauth2/v2.1/authorize?''
              @ urlencode (login_params cfg st hint prefer_qr ua), st)))"

definition validate_state :: "real \<Rightarrow> real \<Rightarrow> str \<Rightarrow> state_store \<Rightarrow> state_store \<times> bool \<times> str option" where
  "validate_state now now' st d =
     (let d1 = cleanup_expired_states now d in
      case map_of d1 st of
        None \<Rightarrow> (d1, False, None)
      | Some (ts, hint) \<Rightarrow>
          if now' - ts > STATE_TTL then (AList.delete st d1, False, None)
          else (AList.delete st d1, True, hint))"

section \<open>Session tokens\<close>

record session_claims =
  sc_line_user_id :: "str option"
  sc_employee_badge :: "str option"
  sc_display_name :: "str option"
  sc_picture_url :: "str option"
  sc_iat :: int
  sc_exp :: int

datatype jwt_failure = JwtExpired | JwtInvalid

text \<open>\<open>jwt.encode\<close> and \<open>jwt.decode\<close> for HS256; \<open>now\<close> is in seconds.\<close>

record jwt_lib =
  jwt_encode :: "str \<Rightarrow> session_claims \<Rightarrow> str"
  jwt_decode :: "str \<Rightarrow> real \<Rightarrow> str \<Rightarrow> jwt_failure + session_claims"

definition JWT_EXPIRY_HOURS :: int where "JWT_EXPIRY_HOURS = 24"

definition create_jwt_token ::
  "jwt_lib \<Rightarrow> line_config \<Rightarrow> real \<Rightarrow> str option \<Rightarrow> str option \<Rightarrow> str option \<Rightarrow> str option \<Rightarrow> str" where
  "create_jwt_token lib cfg now user badge name picture =
     jwt_encode lib (jwt_secret cfg)
       \<lparr>sc_line_user_id = user, sc_employee_badge = badge,
        sc_display_name = (if truthy name then name else None),
        sc_picture_url = (if truthy picture then picture else None),
        sc_iat = \<lfloor>now\<rfloor>, sc_exp = \<lfloor>now + of_int (JWT_EXPIRY_HOURS * 3600)\<rfloor>\<rparr>"

definition verify_jwt_token ::
  "jwt_lib \<Rightarrow> line_config \<Rightarrow> real \<Rightarrow> str \<Rightarrow> jwt_failure + session_claims" where
  "verify_jwt_token lib cfg now token = jwt_decode lib (jwt_secret cfg) now token"

definition onboarding_continuation_query ::
  "jwt_lib \<Rightarrow> line_config \<Rightarrow> real \<Rightarrow> str \<Rightarrow> str option \<Rightarrow> str option \<Rightarrow> str" where
  "onboarding_continuation_query lib cfg now user name picture =
     urlencode [(''src'', ''line''), (''jwt'', create_jwt_token lib cfg now (Some user) None name picture)]"

section \<open>A state is good once, for its hint, for ten minutes\<close>

interpretation state_expiry: expiring_store state_dead
  by unfold_locales (auto simp: state_dead_def)

definition redeem_state :: "real \<times> real \<Rightarrow> str \<Rightarrow> state_store \<Rightarrow> state_store \<times> (str option) option" where
  "redeem_state t st d = (case validate_state (fst t) (snd t) st d of
     (d', ok, hint) \<Rightarrow> (d', if ok then Some hint else None))"

definition state_spent :: "str \<Rightarrow> state_store \<Rightarrow> bool" where
  "state_spent st d \<longleftrightarrow> dict_ok d \<and> map_of d st = None"

lemma validate_state_ok: "dict_ok d \<Longrightarrow> validate_state t t' st d = (d', r) \<Longrightarrow> dict_ok d'"
  by (auto simp: validate_state_def cleanup_expired_states_def Let_def dict_simps
      split: option.splits prod.splits if_splits)

lemma validate_state_keeps_spent:
  "state_spent st d \<Longrightarrow> validate_state t t' st' d = (d', r) \<Longrightarrow> state_spent st d'"
  unfolding state_spent_def
  by (auto simp: validate_state_def cleanup_expired_states_def Let_def dict_simps
      split: option.splits prod.splits if_splits)

lemma validate_state_True:
  assumes "dict_ok d" "validate_state t t' st d = (d', True, hint)"
  shows "\<exists>ts. map_of d st = Some (ts, hint) \<and> t - ts \<le> STATE_TTL \<and> t' - ts \<le> STATE_TTL
    \<and> state_spent st d'"
  using assms
  by (auto simp: validate_state_def cleanup_expired_states_def Let_def dict_simps state_spent_def
      state_dead_def split: option.splits prod.splits if_splits)

interpretation login_once: one_shot redeem_state state_spent dict_ok
proof unfold_locales
  fix d t k d' ro
  assume r: "redeem_state t k d = (d', ro)"
  then obtain ok h where v: "validate_state (fst t) (snd t) k d = (d', ok, h)"
      "ro = (if ok then Some h else None)"
    by (auto simp: redeem_state_def split: prod.splits)
  show "dict_ok d \<Longrightarrow> dict_ok d'" by (rule validate_state_ok [OF _ v(1)])
  show "ro = None" if "state_spent k d"
    using that v validate_state_True [of d "fst t" "snd t" k d' h]
    by (cases ok) (auto simp: state_spent_def)
next
  fix d t k d' r
  assume d: "dict_ok d" and r: "redeem_state t k d = (d', Some r)"
  then have "validate_state (fst t) (snd t) k d = (d', True, r)"
    by (auto simp: redeem_state_def split: prod.splits if_splits)
  from validate_state_True [OF d this] show "state_spent k d'" by blast
next
  fix k d t k' d' ro
  assume "state_spent k d" "redeem_state t k' d = (d', ro)"
  then show "state_spent k d'"
    by (auto simp: redeem_state_def split: prod.splits dest: validate_state_keeps_spent)
qed

text \<open>
  The login state protects the callback: of any sequence of callbacks, at whatever
  times and with whatever other states in between, at most one is accepted for a given
  state, and only if that state was issued at most ten minutes before; it then gets the
  redirect hint stored when it was issued, and no other.
\<close>

theorem login_state_once:
  assumes d: "dict_ok d"
    and gen: "generate_authorization_url cfg given fresh hint qr ua t0 t0' d = (d1, Some (url, st))"
    and runs: "run (attempt redeem_state) d1 es = (d2, tr)"
  shows "length (wins st tr) \<le> 1
    \<and> (\<forall>t h. ((t, st), Some h) \<in> set tr \<longrightarrow> h = hint \<and> fst t - t0 \<le> 600 \<and> snd t - t0 \<le> 600)"
proof
  have d1: "dict_ok d1" using gen d
    by (auto simp: generate_authorization_url_def cleanup_expired_states_def Let_def dict_simps
        split: if_splits)
  show "length (wins st tr) \<le> 1" by (rule login_once.at_most_one_win [OF d1 runs])
  have m: "map_of d1 st \<in> {None, Some (t0, hint)}" using gen d
    by (auto simp: generate_authorization_url_def cleanup_expired_states_def Let_def dict_simps
        split: if_splits option.splits)
  have "\<forall>t h. ((t, st), Some h) \<in> set tr \<longrightarrow> h = hint \<and> fst t - t0 \<le> 600 \<and> snd t - t0 \<le> 600"
    using d1 m runs
  proof (induction es arbitrary: d1 tr)
    case Nil
    then show ?case by simp
  next
    case (Cons e es)
    obtain e1 ro where s: "attempt redeem_state d1 e = (e1, ro)" by fastforce
    obtain tr' where tr: "run (attempt redeem_state) e1 es = (d2, tr')" "tr = (e, ro) # tr'"
      using Cons.prems(3) s by (rule run_ConsE)
    obtain ok h where v: "validate_state (fst (fst e)) (snd (fst e)) (snd e) d1 = (e1, ok, h)"
        "ro = (if ok then Some h else None)"
      using s by (auto simp: attempt_def redeem_state_def split: prod.splits)
    have "map_of e1 st \<in> {None, Some (t0, hint)}"
      using v(1) Cons.prems(1,2)
      by (auto simp: validate_state_def cleanup_expired_states_def Let_def dict_simps
          split: option.splits prod.splits if_splits)
    from Cons.IH [OF validate_state_ok [OF Cons.prems(1) v(1)] this tr(1)]
    show ?case
      using tr(2) v validate_state_True [OF Cons.prems(1), of "fst (fst e)" "snd (fst e)" "snd e" e1 h]
        Cons.prems(2)
      by (cases e) (auto simp: STATE_TTL_def)
  qed
  then show "\<forall>t h. ((t, st), Some h) \<in> set tr \<longrightarrow> h = hint \<and> fst t - t0 \<le> 600 \<and> snd t - t0 \<le> 600" .
qed

definition demo_line_config :: line_config where
  "demo_line_config = \<lparr>channel_id = ''165'', channel_secret = ''s'', callback_url = ''https://h/cb'',
     jwt_secret = ''k''\<rparr>"

theorem login_state_once_witness:
  "\<exists>d1 url d2 tr. generate_authorization_url demo_line_config None ''s1'' (Some ''oidc:t'') False None
       0 0 [] = (d1, Some (url, ''s1''))
     \<and> run (attempt redeem_state) d1 [((9, 9), ''s1''), ((10, 10), ''s1'')] = (d2, tr)
     \<and> tr = [(((9, 9), ''s1''), Some (Some ''oidc:t'')), (((10, 10), ''s1''), None)]
     \<and> length (wins ''s1'' tr) \<le> 1"
proof -
  define d1 where "d1 = [(''s1'', (0 :: real, Some ''oidc:t''))]"
  have g: "\<exists>url. generate_authorization_url demo_line_config None ''s1'' (Some ''oidc:t'') False None
       0 0 [] = (d1, Some (url, ''s1''))"
    by (simp add: generate_authorization_url_def demo_line_config_def d1_def cleanup_expired_states_def
        sweep_def dead_keys_def state_dead_def STATE_TTL_def Let_def)
  then obtain url where u: "generate_authorization_url demo_line_config None ''s1'' (Some ''oidc:t'')
      False None 0 0 [] = (d1, Some (url, ''s1''))" by blast
  have r: "run (attempt redeem_state) d1 [((9, 9), ''s1''), ((10, 10), ''s1'')]
      = ([], [(((9, 9), ''s1''), Some (Some ''oidc:t'')), (((10, 10), ''s1''), None)])"
    by (simp add: d1_def attempt_def redeem_state_def validate_state_def cleanup_expired_states_def
        sweep_def dead_keys_def state_dead_def STATE_TTL_def Let_def)
  from login_state_once [OF dict_ok_Nil u r] u r show ?thesis by blast
qed

end
