(* ===== verification/LineAccount.thy ===== *)
theory LineAccount
  imports Tables LineAuth
begin

text \<open>
  Linking a LINE account to an employee: the guard against guessing codes and the
  \<open>link_account\<close>, \<open>unlink_account\<close> endpoints of \<open>app/api/line_auth.py\<close>, and the code
  administration of \<open>app/api/admin_line_codes.py\<close>. \<open>time.time()\<close> is a real number of seconds,
  one argument for each reading of the clock; \<open>datetime.now\<close> is in microseconds. The
  random codes and the decoding of the session token are arguments.
\<close>

section \<open>The rate limiter\<close>

definition LINK_ATTEMPT_WINDOW_SECONDS :: real where "LINK_ATTEMPT_WINDOW_SECONDS = 60"
definition LINK_ATTEMPT_MAX_PER_WINDOW :: nat where "LINK_ATTEMPT_MAX_PER_WINDOW = 5"
definition LINK_ATTEMPT_LOCKOUT_THRESHOLD :: nat where "LINK_ATTEMPT_LOCKOUT_THRESHOLD = 20"
definition LINK_ATTEMPT_LOCKOUT_SECONDS :: real where "LINK_ATTEMPT_LOCKOUT_SECONDS = 300"
definition LINK_ATTEMPT_RETENTION_SECONDS :: real where "LINK_ATTEMPT_RETENTION_SECONDS = 300"
definition LINK_CODE_INVALIDATE_THRESHOLD :: nat where "LINK_CODE_INVALIDATE_THRESHOLD = 5"
definition LINK_CODE_FAILURE_TTL_SECONDS :: real where "LINK_CODE_FAILURE_TTL_SECONDS = 3600"

lemmas link_limits = LINK_ATTEMPT_WINDOW_SECONDS_def LINK_ATTEMPT_MAX_PER_WINDOW_def
  LINK_ATTEMPT_LOCKOUT_THRESHOLD_def LINK_ATTEMPT_LOCKOUT_SECONDS_def
  LINK_ATTEMPT_RETENTION_SECONDS_def LINK_CODE_INVALIDATE_THRESHOLD_def
  LINK_CODE_FAILURE_TTL_SECONDS_def

type_synonym client = "str \<times> str"

record link_guard =
  link_attempts :: "(client, real list) dict"
  link_lockouts :: "(client, real) dict"
  link_code_failures :: "(str, nat \<times> real) dict"

definition empty_guard :: link_guard where
  "empty_guard = \<lparr>link_attempts = [], link_lockouts = [], link_code_failures = []\<rparr>"

definition prune_link_rate_limit_state :: "real \<Rightarrow> link_guard \<Rightarrow> link_guard" where
  "prune_link_rate_limit_state now g =
     g\<lparr>link_lockouts := sweep (\<lambda>u. u \<le> now) (link_lockouts g),
       link_attempts := sweep (\<lambda>ts. ts = [] \<or> list_all (\<lambda>t. t \<le> now - LINK_ATTEMPT_RETENTION_SECONDS) ts)
         (link_attempts g),
       link_code_failures := sweep (\<lambda>(n, u). u \<le> now - LINK_CODE_FAILURE_TTL_SECONDS)
         (link_code_failures g)\<rparr>"

text \<open>None: the attempt may go on; Some n: HTTP 429 with \<open>Retry-After: n\<close>.\<close>

definition enforce_window :: "real \<Rightarrow> client \<Rightarrow> link_guard \<Rightarrow> link_guard \<times> int option" where
  "enforce_window now key g =
     (case map_of (link_attempts g) key of
        None \<Rightarrow> (g, None)
      | Some ts0 \<Rightarrow>
          let ts = filter (\<lambda>t. t > now - LINK_ATTEMPT_RETENTION_SECONDS) ts0 in
          if ts = [] then (g\<lparr>link_attempts := AList.delete key (link_attempts g)\<rparr>, None)
          else
            let g1 = g\<lparr>link_attempts := AList.update key ts (link_attempts g)\<rparr>;
                w = filter (\<lambda>t. t > now - LINK_ATTEMPT_WINDOW_SECONDS) ts
            in if length w \<ge> LINK_ATTEMPT_MAX_PER_WINDOW
               then (g1, Some (max 1 (\<lfloor>LINK_ATTEMPT_WINDOW_SECONDS - (now - hd w)\<rfloor> + 1)))
               else (g1, None))"

definition enforce_link_rate_limit :: "real \<Rightarrow> client \<Rightarrow> link_guard \<Rightarrow> link_guard \<times> int option" where
  "enforce_link_rate_limit now key g =
     (let g1 = prune_link_rate_limit_state now g in
      case map_of (link_lockouts g1) key of
        None \<Rightarrow> enforce_window now key g1
      | Some u \<Rightarrow>
          if u \<noteq> 0 \<and> now < u then (g1, Some (\<lfloor>u - now\<rfloor> + 1))
          else if u \<noteq> 0
          then enforce_window now key (g1\<lparr>link_lockouts := AList.delete key (link_lockouts g1)\<rparr>)
          else enforce_window now key g1)"

definition record_link_failure :: "real \<Rightarrow> client \<Rightarrow> link_guard \<Rightarrow> link_guard" where
  "record_link_failure now key g =
     (let ts0 = (case map_of (link_attempts g) key of None \<Rightarrow> [] | Some ts \<Rightarrow> ts);
          ts = filter (\<lambda>t. t > now - LINK_ATTEMPT_RETENTION_SECONDS) (ts0 @ [now]);
          g1 = g\<lparr>link_attempts := AList.update key ts (link_attempts g)\<rparr>
      in if length ts \<ge> LINK_ATTEMPT_LOCKOUT_THRESHOLD
         then g1\<lparr>link_lockouts := AList.update key (now + LINK_ATTEMPT_LOCKOUT_SECONDS)
                (link_lockouts g1)\<rparr>
         else g1)"

definition clear_link_failures :: "client \<Rightarrow> link_guard \<Rightarrow> link_guard" where
  "clear_link_failures key g =
     g\<lparr>link_attempts := AList.delete key (link_attempts g),
       link_lockouts := AList.delete key (link_lockouts g)\<rparr>"

definition record_code_failure :: "real \<Rightarrow> str \<Rightarrow> link_guard \<Rightarrow> link_guard \<times> nat" where
  "record_code_failure now code g =
     (let n = (case map_of (link_code_failures g) code of None \<Rightarrow> 0 | Some (m, u) \<Rightarrow> m) + 1
      in (g\<lparr>link_code_failures := AList.update code (n, now) (link_code_failures g)\<rparr>, n))"

definition clear_code_failures :: "str \<Rightarrow> link_guard \<Rightarrow> link_guard" where
  "clear_code_failures code g =
     g\<lparr>link_code_failures := AList.delete code (link_code_failures g)\<rparr>"

text \<open>\<open>_client_ip\<close>: the headers of a request, and the address of the connection.\<close>

definition client_ip :: "env \<Rightarrow> (str \<Rightarrow> str option) \<Rightarrow> str option \<Rightarrow> str" where
  "client_ip env headers peer =
     (let direct = (case peer of None \<Rightarrow> ''unknown'' | Some h \<Rightarrow> h) in
      if lower (getenv env ''BEHIND_PROXY'' ''false'') = ''true'' then
        (let cf = strip (getenv headers ''CF-Connecting-IP'' []);
             fwd = strip (getenv headers ''X-Forwarded-For'' [])
         in if cf \<noteq> [] then cf
            else if fwd \<noteq> [] then strip (hd (split_on (CHR '','') fwd))
            else direct)
      else direct)"

section \<open>Linking\<close>

record line_accounts =
  la_guard :: link_guard
  la_employees :: "employee list"

datatype link_outcome =
    Linked str | Unlinked str | CodeIssued str
  | LinkTokenRefused jwt_failure | LinkMissingUser | LinkRateLimited int
  | LinkBadCode | LinkCodeExpired | LinkAlready | LinkCrash
  | LinkNoAccount | LinkNoEmployee | LinkNotLinked | LinkNoUniqueCode

definition same_badge :: "employee \<Rightarrow> employee \<Rightarrow> bool" where
  "same_badge e x = (badge_number x = badge_number e)"

text \<open>The commit of a changed row: None is the IntegrityError of a unique column.\<close>

definition commit_employee :: "employee \<Rightarrow> employee list \<Rightarrow> employee list option" where
  "commit_employee e emps =
     (if \<exists>x \<in> set emps. badge_number x \<noteq> badge_number e
           \<and> (line_user_id e \<noteq> None \<and> line_user_id x = line_user_id e
              \<or> line_linking_code e \<noteq> None \<and> line_linking_code x = line_linking_code e)
      then None else Some (update_where (same_badge e) (\<lambda>_. e) emps))"

definition without_code :: "employee \<Rightarrow> employee" where
  "without_code e = e\<lparr>line_linking_code := None, line_linking_code_generated_at := None\<rparr>"

definition without_line :: "employee \<Rightarrow> employee" where
  "without_line e = (without_code e)\<lparr>line_user_id := None, line_display_name := None,
     line_picture_url := None\<rparr>"

definition linked_row :: "session_claims \<Rightarrow> employee \<Rightarrow> employee" where
  "linked_row p e = (without_code e)\<lparr>line_user_id := sc_line_user_id p,
     line_display_name := sc_display_name p, line_picture_url := sc_picture_url p\<rparr>"

text \<open>Wrong code: both counters, and at five the code is taken from whoever holds it.\<close>

definition wrong_code :: "real \<Rightarrow> real \<Rightarrow> client \<Rightarrow> str \<Rightarrow> link_guard \<Rightarrow> employee list
    \<Rightarrow> link_guard \<times> employee list" where
  "wrong_code t2 t3 key code g emps =
     (case record_code_failure t3 code (record_link_failure t2 key g) of
        (g1, n) \<Rightarrow>
          if n \<ge> LINK_CODE_INVALIDATE_THRESHOLD then
            (clear_code_failures code g1,
             case first (\<lambda>e. line_linking_code e = Some code) emps of
               None \<Rightarrow> emps
             | Some e \<Rightarrow> update_where (same_badge e) (\<lambda>_. without_code e) emps)
          else (g1, emps))"

definition code_expired_at :: "dtime \<Rightarrow> employee \<Rightarrow> bool" where
  "code_expired_at now e = (case line_linking_code_generated_at e of
     None \<Rightarrow> False | Some g \<Rightarrow> now > g + 24 * hour_us)"

definition link_account ::
  "real \<Rightarrow> real \<Rightarrow> real \<Rightarrow> dtime \<Rightarrow> str \<Rightarrow> jwt_failure + session_claims \<Rightarrow> str \<Rightarrow> line_accounts
   \<Rightarrow> line_accounts \<times> link_outcome" where
  "link_account t1 t2 t3 now ip token code s =
     (case token of
        Inl e \<Rightarrow> (s, LinkTokenRefused e)
      | Inr p \<Rightarrow>
          if \<not> truthy (sc_line_user_id p) then (s, LinkMissingUser)
          else
            let key = (ip, or_else (sc_line_user_id p) []) in
            case enforce_link_rate_limit t1 key (la_guard s) of
              (g, Some n) \<Rightarrow> (s\<lparr>la_guard := g\<rparr>, LinkRateLimited n)
            | (g, None) \<Rightarrow>
                (case first (\<lambda>e. line_linking_code e = Some code \<and> is_active e) (la_employees s) of
                   None \<Rightarrow>
                     (case wrong_code t2 t3 key code g (la_employees s) of
                        (g', emps) \<Rightarrow> (\<lparr>la_guard = g', la_employees = emps\<rparr>, LinkBadCode))
                 | Some e \<Rightarrow>
                     if code_expired_at now e
                     then (s\<lparr>la_guard := record_link_failure t2 key g\<rparr>, LinkCodeExpired)
                     else if truthy (line_user_id e)
                     then (s\<lparr>la_guard := record_link_failure t2 key g\<rparr>, LinkAlready)
                     else (case commit_employee (linked_row p e) (la_employees s) of
                         None \<Rightarrow> (s\<lparr>la_guard := g\<rparr>, LinkCrash)
                       | Some emps \<Rightarrow>
                           (\<lparr>la_guard = clear_code_failures code (clear_link_failures key g),
                             la_employees = emps\<rparr>, Linked (badge_number e)))))"

definition unlink_account ::
  "jwt_failure + session_claims \<Rightarrow> line_accounts \<Rightarrow> line_accounts \<times> link_outcome" where
  "unlink_account token s =
     (case token of
        Inl e \<Rightarrow> (s, LinkTokenRefused e)
      | Inr p \<Rightarrow>
          if \<not> truthy (sc_line_user_id p) then (s, LinkMissingUser)
          else (case first (\<lambda>e. line_user_id e = sc_line_user_id p \<and> is_active e) (la_employees s) of
              None \<Rightarrow> (s, LinkNoAccount)
            | Some e \<Rightarrow>
                (s\<lparr>la_employees := update_where (same_badge e) (\<lambda>_. without_line e) (la_employees s)\<rparr>,
                 Unlinked (badge_number e))))"

section \<open>Codes\<close>

definition is_code_expired :: "dtime \<Rightarrow> dtime option \<Rightarrow> bool" where
  "is_code_expired now generated_at =
     (case generated_at of None \<Rightarrow> True | Some g \<Rightarrow> now > g + 24 * hour_us)"

text \<open>
  \<open>commit_unique_linking_code\<close>: each draw is a random code and the clock at its commit, the
  session row \<open>e\<close> carries the changes not yet committed; the rollback of an IntegrityError
  drops them. \<open>autoflush\<close> is off, so the check sees committed rows only.
\<close>

fun commit_unique_linking_code ::
  "(str \<times> dtime) list \<Rightarrow> employee \<Rightarrow> employee list \<Rightarrow> (employee list \<times> str) option" where
  "commit_unique_linking_code [] e emps = None"
| "commit_unique_linking_code ((code, now) # draws) e emps =
     (if first (\<lambda>x. line_linking_code x = Some code \<and> line_user_id x = None) emps \<noteq> None
      then commit_unique_linking_code draws e emps
      else case commit_employee (e\<lparr>line_linking_code := Some code,
                 line_linking_code_generated_at := Some now\<rparr>) emps of
             Some emps' \<Rightarrow> Some (emps', code)
           | None \<Rightarrow> (case first (same_badge e) emps of
               None \<Rightarrow> None
             | Some committed \<Rightarrow> commit_unique_linking_code draws committed emps))"

definition generate_linking_code ::
  "dtime \<Rightarrow> (str \<times> dtime) list \<Rightarrow> str \<Rightarrow> line_accounts \<Rightarrow> line_accounts \<times> link_outcome" where
  "generate_linking_code now draws badge s =
     (case first (\<lambda>e. badge_number e = badge) (la_employees s) of
        None \<Rightarrow> (s, LinkNoEmployee)
      | Some e \<Rightarrow>
          let relink = truthy (line_user_id e);
              e1 = (if relink then e\<lparr>line_user_id := None, line_display_name := None,
                      line_picture_url := None\<rparr> else e)
          in if \<not> relink \<and> truthy (line_linking_code e)
                \<and> \<not> is_code_expired now (line_linking_code_generated_at e)
             then (s, CodeIssued (or_else (line_linking_code e) []))
             else (case commit_unique_linking_code (take 5 draws) e1 (la_employees s) of
                 None \<Rightarrow> (s, LinkNoUniqueCode)
               | Some (emps, code) \<Rightarrow> (s\<lparr>la_employees := emps\<rparr>, CodeIssued code)))"

definition regenerate_linking_code ::
  "(str \<times> dtime) list \<Rightarrow> str \<Rightarrow> line_accounts \<Rightarrow> line_accounts \<times> link_outcome" where
  "regenerate_linking_code draws badge s =
     (case first (\<lambda>e. badge_number e = badge) (la_employees s) of
        None \<Rightarrow> (s, LinkNoEmployee)
      | Some e \<Rightarrow>
          if truthy (line_user_id e) then (s, LinkAlready)
          else (case commit_unique_linking_code (take 5 draws) e (la_employees s) of
              None \<Rightarrow> (s, LinkNoUniqueCode)
            | Some (emps, code) \<Rightarrow> (s\<lparr>la_employees := emps\<rparr>, CodeIssued code)))"

definition unlink_line_account :: "str \<Rightarrow> line_accounts \<Rightarrow> line_accounts \<times> link_outcome" where
  "unlink_line_account badge s =
     (case first (\<lambda>e. badge_number e = badge) (la_employees s) of
        None \<Rightarrow> (s, LinkNoEmployee)
      | Some e \<Rightarrow>
          if \<not> truthy (line_user_id e) then (s, LinkNotLinked)
          else (s\<lparr>la_employees := update_where (same_badge e) (\<lambda>_. without_line e) (la_employees s)\<rparr>,
                Unlinked badge))"

definition or_zero :: "dtime option \<Rightarrow> dtime" where
  "or_zero t = (case t of None \<Rightarrow> 0 | Some x \<Rightarrow> x)"

definition list_pending_codes :: "dtime \<Rightarrow> bool \<Rightarrow> employee list \<Rightarrow> employee list" where
  "list_pending_codes now include_expired emps =
     filter (\<lambda>e. line_linking_code_generated_at e \<noteq> None
         \<and> (include_expired \<or> \<not> is_code_expired now (line_linking_code_generated_at e)))
       (rev (sort_key (\<lambda>e. or_zero (line_linking_code_generated_at e))
         (rev (filter (\<lambda>e. line_linking_code e \<noteq> None \<and> line_user_id e = None) emps))))"

section \<open>The machine\<close>

datatype link_event =
    LinkAccount real real real dtime str "jwt_failure + session_claims" str
  | UnlinkAccount "jwt_failure + session_claims"
  | GenerateCode dtime "(str \<times> dtime) list" str
  | RegenerateCode "(str \<times> dtime) list" str
  | AdminUnlink str

fun link_step :: "line_accounts \<Rightarrow> link_event \<Rightarrow> line_accounts \<times> link_outcome" where
  "link_step s (LinkAccount t1 t2 t3 now ip token code) = link_account t1 t2 t3 now ip token code s"
| "link_step s (UnlinkAccount token) = unlink_account token s"
| "link_step s (GenerateCode now draws badge) = generate_linking_code now draws badge s"
| "link_step s (RegenerateCode draws badge) = regenerate_linking_code draws badge s"
| "link_step s (AdminUnlink badge) = unlink_line_account badge s"

section \<open>One LINE account, one employee, one code\<close>

definition accounts_ok :: "employee list \<Rightarrow> bool" where
  "accounts_ok emps \<longleftrightarrow> distinct (map badge_number emps)
     \<and> (\<forall>e \<in> set emps. line_user_id e \<noteq> Some [] \<and> (line_user_id e \<noteq> None \<longrightarrow> line_linking_code e = None)
         \<and> (\<forall>x \<in> set emps. badge_number x \<noteq> badge_number e \<longrightarrow>
              (line_user_id e \<noteq> None \<longrightarrow> line_user_id x \<noteq> line_user_id e)
              \<and> (line_linking_code e \<noteq> None \<longrightarrow> line_linking_code x \<noteq> line_linking_code e)))"

lemma accounts_distinct: "accounts_ok emps \<Longrightarrow> distinct (map badge_number emps)"
  by (simp add: accounts_ok_def)

lemma accounts_row:
  "accounts_ok emps \<Longrightarrow> e \<in> set emps \<Longrightarrow>
     line_user_id e \<noteq> Some [] \<and> (line_user_id e \<noteq> None \<longrightarrow> line_linking_code e = None)"
  by (simp add: accounts_ok_def)

lemma accounts_pair:
  "accounts_ok emps \<Longrightarrow> e \<in> set emps \<Longrightarrow> x \<in> set emps \<Longrightarrow> badge_number x \<noteq> badge_number e \<Longrightarrow>
     (line_user_id e \<noteq> None \<longrightarrow> line_user_id x \<noteq> line_user_id e)
     \<and> (line_linking_code e \<noteq> None \<longrightarrow> line_linking_code x \<noteq> line_linking_code e)"
  by (simp add: accounts_ok_def)

lemma commit_employee_Some:
  "commit_employee e emps = Some emps' \<Longrightarrow> emps' = update_where (same_badge e) (\<lambda>_. e) emps
     \<and> (\<forall>x \<in> set emps. badge_number x \<noteq> badge_number e \<longrightarrow>
          (line_user_id e \<noteq> None \<longrightarrow> line_user_id x \<noteq> line_user_id e)
          \<and> (line_linking_code e \<noteq> None \<longrightarrow> line_linking_code x \<noteq> line_linking_code e))"
  by (auto simp: commit_employee_def split: if_splits)

lemma update_row_ok:
  assumes ok: "accounts_ok emps"
    and row: "line_user_id e \<noteq> Some []" "line_user_id e \<noteq> None \<longrightarrow> line_linking_code e = None"
    and free: "\<forall>x \<in> set emps. badge_number x \<noteq> badge_number e \<longrightarrow>
          (line_user_id e \<noteq> None \<longrightarrow> line_user_id x \<noteq> line_user_id e)
          \<and> (line_linking_code e \<noteq> None \<longrightarrow> line_linking_code x \<noteq> line_linking_code e)"
  shows "accounts_ok (update_where (same_badge e) (\<lambda>_. e) emps)"
proof -
  have d: "distinct (map badge_number (update_where (same_badge e) (\<lambda>_. e) emps))"
    using accounts_distinct [OF ok] by (subst keys_update_where) (simp_all add: same_badge_def)
  have each: "line_user_id y \<noteq> Some [] \<and> (line_user_id y \<noteq> None \<longrightarrow> line_linking_code y = None)
      \<and> (\<forall>x \<in> set (update_where (same_badge e) (\<lambda>_. e) emps). badge_number x \<noteq> badge_number y \<longrightarrow>
          (line_user_id y \<noteq> None \<longrightarrow> line_user_id x \<noteq> line_user_id y)
          \<and> (line_linking_code y \<noteq> None \<longrightarrow> line_linking_code x \<noteq> line_linking_code y))"
    if y: "y \<in> set (update_where (same_badge e) (\<lambda>_. e) emps)" for y
  proof (cases "y = e")
    case True
    then show ?thesis using row free by (auto simp: same_badge_def split: if_splits)
  next
    case False
    then have y1: "y \<in> set emps" "badge_number y \<noteq> badge_number e"
      using y by (auto simp: same_badge_def split: if_splits)
    have fe: "(line_user_id y \<noteq> None \<longrightarrow> line_user_id e \<noteq> line_user_id y)
        \<and> (line_linking_code y \<noteq> None \<longrightarrow> line_linking_code e \<noteq> line_linking_code y)"
      using free y1 by metis
    then show ?thesis using accounts_row [OF ok y1(1)] accounts_pair [OF ok y1(1)]
      by (auto simp: same_badge_def split: if_splits)
  qed
  show ?thesis unfolding accounts_ok_def using d each by blast
qed

lemma first_row: "first p emps = Some e \<Longrightarrow> e \<in> set emps \<and> p e"
  by (rule first_Some)

lemma stripped_row_ok:
  assumes "accounts_ok emps" "e \<in> set emps"
  shows "accounts_ok (update_where (same_badge e) (\<lambda>_. without_line e) emps)"
    and "accounts_ok (update_where (same_badge e) (\<lambda>_. without_code e) emps)"
proof -
  have "same_badge e = same_badge (without_line e)" "same_badge e = same_badge (without_code e)"
    by (auto simp: fun_eq_iff same_badge_def without_line_def without_code_def)
  then show "accounts_ok (update_where (same_badge e) (\<lambda>_. without_line e) emps)"
    "accounts_ok (update_where (same_badge e) (\<lambda>_. without_code e) emps)"
    using update_row_ok [OF assms(1), of "without_line e"] update_row_ok [OF assms(1), of "without_code e"]
      accounts_row [OF assms] accounts_pair [OF assms]
    by (auto simp: without_line_def without_code_def)
qed

text \<open>A drawn code that passes the check never fails at the commit.\<close>

lemma draw_commits:
  assumes "accounts_ok emps" "line_user_id e = None"
    "first (\<lambda>x. line_linking_code x = Some c \<and> line_user_id x = None) emps = None"
  shows "commit_employee (e\<lparr>line_linking_code := Some c, line_linking_code_generated_at := g\<rparr>) emps \<noteq> None"
  using assms accounts_row [OF assms(1)]
  by (fastforce simp: commit_employee_def first_None)

lemma commit_unique_ok:
  "accounts_ok emps \<Longrightarrow> line_user_id e = None
   \<Longrightarrow> commit_unique_linking_code draws e emps = Some (emps', code) \<Longrightarrow> accounts_ok emps'"
proof (induction draws e emps rule: commit_unique_linking_code.induct)
  case (2 c now draws e emps)
  show ?case
  proof (cases "first (\<lambda>x. line_linking_code x = Some c \<and> line_user_id x = None) emps")
    case None
    define e1 where "e1 = e\<lparr>line_linking_code := Some c, line_linking_code_generated_at := Some now\<rparr>"
    have "commit_employee e1 emps \<noteq> None"
      unfolding e1_def by (rule draw_commits) (use 2 None in auto)
    then obtain emps1 where c1: "commit_employee e1 emps = Some emps1" by blast
    have "accounts_ok emps1"
      using update_row_ok [OF "2.prems"(1), of e1] commit_employee_Some [OF c1] "2.prems"(2)
      by (simp add: e1_def)
    then show ?thesis using 2 None c1 by (simp add: e1_def)
  next
    case (Some x)
    then show ?thesis using 2 by simp
  qed
qed simp

lemma wrong_code_ok: "accounts_ok emps \<Longrightarrow> wrong_code t2 t3 k code g emps = (g', emps') \<Longrightarrow> accounts_ok emps'"
  by (auto simp: wrong_code_def split: prod.splits if_splits option.splits
      dest: first_row intro: stripped_row_ok(2))

lemma link_account_ok:
  assumes ok: "accounts_ok (la_employees s)"
  shows "accounts_ok (la_employees (fst (link_account t1 t2 t3 now ip token code s)))"
proof -
  have linked: "accounts_ok emps"
    if e: "first (\<lambda>e. line_linking_code e = Some code \<and> is_active e) (la_employees s) = Some e"
      and u: "truthy (sc_line_user_id p)"
      and c: "commit_employee (linked_row p e) (la_employees s) = Some emps" for e p emps
  proof -
    have "sc_line_user_id p \<noteq> Some []" using u by auto
    then show ?thesis
      using update_row_ok [OF ok, of "linked_row p e"] commit_employee_Some [OF c]
      by (simp add: linked_row_def without_code_def)
  qed
  show ?thesis
    unfolding link_account_def
    using ok linked wrong_code_ok [OF ok]
    by (auto simp: Let_def split: sum.split prod.split option.split)
qed

lemma link_step_ok: "accounts_ok (la_employees s) \<Longrightarrow> accounts_ok (la_employees (fst (link_step s e)))"
proof (induction s e rule: link_step.induct)
  case (1 s t1 t2 t3 now ip token code)
  then show ?case by (simp add: link_account_ok)
next
  case (2 s token)
  then show ?case
    by (auto simp: unlink_account_def split: sum.split option.split dest: first_row intro: stripped_row_ok)
next
  case (3 s now draws badge)
  show ?case
  proof (cases "first (\<lambda>e. badge_number e = badge) (la_employees s)")
    case None
    then show ?thesis using 3 by (simp add: generate_linking_code_def)
  next
    case (Some e)
    define e1 where "e1 = (if truthy (line_user_id e) then e\<lparr>line_user_id := None,
        line_display_name := None, line_picture_url := None\<rparr> else e)"
    have "line_user_id e1 = None"
      using accounts_row [OF 3, of e] first_row [OF Some]
      by (cases "line_user_id e") (auto simp: e1_def)
    then have "commit_unique_linking_code d e1 (la_employees s) = Some (emps, c) \<Longrightarrow> accounts_ok emps" for d emps c
      by (rule commit_unique_ok [OF 3])
    then show ?thesis using 3 Some
      by (auto simp: generate_linking_code_def Let_def split: option.split simp flip: e1_def)
  qed
next
  case (4 s draws badge)
  show ?case
  proof (cases "first (\<lambda>e. badge_number e = badge) (la_employees s)")
    case None
    then show ?thesis using 4 by (simp add: regenerate_linking_code_def)
  next
    case (Some e)
    have "\<not> truthy (line_user_id e) \<Longrightarrow> line_user_id e = None"
      using accounts_row [OF 4, of e] first_row [OF Some] by (cases "line_user_id e") auto
    then show ?thesis using 4 Some commit_unique_ok [OF 4, of e]
      by (auto simp: regenerate_linking_code_def split: option.split)
  qed
next
  case (5 s badge)
  then show ?case
    by (auto simp: unlink_line_account_def split: option.split dest: first_row intro: stripped_row_ok)
qed

interpretation accounts: machine link_step "\<lambda>s. accounts_ok (la_employees s)"
  by unfold_locales (rule link_step_ok)

lemma accounts_user_unique:
  "accounts_ok emps \<Longrightarrow> x \<in> set emps \<Longrightarrow> y \<in> set emps \<Longrightarrow> line_user_id x = Some u
   \<Longrightarrow> line_user_id y = Some u \<Longrightarrow> badge_number x = badge_number y"
  by (rule ccontr) (use accounts_pair [of emps x y] in simp)

lemma accounts_code_unique:
  "accounts_ok emps \<Longrightarrow> x \<in> set emps \<Longrightarrow> y \<in> set emps \<Longrightarrow> line_linking_code x = Some c
   \<Longrightarrow> line_linking_code y = Some c \<Longrightarrow> badge_number x = badge_number y"
  by (rule ccontr) (use accounts_pair [of emps x y] in simp)

lemma count_unique:
  assumes "distinct (map key rows)"
    and "\<And>x y. x \<in> set rows \<Longrightarrow> y \<in> set rows \<Longrightarrow> P x \<Longrightarrow> P y \<Longrightarrow> key x = key y"
  shows "count_where P rows \<le> 1"
  using assms
proof (induction rows)
  case Nil
  then show ?case by (simp add: count_where_def)
next
  case (Cons r rows)
  have IH: "count_where P rows \<le> 1" using Cons.prems by (intro Cons.IH) auto
  show ?case
  proof (cases "P r")
    case True
    have "\<not> P y" if "y \<in> set rows" for y
    proof
      assume "P y"
      then have "key y = key r" using Cons.prems(2) [of y r] that True by simp
      then have "key r \<in> key ` set rows" using that by (metis image_eqI)
      then show False using Cons.prems(1) by simp
    qed
    then have "filter P rows = []" by (simp add: filter_empty_conv)
    then show ?thesis by (simp add: count_where_def)
  next
    case False
    then show ?thesis using IH by (simp add: count_where_def)
  qed
qed

text \<open>
  However employees link and unlink and admins issue and withdraw codes: a LINE account
  belongs to at most one employee, a linking code to at most one employee, and an employee
  who is linked has no open code, so nobody can take over a linked account with one.
\<close>

theorem link_accounts_exclusive:
  assumes "accounts_ok (la_employees s)" "run link_step s es = (s', tr)"
  shows "count_where (\<lambda>e. line_user_id e = Some u) (la_employees s') \<le> 1
    \<and> count_where (\<lambda>e. line_linking_code e = Some c) (la_employees s') \<le> 1
    \<and> (\<forall>e \<in> set (la_employees s'). line_user_id e = None \<or> line_linking_code e = None)"
proof -
  have ok: "accounts_ok (la_employees s')" by (rule accounts.inv_run [OF assms])
  show ?thesis
  proof (intro conjI)
    show "count_where (\<lambda>e. line_user_id e = Some u) (la_employees s') \<le> 1"
    proof (rule count_unique [where key = badge_number, OF accounts_distinct [OF ok]])
      fix x y assume "x \<in> set (la_employees s')" "y \<in> set (la_employees s')"
        "line_user_id x = Some u" "line_user_id y = Some u"
      then show "badge_number x = badge_number y" by (rule accounts_user_unique [OF ok])
    qed
    show "count_where (\<lambda>e. line_linking_code e = Some c) (la_employees s') \<le> 1"
    proof (rule count_unique [where key = badge_number, OF accounts_distinct [OF ok]])
      fix x y assume "x \<in> set (la_employees s')" "y \<in> set (la_employees s')"
        "line_linking_code x = Some c" "line_linking_code y = Some c"
      then show "badge_number x = badge_number y" by (rule accounts_code_unique [OF ok])
    qed
    show "\<forall>e \<in> set (la_employees s'). line_user_id e = None \<or> line_linking_code e = None"
      by (rule ballI) (drule accounts_row [OF ok], auto)
  qed
qed

definition demo_hire :: employee where
  "demo_hire = \<lparr>badge_number = ''7'', english_name = None, thai_name = None,
     display_name = ''Mali'', department = None, position = None, is_active = True,
     is_hidden = False, line_user_id = None, line_display_name = None,
     line_picture_url = None, line_linking_code = Some ''123456'',
     line_linking_code_generated_at = Some 0, emp_role = None, default_shift_id = None,
     emp_location = None, email = None, pending_approval = False, join_source = ''device'',
     nfc_card_uid = None\<rparr>"

definition demo_accounts :: line_accounts where
  "demo_accounts = \<lparr>la_guard = empty_guard, la_employees = [demo_hire]\<rparr>"

definition demo_claims :: session_claims where
  "demo_claims = \<lparr>sc_line_user_id = Some ''U1'', sc_employee_badge = None, sc_display_name = None,
     sc_picture_url = None, sc_iat = 0, sc_exp = 86400\<rparr>"

lemma demo_accounts_ok: "accounts_ok (la_employees demo_accounts)"
  by (simp add: accounts_ok_def demo_accounts_def demo_hire_def)

theorem link_accounts_exclusive_witness:
  "\<exists>s' tr. run link_step demo_accounts [AdminUnlink ''7'', RegenerateCode [(''654321'', 5)] ''7''] = (s', tr)
     \<and> map snd tr = [LinkNotLinked, CodeIssued ''654321'']
     \<and> count_where (\<lambda>e. line_linking_code e = Some ''654321'') (la_employees s') \<le> 1"
proof -
  have r: "map snd (snd (run link_step demo_accounts [AdminUnlink ''7'', RegenerateCode [(''654321'', 5)] ''7'']))
      = [LinkNotLinked, CodeIssued ''654321'']"
    by (simp add: demo_accounts_def demo_hire_def unlink_line_account_def regenerate_linking_code_def
        commit_employee_def)
  obtain s' tr where run: "run link_step demo_accounts [AdminUnlink ''7'', RegenerateCode [(''654321'', 5)] ''7''] = (s', tr)"
    by fastforce
  from link_accounts_exclusive [OF demo_accounts_ok run, of "''U1''" "''654321''"] r run
  show ?thesis by simp
qed

section \<open>A code links once\<close>

type_synonym link_try = "real \<times> real \<times> real \<times> dtime \<times> str \<times> (jwt_failure + session_claims)"

definition try_link :: "link_try \<Rightarrow> str \<Rightarrow> line_accounts \<Rightarrow> line_accounts \<times> str option" where
  "try_link t code s = (case t of (t1, t2, t3, now, ip, token) \<Rightarrow>
     (case link_account t1 t2 t3 now ip token code s of
        (s', out) \<Rightarrow> (s', case out of Linked b \<Rightarrow> Some b | _ \<Rightarrow> None)))"

definition code_spent :: "str \<Rightarrow> line_accounts \<Rightarrow> bool" where
  "code_spent code s \<longleftrightarrow> (\<forall>e \<in> set (la_employees s). line_linking_code e \<noteq> Some code)"

lemma wrong_code_rows:
  "wrong_code t2 t3 k code g emps = (g', emps') \<Longrightarrow> x \<in> set emps' \<Longrightarrow>
     x \<in> set emps \<or> line_linking_code x = None"
  by (auto simp: wrong_code_def same_badge_def without_code_def
      split: prod.splits if_splits option.splits)

lemma link_account_rows:
  assumes "link_account t1 t2 t3 now ip token code s = (s', out)" "x \<in> set (la_employees s')"
  shows "x \<in> set (la_employees s) \<or> line_linking_code x = None"
  using assms wrong_code_rows
  by (fastforce simp: link_account_def linked_row_def without_code_def Let_def
      split: sum.splits if_splits prod.splits option.splits dest!: commit_employee_Some)

lemma link_account_Linked_raw:
  assumes "link_account t1 t2 t3 now ip token code s = (s', Linked b)"
  shows "\<exists>e p g. token = Inr p \<and> truthy (sc_line_user_id p)
    \<and> enforce_link_rate_limit t1 (ip, or_else (sc_line_user_id p) []) (la_guard s) = (g, None)
    \<and> first (\<lambda>e. line_linking_code e = Some code \<and> is_active e) (la_employees s) = Some e
    \<and> badge_number e = b \<and> \<not> truthy (line_user_id e) \<and> \<not> code_expired_at now e
    \<and> commit_employee (linked_row p e) (la_employees s) = Some (la_employees s')"
  using assms
  by (auto simp: link_account_def Let_def split: sum.splits if_splits prod.splits option.splits)

lemma link_account_Linked:
  assumes "link_account t1 t2 t3 now ip token code s = (s', Linked b)"
  shows "\<exists>e p u. token = Inr p \<and> sc_line_user_id p = Some u \<and> u \<noteq> []
    \<and> e \<in> set (la_employees s) \<and> badge_number e = b \<and> is_active e \<and> line_linking_code e = Some code
    \<and> \<not> truthy (line_user_id e) \<and> \<not> code_expired_at now e
    \<and> (\<forall>x \<in> set (la_employees s). badge_number x \<noteq> b \<longrightarrow> line_user_id x \<noteq> Some u)
    \<and> la_employees s' = update_where (same_badge e) (\<lambda>_. linked_row p e) (la_employees s)"
proof -
  obtain e p where e: "token = Inr p" "truthy (sc_line_user_id p)"
      "first (\<lambda>e. line_linking_code e = Some code \<and> is_active e) (la_employees s) = Some e"
      "badge_number e = b" "\<not> truthy (line_user_id e)" "\<not> code_expired_at now e"
      "commit_employee (linked_row p e) (la_employees s) = Some (la_employees s')"
    using link_account_Linked_raw [OF assms] by blast
  obtain u where u: "sc_line_user_id p = Some u" "u \<noteq> []" using e(2) by (auto simp: truthy_iff)
  have sb: "same_badge (linked_row p e) = same_badge e"
    by (auto simp: fun_eq_iff same_badge_def linked_row_def without_code_def)
  have r: "line_user_id (linked_row p e) = Some u" "badge_number (linked_row p e) = b"
    using u e(4) by (simp_all add: linked_row_def without_code_def)
  show ?thesis
    by (rule exI [of _ e], rule exI [of _ p], rule exI [of _ u])
      (use e u r sb first_row [OF e(3)] commit_employee_Some [OF e(7)] in simp)
qed

interpretation code_once: one_shot try_link code_spent "\<lambda>s. accounts_ok (la_employees s)"
proof unfold_locales
  fix t k s s' r
  assume ok: "accounts_ok (la_employees s)" and t: "try_link t k s = (s', Some r)"
  obtain t1 t2 t3 now ip token where tt: "t = (t1, t2, t3, now, ip, token)" by (cases t)
  have "link_account t1 t2 t3 now ip token k s = (s', Linked r)"
    using t by (auto simp: try_link_def tt split: prod.splits link_outcome.splits)
  from link_account_Linked [OF this] obtain e p where e: "e \<in> set (la_employees s)"
      "line_linking_code e = Some k"
      "la_employees s' = update_where (same_badge e) (\<lambda>_. linked_row p e) (la_employees s)" by blast
  then show "code_spent k s'"
    using accounts_pair [OF ok e(1)]
    by (auto simp: code_spent_def same_badge_def linked_row_def without_code_def split: if_splits)
next
  fix t k s s' ro
  assume "code_spent k s" "try_link t k s = (s', ro)"
  then show "ro = None"
    by (auto simp: try_link_def code_spent_def split: prod.splits link_outcome.splits
        dest!: link_account_Linked)
next
  fix k s t k' s' ro
  assume "code_spent k s" "try_link t k' s = (s', ro)"
  then show "code_spent k s'"
    by (auto simp: try_link_def code_spent_def split: prod.splits dest: link_account_rows)
next
  fix s t k s' ro
  assume "accounts_ok (la_employees s)" "try_link t k s = (s', ro)"
  then show "accounts_ok (la_employees s')"
    by (auto simp: try_link_def split: prod.splits) (metis fst_conv link_account_ok)
qed

text \<open>
  A linking code works once: of any sequence of attempts by anyone, at most one with a
  given code succeeds. The one that does presents a verified LINE identity, and the code
  of an active employee without a LINE account, at most 24 hours old; it links exactly
  that employee to exactly that identity and leaves every other row alone.
\<close>

theorem linking_code_used_once:
  assumes ok: "accounts_ok (la_employees s)" and runs: "run (attempt try_link) s es = (s', tr)"
  shows "length (wins code tr) \<le> 1
    \<and> (\<forall>t1 t2 t3 now ip token b s2. link_account t1 t2 t3 now ip token code s = (s2, Linked b) \<longrightarrow>
        (\<exists>e p. e \<in> set (la_employees s) \<and> badge_number e = b \<and> is_active e
          \<and> line_linking_code e = Some code \<and> line_user_id e = None \<and> \<not> code_expired_at now e
          \<and> token = Inr p \<and> truthy (sc_line_user_id p)
          \<and> la_employees s2 = update_where (same_badge e) (\<lambda>_. linked_row p e) (la_employees s)))"
proof (intro conjI allI impI)
  show "length (wins code tr) \<le> 1" by (rule code_once.at_most_one_win [OF ok runs])
next
  fix t1 t2 t3 now ip token b s2
  assume "link_account t1 t2 t3 now ip token code s = (s2, Linked b)"
  from link_account_Linked [OF this] obtain e p u where e: "token = Inr p" "sc_line_user_id p = Some u"
      "u \<noteq> []" "e \<in> set (la_employees s)" "badge_number e = b" "is_active e"
      "line_linking_code e = Some code" "\<not> code_expired_at now e"
      "la_employees s2 = update_where (same_badge e) (\<lambda>_. linked_row p e) (la_employees s)" by blast
  moreover have "line_user_id e = None" using accounts_row [OF ok e(4)] e(7) by auto
  ultimately show "\<exists>e p. e \<in> set (la_employees s) \<and> badge_number e = b \<and> is_active e
      \<and> line_linking_code e = Some code \<and> line_user_id e = None \<and> \<not> code_expired_at now e
      \<and> token = Inr p \<and> truthy (sc_line_user_id p)
      \<and> la_employees s2 = update_where (same_badge e) (\<lambda>_. linked_row p e) (la_employees s)"
    by (intro exI [of _ e] exI [of _ p]) simp
qed

lemma demo_link:
  "link_account 1 1 1 5 ''ip'' (Inr demo_claims) ''123456'' demo_accounts
    = (\<lparr>la_guard = empty_guard, la_employees = [linked_row demo_claims demo_hire]\<rparr>, Linked ''7'')"
  by (simp add: link_account_def demo_claims_def demo_accounts_def empty_guard_def demo_hire_def
      enforce_link_rate_limit_def prune_link_rate_limit_state_def enforce_window_def sweep_def
      dead_keys_def code_expired_at_def commit_employee_def linked_row_def without_code_def
      clear_code_failures_def clear_link_failures_def update_where_def same_badge_def Let_def time_units)

theorem linking_code_used_once_witness:
  "\<exists>s' tr. run (attempt try_link) demo_accounts
      [((1, 1, 1, 5, ''ip'', Inr demo_claims), ''123456''), ((2, 2, 2, 6, ''ip'', Inr demo_claims), ''123456'')]
      = (s', tr)
    \<and> length (wins ''123456'' tr) = 1"
proof -
  obtain s' tr where r: "run (attempt try_link) demo_accounts
      [((1, 1, 1, 5, ''ip'', Inr demo_claims), ''123456''), ((2, 2, 2, 6, ''ip'', Inr demo_claims), ''123456'')]
      = (s', tr)" by fastforce
  from linking_code_used_once [OF demo_accounts_ok r, of "''123456''"] have "length (wins ''123456'' tr) \<le> 1"
    by blast
  moreover have "wins ''123456'' tr \<noteq> []"
    using r by (auto simp: attempt_def try_link_def demo_link split: prod.splits)
  ultimately have "length (wins ''123456'' tr) = 1" by (cases "wins ''123456'' tr") auto
  with r show ?thesis by blast
qed

text \<open>
  C40. Guessing never costs an employee their code: whatever fails, and however often, the row
  of every active employee stays as it is. The five-failures rule of \<open>link_account\<close> can only
  hit a code held by an inactive employee.
\<close>

theorem wrong_codes_never_invalidate:
  assumes ok: "accounts_ok (la_employees s)"
    and fail: "link_account t1 t2 t3 now ip token code s = (s', out)" "\<forall>b. out \<noteq> Linked b"
  shows "filter is_active (la_employees s') = filter is_active (la_employees s)"
proof -
  have strip: "filter is_active (update_where (same_badge e) (\<lambda>_. without_code e) emps)
      = filter is_active emps" if e: "\<not> is_active e" "\<forall>x \<in> set emps. same_badge e x \<longrightarrow> x = e" for e emps
    using e(2) by (induction emps)
      (use e(1) in \<open>auto simp: update_where_def without_code_def same_badge_def\<close>)
  have wrong: "filter is_active emps' = filter is_active (la_employees s)"
    if none: "first (\<lambda>e. line_linking_code e = Some code \<and> is_active e) (la_employees s) = None"
      and w: "wrong_code t2 t3 k code g (la_employees s) = (g', emps')" for k g g' emps'
  proof -
    have "\<not> is_active e \<and> (\<forall>x \<in> set (la_employees s). same_badge e x \<longrightarrow> x = e)"
      if "first (\<lambda>e. line_linking_code e = Some code) (la_employees s) = Some e" for e
    proof -
      have e: "e \<in> set (la_employees s)" "line_linking_code e = Some code"
        using first_row [OF that] by simp_all
      then have "\<not> is_active e" using none by (auto simp: first_None)
      moreover have "x = e" if "x \<in> set (la_employees s)" "same_badge e x" for x
        using that e(1) accounts_distinct [OF ok]
        by (auto simp: same_badge_def distinct_map inj_on_def)
      ultimately show ?thesis by blast
    qed
    then show ?thesis using w strip
      by (auto simp: wrong_code_def split: prod.splits if_splits option.splits)
  qed
  show ?thesis
    using fail wrong
    by (auto simp: link_account_def Let_def split: sum.splits if_splits prod.splits option.splits)
qed

theorem wrong_codes_never_invalidate_witness:
  "\<exists>s'. link_account 1 1 1 5 ''ip'' (Inr demo_claims) ''000000'' demo_accounts = (s', LinkBadCode)
     \<and> filter is_active (la_employees s') = [demo_hire]"
proof -
  have l: "snd (link_account 1 1 1 5 ''ip'' (Inr demo_claims) ''000000'' demo_accounts) = LinkBadCode"
    by (simp add: link_account_def demo_claims_def demo_accounts_def empty_guard_def demo_hire_def
      enforce_link_rate_limit_def prune_link_rate_limit_state_def enforce_window_def sweep_def
      dead_keys_def Let_def split: prod.split)
  then obtain s' where s': "link_account 1 1 1 5 ''ip'' (Inr demo_claims) ''000000'' demo_accounts
      = (s', LinkBadCode)" by (metis prod.collapse)
  have "filter is_active (la_employees s') = filter is_active (la_employees demo_accounts)"
    by (rule wrong_codes_never_invalidate [OF demo_accounts_ok s']) simp
  with s' show ?thesis by (simp add: demo_accounts_def demo_hire_def)
qed

section \<open>Guessing is slow\<close>

definition attempt_key :: "str \<Rightarrow> jwt_failure + session_claims \<Rightarrow> client" where
  "attempt_key ip token = (ip, case token of Inl e \<Rightarrow> [] | Inr p \<Rightarrow> or_else (sc_line_user_id p) [])"

text \<open>The clock readings of a history, and the times of one client's failures since its last link.\<close>

fun clocks :: "(link_event \<times> link_outcome) list \<Rightarrow> real list" where
  "clocks [] = []"
| "clocks ((LinkAccount t1 t2 t3 now ip token code, out) # h) = t1 # t2 # t3 # clocks h"
| "clocks (x # h) = clocks h"

definition note_attempt :: "client \<Rightarrow> link_event \<times> link_outcome \<Rightarrow> real list \<Rightarrow> real list" where
  "note_attempt key x ts = (case x of
     (LinkAccount t1 t2 t3 now ip token code, out) \<Rightarrow>
       if attempt_key ip token \<noteq> key then ts
       else (case out of Linked b \<Rightarrow> [] | LinkBadCode \<Rightarrow> ts @ [t2] | LinkCodeExpired \<Rightarrow> ts @ [t2]
             | LinkAlready \<Rightarrow> ts @ [t2] | _ \<Rightarrow> ts)
   | _ \<Rightarrow> ts)"

definition failures :: "client \<Rightarrow> (link_event \<times> link_outcome) list \<Rightarrow> real list" where
  "failures key h = fold (note_attempt key) h []"

lemma clocks_append [simp]: "clocks (h @ h') = clocks h @ clocks h'"
  by (induction h rule: clocks.induct) auto

lemma failures_snoc: "failures key (h @ [x]) = note_attempt key x (failures key h)"
  by (simp add: failures_def)

definition kept :: "client \<Rightarrow> link_guard \<Rightarrow> real list" where
  "kept key g = (case map_of (link_attempts g) key of None \<Rightarrow> [] | Some ts \<Rightarrow> ts)"

text \<open>What the store keeps of a client's failures: all but some that are five minutes old.\<close>

definition keeps :: "real \<Rightarrow> real list \<Rightarrow> real list \<Rightarrow> bool" where
  "keeps now fs ts \<longleftrightarrow> (\<exists>old. fs = old @ ts \<and> (\<forall>t \<in> set old. t \<le> now - LINK_ATTEMPT_RETENTION_SECONDS))"

lemma keeps_mono: "keeps t fs ts \<Longrightarrow> t \<le> t' \<Longrightarrow> keeps t' fs ts"
  by (force simp: keeps_def)

lemma keeps_nothing: "\<forall>t \<in> set fs. t \<le> now - LINK_ATTEMPT_RETENTION_SECONDS \<Longrightarrow> keeps now fs []"
  by (simp add: keeps_def)

lemma sorted_suffix:
  "sorted ts \<Longrightarrow> ts = filter (\<lambda>t. t \<le> c) ts @ filter (\<lambda>t. t > c) (ts :: real list)"
proof (induction ts)
  case (Cons t ts)
  show ?case
  proof (cases "t \<le> c")
    case True
    then show ?thesis using Cons by simp
  next
    case False
    then have "filter (\<lambda>x. x \<le> c) ts = []" "filter (\<lambda>x. x > c) ts = ts"
      using Cons.prems by (auto simp: filter_empty_conv filter_id_conv)
    then show ?thesis using False by simp
  qed
qed simp

lemma keeps_filter:
  assumes "keeps now fs ts" "sorted fs"
  shows "keeps now fs (filter (\<lambda>t. t > now - LINK_ATTEMPT_RETENTION_SECONDS) ts)"
proof -
  obtain old where old: "fs = old @ ts" "\<forall>t \<in> set old. t \<le> now - LINK_ATTEMPT_RETENTION_SECONDS"
    using assms(1) by (auto simp: keeps_def)
  have "sorted ts" using assms(2) old(1) by (simp add: sorted_append)
  from sorted_suffix [OF this, of "now - LINK_ATTEMPT_RETENTION_SECONDS"] old
  show ?thesis unfolding keeps_def
    by (intro exI [of _ "old @ filter (\<lambda>t. t \<le> now - LINK_ATTEMPT_RETENTION_SECONDS) ts"]) auto
qed

lemma keeps_window:
  assumes "keeps now fs ts"
  shows "filter (\<lambda>t. t > now - LINK_ATTEMPT_WINDOW_SECONDS) ts
    = filter (\<lambda>t. t > now - LINK_ATTEMPT_WINDOW_SECONDS) fs"
proof -
  obtain old where old: "fs = old @ ts" "\<forall>t \<in> set old. t \<le> now - LINK_ATTEMPT_RETENTION_SECONDS"
    using assms by (auto simp: keeps_def)
  have "filter (\<lambda>t. t > now - LINK_ATTEMPT_WINDOW_SECONDS) old = []"
    using old(2) by (force simp: filter_empty_conv link_limits)
  then show ?thesis by (simp add: old(1))
qed

text \<open>Of sorted failures, those after the \<open>i\<close>-th are at least as recent.\<close>

lemma sorted_count:
  assumes "sorted fs" "i < length fs" "fs ! i > (c :: real)"
  shows "length fs - i \<le> length (filter (\<lambda>t. t > c) fs)"
proof -
  have "t > c" if t: "t \<in> set (drop i fs)" for t
  proof -
    obtain j where j: "j < length fs - i" "t = fs ! (i + j)"
      using t by (auto simp: in_set_conv_nth)
    then have "fs ! i \<le> t" using assms(1,2) by (auto intro: sorted_nth_mono)
    then show ?thesis using assms(3) by simp
  qed
  then have "filter (\<lambda>t. t > c) (drop i fs) = drop i fs" by (simp add: filter_id_conv)
  then have "length (filter (\<lambda>t. t > c) (take i fs @ drop i fs)) \<ge> length (drop i fs)"
    by (simp only: filter_append length_append)
  then show ?thesis by simp
qed

definition spaced :: "real list \<Rightarrow> bool" where
  "spaced fs \<longleftrightarrow> (\<forall>i. i + 5 < length fs \<longrightarrow> fs ! i + 60 \<le> fs ! (i + 5))"

lemma spaced_snoc:
  assumes "spaced fs" "sorted fs" "\<forall>t \<in> set fs. t \<le> t1" "t1 \<le> t2"
    and few: "length (filter (\<lambda>t. t > t1 - LINK_ATTEMPT_WINDOW_SECONDS) fs) < 5"
  shows "spaced (fs @ [t2])"
  unfolding spaced_def
proof (intro allI impI)
  fix i assume i: "i + 5 < length (fs @ [t2])"
  show "(fs @ [t2]) ! i + 60 \<le> (fs @ [t2]) ! (i + 5)"
  proof (cases "i + 5 < length fs")
    case True
    then show ?thesis using assms(1) by (simp add: spaced_def nth_append)
  next
    case False
    then have l: "length fs = i + 5" using i by simp
    have "\<not> fs ! i > t1 - LINK_ATTEMPT_WINDOW_SECONDS"
    proof
      assume "fs ! i > t1 - LINK_ATTEMPT_WINDOW_SECONDS"
      from sorted_count [OF assms(2) _ this] l few show False by simp
    qed
    then show ?thesis using l assms(4) by (simp add: nth_append LINK_ATTEMPT_WINDOW_SECONDS_def)
  qed
qed

definition guard_ok :: "link_guard \<Rightarrow> bool" where
  "guard_ok g \<longleftrightarrow> dict_ok (link_attempts g) \<and> dict_ok (link_lockouts g) \<and> dict_ok (link_code_failures g)"

lemma prune_keeps:
  assumes "guard_ok g" "keeps now fs (kept k g)"
  shows "guard_ok (prune_link_rate_limit_state now g)
    \<and> keeps now fs (kept k (prune_link_rate_limit_state now g))"
proof -
  have "kept k (prune_link_rate_limit_state now g)
      = (if list_all (\<lambda>t. t \<le> now - LINK_ATTEMPT_RETENTION_SECONDS) (kept k g) then [] else kept k g)"
    using assms(1)
    by (auto simp: kept_def prune_link_rate_limit_state_def guard_ok_def map_of_sweep split: option.split)
  moreover have "keeps now fs []" if "list_all (\<lambda>t. t \<le> now - LINK_ATTEMPT_RETENTION_SECONDS) (kept k g)"
    using that assms(2) by (auto simp: keeps_def list_all_iff)
  ultimately show ?thesis
    using assms by (auto simp: guard_ok_def prune_link_rate_limit_state_def dict_simps)
qed

lemma window_keeps:
  assumes "guard_ok g" "sorted fs" "keeps now fs (kept k g)" "enforce_window now key g = (g', r)"
  shows "guard_ok g' \<and> keeps now fs (kept k g')
    \<and> (k = key \<longrightarrow> r = None \<longrightarrow> length (filter (\<lambda>t. t > now - LINK_ATTEMPT_WINDOW_SECONDS) fs) < 5)"
proof -
  define ts where "ts = filter (\<lambda>t. t > now - LINK_ATTEMPT_RETENTION_SECONDS) (kept key g)"
  have kf: "k = key \<Longrightarrow> keeps now fs ts" unfolding ts_def using keeps_filter assms(2,3) by blast
  have kept': "kept k g' = (if k = key then ts else kept k g)" and ok: "guard_ok g'"
    using assms(1,4)
    by (auto simp: enforce_window_def kept_def ts_def guard_ok_def dict_simps Let_def
        split: option.splits if_splits)
  have "length (filter (\<lambda>t. t > now - LINK_ATTEMPT_WINDOW_SECONDS) fs) < 5" if "k = key" "r = None"
  proof -
    have "ts = [] \<or> length (filter (\<lambda>t. t > now - LINK_ATTEMPT_WINDOW_SECONDS) ts) < 5"
      using assms(4) that(2)
      by (auto simp: enforce_window_def kept_def ts_def Let_def LINK_ATTEMPT_MAX_PER_WINDOW_def
          simp del: filter_filter split: option.splits if_splits)
    then have "length (filter (\<lambda>t. t > now - LINK_ATTEMPT_WINDOW_SECONDS) ts) < 5" by auto
    then show ?thesis using keeps_window [OF kf [OF that(1)]] by simp
  qed
  then show ?thesis using ok kept' kf assms(3) by auto
qed

lemma enforce_keeps:
  assumes "guard_ok g" "sorted fs" "keeps now fs (kept k g)" "enforce_link_rate_limit now key g = (g', r)"
  shows "guard_ok g' \<and> keeps now fs (kept k g')
    \<and> (k = key \<longrightarrow> r = None \<longrightarrow> length (filter (\<lambda>t. t > now - LINK_ATTEMPT_WINDOW_SECONDS) fs) < 5)"
proof -
  define g1 where "g1 = prune_link_rate_limit_state now g"
  define g2 where "g2 = g1\<lparr>link_lockouts := AList.delete key (link_lockouts g1)\<rparr>"
  have g1: "guard_ok g1" "keeps now fs (kept k g1)"
    using prune_keeps [OF assms(1,3)] by (simp_all add: g1_def)
  have g2: "guard_ok g2" "keeps now fs (kept k g2)"
    using g1 by (simp_all add: g2_def guard_ok_def kept_def dict_simps)
  from assms(4) consider "g' = g1" "r \<noteq> None" | "enforce_window now key g1 = (g', r)"
    | "enforce_window now key g2 = (g', r)"
    by (auto simp: enforce_link_rate_limit_def Let_def simp flip: g1_def
        split: option.splits if_splits) (auto simp: g2_def)
  then show ?thesis
    by cases (use g1 window_keeps [OF g1(1) assms(2) g1(2)] window_keeps [OF g2(1) assms(2) g2(2)] in auto)
qed

lemma record_keeps:
  assumes "guard_ok g" "sorted (fs @ [now])" "keeps now fs (kept k g)"
  shows "guard_ok (record_link_failure now key g)
    \<and> keeps now (if k = key then fs @ [now] else fs) (kept k (record_link_failure now key g))"
proof -
  have k: "kept k (record_link_failure now key g)
      = (if k = key then filter (\<lambda>t. t > now - LINK_ATTEMPT_RETENTION_SECONDS) (kept k g @ [now]) else kept k g)"
    by (auto simp: record_link_failure_def kept_def dict_simps Let_def)
  have "keeps now (fs @ [now]) (kept k g @ [now])" using assms(3) by (auto simp: keeps_def)
  from keeps_filter [OF this assms(2)] show ?thesis
    using assms(1,3) unfolding k
    by (auto simp: record_link_failure_def guard_ok_def dict_simps Let_def)
qed

lemma code_counters_keep [simp]:
  "kept k (fst (record_code_failure t c g)) = kept k g" "kept k (clear_code_failures c g) = kept k g"
  "guard_ok g \<Longrightarrow> guard_ok (fst (record_code_failure t c g))" "guard_ok g \<Longrightarrow> guard_ok (clear_code_failures c g)"
  by (simp_all add: record_code_failure_def clear_code_failures_def kept_def guard_ok_def dict_simps Let_def)

lemma clear_keeps [simp]:
  "kept k (clear_link_failures key g) = (if k = key then [] else kept k g)"
  "guard_ok g \<Longrightarrow> guard_ok (clear_link_failures key g)"
  by (simp_all add: clear_link_failures_def kept_def guard_ok_def dict_simps)

text \<open>One call seen from one client: refused, linked, or a failure.\<close>

lemma link_account_guard:
  assumes "link_account t1 t2 t3 now ip token code s = (s', out)"
  shows "la_guard s' = la_guard s \<and> out \<notin> {LinkBadCode, LinkCodeExpired, LinkAlready} \<and> (\<forall>b. out \<noteq> Linked b)
    \<or> (\<exists>g r. enforce_link_rate_limit t1 (attempt_key ip token) (la_guard s) = (g, r)
       \<and> ((la_guard s' = g \<and> out \<notin> {LinkBadCode, LinkCodeExpired, LinkAlready} \<and> (\<forall>b. out \<noteq> Linked b))
         \<or> (r = None \<and> (\<exists>b. out = Linked b)
              \<and> la_guard s' = clear_code_failures code (clear_link_failures (attempt_key ip token) g))
         \<or> (r = None \<and> out \<in> {LinkBadCode, LinkCodeExpired, LinkAlready}
              \<and> (\<forall>k. kept k (la_guard s') = kept k (record_link_failure t2 (attempt_key ip token) g))
              \<and> (guard_ok (record_link_failure t2 (attempt_key ip token) g) \<longrightarrow> guard_ok (la_guard s')))))"
proof -
  have w: "kept k g' = kept k (record_link_failure t2 key g)
      \<and> (guard_ok (record_link_failure t2 key g) \<longrightarrow> guard_ok g')"
    if "wrong_code t2 t3 key code g emps = (g', emps')" for key g emps g' emps' k
  proof -
    obtain g1 n where r: "record_code_failure t3 code (record_link_failure t2 key g) = (g1, n)" by fastforce
    have "kept k g1 = kept k (record_link_failure t2 key g)
        \<and> (guard_ok (record_link_failure t2 key g) \<longrightarrow> guard_ok g1)"
      using code_counters_keep(1) [of k t3 code "record_link_failure t2 key g"]
        code_counters_keep(3) [of "record_link_failure t2 key g" t3 code] r by auto
    moreover have "g' = g1 \<or> g' = clear_code_failures code g1"
      using that r by (auto simp: wrong_code_def split: if_splits)
    ultimately show ?thesis by auto
  qed
  show ?thesis
    using assms
    by (auto simp: link_account_def attempt_key_def Let_def
        split: sum.splits if_splits prod.splits option.splits dest: w)
qed

definition rate_inv :: "(link_event \<times> link_outcome) list \<Rightarrow> line_accounts \<Rightarrow> bool" where
  "rate_inv h s \<longleftrightarrow> (sorted (clocks h) \<longrightarrow> guard_ok (la_guard s)
     \<and> (\<forall>k. sorted (failures k h) \<and> set (failures k h) \<subseteq> set (clocks h) \<and> spaced (failures k h)
          \<and> (\<forall>now. (\<forall>c \<in> set (clocks h). c \<le> now) \<longrightarrow> keeps now (failures k h) (kept k (la_guard s)))))"

lemma rate_invD:
  assumes "rate_inv h s" "sorted (clocks h)"
  shows "guard_ok (la_guard s)" "sorted (failures k h)" "set (failures k h) \<subseteq> set (clocks h)"
    "spaced (failures k h)" "\<forall>c \<in> set (clocks h). c \<le> now \<Longrightarrow> keeps now (failures k h) (kept k (la_guard s))"
  using assms unfolding rate_inv_def by blast+

lemma other_step_guard:
  assumes "link_step s e = (s', out)" "\<forall>t1 t2 t3 now ip token code. e \<noteq> LinkAccount t1 t2 t3 now ip token code"
  shows "la_guard s' = la_guard s"
  using assms
  by (cases e) (auto simp: unlink_account_def generate_linking_code_def regenerate_linking_code_def
      unlink_line_account_def Let_def split: sum.splits option.splits if_splits)

lemma other_step_history:
  "\<forall>t1 t2 t3 now ip token code. e \<noteq> LinkAccount t1 t2 t3 now ip token code
   \<Longrightarrow> clocks [(e, out)] = [] \<and> note_attempt k (e, out) fs = fs"
  by (cases e) (auto simp: note_attempt_def)

lemma rate_link:
  assumes inv: "rate_inv h s" and step: "link_account t1 t2 t3 now ip token code s = (s', out)"
  shows "rate_inv (h @ [(LinkAccount t1 t2 t3 now ip token code, out)]) s'"
  unfolding rate_inv_def
proof (intro impI conjI allI)
  let ?x = "(LinkAccount t1 t2 t3 now ip token code, out)"
  assume sc: "sorted (clocks (h @ [?x]))"
  then have sh: "sorted (clocks h)" and le: "\<forall>c \<in> set (clocks h). c \<le> t1" "t1 \<le> t2" "t2 \<le> t3"
    by (auto simp: sorted_append)
  note I = rate_invD [OF inv sh]
  define key where "key = attempt_key ip token"
  have K: "keeps t1 (failures k h) (kept k (la_guard s))" for k using I(5) le(1) .
  have below: "\<forall>t \<in> set (failures k h). t \<le> t1" for k using I(3) [of k] le(1) by blast
  obtain g r where en: "enforce_link_rate_limit t1 key (la_guard s) = (g, r)" by fastforce
  note E = enforce_keeps [OF I(1) I(2) K en]
  define bad where "bad \<longleftrightarrow> out \<in> {LinkBadCode, LinkCodeExpired, LinkAlready}"
  define won where "won \<longleftrightarrow> (\<exists>b. out = Linked b)"
  have fs: "failures k (h @ [?x]) = (if k \<noteq> key then failures k h else if won then []
      else if bad then failures k h @ [t2] else failures k h)" for k
    by (cases out) (auto simp: failures_snoc note_attempt_def key_def bad_def won_def)
  have key_fs: "sorted (failures key h @ [t2])"
    using I(2) below [of key] le(2) by (auto simp: sorted_append)
  have rec: "keeps t2 (if k = key then failures key h @ [t2] else failures k h)
      (kept k (record_link_failure t2 key g)) \<and> guard_ok (record_link_failure t2 key g)" for k
  proof (cases "k = key")
    case True
    then show ?thesis
      using record_keeps [of g "failures key h" t2 key key] E [of key] key_fs le(2) keeps_mono by auto
  next
    case False
    have "sorted (failures k h @ [t2])" using I(2) below [of k] le(2) by (auto simp: sorted_append)
    then show ?thesis
      using record_keeps [of g "failures k h" t2 k key] E [of k] False le(2) keeps_mono by auto
  qed
  from link_account_guard [OF step] have "la_guard s' = la_guard s \<and> \<not> bad \<and> \<not> won
      \<or> la_guard s' = g \<and> \<not> bad \<and> \<not> won
      \<or> r = None \<and> won \<and> \<not> bad \<and> la_guard s' = clear_code_failures code (clear_link_failures key g)
      \<or> r = None \<and> bad \<and> \<not> won \<and> (\<forall>k. kept k (la_guard s') = kept k (record_link_failure t2 key g))
        \<and> (guard_ok (record_link_failure t2 key g) \<longrightarrow> guard_ok (la_guard s'))"
    using en unfolding bad_def won_def key_def by auto
  then have all: "guard_ok (la_guard s') \<and> spaced (failures k (h @ [?x]))
      \<and> keeps t2 (failures k (h @ [?x])) (kept k (la_guard s'))" for k
  proof (elim disjE conjE)
    assume "la_guard s' = la_guard s" "\<not> bad" "\<not> won"
    then show ?thesis using I K [of k] le(2) by (auto simp: fs intro: keeps_mono)
  next
    assume "la_guard s' = g" "\<not> bad" "\<not> won"
    then show ?thesis using I(4) E [of k] le(2) by (auto simp: fs intro: keeps_mono)
  next
    assume a: "won" "\<not> bad" "la_guard s' = clear_code_failures code (clear_link_failures key g)"
    have "keeps t2 [] []" "spaced []" by (simp_all add: keeps_def spaced_def)
    moreover have "keeps t2 (failures k h) (kept k g)" using E [of k] le(2) keeps_mono by blast
    ultimately show ?thesis using a I(4) E [of k] by (cases "k = key") (simp_all add: fs)
  next
    assume a: "r = None" "bad" "\<not> won" "\<forall>k. kept k (la_guard s') = kept k (record_link_failure t2 key g)"
      "guard_ok (record_link_failure t2 key g) \<longrightarrow> guard_ok (la_guard s')"
    have "spaced (failures key h @ [t2])"
      by (rule spaced_snoc [OF I(4) I(2) below le(2)]) (use E [of key] a(1) in simp)
    moreover have "kept k (la_guard s') = kept k (record_link_failure t2 key g)" using a(4) by blast
    ultimately show ?thesis using a(2,3,5) rec [of k] I(4) by (cases "k = key") (simp_all add: fs)
  qed
  show "guard_ok (la_guard s')" using all by blast
  fix k
  show "spaced (failures k (h @ [?x]))" using all by blast
  show "sorted (failures k (h @ [?x]))" using I(2) key_fs by (auto simp: fs)
  show "set (failures k (h @ [?x])) \<subseteq> set (clocks (h @ [?x]))"
    using I(3) [of k] by (auto simp: fs)
  fix T assume "\<forall>c \<in> set (clocks (h @ [?x])). c \<le> T"
  then have "t2 \<le> T" by simp
  then show "keeps T (failures k (h @ [?x])) (kept k (la_guard s'))" using all keeps_mono by blast
qed

lemma rate_step: "rate_inv h s \<Longrightarrow> link_step s e = (s', out) \<Longrightarrow> rate_inv (h @ [(e, out)]) s'"
proof (cases "\<exists>t1 t2 t3 now ip token code. e = LinkAccount t1 t2 t3 now ip token code")
  case True
  assume "rate_inv h s" "link_step s e = (s', out)"
  with True show ?thesis by (auto intro: rate_link)
next
  case False
  assume "rate_inv h s" "link_step s e = (s', out)"
  with False other_step_guard [of s e s' out] other_step_history [of e out] show ?thesis
    by (simp add: rate_inv_def failures_snoc del: split_paired_All)
qed

interpretation guessing: traced_machine link_step rate_inv
  by unfold_locales (rule rate_step)



end
