(* ===== verification/Oidc.thy ===== *)
theory Oidc
  imports LineAuth Tables
begin

text \<open>
  HF ID, the identity provider: \<open>app/services/oidc_service.py\<close> and the endpoints of
  \<open>app/api/oidc.py\<close>. The in-memory stores are dictionaries, every reading of \<open>time.time()\<close> and
  every random token an argument. What the RSA, SHA-256, JWT and Base64 libraries compute
  is the record \<open>oidc_lib\<close>. The text of the status pages is left out.
\<close>

section \<open>Types\<close>

record auth_request =
  rq_client_id :: str
  rq_redirect_uri :: str
  rq_scope :: str
  rq_state :: "str option"
  rq_nonce :: "str option"
  rq_code_challenge :: "str option"
  rq_code_challenge_method :: "str option"

datatype authorize_failure =
    AuthorizeError str
  | AuthorizeRedirectError str str str "str option"

record identity =
  id_badge :: str
  id_email :: str
  id_name :: str
  id_apps :: "str list"

record code_record =
  cr_client_id :: str
  cr_redirect_uri :: str
  cr_code_challenge :: "str option"
  cr_nonce :: "str option"
  cr_identity :: identity
  cr_expires_at :: real
  cr_used :: bool

record key_material =
  km_kid :: str
  km_n :: str
  km_e :: str
  km_pem :: str

record id_claims =
  ic_iss :: str
  ic_sub :: str
  ic_aud :: str
  ic_iat :: int
  ic_exp :: int
  ic_identity :: identity
  ic_nonce :: "str option"

text \<open>
  \<open>ol_parse_pem\<close>: the modulus, the exponent and the PKCS8 text of an RSA key, None when the
  text does not parse or is another kind of key. \<open>ol_basic\<close>: Base64 and UTF-8 decoding.
\<close>

record oidc_lib =
  ol_parse_pem :: "str \<Rightarrow> (nat \<times> nat \<times> str) option"
  ol_sha256 :: "nat list \<Rightarrow> nat list"
  ol_sign :: "id_claims \<Rightarrow> str \<Rightarrow> str \<Rightarrow> str"
  ol_basic :: "str \<Rightarrow> str option"
  ol_unquote :: "str \<Rightarrow> str"
  ol_jwt :: jwt_lib
  ol_line :: line_config

record oidc_state =
  os_tickets :: "(str, auth_request \<times> real) dict"
  os_codes :: "(str, code_record) dict"
  os_tokens :: "(str, identity \<times> real) dict"
  os_keys :: "(str, key_material) dict"

definition empty_oidc :: oidc_state where
  "empty_oidc = \<lparr>os_tickets = [], os_codes = [], os_tokens = [], os_keys = []\<rparr>"

definition AUTHORIZATION_CODE_TTL_SECONDS :: real where "AUTHORIZATION_CODE_TTL_SECONDS = 60"
definition LOGIN_TICKET_TTL_SECONDS :: real where "LOGIN_TICKET_TTL_SECONDS = 600"
definition ID_TOKEN_TTL_SECONDS :: int where "ID_TOKEN_TTL_SECONDS = 300"
definition ACCESS_TOKEN_TTL_SECONDS :: real where "ACCESS_TOKEN_TTL_SECONDS = 300"

lemmas oidc_ttls = AUTHORIZATION_CODE_TTL_SECONDS_def LOGIN_TICKET_TTL_SECONDS_def
  ID_TOKEN_TTL_SECONDS_def ACCESS_TOKEN_TTL_SECONDS_def

definition DEFAULT_ISSUER :: str where "DEFAULT_ISSUER = ''https://id.thehfhotel.org/oidc''"
definition DEFAULT_REDIRECT_URI :: str where
  "DEFAULT_REDIRECT_URI = ''https://laikaexpress.cloudflareaccess.com/cdn-cgi/access/callback''"
definition SYNTHETIC_EMAIL_DOMAIN :: str where "SYNTHETIC_EMAIL_DOMAIN = ''emp.thehfhotel.org''"

section \<open>Configuration\<close>

definition get_issuer :: "env \<Rightarrow> str" where
  "get_issuer env = (let i = rstrip_char (CHR ''/'') (strip (getenv env ''HFID_ISSUER'' []))
     in if i = [] then DEFAULT_ISSUER else i)"

definition get_client_id :: "env \<Rightarrow> str" where
  "get_client_id env = strip (getenv env ''HFID_CLIENT_ID'' [])"

definition get_client_secret :: "env \<Rightarrow> str" where
  "get_client_secret env = getenv env ''HFID_CLIENT_SECRET'' []"

definition get_allowed_redirect_uris :: "env \<Rightarrow> str list" where
  "get_allowed_redirect_uris env =
     (let raw = strip (getenv env ''HFID_REDIRECT_URIS'' []) in
      if raw = [] then [DEFAULT_REDIRECT_URI]
      else filter (\<lambda>u. u \<noteq> []) (map strip (split_on (CHR '','') raw)))"

definition get_endpoints :: "env \<Rightarrow> (str \<times> str) list" where
  "get_endpoints env = (let i = get_issuer env in
     [(''issuer'', i), (''authorization_endpoint'', i @ ''/authorize''),
      (''token_endpoint'', i @ ''/token''), (''jwks_uri'', i @ ''/jwks''),
      (''userinfo_endpoint'', i @ ''/userinfo'')])"

section \<open>The signing key\<close>

definition b64_char :: "nat \<Rightarrow> char" where
  "b64_char n = (if n < 26 then char_of (65 + n) else if n < 52 then char_of (71 + n)
     else if n < 62 then char_of (n - 4) else if n = 62 then CHR ''-'' else CHR ''_'')"

text \<open>Unpadded base64url.\<close>

fun b64url :: "nat list \<Rightarrow> str" where
  "b64url [] = []"
| "b64url [a] = [b64_char (a div 4), b64_char (a mod 4 * 16)]"
| "b64url [a, b] = [b64_char (a div 4), b64_char (a mod 4 * 16 + b div 16), b64_char (b mod 16 * 4)]"
| "b64url (a # b # c # s) =
     [b64_char (a div 4), b64_char (a mod 4 * 16 + b div 16), b64_char (b mod 16 * 4 + c div 64),
      b64_char (c mod 64)] @ b64url s"

fun be_bytes :: "nat \<Rightarrow> nat list" where
  "be_bytes n = (if n < 256 then [n] else be_bytes (n div 256) @ [n mod 256])"

declare be_bytes.simps [simp del]

definition base64url_uint :: "nat \<Rightarrow> str" where
  "base64url_uint n = b64url (be_bytes n)"

definition text_bytes :: "str \<Rightarrow> nat list" where
  "text_bytes s = map of_char s"

definition compute_kid :: "(nat list \<Rightarrow> nat list) \<Rightarrow> str \<Rightarrow> str \<Rightarrow> str" where
  "compute_kid sha n e = b64url (sha (text_bytes
     (''{'' @ [CHR 0x22] @ ''e'' @ [CHR 0x22] @ '':'' @ [CHR 0x22] @ e @ [CHR 0x22] @ '',''
        @ [CHR 0x22] @ ''kty'' @ [CHR 0x22] @ '':'' @ [CHR 0x22] @ ''RSA'' @ [CHR 0x22] @ '',''
        @ [CHR 0x22] @ ''n'' @ [CHR 0x22] @ '':'' @ [CHR 0x22] @ n @ [CHR 0x22] @ ''}'')))"

definition raw_signing_key :: "env \<Rightarrow> str" where
  "raw_signing_key env = strip (getenv env ''HFID_SIGNING_KEY'' [])"

definition material_of :: "oidc_lib \<Rightarrow> str \<Rightarrow> key_material option" where
  "material_of lib normalized = map_option (\<lambda>(n, e, pem).
     \<lparr>km_kid = compute_kid (ol_sha256 lib) (base64url_uint n) (base64url_uint e),
      km_n = base64url_uint n, km_e = base64url_uint e, km_pem = pem\<rparr>) (ol_parse_pem lib normalized)"

definition load_key_material :: "oidc_lib \<Rightarrow> env \<Rightarrow> oidc_state \<Rightarrow> oidc_state \<times> key_material option" where
  "load_key_material lib env s =
     (let raw = raw_signing_key env in
      if raw = [] then (s, None)
      else
        let normalized = replace_pair (CHR 0x5C) (CHR ''n'') [CHR 0x0A] raw in
        case map_of (os_keys s) normalized of
          Some m \<Rightarrow> (s, Some m)
        | None \<Rightarrow> (case material_of lib normalized of
              None \<Rightarrow> (s, None)
            | Some m \<Rightarrow> (s\<lparr>os_keys := AList.update normalized m (os_keys s)\<rparr>, Some m)))"

section \<open>Authorization requests\<close>

record authorize_params =
  ap_client_id :: "str option"
  ap_redirect_uri :: "str option"
  ap_response_type :: "str option"
  ap_scope :: "str option"
  ap_state :: "str option"
  ap_nonce :: "str option"
  ap_code_challenge :: "str option"
  ap_code_challenge_method :: "str option"

definition none_if_empty :: "str option \<Rightarrow> str option" where
  "none_if_empty s = (if truthy s then s else None)"

definition validate_authorization_request ::
  "env \<Rightarrow> authorize_params \<Rightarrow> authorize_failure + auth_request" where
  "validate_authorization_request env p =
     (if get_client_id env = [] \<or> ap_client_id p \<noteq> Some (get_client_id env)
      then Inl (AuthorizeError ''unknown client_id'')
      else if \<not> truthy (ap_redirect_uri p)
        \<or> or_else (ap_redirect_uri p) [] \<notin> set (get_allowed_redirect_uris env)
      then Inl (AuthorizeError ''redirect_uri is not registered'')
      else
        let uri = or_else (ap_redirect_uri p) [];
            bounce = (\<lambda>err d. Inl (AuthorizeRedirectError err d uri (ap_state p)))
        in if ap_response_type p \<noteq> Some ''code''
           then bounce ''unsupported_response_type'' ''only response_type=code is supported''
           else if ''openid'' \<notin> set (words (or_else (ap_scope p) []))
           then bounce ''invalid_scope'' ''the openid scope is required''
           else if truthy (ap_code_challenge p) \<and> ap_code_challenge_method p \<noteq> Some ''S256''
           then bounce ''invalid_request'' ''code_challenge_method must be S256''
           else if truthy (ap_code_challenge_method p) \<and> \<not> truthy (ap_code_challenge p)
           then bounce ''invalid_request'' ''code_challenge_method requires code_challenge''
           else Inr \<lparr>rq_client_id = get_client_id env, rq_redirect_uri = uri,
             rq_scope = or_else (ap_scope p) ''openid'', rq_state = ap_state p, rq_nonce = ap_nonce p,
             rq_code_challenge = none_if_empty (ap_code_challenge p),
             rq_code_challenge_method = none_if_empty (ap_code_challenge_method p)\<rparr>)"

section \<open>Stores\<close>

definition prune_expired_locked :: "real \<Rightarrow> oidc_state \<Rightarrow> oidc_state" where
  "prune_expired_locked now s =
     s\<lparr>os_tickets := sweep (\<lambda>(r, x). x \<le> now) (os_tickets s),
       os_codes := sweep (\<lambda>r. cr_expires_at r \<le> now) (os_codes s),
       os_tokens := sweep (\<lambda>(i, x). x \<le> now) (os_tokens s)\<rparr>"

definition create_login_ticket :: "real \<Rightarrow> str \<Rightarrow> auth_request \<Rightarrow> oidc_state \<Rightarrow> oidc_state" where
  "create_login_ticket now tid rq s =
     (let s1 = prune_expired_locked now s in
      s1\<lparr>os_tickets := AList.update tid (rq, now + LOGIN_TICKET_TTL_SECONDS) (os_tickets s1)\<rparr>)"

definition consume_login_ticket :: "real \<Rightarrow> str \<Rightarrow> oidc_state \<Rightarrow> oidc_state \<times> auth_request option" where
  "consume_login_ticket now tid s =
     (s\<lparr>os_tickets := AList.delete tid (os_tickets s)\<rparr>,
      case map_of (os_tickets s) tid of
        None \<Rightarrow> None
      | Some (rq, x) \<Rightarrow> if x \<le> now then None else Some rq)"

definition issue_authorization_code ::
  "real \<Rightarrow> str \<Rightarrow> auth_request \<Rightarrow> identity \<Rightarrow> oidc_state \<Rightarrow> oidc_state" where
  "issue_authorization_code now code rq i s =
     (let s1 = prune_expired_locked now s in
      s1\<lparr>os_codes := AList.update code
        \<lparr>cr_client_id = rq_client_id rq, cr_redirect_uri = rq_redirect_uri rq,
         cr_code_challenge = rq_code_challenge rq, cr_nonce = rq_nonce rq, cr_identity = i,
         cr_expires_at = now + AUTHORIZATION_CODE_TTL_SECONDS, cr_used = False\<rparr> (os_codes s1)\<rparr>)"

definition consume_authorization_code :: "real \<Rightarrow> str \<Rightarrow> oidc_state \<Rightarrow> oidc_state \<times> code_record option" where
  "consume_authorization_code now code s =
     (case map_of (os_codes s) code of
        None \<Rightarrow> (s, None)
      | Some r \<Rightarrow>
          if cr_used r \<or> cr_expires_at r \<le> now then (s, None)
          else (s\<lparr>os_codes := AList.update code (r\<lparr>cr_used := True\<rparr>) (os_codes s)\<rparr>,
                Some (r\<lparr>cr_used := True\<rparr>)))"

definition issue_access_token :: "real \<Rightarrow> str \<Rightarrow> identity \<Rightarrow> oidc_state \<Rightarrow> oidc_state" where
  "issue_access_token now tok i s =
     (let s1 = prune_expired_locked now s in
      s1\<lparr>os_tokens := AList.update tok (i, now + ACCESS_TOKEN_TTL_SECONDS) (os_tokens s1)\<rparr>)"

definition lookup_access_token :: "real \<Rightarrow> str \<Rightarrow> oidc_state \<Rightarrow> identity option" where
  "lookup_access_token now tok s =
     (case map_of (os_tokens s) tok of
        None \<Rightarrow> None
      | Some (i, x) \<Rightarrow> if x \<le> now then None else Some i)"

definition reset_oidc :: "oidc_state \<Rightarrow> oidc_state" where
  "reset_oidc s = empty_oidc"

section \<open>Proofs of possession\<close>

definition verify_pkce_s256 :: "oidc_lib \<Rightarrow> str option \<Rightarrow> str option \<Rightarrow> exn + bool" where
  "verify_pkce_s256 lib verifier challenge =
     (if \<not> truthy verifier \<or> \<not> truthy challenge then Inr False
      else if \<not> ascii (or_else verifier []) then Inr False
      else compare_digest (b64url (ol_sha256 lib (text_bytes (or_else verifier []))))
             (or_else challenge []))"

definition authenticate_client :: "env \<Rightarrow> str option \<Rightarrow> str option \<Rightarrow> exn + bool" where
  "authenticate_client env cid secret =
     (if get_client_id env = [] \<or> get_client_secret env = [] then Inr False
      else case (cid, secret) of
        (Some i, Some k) \<Rightarrow>
          (case compare_digest i (get_client_id env) of
             Inr True \<Rightarrow> compare_digest k (get_client_secret env)
           | r \<Rightarrow> r)
      | _ \<Rightarrow> Inr False)"

definition synthetic_email_for_badge :: "str \<Rightarrow> str" where
  "synthetic_email_for_badge b = lower b @ ''@'' @ SYNTHETIC_EMAIL_DOMAIN"

text \<open>\<open>mint_id_token\<close>: the claims, and their signature with the loaded key.\<close>

definition claims_for :: "env \<Rightarrow> real \<Rightarrow> identity \<Rightarrow> str option \<Rightarrow> str \<Rightarrow> id_claims" where
  "claims_for env now i nonce aud =
     \<lparr>ic_iss = get_issuer env, ic_sub = id_badge i, ic_aud = aud, ic_iat = \<lfloor>now\<rfloor>,
      ic_exp = \<lfloor>now\<rfloor> + ID_TOKEN_TTL_SECONDS, ic_identity = i, ic_nonce = none_if_empty nonce\<rparr>"

definition mint_id_token ::
  "oidc_lib \<Rightarrow> env \<Rightarrow> real \<Rightarrow> identity \<Rightarrow> str option \<Rightarrow> str \<Rightarrow> oidc_state \<Rightarrow> oidc_state \<times> str option" where
  "mint_id_token lib env now i nonce aud s =
     (case load_key_material lib env s of
        (s1, None) \<Rightarrow> (s1, None)
      | (s1, Some m) \<Rightarrow> (s1, Some (ol_sign lib (claims_for env now i nonce aud) (km_pem m) (km_kid m))))"

section \<open>Endpoints\<close>

text \<open>
  \<open>ErrorPage\<close> is a status page, \<open>TokenError\<close> the JSON error of the token endpoint with its
  status, \<open>ServerError\<close> an uncaught exception (HTTP 500).
\<close>

datatype oidc_response =
    OidcNotFound | ErrorPage nat | RedirectTo str
  | TokenError str nat | TokensIssued str str | Claims identity | OidcUnauthorized | ServerError
  | Discovery "(str \<times> str) list" | Jwks "key_material list"

definition is_oidc_enabled :: "oidc_lib \<Rightarrow> env \<Rightarrow> oidc_state \<Rightarrow> oidc_state \<times> bool" where
  "is_oidc_enabled lib env s = (case load_key_material lib env s of (s1, m) \<Rightarrow> (s1, m \<noteq> None))"

text \<open>\<open>_require_enabled\<close> in front of an endpoint.\<close>

definition when_enabled ::
  "oidc_lib \<Rightarrow> env \<Rightarrow> (oidc_state \<Rightarrow> oidc_state \<times> oidc_response) \<Rightarrow> oidc_state \<Rightarrow> oidc_state \<times> oidc_response"
  where
  "when_enabled lib env f s =
     (case is_oidc_enabled lib env s of (s1, on) \<Rightarrow> if on then f s1 else (s1, OidcNotFound))"

definition openid_configuration :: "oidc_lib \<Rightarrow> env \<Rightarrow> oidc_state \<Rightarrow> oidc_state \<times> oidc_response" where
  "openid_configuration lib env = when_enabled lib env (\<lambda>s. (s, Discovery (get_endpoints env)))"

definition jwks :: "oidc_lib \<Rightarrow> env \<Rightarrow> oidc_state \<Rightarrow> oidc_state \<times> oidc_response" where
  "jwks lib env = when_enabled lib env (\<lambda>s. case load_key_material lib env s of
     (s1, m) \<Rightarrow> (s1, Jwks (case m of None \<Rightarrow> [] | Some k \<Rightarrow> [k])))"

definition redirect_with_error :: "str \<Rightarrow> str \<Rightarrow> str \<Rightarrow> str option \<Rightarrow> oidc_response" where
  "redirect_with_error err desc uri st = RedirectTo (with_query uri
     ([(''error'', err), (''error_description'', desc)]
      @ (case st of None \<Rightarrow> [] | Some x \<Rightarrow> [(''state'', x)])))"

definition LINE_LOGIN_PATH :: str where "LINE_LOGIN_PATH = ''/api/public/auth/line/login''"
definition ONBOARD_PATH :: str where "ONBOARD_PATH = ''/qr-checkin/onboard''"

definition authorize_enabled ::
  "env \<Rightarrow> real \<Rightarrow> str \<Rightarrow> authorize_params \<Rightarrow> oidc_state \<Rightarrow> oidc_state \<times> oidc_response" where
  "authorize_enabled env now tid p s =
     (case validate_authorization_request env p of
        Inl (AuthorizeError m) \<Rightarrow> (s, ErrorPage 400)
      | Inl (AuthorizeRedirectError err d uri st) \<Rightarrow> (s, redirect_with_error err d uri st)
      | Inr rq \<Rightarrow> (create_login_ticket now tid rq s,
          RedirectTo (LINE_LOGIN_PATH @ ''?redirect='' @ quote (''oidc:'' @ tid))))"

definition authorize ::
  "oidc_lib \<Rightarrow> env \<Rightarrow> real \<Rightarrow> str \<Rightarrow> authorize_params \<Rightarrow> oidc_state \<Rightarrow> oidc_state \<times> oidc_response" where
  "authorize lib env now tid p = when_enabled lib env (authorize_enabled env now tid p)"

definition identity_of :: "employee \<Rightarrow> employee_app_grant list \<Rightarrow> identity" where
  "identity_of e grants = \<lparr>id_badge = badge_number e, id_email = synthetic_email_for_badge (badge_number e),
     id_name = display_name e,
     id_apps = map eg_app_id (sort_key eg_app_id (filter (\<lambda>g. eg_badge g = badge_number e) grants))\<rparr>"

definition code_redirect :: "auth_request \<Rightarrow> str \<Rightarrow> str" where
  "code_redirect rq code = with_query (rq_redirect_uri rq)
     ((''code'', code) # (case rq_state rq of None \<Rightarrow> [] | Some x \<Rightarrow> [(''state'', x)]))"

text \<open>
  \<open>continue_oidc_after_line\<close>: \<open>now\<close> is read when the ticket is consumed, \<open>now'\<close> when the code
  is stored or the onboarding token is made; the employee and grant tables are those of
  the moment.
\<close>

definition continue_oidc_after_line ::
  "oidc_lib \<Rightarrow> real \<Rightarrow> real \<Rightarrow> str \<Rightarrow> str \<Rightarrow> str \<Rightarrow> str option \<Rightarrow> str option
   \<Rightarrow> employee list \<Rightarrow> employee_app_grant list \<Rightarrow> oidc_state \<Rightarrow> oidc_state \<times> oidc_response" where
  "continue_oidc_after_line lib now now' code tid user name picture emps grants s =
     (case consume_login_ticket now tid s of
        (s1, None) \<Rightarrow> (s1, ErrorPage 400)
      | (s1, Some rq) \<Rightarrow>
          (case first (\<lambda>e. line_user_id e = Some user) emps of
             None \<Rightarrow> (s1, RedirectTo (ONBOARD_PATH @ ''?''
               @ onboarding_continuation_query (ol_jwt lib) (ol_line lib) now' user name picture))
           | Some e \<Rightarrow>
               if pending_approval e \<or> \<not> is_active e then (s1, ErrorPage 403)
               else (issue_authorization_code now' code rq (identity_of e grants) s1,
                     RedirectTo (code_redirect rq code))))"

definition parse_basic_client_auth :: "oidc_lib \<Rightarrow> str option \<Rightarrow> str option \<times> str option" where
  "parse_basic_client_auth lib h =
     (if \<not> truthy h then (None, None)
      else case split_once (or_else h []) of
        [scheme, rest] \<Rightarrow>
          if lower scheme \<noteq> ''basic'' then (None, None)
          else (case ol_basic lib (strip rest) of
              None \<Rightarrow> (None, None)
            | Some d \<Rightarrow>
                (case partition_at (CHR '':'') d of
                   (u, True, k) \<Rightarrow> (Some (ol_unquote lib u), Some (ol_unquote lib k))
                 | _ \<Rightarrow> (None, None)))
      | _ \<Rightarrow> (None, None))"

record token_form =
  tf_grant_type :: "str option"
  tf_code :: "str option"
  tf_redirect_uri :: "str option"
  tf_code_verifier :: "str option"
  tf_client_id :: "str option"
  tf_client_secret :: "str option"
  tf_authorization :: "str option"

definition presented_client :: "oidc_lib \<Rightarrow> token_form \<Rightarrow> str option \<times> str option" where
  "presented_client lib f =
     (case parse_basic_client_auth lib (tf_authorization f) of
        (u, k) \<Rightarrow> (if u \<noteq> None then u else tf_client_id f,
                   if k \<noteq> None then k else tf_client_secret f))"

text \<open>The checks after the code is consumed; None: mint.\<close>

definition check_binding ::
  "oidc_lib \<Rightarrow> token_form \<Rightarrow> str option \<Rightarrow> code_record \<Rightarrow> oidc_response option" where
  "check_binding lib f cid r =
     (case cid of
        None \<Rightarrow> Some (TokenError ''invalid_grant'' 400)
      | Some c \<Rightarrow>
          (case compare_digest (cr_client_id r) c of
             Inl e \<Rightarrow> Some ServerError
           | Inr False \<Rightarrow> Some (TokenError ''invalid_grant'' 400)
           | Inr True \<Rightarrow>
               if tf_redirect_uri f \<noteq> Some (cr_redirect_uri r)
               then Some (TokenError ''invalid_grant'' 400)
               else if truthy (cr_code_challenge r) then
                 (if \<not> truthy (tf_code_verifier f) then Some (TokenError ''invalid_request'' 400)
                  else (case verify_pkce_s256 lib (tf_code_verifier f) (cr_code_challenge r) of
                      Inl e \<Rightarrow> Some ServerError
                    | Inr False \<Rightarrow> Some (TokenError ''invalid_grant'' 400)
                    | Inr True \<Rightarrow> None))
               else if truthy (tf_code_verifier f) then Some (TokenError ''invalid_grant'' 400)
               else None))"

definition token_enabled ::
  "oidc_lib \<Rightarrow> env \<Rightarrow> real \<Rightarrow> real \<Rightarrow> real \<Rightarrow> str \<Rightarrow> token_form \<Rightarrow> oidc_state \<Rightarrow> oidc_state \<times> oidc_response"
  where
  "token_enabled lib env t1 t2 t3 access f s =
     (case presented_client lib f of (cid, secret) \<Rightarrow>
        (case authenticate_client env cid secret of
           Inl e \<Rightarrow> (s, ServerError)
         | Inr False \<Rightarrow> (s, TokenError ''invalid_client'' 401)
         | Inr True \<Rightarrow>
             if tf_grant_type f \<noteq> Some ''authorization_code''
             then (s, TokenError ''unsupported_grant_type'' 400)
             else if \<not> truthy (tf_code f) then (s, TokenError ''invalid_request'' 400)
             else (case consume_authorization_code t1 (or_else (tf_code f) []) s of
                 (s1, None) \<Rightarrow> (s1, TokenError ''invalid_grant'' 400)
               | (s1, Some r) \<Rightarrow>
                   (case check_binding lib f cid r of
                      Some err \<Rightarrow> (s1, err)
                    | None \<Rightarrow>
                        (case mint_id_token lib env t2 (cr_identity r) (cr_nonce r) (cr_client_id r) s1 of
                           (s2, None) \<Rightarrow> (s2, ServerError)
                         | (s2, Some idt) \<Rightarrow>
                             (issue_access_token t3 access (cr_identity r) s2, TokensIssued idt access))))))"

definition token_endpoint ::
  "oidc_lib \<Rightarrow> env \<Rightarrow> real \<Rightarrow> real \<Rightarrow> real \<Rightarrow> str \<Rightarrow> token_form \<Rightarrow> oidc_state \<Rightarrow> oidc_state \<times> oidc_response"
  where
  "token_endpoint lib env t1 t2 t3 access f = when_enabled lib env (token_enabled lib env t1 t2 t3 access f)"

definition userinfo_enabled :: "real \<Rightarrow> str option \<Rightarrow> oidc_state \<Rightarrow> oidc_state \<times> oidc_response" where
  "userinfo_enabled now h s =
     (case bearer_token h of
        None \<Rightarrow> (s, OidcUnauthorized)
      | Some tok \<Rightarrow> (case lookup_access_token now tok s of
            None \<Rightarrow> (s, OidcUnauthorized) | Some i \<Rightarrow> (s, Claims i)))"

definition userinfo :: "oidc_lib \<Rightarrow> env \<Rightarrow> real \<Rightarrow> str option \<Rightarrow> oidc_state \<Rightarrow> oidc_state \<times> oidc_response" where
  "userinfo lib env now h = when_enabled lib env (userinfo_enabled now h)"

section \<open>The provider as a machine\<close>

datatype oidc_event =
    Authorize env real str authorize_params
  | LineReturn real real str str str "str option" "str option" "employee list" "employee_app_grant list"
  | Token env real real real str token_form
  | Userinfo env real "str option"

fun oidc_step :: "oidc_lib \<Rightarrow> oidc_state \<Rightarrow> oidc_event \<Rightarrow> oidc_state \<times> oidc_response" where
  "oidc_step lib s (Authorize env t tid p) = authorize lib env t tid p s"
| "oidc_step lib s (LineReturn t t' code tid user name picture emps grants) =
     continue_oidc_after_line lib t t' code tid user name picture emps grants s"
| "oidc_step lib s (Token env t1 t2 t3 access f) = token_endpoint lib env t1 t2 t3 access f s"
| "oidc_step lib s (Userinfo env t h) = userinfo lib env t h s"

lemma load_stores:
  assumes "load_key_material lib env s = (s', m)"
  shows "os_tickets s' = os_tickets s" "os_codes s' = os_codes s" "os_tokens s' = os_tokens s"
  using assms by (auto simp: load_key_material_def Let_def split: if_splits option.splits)

lemma when_enabled_cases:
  assumes "when_enabled lib env f s = (s', out)"
  obtains "out = OidcNotFound" "os_tickets s' = os_tickets s" "os_codes s' = os_codes s"
      "os_tokens s' = os_tokens s"
    | s1 where "f s1 = (s', out)" "os_tickets s1 = os_tickets s" "os_codes s1 = os_codes s"
      "os_tokens s1 = os_tokens s"
  using assms load_stores [of lib env s]
  by (auto simp: when_enabled_def is_oidc_enabled_def split: prod.splits if_splits)

end
