(* ===== verification/OidcTokens.thy ===== *)
theory OidcTokens
  imports Oidc
begin

text \<open>
  What HF ID guarantees, over the machine of \<open>Oidc\<close>: where a token comes from, that a login
  completes, that a code is redeemed once and where it redirects. The properties are
  invariants of a state together with its history (\<open>traced_machine\<close>).
\<close>

section \<open>Where a token comes from\<close>

type_synonym oidc_trace = "(oidc_event \<times> oidc_response) list"

text \<open>
  \<open>asked h tid t rq\<close>: a valid request put \<open>rq\<close> on ticket \<open>tid\<close> at \<open>t\<close>. \<open>admitted h code t rq e i\<close>:
  a LINE login in time for such a ticket identified the active, approved employee \<open>e\<close>, and
  \<open>code\<close> was issued for them at \<open>t\<close>.
\<close>

definition asked :: "oidc_trace \<Rightarrow> str \<Rightarrow> real \<Rightarrow> auth_request \<Rightarrow> bool" where
  "asked h tid t rq \<longleftrightarrow> (\<exists>env p out. (Authorize env t tid p, out) \<in> set h
     \<and> validate_authorization_request env p = Inr rq)"

definition admitted :: "oidc_trace \<Rightarrow> str \<Rightarrow> real \<Rightarrow> auth_request \<Rightarrow> employee \<Rightarrow> identity \<Rightarrow> bool" where
  "admitted h code t rq e i \<longleftrightarrow> (\<exists>t1 tid t0 user name pic emps grants.
     (LineReturn t1 t code tid user name pic emps grants, RedirectTo (code_redirect rq code)) \<in> set h
     \<and> asked h tid t0 rq \<and> t1 < t0 + 600
     \<and> first (\<lambda>e. line_user_id e = Some user) emps = Some e \<and> is_active e \<and> \<not> pending_approval e
     \<and> i = identity_of e grants)"

lemma asked_mono: "asked h tid t rq \<Longrightarrow> asked (h @ h') tid t rq"
  by (force simp: asked_def)

lemma admitted_mono: "admitted h code t rq e i \<Longrightarrow> admitted (h @ h') code t rq e i"
  unfolding admitted_def by (metis Un_iff asked_mono set_append)

definition code_ok :: "oidc_trace \<Rightarrow> str \<Rightarrow> code_record \<Rightarrow> bool" where
  "code_ok h code r \<longleftrightarrow> (\<exists>t rq e. admitted h code t rq e (cr_identity r)
     \<and> cr_client_id r = rq_client_id rq \<and> cr_redirect_uri r = rq_redirect_uri rq
     \<and> cr_code_challenge r = rq_code_challenge rq \<and> cr_nonce r = rq_nonce rq
     \<and> cr_expires_at r = t + 60)"

definition token_ok :: "oidc_trace \<Rightarrow> str \<Rightarrow> identity \<times> real \<Rightarrow> bool" where
  "token_ok h tok v \<longleftrightarrow> (\<exists>env t1 t2 t3 f idt code t rq e.
     (Token env t1 t2 t3 tok f, TokensIssued idt tok) \<in> set h \<and> tf_code f = Some code
     \<and> admitted h code t rq e (fst v) \<and> snd v = t3 + 300)"

definition provenance :: "oidc_trace \<Rightarrow> oidc_state \<Rightarrow> bool" where
  "provenance h s \<longleftrightarrow> dict_ok (os_tickets s) \<and> dict_ok (os_codes s) \<and> dict_ok (os_tokens s)
     \<and> (\<forall>tid rq x. map_of (os_tickets s) tid = Some (rq, x) \<longrightarrow> asked h tid (x - 600) rq)
     \<and> (\<forall>code r. map_of (os_codes s) code = Some r \<longrightarrow> code_ok h code r)
     \<and> (\<forall>tok v. map_of (os_tokens s) tok = Some v \<longrightarrow> token_ok h tok v)"

lemma code_ok_mono: "code_ok h code r \<Longrightarrow> code_ok (h @ h') code r"
  unfolding code_ok_def using admitted_mono by blast

lemma code_ok_used [simp]: "code_ok h code (r\<lparr>cr_used := u\<rparr>) = code_ok h code r"
  by (simp add: code_ok_def)

lemma token_ok_mono: "token_ok h tok v \<Longrightarrow> token_ok (h @ h') tok v"
  unfolding token_ok_def using admitted_mono by (metis Un_iff set_append)

lemma provenance_mono:
  assumes "provenance h s" "os_tickets s' = os_tickets s" "os_codes s' = os_codes s" "os_tokens s' = os_tokens s"
  shows "provenance (h @ h') s'"
  using assms asked_mono code_ok_mono token_ok_mono unfolding provenance_def by metis

lemma sweep_Some: "dict_ok d \<Longrightarrow> map_of (sweep dead d) k = Some v \<Longrightarrow> map_of d k = Some v"
  by (auto simp: map_of_sweep split: option.splits if_splits)

lemma provenance_prune: "provenance h s \<Longrightarrow> provenance h (prune_expired_locked now s)"
  unfolding provenance_def prune_expired_locked_def
  by (auto simp: dict_simps dest!: sweep_Some) (auto simp: map_of_sweep split: option.splits if_splits)+

text \<open>Each store operation keeps the invariant, given what its caller knows.\<close>

lemma create_ticket_provenance:
  "provenance h s \<Longrightarrow> asked h tid now rq \<Longrightarrow> provenance h (create_login_ticket now tid rq s)"
  using provenance_prune [of h s now]
  by (auto simp: create_login_ticket_def provenance_def dict_simps oidc_ttls Let_def)

lemma consume_ticket_provenance:
  assumes "provenance h s" "consume_login_ticket now tid s = (s', r)"
  shows "provenance h s'" "r = Some rq \<Longrightarrow> \<exists>t. asked h tid t rq \<and> now < t + 600"
proof -
  show "provenance h s'"
    using assms by (auto simp: consume_login_ticket_def provenance_def dict_simps split: if_splits)
  assume "r = Some rq"
  then obtain x where x: "map_of (os_tickets s) tid = Some (rq, x)" "now < x"
    using assms(2) by (auto simp: consume_login_ticket_def split: option.splits if_splits prod.splits)
  then have "asked h tid (x - 600) rq" using assms(1) by (simp add: provenance_def)
  with x(2) show "\<exists>t. asked h tid t rq \<and> now < t + 600" by (intro exI [of _ "x - 600"]) simp
qed

lemma issue_code_provenance:
  "provenance h s \<Longrightarrow> admitted h code now rq e i \<Longrightarrow> provenance h (issue_authorization_code now code rq i s)"
  using provenance_prune [of h s now]
  by (auto simp: issue_authorization_code_def provenance_def dict_simps oidc_ttls Let_def code_ok_def)

lemma consume_code_provenance:
  assumes "provenance h s" "consume_authorization_code now code s = (s', r)"
  shows "provenance h s'" "r = Some c \<Longrightarrow> code_ok h code c \<and> now < cr_expires_at c"
  using assms
  by (auto simp: consume_authorization_code_def provenance_def dict_simps split: option.splits if_splits)

lemma issue_token_provenance:
  "provenance h s \<Longrightarrow> token_ok h tok (i, now + 300) \<Longrightarrow> provenance h (issue_access_token now tok i s)"
  using provenance_prune [of h s now]
  by (auto simp: issue_access_token_def provenance_def dict_simps oidc_ttls Let_def)

lemma mint_stores:
  assumes "mint_id_token lib env now i nonce aud s = (s', r)"
  shows "os_tickets s' = os_tickets s" "os_codes s' = os_codes s" "os_tokens s' = os_tokens s"
  using assms load_stores [of lib env s]
  by (auto simp: mint_id_token_def split: prod.splits option.splits)

lemma mint_signed:
  "mint_id_token lib env now i nonce aud s = (s', Some idt)
   \<Longrightarrow> \<exists>pem kid. idt = ol_sign lib (claims_for env now i nonce aud) pem kid"
  by (auto simp: mint_id_token_def split: prod.splits option.splits)

text \<open>What a token answer proves about the form and the consumed code.\<close>

lemma check_binding_None:
  assumes "check_binding lib f cid r = None"
  shows "cid = Some (cr_client_id r)" "tf_redirect_uri f = Some (cr_redirect_uri r)"
    "if truthy (cr_code_challenge r)
     then \<exists>v. tf_code_verifier f = Some v \<and> ascii v \<and> cr_code_challenge r = Some (b64url (ol_sha256 lib (text_bytes v)))
     else \<not> truthy (tf_code_verifier f)"
  using assms
  by (auto simp: check_binding_def verify_pkce_s256_def truthy_iff or_else_def
      split: option.splits sum.splits bool.splits if_splits)

lemma check_binding_error: "check_binding lib f cid r \<noteq> Some (TokensIssued idt tok)"
  by (auto simp: check_binding_def split: option.splits sum.splits bool.splits if_splits)

lemma token_success:
  assumes "token_endpoint lib env t1 t2 t3 access f s = (s', TokensIssued idt tok)"
  shows "\<exists>s0 s1 s2 r code. os_tickets s0 = os_tickets s \<and> os_codes s0 = os_codes s \<and> os_tokens s0 = os_tokens s
    \<and> authenticate_client env (fst (presented_client lib f)) (snd (presented_client lib f)) = Inr True
    \<and> tf_grant_type f = Some ''authorization_code'' \<and> tf_code f = Some code
    \<and> consume_authorization_code t1 code s0 = (s1, Some r)
    \<and> check_binding lib f (fst (presented_client lib f)) r = None
    \<and> mint_id_token lib env t2 (cr_identity r) (cr_nonce r) (cr_client_id r) s1 = (s2, Some idt)
    \<and> s' = issue_access_token t3 access (cr_identity r) s2 \<and> tok = access"
  using assms unfolding token_endpoint_def
proof (cases rule: when_enabled_cases)
  case (2 s0)
  obtain cid secret where pc: "presented_client lib f = (cid, secret)" by fastforce
  have e: "\<exists>s1 s2 r. authenticate_client env cid secret = Inr True
      \<and> tf_grant_type f = Some ''authorization_code'' \<and> truthy (tf_code f)
      \<and> consume_authorization_code t1 (or_else (tf_code f) []) s0 = (s1, Some r)
      \<and> check_binding lib f cid r = None
      \<and> mint_id_token lib env t2 (cr_identity r) (cr_nonce r) (cr_client_id r) s1 = (s2, Some idt)
      \<and> s' = issue_access_token t3 access (cr_identity r) s2 \<and> tok = access"
  proof -
    obtain b where b: "authenticate_client env cid secret = Inr b"
      using 2(1) [unfolded token_enabled_def] pc by (cases "authenticate_client env cid secret") auto
    then have b: "authenticate_client env cid secret = Inr True" using 2(1) [unfolded token_enabled_def] pc by (cases b) auto
    then have g: "tf_grant_type f = Some ''authorization_code''" "truthy (tf_code f)"
      using 2(1) [unfolded token_enabled_def] pc by (auto split: if_splits)
    obtain s1 r where c: "consume_authorization_code t1 (or_else (tf_code f) []) s0 = (s1, Some r)"
      using 2(1) [unfolded token_enabled_def] pc b g by (auto split: prod.splits option.splits)
    have k: "check_binding lib f cid r = None"
      using 2(1) [unfolded token_enabled_def] pc b g c check_binding_error [of lib f cid r idt tok] by (auto split: option.splits)
    obtain s2 t where m: "mint_id_token lib env t2 (cr_identity r) (cr_nonce r) (cr_client_id r) s1 = (s2, Some t)"
      using 2(1) [unfolded token_enabled_def] pc b g c k by (auto split: prod.splits option.splits)
    show ?thesis
      by (rule exI [of _ s1], rule exI [of _ s2], rule exI [of _ r]) (use 2(1) [unfolded token_enabled_def] pc b g c k m in auto)
  qed
  have c: "truthy (tf_code f) \<Longrightarrow> tf_code f = Some (or_else (tf_code f) [])"
    by (auto simp: truthy_iff)
  from e c 2(2-4) pc show ?thesis by (metis fst_conv snd_conv)
qed simp

text \<open>Every event keeps the invariant.\<close>

lemma authorize_provenance:
  assumes "provenance h s" "authorize lib env t tid p s = (s', out)"
  shows "provenance (h @ [(Authorize env t tid p, out)]) s'"
  using assms(2) unfolding authorize_def
proof (cases rule: when_enabled_cases)
  case 1
  then show ?thesis using provenance_mono [OF assms(1)] by blast
next
  case (2 s1)
  have p1: "provenance (h @ [(Authorize env t tid p, out)]) s1"
    using 2 provenance_mono [OF assms(1)] by blast
  show ?thesis
  proof (cases "validate_authorization_request env p")
    case (Inl x)
    then show ?thesis using 2(1) p1 by (auto simp: authorize_enabled_def split: authorize_failure.splits)
  next
    case (Inr rq)
    have "asked (h @ [(Authorize env t tid p, out)]) tid t rq" using Inr by (auto simp: asked_def)
    from create_ticket_provenance [OF p1 this] show ?thesis
      using 2(1) Inr by (auto simp: authorize_enabled_def)
  qed
qed

lemma line_return_provenance:
  assumes "provenance h s" "continue_oidc_after_line lib t t' code tid user name pic emps grants s = (s', out)"
  shows "provenance (h @ [(LineReturn t t' code tid user name pic emps grants, out)]) s'"
proof -
  obtain s1 r where c: "consume_login_ticket t tid s = (s1, r)" by fastforce
  let ?x = "(LineReturn t t' code tid user name pic emps grants, out)"
  have p1: "provenance (h @ [?x]) s1"
    using consume_ticket_provenance(1) [OF assms(1) c] provenance_mono by blast
  show ?thesis
  proof (cases "\<exists>rq e. r = Some rq \<and> first (\<lambda>e. line_user_id e = Some user) emps = Some e
      \<and> is_active e \<and> \<not> pending_approval e")
    case True
    then obtain rq e where e: "r = Some rq" "first (\<lambda>e. line_user_id e = Some user) emps = Some e"
      "is_active e" "\<not> pending_approval e" by blast
    have out: "out = RedirectTo (code_redirect rq code)"
      "s' = issue_authorization_code t' code rq (identity_of e grants) s1"
      using assms(2) c e by (auto simp: continue_oidc_after_line_def)
    obtain t0 where t0: "asked h tid t0 rq" "t < t0 + 600"
      using consume_ticket_provenance(2) [OF assms(1) c e(1)] by blast
    have "admitted (h @ [?x]) code t' rq e (identity_of e grants)"
      unfolding admitted_def
      by (rule exI [of _ t], rule exI [of _ tid], rule exI [of _ t0], rule exI [of _ user],
          rule exI [of _ name], rule exI [of _ pic], rule exI [of _ emps], rule exI [of _ grants])
        (use e out t0 asked_mono in auto)
    from issue_code_provenance [OF p1 this] show ?thesis by (simp add: out(2))
  next
    case False
    then have "s' = s1" using assms(2) c
      by (auto simp: continue_oidc_after_line_def split: option.splits if_splits)
    then show ?thesis using p1 by simp
  qed
qed

lemma token_failure_provenance:
  assumes "provenance h s" "token_endpoint lib env t1 t2 t3 access f s = (s', out)"
    "\<forall>idt tok. out \<noteq> TokensIssued idt tok"
  shows "provenance h s'"
  using assms(2) unfolding token_endpoint_def
proof (cases rule: when_enabled_cases)
  case 1
  then show ?thesis using provenance_mono [OF assms(1), of s' "[]"] by simp
next
  case (2 s0)
  have p0: "provenance h s0" using 2 provenance_mono [OF assms(1), of s0 "[]"] by simp
  have mint: "provenance h s2" if "consume_authorization_code t1 c s0 = (s1, r)"
      "mint_id_token lib env t2 i n a s1 = (s2, x)" for c s1 r i n a s2 x
    using provenance_mono [OF consume_code_provenance(1) [OF p0 that(1)], of s2 "[]"] mint_stores [OF that(2)]
    by simp
  show ?thesis
    using 2(1) assms(3) p0 consume_code_provenance(1) [OF p0] mint
    by (auto simp: token_enabled_def split: prod.splits sum.splits bool.splits if_splits option.splits)
qed

lemma token_provenance:
  assumes "provenance h s" "token_endpoint lib env t1 t2 t3 access f s = (s', out)"
  shows "provenance (h @ [(Token env t1 t2 t3 access f, out)]) s'"
proof (cases "\<exists>idt tok. out = TokensIssued idt tok")
  case False
  then show ?thesis using token_failure_provenance [OF assms] provenance_mono by blast
next
  case True
  then obtain idt tok where out: "out = TokensIssued idt tok" by blast
  from token_success [OF assms(2) [unfolded out]] obtain s0 s1 s2 r code where
    st: "os_tickets s0 = os_tickets s" "os_codes s0 = os_codes s" "os_tokens s0 = os_tokens s"
    and f: "tf_code f = Some code" and c: "consume_authorization_code t1 code s0 = (s1, Some r)"
    and m: "mint_id_token lib env t2 (cr_identity r) (cr_nonce r) (cr_client_id r) s1 = (s2, Some idt)"
    and s': "s' = issue_access_token t3 access (cr_identity r) s2" and tok: "tok = access" by blast
  let ?h = "h @ [(Token env t1 t2 t3 access f, out)]"
  have p0: "provenance h s0" using st provenance_mono [OF assms(1), of s0 "[]"] by simp
  have p2: "provenance ?h s2"
    using provenance_mono [OF consume_code_provenance(1) [OF p0 c]] mint_stores [OF m] by blast
  have "code_ok h code r" using consume_code_provenance(2) [OF p0 c] by blast
  then obtain t rq e where "admitted h code t rq e (cr_identity r)" by (auto simp: code_ok_def)
  then have "admitted ?h code t rq e (cr_identity r)" by (rule admitted_mono)
  then have "token_ok ?h access (cr_identity r, t3 + 300)"
    unfolding token_ok_def using f out tok by (metis fst_conv snd_conv in_set_conv_decomp)
  from issue_token_provenance [OF p2 this] show ?thesis by (simp add: s')
qed

lemma userinfo_stores:
  assumes "userinfo lib env t b s = (s', out)"
  shows "os_tickets s' = os_tickets s \<and> os_codes s' = os_codes s \<and> os_tokens s' = os_tokens s
    \<and> (\<forall>i. out = Claims i \<longrightarrow> (\<exists>tok. bearer_token b = Some tok \<and> lookup_access_token t tok s = Some i))"
  using assms unfolding userinfo_def
proof (cases rule: when_enabled_cases)
  case (2 s1)
  have "lookup_access_token t tok s1 = lookup_access_token t tok s" for tok
    using 2 by (simp add: lookup_access_token_def)
  then show ?thesis using 2 by (auto simp: userinfo_enabled_def split: option.splits)
qed simp

lemma oidc_provenance:
  assumes "provenance h s" "oidc_step lib s e = (s', out)"
  shows "provenance (h @ [(e, out)]) s'"
proof (cases e)
  case (Userinfo env t b)
  then show ?thesis using userinfo_stores [of lib env t b s s' out] assms provenance_mono by simp
qed (use assms authorize_provenance line_return_provenance token_provenance in auto)

interpretation hfid: traced_machine "oidc_step lib" provenance for lib
  by unfold_locales (rule oidc_provenance)

lemma provenance_empty: "provenance [] empty_oidc"
  by (simp add: provenance_def empty_oidc_def)

lemma provenance_token:
  assumes prov: "provenance h s"
    and tok: "oidc_step lib s (Token env t1 t2 t3 access f) = (s', TokensIssued idt tok)"
  shows "\<exists>code t rq e i pem kid. tf_code f = Some code \<and> admitted h code t rq e i \<and> t1 < t + 60
    \<and> is_active e \<and> \<not> pending_approval e \<and> id_badge i = badge_number e
    \<and> id_email i = lower (badge_number e) @ ''@emp.thehfhotel.org''
    \<and> (\<exists>secret. presented_client lib f = (Some (rq_client_id rq), secret)
         \<and> authenticate_client env (Some (rq_client_id rq)) secret = Inr True)
    \<and> tf_redirect_uri f = Some (rq_redirect_uri rq)
    \<and> (if truthy (rq_code_challenge rq)
       then \<exists>v. tf_code_verifier f = Some v \<and> rq_code_challenge rq = Some (b64url (ol_sha256 lib (text_bytes v)))
       else \<not> truthy (tf_code_verifier f))
    \<and> idt = ol_sign lib (claims_for env t2 i (rq_nonce rq) (rq_client_id rq)) pem kid"
proof -
  from token_success [of lib env t1 t2 t3 access f s s' idt tok] tok obtain s0 s1 s2 r code where
    st: "os_tickets s0 = os_tickets s" "os_codes s0 = os_codes s" "os_tokens s0 = os_tokens s"
    and au: "authenticate_client env (fst (presented_client lib f)) (snd (presented_client lib f)) = Inr True"
    and f: "tf_code f = Some code" and c: "consume_authorization_code t1 code s0 = (s1, Some r)"
    and b: "check_binding lib f (fst (presented_client lib f)) r = None"
    and m: "mint_id_token lib env t2 (cr_identity r) (cr_nonce r) (cr_client_id r) s1 = (s2, Some idt)"
    by auto
  have p0: "provenance h s0" using st provenance_mono [OF prov, of s0 "[]"] by simp
  from consume_code_provenance(2) [OF p0 c] obtain t rq e where
    adm: "admitted h code t rq e (cr_identity r)" and exp: "t1 < t + 60"
    and r: "cr_client_id r = rq_client_id rq" "cr_redirect_uri r = rq_redirect_uri rq"
      "cr_code_challenge r = rq_code_challenge rq" "cr_nonce r = rq_nonce rq"
    unfolding code_ok_def by metis
  obtain pem kid where k: "idt = ol_sign lib (claims_for env t2 (cr_identity r) (cr_nonce r) (cr_client_id r)) pem kid"
    using mint_signed [OF m] by blast
  have e: "is_active e" "\<not> pending_approval e" "id_badge (cr_identity r) = badge_number e"
    "id_email (cr_identity r) = lower (badge_number e) @ ''@emp.thehfhotel.org''"
    using adm by (auto simp: admitted_def identity_of_def synthetic_email_for_badge_def
        SYNTHETIC_EMAIL_DOMAIN_def)
  note B = check_binding_None [OF b]
  have pc: "presented_client lib f = (Some (rq_client_id rq), snd (presented_client lib f))"
    using B(1) r(1) by (metis prod.collapse)
  have au': "authenticate_client env (Some (rq_client_id rq)) (snd (presented_client lib f)) = Inr True"
    using au B(1) r(1) by simp
  have sec: "\<exists>secret. presented_client lib f = (Some (rq_client_id rq), secret)
      \<and> authenticate_client env (Some (rq_client_id rq)) secret = Inr True"
    using pc au' by blast
  have pkce: "if truthy (rq_code_challenge rq)
       then \<exists>v. tf_code_verifier f = Some v \<and> rq_code_challenge rq = Some (b64url (ol_sha256 lib (text_bytes v)))
       else \<not> truthy (tf_code_verifier f)"
    using B(3) unfolding r(3) by (auto split: if_splits)
  have uri: "tf_redirect_uri f = Some (rq_redirect_uri rq)" using B(2) r(2) by simp
  have idt: "idt = ol_sign lib (claims_for env t2 (cr_identity r) (rq_nonce rq) (rq_client_id rq)) pem kid"
    using k r by simp
  show ?thesis
    by (rule exI [of _ code], rule exI [of _ t], rule exI [of _ rq], rule exI [of _ e],
        rule exI [of _ "cr_identity r"], rule exI [of _ pem], rule exI [of _ kid])
      (intro conjI f adm exp e sec uri pkce idt)
qed

text \<open>
  C14. Only an approved employee gets in, and only as themselves. When the token endpoint
  issues tokens, then in the past a valid authorization request of this very client was
  followed within ten minutes by a LINE login of an active, approved employee, whose code,
  at most a minute old, is the one presented; the client is authenticated and repeats the
  redirect address; a code challenge of the request is answered by its verifier, and without
  one no verifier is sent. The signed claims name that employee, and the badge's synthetic
  address, to that client.
\<close>

theorem tokens_only_for_approved_employees:
  assumes run: "run (oidc_step lib) empty_oidc es = (s, h)"
    and tok: "oidc_step lib s (Token env t1 t2 t3 access f) = (s', TokensIssued idt tok)"
  shows "\<exists>code t rq e i pem kid. tf_code f = Some code \<and> admitted h code t rq e i \<and> t1 < t + 60
    \<and> is_active e \<and> \<not> pending_approval e \<and> id_badge i = badge_number e
    \<and> id_email i = lower (badge_number e) @ ''@emp.thehfhotel.org''
    \<and> (\<exists>secret. presented_client lib f = (Some (rq_client_id rq), secret)
         \<and> authenticate_client env (Some (rq_client_id rq)) secret = Inr True)
    \<and> tf_redirect_uri f = Some (rq_redirect_uri rq)
    \<and> (if truthy (rq_code_challenge rq)
       then \<exists>v. tf_code_verifier f = Some v \<and> rq_code_challenge rq = Some (b64url (ol_sha256 lib (text_bytes v)))
       else \<not> truthy (tf_code_verifier f))
    \<and> idt = ol_sign lib (claims_for env t2 i (rq_nonce rq) (rq_client_id rq)) pem kid"
proof -
  have "provenance h s" using hfid.hinv_run [OF provenance_empty run] by simp
  from this tok show ?thesis by (rule provenance_token)
qed

section \<open>The login completes\<close>

definition key_ready :: "oidc_lib \<Rightarrow> env \<Rightarrow> bool" where
  "key_ready lib env \<longleftrightarrow> raw_signing_key env \<noteq> []
     \<and> material_of lib (replace_pair (CHR 0x5C) (CHR ''n'') [CHR 0x0A] (raw_signing_key env)) \<noteq> None"

lemma key_ready_load: "key_ready lib env \<Longrightarrow> \<exists>s' m. load_key_material lib env s = (s', Some m)"
  by (auto simp: key_ready_def load_key_material_def Let_def split: option.split)

lemma key_ready_enabled:
  assumes "key_ready lib env"
  obtains s1 where "when_enabled lib env f s = f s1" "os_tickets s1 = os_tickets s"
    "os_codes s1 = os_codes s" "os_tokens s1 = os_tokens s"
proof -
  obtain s1 m where l: "load_key_material lib env s = (s1, Some m)" using key_ready_load [OF assms] by blast
  show thesis
    by (rule that [of s1]) (use l load_stores [OF l] in \<open>simp_all add: when_enabled_def is_oidc_enabled_def\<close>)
qed

definition stores_ok :: "oidc_state \<Rightarrow> bool" where
  "stores_ok s \<longleftrightarrow> dict_ok (os_tickets s) \<and> dict_ok (os_codes s) \<and> dict_ok (os_tokens s)"

definition fresh_code :: "auth_request \<Rightarrow> identity \<Rightarrow> real \<Rightarrow> code_record" where
  "fresh_code rq i t = \<lparr>cr_client_id = rq_client_id rq, cr_redirect_uri = rq_redirect_uri rq,
     cr_code_challenge = rq_code_challenge rq, cr_nonce = rq_nonce rq, cr_identity = i,
     cr_expires_at = t + 60, cr_used = False\<rparr>"

lemma authorize_completes:
  assumes "key_ready lib env" "stores_ok s" "validate_authorization_request env p = Inr rq"
  shows "\<exists>s'. authorize lib env t tid p s = (s', RedirectTo (LINE_LOGIN_PATH @ ''?redirect='' @ quote (''oidc:'' @ tid)))
    \<and> stores_ok s' \<and> map_of (os_tickets s') tid = Some (rq, t + 600)"
proof -
  obtain s1 where s1: "authorize lib env t tid p s = authorize_enabled env t tid p s1"
    "os_tickets s1 = os_tickets s" "os_codes s1 = os_codes s" "os_tokens s1 = os_tokens s"
    unfolding authorize_def by (rule key_ready_enabled [OF assms(1)])
  then show ?thesis using assms(2,3)
    by (simp add: authorize_enabled_def create_login_ticket_def prune_expired_locked_def stores_ok_def
        dict_simps oidc_ttls Let_def)
qed

lemma line_return_completes:
  assumes "stores_ok s" "map_of (os_tickets s) tid = Some (rq, x)" "t < x"
    "first (\<lambda>e. line_user_id e = Some user) emps = Some e" "is_active e" "\<not> pending_approval e"
  shows "\<exists>s'. continue_oidc_after_line lib t t' code tid user name pic emps grants s
      = (s', RedirectTo (code_redirect rq code)) \<and> stores_ok s'
    \<and> map_of (os_codes s') code = Some (fresh_code rq (identity_of e grants) t')"
  using assms
  by (auto simp: continue_oidc_after_line_def consume_login_ticket_def issue_authorization_code_def
      prune_expired_locked_def stores_ok_def dict_simps oidc_ttls Let_def fresh_code_def)

lemma authenticate_ascii:
  "authenticate_client env (Some c) k = Inr True \<Longrightarrow> ascii c \<and> c = get_client_id env"
  by (auto simp: authenticate_client_def split: option.splits if_splits sum.splits bool.splits)

lemma token_completes:
  assumes "key_ready lib env" "stores_ok s" "map_of (os_codes s) code = Some (fresh_code rq i t)" "t1 < t + 60"
    and f: "presented_client lib f = (Some (rq_client_id rq), secret)"
      "authenticate_client env (Some (rq_client_id rq)) secret = Inr True"
      "tf_grant_type f = Some ''authorization_code''" "tf_code f = Some code" "code \<noteq> []"
      "tf_redirect_uri f = Some (rq_redirect_uri rq)"
      "if truthy (rq_code_challenge rq)
       then verify_pkce_s256 lib (tf_code_verifier f) (rq_code_challenge rq) = Inr True
       else \<not> truthy (tf_code_verifier f)"
  shows "\<exists>s' idt. token_endpoint lib env t1 t2 t3 access f s = (s', TokensIssued idt access)
    \<and> map_of (os_tokens s') access = Some (i, t3 + 300)"
proof -
  define r where "r = (fresh_code rq i t)\<lparr>cr_used := True\<rparr>"
  have v: "verify_pkce_s256 lib (tf_code_verifier f) c = Inr True \<Longrightarrow> truthy (tf_code_verifier f)" for c
    by (auto simp: verify_pkce_s256_def split: if_splits)
  have b: "check_binding lib f (Some (rq_client_id rq)) r = None"
    using f authenticate_ascii [OF f(2)] v
    by (simp add: check_binding_def r_def fresh_code_def compare_digest_def split: if_splits)
  have body: "\<exists>s' idt. token_enabled lib env t1 t2 t3 access f s1 = (s', TokensIssued idt access)
      \<and> map_of (os_tokens s') access = Some (i, t3 + 300)"
    if s1: "os_codes s1 = os_codes s" "os_tokens s1 = os_tokens s" for s1
  proof -
    define s2 where "s2 = s1\<lparr>os_codes := AList.update code r (os_codes s1)\<rparr>"
    have "consume_authorization_code t1 code s1 = (s2, Some r)"
      using assms(3,4) s1 by (simp add: consume_authorization_code_def r_def fresh_code_def s2_def)
    moreover obtain s3 idt where m: "mint_id_token lib env t2 (cr_identity r) (cr_nonce r) (cr_client_id r) s2
        = (s3, Some idt)"
      using key_ready_load [OF assms(1), of s2] by (auto simp: mint_id_token_def)
    moreover have "map_of (os_tokens (issue_access_token t3 access (cr_identity r) s3)) access = Some (i, t3 + 300)"
      by (simp add: issue_access_token_def Let_def dict_simps oidc_ttls r_def fresh_code_def)
    moreover have "or_else (tf_code f) [] = code" using f(4,5) by (cases code) auto
    ultimately show ?thesis using f b by (simp add: token_enabled_def)
  qed
  obtain s1 where "token_endpoint lib env t1 t2 t3 access f s = token_enabled lib env t1 t2 t3 access f s1"
    "os_codes s1 = os_codes s" "os_tokens s1 = os_tokens s"
    unfolding token_endpoint_def by (rule key_ready_enabled [OF assms(1)])
  with body show ?thesis by simp
qed

lemma login_run:
  assumes key: "key_ready lib env" and st: "stores_ok s"
    and req: "validate_authorization_request env p = Inr rq"
    and emp: "first (\<lambda>e. line_user_id e = Some user) emps = Some e" "is_active e" "\<not> pending_approval e"
    and times: "t1 < t0 + 600" "t3 < t2 + 60" "t6 < t5 + 300"
    and f: "presented_client lib f = (Some (rq_client_id rq), secret)"
      "authenticate_client env (Some (rq_client_id rq)) secret = Inr True"
      "tf_grant_type f = Some ''authorization_code''" "tf_code f = Some code" "code \<noteq> []"
      "tf_redirect_uri f = Some (rq_redirect_uri rq)"
      "if truthy (rq_code_challenge rq)
       then verify_pkce_s256 lib (tf_code_verifier f) (rq_code_challenge rq) = Inr True
       else \<not> truthy (tf_code_verifier f)"
    and hdr: "bearer_token b = Some access"
  shows "\<exists>s' url idt. run (oidc_step lib) s
      [Authorize env t0 tid p, LineReturn t1 t2 code tid user name pic emps grants,
       Token env t3 t4 t5 access f, Userinfo env t6 b]
    = (s', [(Authorize env t0 tid p, RedirectTo url),
            (LineReturn t1 t2 code tid user name pic emps grants, RedirectTo (code_redirect rq code)),
            (Token env t3 t4 t5 access f, TokensIssued idt access),
            (Userinfo env t6 b, Claims (identity_of e grants))])"
proof -
  obtain s1 url where s1: "authorize lib env t0 tid p s = (s1, RedirectTo url)" "stores_ok s1"
    "map_of (os_tickets s1) tid = Some (rq, t0 + 600)"
    using authorize_completes [OF key st req] by blast
  obtain s2 where s2: "continue_oidc_after_line lib t1 t2 code tid user name pic emps grants s1
      = (s2, RedirectTo (code_redirect rq code))" "stores_ok s2"
    "map_of (os_codes s2) code = Some (fresh_code rq (identity_of e grants) t2)"
    using line_return_completes [OF s1(2,3) times(1) emp] by blast
  obtain s3 idt where s3: "token_endpoint lib env t3 t4 t5 access f s2 = (s3, TokensIssued idt access)"
    "map_of (os_tokens s3) access = Some (identity_of e grants, t5 + 300)"
    using token_completes [OF key s2(2,3) times(2) f] by blast
  obtain s4 where s4: "userinfo lib env t6 b s3 = userinfo_enabled t6 b s4" "os_tokens s4 = os_tokens s3"
    unfolding userinfo_def by (rule key_ready_enabled [OF key])
  have "userinfo lib env t6 b s3 = (s4, Claims (identity_of e grants))"
    using s4 s3(2) hdr times(3) by (simp add: userinfo_enabled_def lookup_access_token_def)
  with s1 s2 s3 show ?thesis by simp
qed

text \<open>
  C18. An approved employee gets in: a valid request, a LINE login within ten minutes, the
  redemption of the code within a minute by the authenticated client, with the same redirect
  address and the verifier of its challenge if it sent one, and a userinfo call within five
  minutes all succeed, and userinfo returns the identity of that employee with their grants.
\<close>

theorem approved_employee_logs_in:
  assumes key: "key_ready lib env" and st: "stores_ok s"
    and req: "validate_authorization_request env p = Inr rq"
    and emp: "first (\<lambda>e. line_user_id e = Some user) emps = Some e" "is_active e" "\<not> pending_approval e"
    and times: "t1 < t0 + 600" "t3 < t2 + 60" "t6 < t5 + 300"
    and f: "presented_client lib f = (Some (rq_client_id rq), secret)"
      "authenticate_client env (Some (rq_client_id rq)) secret = Inr True"
      "tf_grant_type f = Some ''authorization_code''" "tf_code f = Some code" "code \<noteq> []"
      "tf_redirect_uri f = Some (rq_redirect_uri rq)"
      "if truthy (rq_code_challenge rq)
       then verify_pkce_s256 lib (tf_code_verifier f) (rq_code_challenge rq) = Inr True
       else \<not> truthy (tf_code_verifier f)"
    and hdr: "bearer_token b = Some access"
  shows "\<exists>s' url idt. run (oidc_step lib) s
      [Authorize env t0 tid p, LineReturn t1 t2 code tid user name pic emps grants,
       Token env t3 t4 t5 access f, Userinfo env t6 b]
    = (s', [(Authorize env t0 tid p, RedirectTo url),
            (LineReturn t1 t2 code tid user name pic emps grants, RedirectTo (code_redirect rq code)),
            (Token env t3 t4 t5 access f, TokensIssued idt access),
            (Userinfo env t6 b, Claims (identity_of e grants))])"
  by (rule login_run [OF assms])

section \<open>A code is redeemed once\<close>

fun redeems :: "str \<Rightarrow> oidc_event \<times> oidc_response \<Rightarrow> bool" where
  "redeems code (Token env t1 t2 t3 access f, TokensIssued idt tok) = (tf_code f = Some code)"
| "redeems code x = False"

fun drawn_codes :: "oidc_trace \<Rightarrow> str list" where
  "drawn_codes [] = []"
| "drawn_codes ((LineReturn t t' code tid user name pic emps grants, out) # h) = code # drawn_codes h"
| "drawn_codes (x # h) = drawn_codes h"

lemma drawn_codes_append [simp]: "drawn_codes (h @ h') = drawn_codes h @ drawn_codes h'"
  by (induction h rule: drawn_codes.induct) auto

definition spent_code :: "str \<Rightarrow> oidc_state \<Rightarrow> bool" where
  "spent_code code s = (case map_of (os_codes s) code of None \<Rightarrow> True | Some r \<Rightarrow> cr_used r)"

definition once_inv :: "oidc_trace \<Rightarrow> oidc_state \<Rightarrow> bool" where
  "once_inv h s \<longleftrightarrow> provenance h s \<and> (distinct (drawn_codes h) \<longrightarrow> (\<forall>code.
     (code \<notin> set (drawn_codes h) \<longrightarrow> map_of (os_codes s) code = None \<and> filter (redeems code) h = [])
     \<and> length (filter (redeems code) h) \<le> 1
     \<and> (filter (redeems code) h \<noteq> [] \<longrightarrow> spent_code code s)))"

text \<open>No operation but a LINE login brings a code to life.\<close>

definition codes_fade :: "oidc_state \<Rightarrow> oidc_state \<Rightarrow> str \<Rightarrow> bool" where
  "codes_fade s s' k \<longleftrightarrow> map_of (os_codes s') k = None \<or> map_of (os_codes s') k = map_of (os_codes s) k
     \<or> (\<exists>r. map_of (os_codes s) k = Some r \<and> map_of (os_codes s') k = Some (r\<lparr>cr_used := True\<rparr>))"

lemma codes_fade_same: "os_codes s' = os_codes s \<Longrightarrow> codes_fade s s' k"
  by (simp add: codes_fade_def)

lemma codes_fade_spent: "codes_fade s s' k \<Longrightarrow> spent_code k s \<Longrightarrow> spent_code k s'"
  by (auto simp: codes_fade_def spent_code_def split: option.splits)

lemma codes_fade_trans: "codes_fade s s1 k \<Longrightarrow> codes_fade s1 s2 k \<Longrightarrow> codes_fade s s2 k"
  unfolding codes_fade_def by (elim disjE exE conjE) auto

lemma prune_fades: "dict_ok (os_codes s) \<Longrightarrow> codes_fade s (prune_expired_locked now s) k"
  by (auto simp: codes_fade_def prune_expired_locked_def map_of_sweep split: option.split)

lemma consume_fades: "consume_authorization_code now code s = (s', r) \<Longrightarrow> codes_fade s s' k"
  by (auto simp: consume_authorization_code_def codes_fade_def dict_simps split: option.splits if_splits)

lemma authorize_fades:
  assumes "dict_ok (os_codes s)" "authorize lib env t tid p s = (s', out)"
  shows "codes_fade s s' k"
  using assms(2) unfolding authorize_def
proof (cases rule: when_enabled_cases)
  case 1
  then show ?thesis by (simp add: codes_fade_same)
next
  case (2 s1)
  have "codes_fade s1 s' k"
    using 2 assms(1) prune_fades [of s1 t k]
    by (auto simp: authorize_enabled_def create_login_ticket_def codes_fade_def Let_def
        split: sum.splits authorize_failure.splits)
  then show ?thesis using 2 codes_fade_trans [OF codes_fade_same] by blast
qed

lemma token_fades:
  assumes ok: "dict_ok (os_codes s)" and t: "token_endpoint lib env t1 t2 t3 access f s = (s', out)"
  shows "codes_fade s s' k"
  using t unfolding token_endpoint_def
proof (cases rule: when_enabled_cases)
  case 1
  then show ?thesis by (simp add: codes_fade_same)
next
  case (2 s1)
  have ok1: "dict_ok (os_codes s1)" using 2 ok by simp
  have mint: "codes_fade s1 s3 k \<and> dict_ok (os_codes s3)"
    if c: "consume_authorization_code t1 c s1 = (s2, r)" and m: "mint_id_token lib env t2 i n a s2 = (s3, x)"
    for c s2 r i n a s3 x
    using consume_fades [OF c, of k] mint_stores(2) [OF m] c ok1
    by (auto simp: codes_fade_def consume_authorization_code_def dict_simps split: option.splits if_splits)
  have issue: "codes_fade s1 (issue_access_token t3 access i s3) k"
    if "codes_fade s1 s3 k \<and> dict_ok (os_codes s3)" for i s3
    using that prune_fades [of s3 t3 k] codes_fade_trans [of s1 s3 k "prune_expired_locked t3 s3"]
    by (auto simp: issue_access_token_def codes_fade_def Let_def)
  have "codes_fade s1 s' k"
    using 2(1) consume_fades mint issue codes_fade_same
    by (auto simp: token_enabled_def split: prod.splits sum.splits bool.splits if_splits option.splits)
  then show ?thesis using 2 codes_fade_trans [OF codes_fade_same] by blast
qed

lemma line_return_codes:
  assumes "dict_ok (os_codes s)"
    "continue_oidc_after_line lib t t' code tid user name pic emps grants s = (s', out)" "k \<noteq> code"
  shows "codes_fade s s' k"
proof -
  obtain s1 r where c: "consume_login_ticket t tid s = (s1, r)" by fastforce
  then have s1: "os_codes s1 = os_codes s" by (auto simp: consume_login_ticket_def)
  then have "codes_fade s (prune_expired_locked t' s1) k"
    using prune_fades [of s1 t' k] assms(1) by (simp add: codes_fade_def)
  then show ?thesis
    using assms(2,3) c s1
    by (auto simp: continue_oidc_after_line_def issue_authorization_code_def codes_fade_def dict_simps Let_def
        split: option.splits if_splits)
qed

lemma redeems_iff:
  "redeems code (e, out) \<longleftrightarrow> (\<exists>env t1 t2 t3 access f idt tok. e = Token env t1 t2 t3 access f
     \<and> out = TokensIssued idt tok \<and> tf_code f = Some code)"
  by (cases e; cases out) auto

lemma redeemed_now:
  assumes "dict_ok (os_codes s)" "oidc_step lib s e = (s', out)" "redeems code (e, out)"
  shows "\<not> spent_code code s \<and> map_of (os_codes s) code \<noteq> None \<and> spent_code code s'"
proof -
  obtain env t1 t2 t3 access f idt tok where e: "e = Token env t1 t2 t3 access f"
    "out = TokensIssued idt tok" "tf_code f = Some code"
    using assms(3) unfolding redeems_iff by blast
  from token_success [of lib env t1 t2 t3 access f s s' idt tok] assms(2) e obtain s0 s1 s2 r where
    s0: "os_codes s0 = os_codes s" and c: "consume_authorization_code t1 code s0 = (s1, Some r)"
    and m: "mint_id_token lib env t2 (cr_identity r) (cr_nonce r) (cr_client_id r) s1 = (s2, Some idt)"
    and s': "s' = issue_access_token t3 access (cr_identity r) s2" by auto
  have live: "\<not> spent_code code s \<and> map_of (os_codes s) code \<noteq> None"
    using c s0 by (auto simp: consume_authorization_code_def spent_code_def split: option.splits if_splits)
  have "spent_code code s1" "dict_ok (os_codes s1)"
    using c s0 assms(1)
    by (auto simp: consume_authorization_code_def spent_code_def dict_simps split: option.splits if_splits)
  then have "spent_code code s2" "dict_ok (os_codes s2)"
    using mint_stores(2) [OF m] by (simp_all add: spent_code_def)
  then have "spent_code code (prune_expired_locked t3 s2)"
    using codes_fade_spent prune_fades by blast
  then have "spent_code code s'" by (simp add: s' issue_access_token_def spent_code_def Let_def)
  with live show ?thesis by blast
qed

lemma step_codes:
  assumes "dict_ok (os_codes s)" "oidc_step lib s e = (s', out)" "k \<notin> set (drawn_codes [(e, out)])"
  shows "codes_fade s s' k"
proof (cases e)
  case (Userinfo env t b)
  then have "os_codes s' = os_codes s"
    using userinfo_stores [of lib env t b s s' out] assms(2) by simp
  then show ?thesis by (rule codes_fade_same)
qed (use assms authorize_fades line_return_codes token_fades in auto)

lemma once_step:
  assumes inv: "once_inv h s" and step: "oidc_step lib s e = (s', out)"
  shows "once_inv (h @ [(e, out)]) s'"
proof -
  have prov: "provenance h s" using inv by (simp add: once_inv_def)
  then have ok: "dict_ok (os_codes s)" by (simp add: provenance_def)
  have "(code \<notin> set (drawn_codes (h @ [(e, out)])) \<longrightarrow>
        map_of (os_codes s') code = None \<and> filter (redeems code) (h @ [(e, out)]) = [])
     \<and> length (filter (redeems code) (h @ [(e, out)])) \<le> 1
     \<and> (filter (redeems code) (h @ [(e, out)]) \<noteq> [] \<longrightarrow> spent_code code s')"
    if d: "distinct (drawn_codes (h @ [(e, out)]))" for code
  proof -
    have I: "code \<notin> set (drawn_codes h) \<longrightarrow> map_of (os_codes s) code = None \<and> filter (redeems code) h = []"
      "length (filter (redeems code) h) \<le> 1" "filter (redeems code) h \<noteq> [] \<longrightarrow> spent_code code s"
      using inv d by (auto simp: once_inv_def)
    show ?thesis
    proof (cases "redeems code (e, out)")
      case True
      then have now: "\<not> spent_code code s" "map_of (os_codes s) code \<noteq> None" "spent_code code s'"
        using redeemed_now [OF ok step] by auto
      then have "filter (redeems code) h = []" "code \<in> set (drawn_codes h)" using I by auto
      then show ?thesis using True now by simp
    next
      case False
      show ?thesis
      proof (cases "code \<in> set (drawn_codes [(e, out)])")
        case True
        then have "code \<notin> set (drawn_codes h)" using d by auto
        then have "filter (redeems code) h = []" using I(1) by blast
        then show ?thesis using True False by simp
      next
        case notin: False
        have fade: "codes_fade s s' code" by (rule step_codes [OF ok step notin])
        have "map_of (os_codes s) code = None \<Longrightarrow> map_of (os_codes s') code = None"
          using fade by (auto simp: codes_fade_def)
        then show ?thesis using I notin False codes_fade_spent [OF fade] by auto
      qed
    qed
  qed
  then show ?thesis using oidc_provenance [OF prov step] by (simp add: once_inv_def)
qed

interpretation codes_once: traced_machine "oidc_step lib" once_inv for lib
  by unfold_locales (rule once_step)

text \<open>
  C17. A code is redeemed at most once: in any history of requests, logins, redemptions and
  userinfo calls in which no code is drawn twice, at most one redemption with a given code
  gets tokens; a replay never does.
\<close>

theorem code_redeemed_once:
  assumes "run (oidc_step lib) empty_oidc es = (s, h)" "distinct (drawn_codes h)"
  shows "length (filter (redeems code) h) \<le> 1"
proof -
  have "once_inv [] empty_oidc" using provenance_empty by (simp add: once_inv_def empty_oidc_def)
  from codes_once.hinv_run [OF this assms(1)] have "once_inv h s" by simp
  then show ?thesis using assms(2) by (simp add: once_inv_def)
qed

section \<open>Redirects\<close>

definition registered :: "oidc_trace \<Rightarrow> str \<Rightarrow> bool" where
  "registered h uri \<longleftrightarrow> (\<exists>env t tid p out. (Authorize env t tid p, out) \<in> set h
     \<and> ap_client_id p = Some (get_client_id env) \<and> get_client_id env \<noteq> []
     \<and> ap_redirect_uri p = Some uri \<and> uri \<in> set (get_allowed_redirect_uris env))"

definition safe_target :: "oidc_trace \<Rightarrow> str \<Rightarrow> bool" where
  "safe_target h url \<longleftrightarrow> startswith url LINE_LOGIN_PATH \<or> startswith url ONBOARD_PATH
     \<or> (\<exists>uri ps. registered h uri \<and> url = with_query uri ps)"

lemma startswith_append [simp]: "startswith (p @ s) p"
  by (simp add: startswith_def)

lemma validated_registered:
  assumes "validate_authorization_request env p = Inr rq \<or> validate_authorization_request env p =
      Inl (AuthorizeRedirectError err d uri st)" "(Authorize env t tid p, out) \<in> set h"
  shows "registered h (case validate_authorization_request env p of Inr q \<Rightarrow> rq_redirect_uri q
    | Inl (AuthorizeRedirectError e d u st) \<Rightarrow> u | Inl (AuthorizeError m) \<Rightarrow> [])"
proof -
  obtain u where u: "ap_redirect_uri p = Some u" "u \<in> set (get_allowed_redirect_uris env)"
    "ap_client_id p = Some (get_client_id env)" "get_client_id env \<noteq> []"
    using assms(1) by (auto simp: validate_authorization_request_def truthy_iff Let_def split: if_splits)
  have "(case validate_authorization_request env p of Inr q \<Rightarrow> rq_redirect_uri q
    | Inl (AuthorizeRedirectError e d u st) \<Rightarrow> u | Inl (AuthorizeError m) \<Rightarrow> []) = u"
    using assms(1) u(1)
    by (auto simp: validate_authorization_request_def truthy_iff Let_def split: if_splits)
  then show ?thesis using u assms(2) unfolding registered_def by metis
qed

lemma safe_target_mono: "safe_target h url \<Longrightarrow> safe_target (h @ h') url"
  unfolding safe_target_def registered_def by (metis Un_iff set_append)

lemma asked_registered: "asked h tid t rq \<Longrightarrow> registered h (rq_redirect_uri rq)"
  using validated_registered by (fastforce simp: asked_def)

lemma step_redirect:
  assumes prov: "provenance h s" and step: "oidc_step lib s e = (s', RedirectTo url)"
  shows "safe_target (h @ [(e, RedirectTo url)]) url"
proof (cases e)
  case (Authorize env t tid p)
  from step have "authorize lib env t tid p s = (s', RedirectTo url)" by (simp add: Authorize)
  then show ?thesis unfolding authorize_def
  proof (cases rule: when_enabled_cases)
    case (2 s1)
    let ?h = "h @ [(e, RedirectTo url)]"
    have ev: "(Authorize env t tid p, RedirectTo url) \<in> set ?h" by (simp add: Authorize)
    show ?thesis
    proof (cases "validate_authorization_request env p")
      case (Inl x)
      then obtain err d uri st where x: "x = AuthorizeRedirectError err d uri st"
        using 2(1) by (cases x) (auto simp: authorize_enabled_def)
      have "registered ?h uri" using validated_registered [OF _ ev] Inl x by simp
      then show ?thesis using 2(1) Inl x
        by (auto simp: authorize_enabled_def redirect_with_error_def safe_target_def)
    next
      case (Inr rq)
      then show ?thesis using 2(1) by (auto simp: authorize_enabled_def safe_target_def)
    qed
  qed simp
next
  case (LineReturn t t' code tid user name pic emps grants)
  obtain s1 r where c: "consume_login_ticket t tid s = (s1, r)" by fastforce
  show ?thesis
  proof (cases "\<exists>rq. r = Some rq \<and> url = code_redirect rq code")
    case True
    then obtain rq where rq: "r = Some rq" "url = code_redirect rq code" by blast
    then have "registered h (rq_redirect_uri rq)"
      using consume_ticket_provenance(2) [OF prov c] asked_registered by blast
    then have "safe_target h url" using rq(2) unfolding safe_target_def code_redirect_def by blast
    then show ?thesis by (rule safe_target_mono)
  next
    case False
    then show ?thesis using step c LineReturn
      by (auto simp: continue_oidc_after_line_def safe_target_def split: option.splits if_splits)
  qed
next
  case (Token env t1 t2 t3 access f)
  have nb: "check_binding lib f cid r \<noteq> Some (RedirectTo url)" for cid r
    by (auto simp: check_binding_def split: option.splits sum.splits bool.splits if_splits)
  from step have "token_endpoint lib env t1 t2 t3 access f s = (s', RedirectTo url)" by (simp add: Token)
  then show ?thesis unfolding token_endpoint_def
    by (cases rule: when_enabled_cases)
      (use nb in \<open>auto simp: token_enabled_def split: prod.splits sum.splits bool.splits if_splits option.splits\<close>)
next
  case (Userinfo env t b)
  from step have "userinfo lib env t b s = (s', RedirectTo url)" by (simp add: Userinfo)
  then show ?thesis unfolding userinfo_def
    by (cases rule: when_enabled_cases) (auto simp: userinfo_enabled_def split: option.splits)
qed

definition redirects_inv :: "oidc_trace \<Rightarrow> oidc_state \<Rightarrow> bool" where
  "redirects_inv h s \<longleftrightarrow> provenance h s
     \<and> (\<forall>e url. (e, RedirectTo url) \<in> set h \<longrightarrow> safe_target h url)"

lemma redirects_step:
  "redirects_inv h s \<Longrightarrow> oidc_step lib s e = (s', out) \<Longrightarrow> redirects_inv (h @ [(e, out)]) s'"
  unfolding redirects_inv_def
  using oidc_provenance step_redirect safe_target_mono by auto

interpretation redirects: traced_machine "oidc_step lib" redirects_inv for lib
  by unfold_locales (rule redirects_step)

text \<open>
  C20. HF ID is no open redirector: every redirect it ever answers, with a code or with an
  error, goes to its own login or onboarding page or to an address that was on the allow
  list when a request named the registered client and that very address.
\<close>

theorem redirects_only_to_registered:
  assumes "run (oidc_step lib) empty_oidc es = (s, h)" "(e, RedirectTo url) \<in> set h"
  shows "startswith url ''/api/public/auth/line/login'' \<or> startswith url ''/qr-checkin/onboard''
    \<or> (\<exists>uri ps. registered h uri \<and> url = with_query uri ps)"
proof -
  have "redirects_inv [] empty_oidc" using provenance_empty by (simp add: redirects_inv_def)
  from redirects.hinv_run [OF this assms(1)] have "safe_target h url"
    using assms(2) by (auto simp: redirects_inv_def)
  then show ?thesis by (simp add: safe_target_def LINE_LOGIN_PATH_def ONBOARD_PATH_def)
qed

text \<open>
  A challenge that is not ASCII is accepted with the request, and then no verifier gets a
  clean refusal: the comparison raises, the token endpoint answers with a server error, and
  the code is gone.
\<close>

theorem non_ascii_challenge_crashes:
  assumes "truthy (cr_code_challenge r)" "\<not> ascii (or_else (cr_code_challenge r) [])"
    and "tf_code_verifier f = Some v" "v \<noteq> []" "ascii v"
    and "cid = Some (cr_client_id r)" "ascii (cr_client_id r)" "tf_redirect_uri f = Some (cr_redirect_uri r)"
  shows "check_binding lib f cid r = Some ServerError"
proof -
  have "verify_pkce_s256 lib (Some v) (cr_code_challenge r) = Inl TypeError"
    using assms by (cases v) (auto simp: verify_pkce_s256_def compare_digest_def)
  then show ?thesis using assms by (simp add: check_binding_def compare_digest_def)
qed

section \<open>An example\<close>

definition demo_lib :: oidc_lib where
  "demo_lib = \<lparr>ol_parse_pem = (\<lambda>p. Some (257, 3, p)), ol_sha256 = (\<lambda>bs. [1, 2, 3]),
     ol_sign = (\<lambda>c pem kid. ic_sub c), ol_basic = (\<lambda>t. None), ol_unquote = (\<lambda>t. t),
     ol_jwt = \<lparr>jwt_encode = (\<lambda>k c. []), jwt_decode = (\<lambda>k n t. Inl JwtInvalid)\<rparr>,
     ol_line = \<lparr>channel_id = ''165'', channel_secret = [], callback_url = [], jwt_secret = []\<rparr>\<rparr>"

definition demo_oidc_env :: env where
  "demo_oidc_env = (\<lambda>n. if n = ''HFID_SIGNING_KEY'' then Some ''k'' else if n = ''HFID_CLIENT_ID'' then Some ''cf''
     else if n = ''HFID_CLIENT_SECRET'' then Some ''s'' else None)"

definition demo_params :: authorize_params where
  "demo_params = \<lparr>ap_client_id = Some ''cf'', ap_redirect_uri = Some DEFAULT_REDIRECT_URI,
     ap_response_type = Some ''code'', ap_scope = Some ''openid'', ap_state = None, ap_nonce = None,
     ap_code_challenge = Some ''AQID'', ap_code_challenge_method = Some ''S256''\<rparr>"

definition demo_request :: auth_request where
  "demo_request = \<lparr>rq_client_id = ''cf'', rq_redirect_uri = DEFAULT_REDIRECT_URI, rq_scope = ''openid'',
     rq_state = None, rq_nonce = None, rq_code_challenge = Some ''AQID'', rq_code_challenge_method = Some ''S256''\<rparr>"

definition demo_token_form :: token_form where
  "demo_token_form = \<lparr>tf_grant_type = Some ''authorization_code'', tf_code = Some ''c'',
     tf_redirect_uri = Some DEFAULT_REDIRECT_URI, tf_code_verifier = Some ''v'', tf_client_id = Some ''cf'',
     tf_client_secret = Some ''s'', tf_authorization = None\<rparr>"

definition demo_maid :: employee where
  "demo_maid = \<lparr>badge_number = ''Q7'', english_name = None, thai_name = None,
     display_name = ''Mali'', department = None, position = None, is_active = True,
     is_hidden = False, line_user_id = Some ''U1'', line_display_name = None,
     line_picture_url = None, line_linking_code = None,
     line_linking_code_generated_at = None, emp_role = None, default_shift_id = None,
     emp_location = None, email = None, pending_approval = False, join_source = ''line'',
     nfc_card_uid = None\<rparr>"

definition demo_login :: "oidc_event list" where
  "demo_login = [Authorize demo_oidc_env 0 ''t'' demo_params,
     LineReturn 5 6 ''c'' ''t'' ''U1'' None None [demo_maid] [],
     Token demo_oidc_env 7 7 8 ''a'' demo_token_form, Userinfo demo_oidc_env 9 (Some ''Bearer a'')]"

lemma demo_env_simps:
  "raw_signing_key demo_oidc_env = ''k''" "get_client_id demo_oidc_env = ''cf''"
  "get_client_secret demo_oidc_env = ''s''" "get_allowed_redirect_uris demo_oidc_env = [DEFAULT_REDIRECT_URI]"
  by (simp_all add: raw_signing_key_def get_client_id_def get_client_secret_def
      get_allowed_redirect_uris_def demo_oidc_env_def getenv_def strip_def lstrip_def py_space_def)

lemma demo_key: "key_ready demo_lib demo_oidc_env"
  by (simp add: key_ready_def demo_env_simps material_of_def demo_lib_def)

lemma demo_valid: "validate_authorization_request demo_oidc_env demo_params = Inr demo_request"
proof -
  have "words ''openid'' = [''openid'']" by code_simp
  then show ?thesis
    by (simp add: validate_authorization_request_def demo_env_simps demo_params_def demo_request_def
        DEFAULT_REDIRECT_URI_def none_if_empty_def)
qed

lemma demo_proof:
  "presented_client demo_lib demo_token_form = (Some (rq_client_id demo_request), Some ''s'')"
  "authenticate_client demo_oidc_env (Some (rq_client_id demo_request)) (Some ''s'') = Inr True"
  "verify_pkce_s256 demo_lib (tf_code_verifier demo_token_form) (rq_code_challenge demo_request) = Inr True"
proof -
  show "presented_client demo_lib demo_token_form = (Some (rq_client_id demo_request), Some ''s'')"
    by (simp add: presented_client_def parse_basic_client_auth_def demo_token_form_def demo_request_def)
  show "authenticate_client demo_oidc_env (Some (rq_client_id demo_request)) (Some ''s'') = Inr True"
    by (simp add: authenticate_client_def demo_env_simps demo_request_def compare_digest_def ascii_def)
  have "b64url [1, 2, 3] = ''AQID''" by code_simp
  then show "verify_pkce_s256 demo_lib (tf_code_verifier demo_token_form) (rq_code_challenge demo_request) = Inr True"
    by (simp add: verify_pkce_s256_def demo_token_form_def demo_request_def demo_lib_def compare_digest_def ascii_def)
qed

lemma demo_stores: "stores_ok empty_oidc"
  by (simp add: stores_ok_def empty_oidc_def)

lemma demo_login_run:
  "\<exists>s' url idt. run (oidc_step demo_lib) empty_oidc demo_login
    = (s', [(Authorize demo_oidc_env 0 ''t'' demo_params, RedirectTo url),
            (LineReturn 5 6 ''c'' ''t'' ''U1'' None None [demo_maid] [], RedirectTo (code_redirect demo_request ''c'')),
            (Token demo_oidc_env 7 7 8 ''a'' demo_token_form, TokensIssued idt ''a''),
            (Userinfo demo_oidc_env 9 (Some ''Bearer a''), Claims (identity_of demo_maid []))])"
  unfolding demo_login_def
proof (rule login_run [OF demo_key demo_stores demo_valid, where user = "''U1''" and secret = "Some ''s''"])
  have "bearer_token (Some (''Bearer '' @ ''a'')) = Some ''a''"
    by (rule bearer_token_plain) (simp_all add: py_space_def)
  then show "bearer_token (Some ''Bearer a'') = Some ''a''" by simp
qed (use demo_proof in \<open>simp_all add: demo_maid_def demo_token_form_def demo_request_def\<close>)

theorem approved_employee_logs_in_witness:
  "\<exists>s' url idt. run (oidc_step demo_lib) empty_oidc demo_login
    = (s', [(Authorize demo_oidc_env 0 ''t'' demo_params, RedirectTo url),
            (LineReturn 5 6 ''c'' ''t'' ''U1'' None None [demo_maid] [], RedirectTo (code_redirect demo_request ''c'')),
            (Token demo_oidc_env 7 7 8 ''a'' demo_token_form, TokensIssued idt ''a''),
            (Userinfo demo_oidc_env 9 (Some ''Bearer a''), Claims (identity_of demo_maid []))])"
  unfolding demo_login_def
proof (rule approved_employee_logs_in [OF demo_key demo_stores demo_valid, where user = "''U1''" and secret = "Some ''s''"])
  have "bearer_token (Some (''Bearer '' @ ''a'')) = Some ''a''"
    by (rule bearer_token_plain) (simp_all add: py_space_def)
  then show "bearer_token (Some ''Bearer a'') = Some ''a''" by simp
qed (use demo_proof in \<open>simp_all add: demo_maid_def demo_token_form_def demo_request_def\<close>)

lemma demo_prefix:
  obtains s h s' idt where "run (oidc_step demo_lib) empty_oidc (take 2 demo_login) = (s, h)"
    "oidc_step demo_lib s (Token demo_oidc_env 7 7 8 ''a'' demo_token_form) = (s', TokensIssued idt ''a'')"
proof -
  obtain s h where r: "run (oidc_step demo_lib) empty_oidc (take 2 demo_login) = (s, h)" by fastforce
  have l: "demo_login = take 2 demo_login @ [Token demo_oidc_env 7 7 8 ''a'' demo_token_form,
      Userinfo demo_oidc_env 9 (Some ''Bearer a'')]" by (simp add: demo_login_def)
  obtain s1 o1 where t: "oidc_step demo_lib s (Token demo_oidc_env 7 7 8 ''a'' demo_token_form) = (s1, o1)"
    by fastforce
  have len: "length h = 2" using run_events [OF r] by (auto simp: demo_login_def dest!: arg_cong [where f = length])
  obtain s' url idt where d: "run (oidc_step demo_lib) empty_oidc demo_login
    = (s', [(Authorize demo_oidc_env 0 ''t'' demo_params, RedirectTo url),
            (LineReturn 5 6 ''c'' ''t'' ''U1'' None None [demo_maid] [], RedirectTo (code_redirect demo_request ''c'')),
            (Token demo_oidc_env 7 7 8 ''a'' demo_token_form, TokensIssued idt ''a''),
            (Userinfo demo_oidc_env 9 (Some ''Bearer a''), Claims (identity_of demo_maid []))])"
    using demo_login_run by blast
  have "o1 = TokensIssued idt ''a''"
    using d t r len by (subst (asm) l)
      (auto simp: run_append length_Suc_conv numeral_2_eq_2 split: prod.splits)
  then show thesis using that [OF r] t by blast
qed

theorem tokens_only_for_approved_employees_witness:
  "\<exists>s h. run (oidc_step demo_lib) empty_oidc (take 2 demo_login) = (s, h)
     \<and> (\<exists>t rq e i. admitted h ''c'' t rq e i \<and> 7 < t + 60 \<and> is_active e)"
proof -
  obtain s h s' idt where r: "run (oidc_step demo_lib) empty_oidc (take 2 demo_login) = (s, h)"
    and t: "oidc_step demo_lib s (Token demo_oidc_env 7 7 8 ''a'' demo_token_form) = (s', TokensIssued idt ''a'')"
    by (rule demo_prefix)
  from tokens_only_for_approved_employees [OF r t] have
    "\<exists>t rq e i. admitted h ''c'' t rq e i \<and> 7 < t + 60 \<and> is_active e"
    by (auto simp: demo_token_form_def)
  with r show ?thesis by blast
qed

theorem code_redeemed_once_witness:
  "\<exists>s h. run (oidc_step demo_lib) empty_oidc demo_login = (s, h) \<and> length (filter (redeems ''c'') h) = 1
     \<and> length (filter (redeems ''c'') h) \<le> 1"
proof -
  obtain s h url idt where r: "run (oidc_step demo_lib) empty_oidc demo_login = (s, h)"
    and h: "h = [(Authorize demo_oidc_env 0 ''t'' demo_params, RedirectTo url),
            (LineReturn 5 6 ''c'' ''t'' ''U1'' None None [demo_maid] [], RedirectTo (code_redirect demo_request ''c'')),
            (Token demo_oidc_env 7 7 8 ''a'' demo_token_form, TokensIssued idt ''a''),
            (Userinfo demo_oidc_env 9 (Some ''Bearer a''), Claims (identity_of demo_maid []))]"
    using demo_login_run by blast
  have "distinct (drawn_codes h)" by (simp add: h)
  from code_redeemed_once [OF r this, of "''c''"] r h show ?thesis by (simp add: demo_token_form_def)
qed

theorem redirects_only_to_registered_witness:
  "\<exists>s h. run (oidc_step demo_lib) empty_oidc demo_login = (s, h)
     \<and> (\<exists>uri ps. registered h uri \<and> code_redirect demo_request ''c'' = with_query uri ps)"
proof -
  obtain s h where r: "run (oidc_step demo_lib) empty_oidc demo_login = (s, h)"
    and h: "(LineReturn 5 6 ''c'' ''t'' ''U1'' None None [demo_maid] [], RedirectTo (code_redirect demo_request ''c'')) \<in> set h"
    using demo_login_run by auto
  have "\<not> startswith (code_redirect demo_request ''c'') ''/api/public/auth/line/login''"
    "\<not> startswith (code_redirect demo_request ''c'') ''/qr-checkin/onboard''"
    by (simp_all add: code_redirect_def with_query_def demo_request_def DEFAULT_REDIRECT_URI_def startswith_def)
  with redirects_only_to_registered [OF r h] r show ?thesis by blast
qed

theorem non_ascii_challenge_crashes_witness:
  "check_binding demo_lib demo_token_form (Some ''cf'')
     ((fresh_code (demo_request\<lparr>rq_code_challenge := Some [CHR 0xE9]\<rparr>) (identity_of demo_maid []) 0)) = Some ServerError"
  by (rule non_ascii_challenge_crashes [where v = "''v''"])
    (simp_all add: fresh_code_def demo_request_def demo_token_form_def ascii_def)

end
