(* ===== verification/ZkIngest.thy ===== *)
theory ZkIngest
  imports Attendance
begin

text \<open>
  How punches get from the fingerprint reader into the attendance log, the database half of
  \<open>app/services/zk_session.py\<close>: the quarantine rule, the realtime path \<open>_handle_punch\<close> and
  the catch-up path \<open>_reconcile_attendance\<close>. Both read, decide and then commit one row; the
  commit is a separate step, because the two run on different threads and the UNIQUE
  constraint of the table is what arbitrates between them. The theory first models the
  operations as functions, then their interleavings as a step relation.
\<close>

section \<open>Events and the quarantine rule\<close>

text \<open>What the reader reports, live or from its log: a badge, its Bangkok stamp and two bytes.\<close>

record zk_event =
  ev_user_id :: str
  ev_timestamp :: dtime
  ev_punch :: int
  ev_status :: int

record zk_db =
  zk_employees :: "employee list"
  zk_devices :: "device list"
  zk_records :: "attendance_record list"

definition bangkok_naive_to_utc_naive :: "dtime \<Rightarrow> dtime" where
  "bangkok_naive_to_utc_naive t = t - bkk_offset"

definition utc_naive_to_bangkok_naive :: "dtime \<Rightarrow> dtime" where
  "utc_naive_to_bangkok_naive t = t + bkk_offset"

datatype reject = YearBefore2010 | FutureByADay

definition sanity_reject_reason :: "dtime \<Rightarrow> dtime \<Rightarrow> reject option" where
  "sanity_reject_reason now_utc bangkok_ts =
     (if bangkok_ts < midnight (ordinal 2010 1 1) then Some YearBefore2010
      else if utc_naive_to_bangkok_naive now_utc + day_us < bangkok_ts then Some FutureByADay
      else None)"

section \<open>Queries of both paths\<close>

definition active_device :: "zk_db \<Rightarrow> device option" where
  "active_device db = newest (\<lambda>d. - dev_id d)
     (filter (\<lambda>d. dev_is_active d \<and> dev_device_type d = ''fingerprint'') (zk_devices db))"

definition badge_employee :: "zk_db \<Rightarrow> str \<Rightarrow> employee option" where
  "badge_employee db badge = first (\<lambda>e. badge_number e = badge) (zk_employees db)"

definition new_record :: "int \<Rightarrow> zk_event \<Rightarrow> attendance_record" where
  "new_record dev e = \<lparr>ar_badge = ev_user_id e, ar_device_id = dev,
     ar_timestamp = bangkok_naive_to_utc_naive (ev_timestamp e), ar_punch_type = ev_punch e,
     ar_status = ev_status e, ar_sync_status = ''synced'', ar_validation_status = ''unvalidated''\<rparr>"

section \<open>The realtime path\<close>

datatype punch_check =
    PunchRejected reject | PunchUnknownBadge | PunchNoDevice | PunchDuplicate
  | PunchStaged employee attendance_record

definition check_punch :: "dtime \<Rightarrow> zk_db \<Rightarrow> zk_event \<Rightarrow> punch_check" where
  "check_punch now db e =
     (case sanity_reject_reason now (ev_timestamp e) of
        Some why \<Rightarrow> PunchRejected why
      | None \<Rightarrow>
          (let utc = bangkok_naive_to_utc_naive (ev_timestamp e) in
           case badge_employee db (ev_user_id e) of
             None \<Rightarrow> PunchUnknownBadge
           | Some emp \<Rightarrow>
               (case active_device db of
                  None \<Rightarrow> PunchNoDevice
                | Some d \<Rightarrow>
                    if first (\<lambda>r. ar_badge r = ev_user_id e \<and> ar_timestamp r = utc
                                \<and> ar_punch_type r = ev_punch e) (zk_records db) \<noteq> None
                    then PunchDuplicate
                    else PunchStaged emp (new_record (dev_id d) e))))"

record 'd realtime_message =
  rm_badge :: str
  rm_display_name :: str
  rm_timestamp :: dtime
  rm_punch_type :: int
  rm_data :: "'d option"

datatype 'd punch_result =
    PunchIgnored punch_check | PunchLostRace | PunchBroadcast "'d realtime_message"

text \<open>The commit: the row and the reader's \<open>last_sync\<close> stamp, or the \<open>IntegrityError\<close>.\<close>

definition commit_punch :: "dtime \<Rightarrow> attendance_record \<Rightarrow> zk_db \<Rightarrow> zk_db option" where
  "commit_punch now r db =
     map_option (\<lambda>rows. db\<lparr>zk_records := rows,
         zk_devices := update_where (\<lambda>d. dev_id d = ar_device_id r)
                                    (\<lambda>d. d\<lparr>dev_last_sync := Some now\<rparr>) (zk_devices db)\<rparr>)
       (insert_unique ar_key r (zk_records db))"

text \<open>\<open>summary\<close> is the attendance summary read after the commit, None when that read raises.\<close>

definition finish_punch ::
  "(zk_db \<Rightarrow> 'd option) \<Rightarrow> dtime \<Rightarrow> employee \<Rightarrow> attendance_record \<Rightarrow> zk_db \<Rightarrow> zk_db \<times> 'd punch_result" where
  "finish_punch summary now emp r db =
     (case commit_punch now r db of
        None \<Rightarrow> (db, PunchLostRace)
      | Some db' \<Rightarrow> (db', PunchBroadcast
          \<lparr>rm_badge = ar_badge r, rm_display_name = or_else (english_name emp) (display_name emp),
           rm_timestamp = ar_timestamp r, rm_punch_type = ar_punch_type r, rm_data = summary db'\<rparr>))"

definition handle_punch ::
  "(zk_db \<Rightarrow> 'd option) \<Rightarrow> dtime \<Rightarrow> dtime \<Rightarrow> zk_event \<Rightarrow> zk_db \<Rightarrow> zk_db \<times> 'd punch_result" where
  "handle_punch summary now now' e db =
     (case check_punch now db e of
        PunchStaged emp r \<Rightarrow> finish_punch summary now' emp r db
      | c \<Rightarrow> (db, PunchIgnored c))"

section \<open>The catch-up path\<close>

record recon_tally =
  new_count :: nat
  dedup_skipped :: nat
  sanity_skipped :: nat
  unknown_badge :: nat

definition zero_tally :: recon_tally where
  "zero_tally = \<lparr>new_count = 0, dedup_skipped = 0, sanity_skipped = 0, unknown_badge = 0\<rparr>"

text \<open>
  The newest row of the device, capped at the clock, less the lookback: at or below this floor
  a record is taken as synced. A full reconcile has no floor, nor has a device without rows.
\<close>

definition watermark :: "int \<Rightarrow> zk_db \<Rightarrow> dtime option" where
  "watermark dev db = map_option ar_timestamp
     (newest ar_timestamp (filter (\<lambda>r. ar_device_id r = dev) (zk_records db)))"

definition catchup_floor :: "int \<Rightarrow> bool \<Rightarrow> dtime \<Rightarrow> int \<Rightarrow> zk_db \<Rightarrow> dtime option" where
  "catchup_floor lookback_hours full now dev db =
     (if full then None
      else map_option (\<lambda>w. min w now - lookback_hours * hour_us) (watermark dev db))"

datatype recon_check = ReconInsane | ReconKnown | ReconUnknownBadge | ReconStaged attendance_record

definition check_recon :: "dtime \<Rightarrow> int \<Rightarrow> dtime option \<Rightarrow> zk_db \<Rightarrow> zk_event \<Rightarrow> recon_check" where
  "check_recon now dev floor_utc db e =
     (if sanity_reject_reason now (ev_timestamp e) \<noteq> None then ReconInsane
      else let utc = bangkok_naive_to_utc_naive (ev_timestamp e) in
        if (case floor_utc of None \<Rightarrow> False | Some f \<Rightarrow> utc \<le> f) then ReconKnown
        else if badge_employee db (ev_user_id e) = None then ReconUnknownBadge
        else if first (\<lambda>r. ar_badge r = ev_user_id e \<and> ar_timestamp r = utc) (zk_records db) \<noteq> None
        then ReconKnown
        else ReconStaged (new_record dev e))"

definition commit_record :: "attendance_record \<Rightarrow> zk_db \<Rightarrow> zk_db option" where
  "commit_record r db =
     map_option (\<lambda>rows. db\<lparr>zk_records := rows\<rparr>) (insert_unique ar_key r (zk_records db))"

definition recon_record ::
  "int \<Rightarrow> dtime option \<Rightarrow> dtime \<times> zk_event \<Rightarrow> zk_db \<times> recon_tally \<Rightarrow> zk_db \<times> recon_tally" where
  "recon_record dev floor_utc ce st =
     (case ce of (now, e) \<Rightarrow> case st of (db, t) \<Rightarrow>
        (case check_recon now dev floor_utc db e of
           ReconInsane \<Rightarrow> (db, t\<lparr>sanity_skipped := Suc (sanity_skipped t)\<rparr>)
         | ReconKnown \<Rightarrow> (db, t\<lparr>dedup_skipped := Suc (dedup_skipped t)\<rparr>)
         | ReconUnknownBadge \<Rightarrow> (db, t\<lparr>unknown_badge := Suc (unknown_badge t)\<rparr>)
         | ReconStaged r \<Rightarrow>
             (case commit_record r db of
                None \<Rightarrow> (db, t\<lparr>dedup_skipped := Suc (dedup_skipped t)\<rparr>)
              | Some db' \<Rightarrow> (db', t\<lparr>new_count := Suc (new_count t)\<rparr>))))"

text \<open>The sweep over the device log: each record with the clock reading of its sanity check.\<close>

definition recon_sweep ::
  "int \<Rightarrow> dtime option \<Rightarrow> (dtime \<times> zk_event) list \<Rightarrow> zk_db \<Rightarrow> zk_db \<times> recon_tally" where
  "recon_sweep dev floor_utc records db = fold (recon_record dev floor_utc) records (db, zero_tally)"

definition reconcile_attendance ::
  "int \<Rightarrow> bool \<Rightarrow> dtime \<Rightarrow> (dtime \<times> zk_event) list \<Rightarrow> zk_db \<Rightarrow> zk_db \<times> nat" where
  "reconcile_attendance lookback_hours full now records db =
     (case active_device db of
        None \<Rightarrow> (db, 0)
      | Some d \<Rightarrow>
          (case recon_sweep (dev_id d) (catchup_floor lookback_hours full now (dev_id d) db) records db of
             (db', t) \<Rightarrow> (db', new_count t)))"

section \<open>What one record does\<close>

text \<open>A scan is a badge at a UTC second; the catch-up path compares rows by their scan.\<close>

definition scan_of :: "zk_event \<Rightarrow> str \<times> dtime" where
  "scan_of e = (ev_user_id e, bangkok_naive_to_utc_naive (ev_timestamp e))"

definition row_scan :: "attendance_record \<Rightarrow> str \<times> dtime" where
  "row_scan r = (ar_badge r, ar_timestamp r)"

definition scans :: "zk_db \<Rightarrow> (str \<times> dtime) set" where
  "scans db = row_scan ` set (zk_records db)"

definition sane :: "dtime \<Rightarrow> zk_event \<Rightarrow> bool" where
  "sane now e = (sanity_reject_reason now (ev_timestamp e) = None)"

definition enrolled :: "zk_db \<Rightarrow> str \<Rightarrow> bool" where
  "enrolled db badge = (badge \<in> set (map badge_number (zk_employees db)))"

definition over_floor :: "dtime option \<Rightarrow> zk_event \<Rightarrow> bool" where
  "over_floor floor_utc e = (case floor_utc of None \<Rightarrow> True | Some f \<Rightarrow> f < snd (scan_of e))"

definition wanted :: "dtime option \<Rightarrow> zk_db \<Rightarrow> dtime \<times> zk_event \<Rightarrow> bool" where
  "wanted floor_utc db ce = (sane (fst ce) (snd ce) \<and> enrolled db (ev_user_id (snd ce))
     \<and> over_floor floor_utc (snd ce))"

lemma badge_employee_None: "badge_employee db badge = None \<longleftrightarrow> \<not> enrolled db badge"
  by (auto simp: badge_employee_def enrolled_def first_None)

lemma known_scan_iff:
  "first (\<lambda>r. ar_badge r = b \<and> ar_timestamp r = t) (zk_records db) \<noteq> None \<longleftrightarrow> (b, t) \<in> scans db"
  by (auto simp: first_None scans_def row_scan_def image_iff)

lemma known_key_iff:
  "first (\<lambda>r. ar_badge r = b \<and> ar_timestamp r = t \<and> ar_punch_type r = p) (zk_records db) \<noteq> None
   \<longleftrightarrow> (b, t, p) \<in> ar_key ` set (zk_records db)"
  by (auto simp: first_None ar_key_def image_iff)

lemma new_record_simps [simp]:
  "row_scan (new_record dev e) = scan_of e"
  "ar_key (new_record dev e) = (fst (scan_of e), snd (scan_of e), ev_punch e)"
  "ar_device_id (new_record dev e) = dev" "ar_badge (new_record dev e) = ev_user_id e"
  "ar_timestamp (new_record dev e) = snd (scan_of e)" "ar_punch_type (new_record dev e) = ev_punch e"
  by (simp_all add: new_record_def row_scan_def scan_of_def ar_key_def)

lemma key_in_scans: "ar_key r \<in> ar_key ` set (zk_records db) \<Longrightarrow> row_scan r \<in> scans db"
  by (auto simp: scans_def row_scan_def ar_key_def)

lemma check_recon_staged:
  "check_recon now dev floor_utc db e = ReconStaged r
   \<longleftrightarrow> wanted floor_utc db (now, e) \<and> scan_of e \<notin> scans db \<and> r = new_record dev e"
proof -
  have "(case floor_utc of None \<Rightarrow> False | Some f \<Rightarrow> bangkok_naive_to_utc_naive (ev_timestamp e) \<le> f)
      \<longleftrightarrow> \<not> over_floor floor_utc e"
    by (cases floor_utc) (auto simp: over_floor_def scan_of_def)
  then show ?thesis
    unfolding check_recon_def Let_def known_scan_iff badge_employee_None
    by (auto simp: wanted_def sane_def scan_of_def)
qed

lemma recon_record_db:
  "fst (recon_record dev floor_utc (now, e) (db, t)) =
     (if wanted floor_utc db (now, e) \<and> scan_of e \<notin> scans db
      then db\<lparr>zk_records := zk_records db @ [new_record dev e]\<rparr> else db)"
  and recon_record_count:
  "new_count (snd (recon_record dev floor_utc (now, e) (db, t))) =
     (if wanted floor_utc db (now, e) \<and> scan_of e \<notin> scans db
      then Suc (new_count t) else new_count t)"
proof -
  have "scan_of e \<notin> scans db \<Longrightarrow> commit_record (new_record dev e) db
      = Some (db\<lparr>zk_records := zk_records db @ [new_record dev e]\<rparr>)"
    using key_in_scans [of "new_record dev e" db]
    by (auto simp: commit_record_def insert_unique_def)
  then show "fst (recon_record dev floor_utc (now, e) (db, t)) =
     (if wanted floor_utc db (now, e) \<and> scan_of e \<notin> scans db
      then db\<lparr>zk_records := zk_records db @ [new_record dev e]\<rparr> else db)"
    and "new_count (snd (recon_record dev floor_utc (now, e) (db, t))) =
     (if wanted floor_utc db (now, e) \<and> scan_of e \<notin> scans db
      then Suc (new_count t) else new_count t)"
    using check_recon_staged [of now dev floor_utc db e]
    by (fastforce simp: recon_record_def split: recon_check.splits)+
qed

section \<open>What a sweep does\<close>

definition wanted_scans :: "dtime option \<Rightarrow> zk_db \<Rightarrow> (dtime \<times> zk_event) list \<Rightarrow> (str \<times> dtime) set" where
  "wanted_scans floor_utc db records = (\<lambda>ce. scan_of (snd ce)) ` {ce \<in> set records. wanted floor_utc db ce}"

lemma wanted_scans_simps [simp]:
  "wanted_scans floor_utc db [] = {}"
  "wanted_scans floor_utc db (ce # ces) =
     (if wanted floor_utc db ce then insert (scan_of (snd ce)) (wanted_scans floor_utc db ces)
      else wanted_scans floor_utc db ces)"
  by (auto simp: wanted_scans_def)

lemma wanted_scans_eq:
  "wanted_scans floor_utc db records = {scan_of e | t e. (t, e) \<in> set records \<and> sane t e
     \<and> enrolled db (ev_user_id e) \<and> over_floor floor_utc e}"
  by (force simp: wanted_scans_def wanted_def)

definition caught_up ::
  "int \<Rightarrow> dtime option \<Rightarrow> (dtime \<times> zk_event) list \<Rightarrow> zk_db \<Rightarrow> zk_db \<Rightarrow> nat \<Rightarrow> bool" where
  "caught_up dev floor_utc records db db' n \<longleftrightarrow>
     (\<exists>added. db' = db\<lparr>zk_records := zk_records db @ added\<rparr> \<and> length added = n
        \<and> distinct (map row_scan added) \<and> row_scan ` set added \<inter> scans db = {}
        \<and> scans db' = scans db \<union> wanted_scans floor_utc db records
        \<and> (\<forall>r \<in> set added. ar_device_id r = dev
             \<and> (\<exists>ce \<in> set records. wanted floor_utc db ce \<and> r = new_record dev (snd ce))))"

lemma caught_up_Nil: "caught_up dev floor_utc [] db db 0"
  unfolding caught_up_def by (rule exI [of _ "[]"]) simp

lemma wanted_records [simp]: "wanted floor_utc (db\<lparr>zk_records := rows\<rparr>) ce = wanted floor_utc db ce"
  by (simp add: wanted_def enrolled_def)

lemma scans_add [simp]: "scans (db\<lparr>zk_records := zk_records db @ rows\<rparr>) = scans db \<union> row_scan ` set rows"
  by (auto simp: scans_def)

lemma caught_up_skip:
  assumes "caught_up dev floor_utc ces db db' n" and "\<not> wanted floor_utc db ce \<or> scan_of (snd ce) \<in> scans db"
  shows "caught_up dev floor_utc (ce # ces) db db' n"
proof -
  have "scans db \<union> wanted_scans floor_utc db (ce # ces) = scans db \<union> wanted_scans floor_utc db ces"
    using assms(2) by auto
  with assms(1) show ?thesis unfolding caught_up_def by auto
qed

lemma wanted_scans_records [simp]:
  "wanted_scans floor_utc (db\<lparr>zk_records := rows\<rparr>) ces = wanted_scans floor_utc db ces"
  by (simp add: wanted_scans_def)

lemma caught_up_add:
  assumes cu: "caught_up dev floor_utc ces (db\<lparr>zk_records := zk_records db @ [new_record dev (snd ce)]\<rparr>) db' n"
    and "wanted floor_utc db ce" and "scan_of (snd ce) \<notin> scans db"
  shows "caught_up dev floor_utc (ce # ces) db db' (Suc n)"
proof -
  let ?r = "new_record dev (snd ce)"
  obtain added where a: "db' = db\<lparr>zk_records := zk_records db @ ?r # added\<rparr>" "length added = n"
    "distinct (map row_scan added)" "row_scan ` set added \<inter> insert (scan_of (snd ce)) (scans db) = {}"
    "scans db' = insert (scan_of (snd ce)) (scans db) \<union> wanted_scans floor_utc db ces"
    "\<forall>r \<in> set added. ar_device_id r = dev
       \<and> (\<exists>x \<in> set ces. wanted floor_utc db x \<and> r = new_record dev (snd x))"
    using cu unfolding caught_up_def by auto
  have "\<forall>r \<in> set (?r # added). ar_device_id r = dev
     \<and> (\<exists>x \<in> set (ce # ces). wanted floor_utc db x \<and> r = new_record dev (snd x))"
    using a(6) assms(2) by simp
  moreover have "row_scan ` set (?r # added) \<inter> scans db = {}" "distinct (map row_scan (?r # added))"
    "scans db' = scans db \<union> wanted_scans floor_utc db (ce # ces)"
    using a(3,4,5) assms(2,3) by auto
  ultimately show ?thesis
    unfolding caught_up_def using a(1,2) by (intro exI [of _ "?r # added"]) simp
qed

lemma sweep_from:
  "fold (recon_record dev floor_utc) ces (db, t) = (db', t')
   \<Longrightarrow> \<exists>n. caught_up dev floor_utc ces db db' n \<and> new_count t' = new_count t + n"
proof (induction ces arbitrary: db t)
  case Nil
  then show ?case using caught_up_Nil by auto
next
  case (Cons ce ces)
  obtain now e where ce: "ce = (now, e)" by fastforce
  let ?db = "fst (recon_record dev floor_utc ce (db, t))"
  let ?t = "snd (recon_record dev floor_utc ce (db, t))"
  have "fold (recon_record dev floor_utc) ces (?db, ?t) = (db', t')" using Cons.prems by simp
  then obtain n where n: "caught_up dev floor_utc ces ?db db' n" "new_count t' = new_count ?t + n"
    using Cons.IH by blast
  show ?case
  proof (cases "wanted floor_utc db ce \<and> scan_of (snd ce) \<notin> scans db")
    case True
    then show ?thesis
      using caught_up_add [of dev floor_utc ces db ce db' n] n
      by (auto simp: ce recon_record_db recon_record_count)
  next
    case False
    then show ?thesis
      using caught_up_skip [of dev floor_utc ces db db' n ce] n
      by (auto simp: ce recon_record_db recon_record_count split: if_splits)
  qed
qed

lemma reconcile_caught_up:
  assumes "reconcile_attendance lookback_hours full now ces db = (db', n)" and "active_device db = Some d"
  shows "caught_up (dev_id d) (catchup_floor lookback_hours full now (dev_id d) db) ces db db' n"
  using assms sweep_from [of "dev_id d" "catchup_floor lookback_hours full now (dev_id d) db" ces db zero_tally]
  by (fastforce simp: reconcile_attendance_def recon_sweep_def zero_tally_def split: prod.splits)

lemma nothing_wanted:
  assumes "\<forall>ce \<in> set ces. wanted floor_utc db ce \<longrightarrow> scan_of (snd ce) \<in> scans db"
    and "fold (recon_record dev floor_utc) ces (db, t) = (db', t')"
  shows "db' = db \<and> new_count t' = new_count t"
proof -
  obtain n where n: "caught_up dev floor_utc ces db db' n" "new_count t' = new_count t + n"
    using sweep_from [OF assms(2)] by blast
  obtain added where a: "db' = db\<lparr>zk_records := zk_records db @ added\<rparr>" "length added = n"
    "row_scan ` set added \<inter> scans db = {}"
    "\<forall>r \<in> set added. \<exists>ce \<in> set ces. wanted floor_utc db ce \<and> r = new_record dev (snd ce)"
    using n(1) unfolding caught_up_def by blast
  have "added = []"
    using a(3,4) assms(1) by (cases added) auto
  with a n(2) show ?thesis by simp
qed

lemma watermark_mono:
  assumes "set (zk_records db) \<subseteq> set (zk_records db')" and "watermark dev db = Some w"
  obtains w' where "watermark dev db' = Some w'" "w \<le> w'"
proof -
  let ?mine = "\<lambda>x. filter (\<lambda>r. ar_device_id r = dev) (zk_records x)"
  obtain r where r: "newest ar_timestamp (?mine db) = Some r" "w = ar_timestamp r"
    using assms(2) by (auto simp: watermark_def)
  then have mem: "r \<in> set (?mine db')" using newest_Some [OF r(1)] assms(1) by auto
  then obtain r' where r': "newest ar_timestamp (?mine db') = Some r'"
    by (metis newest_None not_None_eq empty_iff list.set(1))
  have "ar_timestamp r \<le> ar_timestamp r'" using newest_Some [OF r'] mem by blast
  with r r' that show ?thesis by (simp add: watermark_def)
qed

lemma floor_mono:
  assumes "set (zk_records db) \<subseteq> set (zk_records db')" "now \<le> now'"
    and "over_floor (catchup_floor lookback_hours full now' dev db') e"
  shows "over_floor (catchup_floor lookback_hours full now dev db) e"
proof (cases "full \<or> watermark dev db = None")
  case True
  then show ?thesis by (auto simp: over_floor_def catchup_floor_def)
next
  case False
  then obtain w where w: "watermark dev db = Some w" by auto
  then obtain w' where w': "watermark dev db' = Some w'" "w \<le> w'"
    using watermark_mono [OF assms(1)] by blast
  from assms(2) w' have "min w now \<le> min w' now'" by (rule_tac min.mono)
  with assms(3) False w w' show ?thesis by (auto simp: over_floor_def catchup_floor_def)
qed

lemma caught_up_keeps:
  assumes "caught_up dev floor_utc ces db db' n"
  shows "zk_employees db' = zk_employees db" "zk_devices db' = zk_devices db"
    "active_device db' = active_device db" "enrolled db' b = enrolled db b"
    "set (zk_records db) \<subseteq> set (zk_records db')"
  using assms by (auto simp: caught_up_def active_device_def enrolled_def)

lemma handle_punch_scans: "scans db \<subseteq> scans (fst (handle_punch summary now now' e db))"
  by (auto simp: handle_punch_def finish_punch_def commit_punch_def scans_def insert_unique_def
      split: punch_check.splits option.splits if_splits)

lemma reconcile_scans: "scans db \<subseteq> scans (fst (reconcile_attendance lookback_hours full now ces db))"
proof (cases "active_device db")
  case None
  then show ?thesis by (simp add: reconcile_attendance_def)
next
  case (Some d)
  obtain db' n where r: "reconcile_attendance lookback_hours full now ces db = (db', n)" by fastforce
  have "scans db \<subseteq> scans db'"
    using reconcile_caught_up [OF r Some] unfolding caught_up_def by (elim exE conjE) simp
  with r show ?thesis by simp
qed

lemma reconcile_recovers:
  assumes "active_device db = Some d" "ce \<in> set ces"
    and "wanted (catchup_floor lookback_hours full now (dev_id d) db) db ce"
  shows "scan_of (snd ce) \<in> scans (fst (reconcile_attendance lookback_hours full now ces db))"
proof -
  obtain db' n where r: "reconcile_attendance lookback_hours full now ces db = (db', n)" by fastforce
  have "scans db' = scans db \<union> wanted_scans (catchup_floor lookback_hours full now (dev_id d) db) db ces"
    using reconcile_caught_up [OF r assms(1)] by (auto simp: caught_up_def)
  with assms(2,3) r show ?thesis by (auto simp: wanted_scans_def)
qed

section \<open>Catch-up recovers what was missed, once\<close>

text \<open>
  A catch-up adds exactly the scans of the device log that are sane, of an enrolled badge
  and above its floor, each once and only if no row has that badge and second, whatever the
  punch byte; the rows that were there stay in front, and the returned number counts the added
  ones. With \<open>full\<close> there is no floor. Running it again over the same log adds nothing.
\<close>

theorem catch_up_recovers:
  assumes "reconcile_attendance lookback_hours full now records db = (db', n)"
    and "active_device db = Some d" and "now \<le> now'"
  shows "scans db' = scans db \<union> {scan_of e | t e. (t, e) \<in> set records \<and> sane t e
           \<and> enrolled db (ev_user_id e) \<and> over_floor (catchup_floor lookback_hours full now (dev_id d) db) e}
     \<and> (\<exists>added. zk_records db' = zk_records db @ added \<and> length added = n
           \<and> distinct (map row_scan added) \<and> row_scan ` set added \<inter> scans db = {})
     \<and> reconcile_attendance lookback_hours full now' records db' = (db', 0)"
proof -
  let ?fl = "catchup_floor lookback_hours full now (dev_id d) db"
  let ?fl' = "catchup_floor lookback_hours full now' (dev_id d) db'"
  have cu: "caught_up (dev_id d) ?fl records db db' n" using assms(1,2) by (rule reconcile_caught_up)
  have sc: "scans db' = scans db \<union> wanted_scans ?fl db records" using cu by (auto simp: caught_up_def)
  then have 1: "scans db' = scans db \<union> {scan_of e | t e. (t, e) \<in> set records \<and> sane t e
      \<and> enrolled db (ev_user_id e) \<and> over_floor ?fl e}"
    by (simp only: wanted_scans_eq)
  have 2: "\<exists>added. zk_records db' = zk_records db @ added \<and> length added = n
      \<and> distinct (map row_scan added) \<and> row_scan ` set added \<inter> scans db = {}"
    using cu unfolding caught_up_def by auto
  note keeps = caught_up_keeps [OF cu]
  have "\<forall>ce \<in> set records. wanted ?fl' db' ce \<longrightarrow> scan_of (snd ce) \<in> scans db'"
    using floor_mono [OF keeps(5) assms(3)] sc
    by (auto simp: wanted_def wanted_scans_def keeps(4))
  then have "\<And>db'' t. fold (recon_record (dev_id d) ?fl') records (db', zero_tally) = (db'', t)
      \<Longrightarrow> db'' = db' \<and> new_count t = 0"
    using nothing_wanted [of records ?fl' db' "dev_id d" zero_tally] by (auto simp: zero_tally_def)
  then have "reconcile_attendance lookback_hours full now' records db' = (db', 0)"
    using assms(2) by (auto simp: reconcile_attendance_def recon_sweep_def keeps(3) split: prod.splits)
  with 1 2 show ?thesis by blast
qed

definition demo_emp :: employee where
  "demo_emp = \<lparr>badge_number = ''7'', english_name = None, thai_name = None, display_name = ''Noi'',
     department = None, position = None, is_active = True, is_hidden = False, line_user_id = None,
     line_display_name = None, line_picture_url = None, line_linking_code = None,
     line_linking_code_generated_at = None, emp_role = None, default_shift_id = None,
     emp_location = None, email = None, pending_approval = False, join_source = ''import'',
     nfc_card_uid = None\<rparr>"

definition demo_dev :: device where
  "demo_dev = \<lparr>dev_id = 1, dev_name = ''K40'', dev_ip_address = None, dev_port = None, dev_password = 0,
     dev_is_active = True, dev_last_sync = None, dev_device_type = ''fingerprint'',
     dev_device_metadata = None\<rparr>"

definition demo_zk :: zk_db where
  "demo_zk = \<lparr>zk_employees = [demo_emp], zk_devices = [demo_dev], zk_records = []\<rparr>"

definition demo_noon :: dtime where "demo_noon = midnight 739000 + 12 * hour_us"

definition demo_event :: "str \<Rightarrow> int \<Rightarrow> zk_event" where
  "demo_event badge p = \<lparr>ev_user_id = badge, ev_timestamp = demo_noon + 7 * hour_us, ev_punch = p,
     ev_status = 1\<rparr>"

definition demo_log :: "(dtime \<times> zk_event) list" where
  "demo_log = [(demo_noon, demo_event ''7'' 0), (demo_noon, demo_event ''9'' 0),
     (demo_noon, demo_event ''7'' 1)]"

lemmas demo_zk_defs = demo_zk_def demo_dev_def demo_emp_def demo_event_def demo_log_def demo_noon_def

lemma demo_catch_up:
  "reconcile_attendance 48 False demo_noon demo_log demo_zk
     = (demo_zk\<lparr>zk_records := [new_record 1 (demo_event ''7'' 0)]\<rparr>, 1)"
  by code_simp

lemma demo_device: "active_device demo_zk = Some demo_dev"
  by code_simp

lemma catch_up_recovers_witness:
  "reconcile_attendance 48 False demo_noon demo_log
       (demo_zk\<lparr>zk_records := [new_record 1 (demo_event ''7'' 0)]\<rparr>)
     = (demo_zk\<lparr>zk_records := [new_record 1 (demo_event ''7'' 0)]\<rparr>, 0)"
  by (rule catch_up_recovers [OF demo_catch_up demo_device order_refl, THEN conjunct2, THEN conjunct2])

section \<open>Interleavings\<close>

text \<open>
  Any number of threads: the session thread handles live punches and its own catch-up, the
  scheduler and the API run further catch-ups. A thread is between two database round trips;
  what it checked may be stale when it commits. The clock only moves forward. \<open>admin\<close> stands
  for every other endpoint: it may edit employees and devices at will but not the log;
  \<open>abort\<close> is a thread that dies of an exception, or a restart.
\<close>

datatype worker =
    Resting
  | PunchWaiting employee attendance_record
  | Sweeping int "dtime option" "zk_event list"
  | SweepWaiting int "dtime option" "zk_event list" attendance_record

record zk_world =
  zw_clock :: dtime
  zw_db :: zk_db
  zw_workers :: "nat \<Rightarrow> worker"

definition after_check :: "punch_check \<Rightarrow> worker" where
  "after_check c = (case c of PunchStaged emp r \<Rightarrow> PunchWaiting emp r | _ \<Rightarrow> Resting)"

definition after_recon :: "int \<Rightarrow> dtime option \<Rightarrow> zk_event list \<Rightarrow> recon_check \<Rightarrow> worker" where
  "after_recon dev floor_utc es c =
     (case c of ReconStaged r \<Rightarrow> SweepWaiting dev floor_utc es r | _ \<Rightarrow> Sweeping dev floor_utc es)"

definition or_same :: "'a option \<Rightarrow> 'a \<Rightarrow> 'a" where
  "or_same new old = (case new of None \<Rightarrow> old | Some x \<Rightarrow> x)"

inductive world_step :: "zk_world \<Rightarrow> zk_world \<Rightarrow> bool" where
  tick: "zw_clock w \<le> t \<Longrightarrow> world_step w (w\<lparr>zw_clock := t\<rparr>)"
| admin: "world_step w (w\<lparr>zw_db := (zw_db w)\<lparr>zk_employees := es, zk_devices := ds\<rparr>\<rparr>)"
| abort: "world_step w (w\<lparr>zw_workers := (zw_workers w)(i := Resting)\<rparr>)"
| punch_check: "zw_workers w i = Resting \<Longrightarrow>
    world_step w (w\<lparr>zw_workers := (zw_workers w)(i := after_check (check_punch (zw_clock w) (zw_db w) e))\<rparr>)"
| punch_commit: "zw_workers w i = PunchWaiting emp r \<Longrightarrow>
    world_step w (w\<lparr>zw_db := or_same (commit_punch (zw_clock w) r (zw_db w)) (zw_db w),
                    zw_workers := (zw_workers w)(i := Resting)\<rparr>)"
| sweep_start: "zw_workers w i = Resting \<Longrightarrow> active_device (zw_db w) = Some d \<Longrightarrow>
    world_step w (w\<lparr>zw_workers := (zw_workers w)(i := Sweeping (dev_id d)
        (catchup_floor lookback_hours full (zw_clock w) (dev_id d) (zw_db w)) es)\<rparr>)"
| sweep_check: "zw_workers w i = Sweeping dev floor_utc (e # es) \<Longrightarrow>
    world_step w (w\<lparr>zw_workers := (zw_workers w)(i := after_recon dev floor_utc es
        (check_recon (zw_clock w) dev floor_utc (zw_db w) e))\<rparr>)"
| sweep_commit: "zw_workers w i = SweepWaiting dev floor_utc es r \<Longrightarrow>
    world_step w (w\<lparr>zw_db := or_same (commit_record r (zw_db w)) (zw_db w),
                    zw_workers := (zw_workers w)(i := Sweeping dev floor_utc es)\<rparr>)"

inductive_cases world_stepE: "world_step w w'"

text \<open>
  The specification: an append-only log of distinct punches. A step lets the clock advance
  and appends at most one row, whose key is new and whose stamp passes the quarantine rule.
\<close>

definition sane_row :: "dtime \<Rightarrow> attendance_record \<Rightarrow> bool" where
  "sane_row now r = (sanity_reject_reason now (utc_naive_to_bangkok_naive (ar_timestamp r)) = None)"

definition log_step :: "dtime \<times> attendance_record list \<Rightarrow> dtime \<times> attendance_record list \<Rightarrow> bool" where
  "log_step a b \<longleftrightarrow> fst a \<le> fst b
     \<and> (snd b = snd a
        \<or> (\<exists>r. sane_row (fst b) r \<and> ar_key r \<notin> ar_key ` set (snd a) \<and> snd b = snd a @ [r]))"

definition punch_log :: "zk_world \<Rightarrow> dtime \<times> attendance_record list" where
  "punch_log w = (zw_clock w, zk_records (zw_db w))"

definition staged_row :: "worker \<Rightarrow> attendance_record option" where
  "staged_row k = (case k of PunchWaiting emp r \<Rightarrow> Some r | SweepWaiting dev fl es r \<Rightarrow> Some r | _ \<Rightarrow> None)"

definition world_inv :: "zk_world \<Rightarrow> bool" where
  "world_inv w \<longleftrightarrow> distinct (map ar_key (zk_records (zw_db w)))
     \<and> (\<forall>r \<in> set (zk_records (zw_db w)). sane_row (zw_clock w) r)
     \<and> (\<forall>i r. staged_row (zw_workers w i) = Some r \<longrightarrow> sane_row (zw_clock w) r)"

lemma staged_row_simps [simp]:
  "staged_row Resting = None" "staged_row (Sweeping dev fl es) = None"
  "staged_row (PunchWaiting emp r) = Some r" "staged_row (SweepWaiting dev fl es r) = Some r"
  by (simp_all add: staged_row_def)

lemma sane_row_mono: "sane_row now r \<Longrightarrow> now \<le> now' \<Longrightarrow> sane_row now' r"
  by (auto simp: sane_row_def sanity_reject_reason_def utc_naive_to_bangkok_naive_def split: if_splits)

lemma sane_new_record: "sane_row now (new_record dev e) = sane now e"
  by (simp add: sane_row_def sane_def scan_of_def utc_naive_to_bangkok_naive_def
      bangkok_naive_to_utc_naive_def)

lemma check_punch_staged: "check_punch now db e = PunchStaged emp r \<Longrightarrow> sane_row now r"
  by (auto simp: check_punch_def sane_new_record sane_def Let_def
      split: option.splits if_splits simp del: not_None_eq)

lemma staged_after_check: "staged_row (after_check (check_punch now db e)) = Some r \<Longrightarrow> sane_row now r"
  by (auto simp: after_check_def split: punch_check.splits dest: check_punch_staged)

lemma staged_after_recon:
  "staged_row (after_recon dev floor_utc es (check_recon now dev floor_utc db e)) = Some r \<Longrightarrow> sane_row now r"
  by (auto simp: after_recon_def sane_new_record check_recon_staged wanted_def split: recon_check.splits)

lemma commit_rows:
  "zk_records (or_same (commit_punch now r db) db)
     = (if ar_key r \<in> ar_key ` set (zk_records db) then zk_records db else zk_records db @ [r])"
  "zk_records (or_same (commit_record r db) db)
     = (if ar_key r \<in> ar_key ` set (zk_records db) then zk_records db else zk_records db @ [r])"
  by (auto simp: or_same_def commit_punch_def commit_record_def insert_unique_def)

lemma world_inv_add:
  assumes "world_inv w" "staged_row (zw_workers w i) = Some r" "staged_row k = None"
    and "zk_records db' = (if ar_key r \<in> ar_key ` set (zk_records (zw_db w)) then zk_records (zw_db w)
                           else zk_records (zw_db w) @ [r])"
  shows "world_inv (w\<lparr>zw_db := db', zw_workers := (zw_workers w)(i := k)\<rparr>)"
  using assms by (auto simp: world_inv_def)

lemma world_inv_stage:
  "world_inv w \<Longrightarrow> (\<And>r. staged_row k = Some r \<Longrightarrow> sane_row (zw_clock w) r)
   \<Longrightarrow> world_inv (w\<lparr>zw_workers := (zw_workers w)(i := k)\<rparr>)"
  by (auto simp: world_inv_def)

lemma world_inv_tick: "world_inv w \<Longrightarrow> zw_clock w \<le> t \<Longrightarrow> world_inv (w\<lparr>zw_clock := t\<rparr>)"
  unfolding world_inv_def by (auto intro: sane_row_mono)

lemma world_inv_staged: "world_inv w \<Longrightarrow> staged_row (zw_workers w i) = Some r \<Longrightarrow> sane_row (zw_clock w) r"
  by (auto simp: world_inv_def)

lemma world_inv_step:
  assumes "world_inv w" "world_step w w'"
  shows "world_inv w'"
  using assms(2)
proof (cases rule: world_step.cases)
  case (tick t)
  then show ?thesis using assms(1) world_inv_tick by simp
next
  case (admin es ds)
  then show ?thesis using assms(1) by (simp add: world_inv_def)
next
  case (abort i)
  then show ?thesis using assms(1) by (auto intro: world_inv_stage)
next
  case (punch_check i e)
  then show ?thesis using assms(1) staged_after_check by (auto intro: world_inv_stage)
next
  case (punch_commit i emp r)
  then show ?thesis using world_inv_add [OF assms(1)] commit_rows(1) by auto
next
  case (sweep_start i d lookback_hours full es)
  then show ?thesis using assms(1) by (auto intro: world_inv_stage)
next
  case (sweep_check i dev floor_utc e es)
  then show ?thesis using assms(1) staged_after_recon by (auto intro: world_inv_stage)
next
  case (sweep_commit i dev floor_utc es r)
  then show ?thesis using world_inv_add [OF assms(1)] commit_rows(2) by auto
qed

lemma world_log_step:
  assumes "world_inv w" "world_step w w'"
  shows "log_step (punch_log w) (punch_log w')"
  using assms(2)
proof (cases rule: world_step.cases)
  case (punch_commit i emp r)
  then have "sane_row (zw_clock w) r" using world_inv_staged [OF assms(1), of i] by simp
  then show ?thesis using punch_commit(1) by (auto simp: log_step_def punch_log_def commit_rows)
next
  case (sweep_commit i dev floor_utc es r)
  then have "sane_row (zw_clock w) r" using world_inv_staged [OF assms(1), of i] by simp
  then show ?thesis using sweep_commit(1) by (auto simp: log_step_def punch_log_def commit_rows)
qed (auto simp: log_step_def punch_log_def)

interpretation ingest: simulation world_step world_inv punch_log log_step
  by unfold_locales (fact world_inv_step, fact world_log_step)

definition fresh_world :: "dtime \<Rightarrow> employee list \<Rightarrow> device list \<Rightarrow> zk_world" where
  "fresh_world now es ds = \<lparr>zw_clock = now,
     zw_db = \<lparr>zk_employees = es, zk_devices = ds, zk_records = []\<rparr>, zw_workers = (\<lambda>_. Resting)\<rparr>"

lemma fresh_world_inv: "world_inv (fresh_world now es ds)"
  by (simp add: world_inv_def fresh_world_def)

text \<open>
  The two operations, run to the end by one thread, are runs of the step relation, so what is
  shown of every interleaving holds of them as well.
\<close>

lemma world_same [simp]: "w\<lparr>zw_db := zw_db w\<rparr> = w" "w\<lparr>zw_workers := zw_workers w\<rparr> = w"
  by simp_all

lemma handle_punch_run:
  assumes "zw_workers w i = Resting"
  shows "world_step\<^sup>*\<^sup>* w (w\<lparr>zw_db := fst (handle_punch summary (zw_clock w) (zw_clock w) e (zw_db w))\<rparr>)"
proof -
  let ?c = "check_punch (zw_clock w) (zw_db w) e"
  let ?w1 = "w\<lparr>zw_workers := (zw_workers w)(i := after_check ?c)\<rparr>"
  have 1: "world_step w ?w1" using assms by (rule world_step.punch_check)
  show ?thesis
  proof (cases "\<exists>emp r. ?c = PunchStaged emp r")
    case True
    then obtain emp r where c: "?c = PunchStaged emp r" by blast
    have 2: "world_step ?w1 (w\<lparr>zw_db := or_same (commit_punch (zw_clock w) r (zw_db w)) (zw_db w)\<rparr>)"
      using world_step.punch_commit [of ?w1 i emp r] assms by (simp add: c after_check_def fun_upd_idem)
    have "fst (handle_punch summary (zw_clock w) (zw_clock w) e (zw_db w))
        = or_same (commit_punch (zw_clock w) r (zw_db w)) (zw_db w)"
      by (simp add: handle_punch_def c finish_punch_def or_same_def split: option.splits)
    then show ?thesis
      using converse_rtranclp_into_rtranclp [of world_step, OF 1 r_into_rtranclp [of world_step, OF 2]]
      by (simp only:)
  next
    case False
    then have "fst (handle_punch summary (zw_clock w) (zw_clock w) e (zw_db w)) = zw_db w"
      by (auto simp: handle_punch_def split: punch_check.splits)
    then show ?thesis by simp
  qed
qed

lemma sweep_run:
  "zw_workers w i = Sweeping dev floor_utc es \<Longrightarrow>
     \<exists>w'. world_step\<^sup>*\<^sup>* w w' \<and> zw_clock w' = zw_clock w
       \<and> zw_db w' = fst (fold (recon_record dev floor_utc) (map (Pair (zw_clock w)) es) (zw_db w, t))"
proof (induction es arbitrary: w t)
  case Nil
  then show ?case by auto
next
  case (Cons e es)
  let ?c = "check_recon (zw_clock w) dev floor_utc (zw_db w) e"
  let ?next = "recon_record dev floor_utc (zw_clock w, e) (zw_db w, t)"
  let ?w1 = "w\<lparr>zw_workers := (zw_workers w)(i := after_recon dev floor_utc es ?c)\<rparr>"
  have 1: "world_step w ?w1" using Cons.prems by (rule world_step.sweep_check)
  have "\<exists>w2. world_step\<^sup>*\<^sup>* ?w1 w2 \<and> zw_workers w2 i = Sweeping dev floor_utc es
      \<and> zw_db w2 = fst ?next \<and> zw_clock w2 = zw_clock w"
  proof (cases "\<exists>r. ?c = ReconStaged r")
    case True
    then obtain r where c: "?c = ReconStaged r" by blast
    have "fst ?next = or_same (commit_record r (zw_db w)) (zw_db w)"
      by (simp add: recon_record_def c or_same_def split: option.splits)
    moreover have "zw_workers ?w1 i = SweepWaiting dev floor_utc es r" by (simp add: c after_recon_def)
    then have "world_step ?w1 (?w1\<lparr>zw_db := or_same (commit_record r (zw_db ?w1)) (zw_db ?w1),
        zw_workers := (zw_workers ?w1)(i := Sweeping dev floor_utc es)\<rparr>)" by (rule world_step.sweep_commit)
    ultimately show ?thesis by (intro exI conjI, erule_tac r_into_rtranclp) simp_all
  next
    case False
    then have "zw_workers ?w1 i = Sweeping dev floor_utc es" "fst ?next = zw_db w"
      by (auto simp: after_recon_def recon_record_def split: recon_check.splits)
    then show ?thesis by (intro exI [of _ ?w1]) simp
  qed
  then obtain w2 where w2: "world_step\<^sup>*\<^sup>* ?w1 w2" "zw_workers w2 i = Sweeping dev floor_utc es"
    "zw_db w2 = fst ?next" "zw_clock w2 = zw_clock w" by blast
  obtain w' where "world_step\<^sup>*\<^sup>* w2 w'" "zw_clock w' = zw_clock w"
    "zw_db w' = fst (fold (recon_record dev floor_utc) (map (Pair (zw_clock w)) es) ?next)"
    using Cons.IH [OF w2(2), of "snd ?next"] w2(3,4) by auto
  moreover have "world_step\<^sup>*\<^sup>* w w2" using 1 w2(1) by (rule converse_rtranclp_into_rtranclp)
  ultimately show ?case by (intro exI [of _ w']) (auto intro: rtranclp_trans)
qed

lemma reconcile_run:
  assumes "zw_workers w i = Resting"
  obtains w' where "world_step\<^sup>*\<^sup>* w w'" "zw_db w' = fst (reconcile_attendance lookback_hours full
      (zw_clock w) (map (Pair (zw_clock w)) es) (zw_db w))"
proof (cases "active_device (zw_db w)")
  case None
  then show ?thesis using that [of w] by (simp add: reconcile_attendance_def)
next
  case (Some d)
  let ?fl = "catchup_floor lookback_hours full (zw_clock w) (dev_id d) (zw_db w)"
  let ?w1 = "w\<lparr>zw_workers := (zw_workers w)(i := Sweeping (dev_id d) ?fl es)\<rparr>"
  have "world_step w ?w1" using assms Some by (rule world_step.sweep_start)
  moreover obtain w' where w': "world_step\<^sup>*\<^sup>* ?w1 w'" "zw_db w' = fst (fold (recon_record (dev_id d) ?fl)
      (map (Pair (zw_clock w)) es) (zw_db w, zero_tally))"
    using sweep_run [of ?w1 i "dev_id d" ?fl es zero_tally] by auto
  moreover have "zw_db w' = fst (reconcile_attendance lookback_hours full
      (zw_clock w) (map (Pair (zw_clock w)) es) (zw_db w))"
    using w'(2) by (simp add: reconcile_attendance_def Some recon_sweep_def split: prod.splits)
  ultimately show ?thesis using that converse_rtranclp_into_rtranclp by metis
qed

section \<open>The log under every interleaving\<close>


definition race0 :: zk_world where "race0 = fresh_world demo_noon [demo_emp] [demo_dev]"

definition race_row :: attendance_record where "race_row = new_record 1 (demo_event ''7'' 0)"

definition race_staged :: zk_world where
  "race_staged = race0\<lparr>zw_workers := (\<lambda>_. Resting)(0 := PunchWaiting demo_emp race_row,
     1 := SweepWaiting 1 None [] race_row)\<rparr>"

lemma race_checks:
  "check_punch demo_noon demo_zk (demo_event ''7'' 0) = PunchStaged demo_emp race_row"
  "check_recon demo_noon 1 None demo_zk (demo_event ''7'' 0) = ReconStaged race_row"
  "catchup_floor 48 True demo_noon 1 demo_zk = None"
  by code_simp+

lemma race0_parts: "zw_clock race0 = demo_noon" "zw_db race0 = demo_zk" "zw_workers race0 = (\<lambda>_. Resting)"
  by (simp_all add: race0_def fresh_world_def demo_zk_def)

lemma race_to_staged: "world_step\<^sup>*\<^sup>* race0 race_staged"
proof -
  let ?w1 = "race0\<lparr>zw_workers := (\<lambda>_. Resting)(0 := PunchWaiting demo_emp race_row)\<rparr>"
  let ?w2 = "race0\<lparr>zw_workers := (\<lambda>_. Resting)(0 := PunchWaiting demo_emp race_row,
     1 := Sweeping 1 None [demo_event ''7'' 0])\<rparr>"
  have "world_step race0 ?w1"
    using world_step.punch_check [of race0 0 "demo_event ''7'' 0"]
    by (simp add: race0_parts race_checks after_check_def)
  moreover have "world_step ?w1 ?w2"
    using world_step.sweep_start [of ?w1 1 demo_dev 48 True "[demo_event ''7'' 0]"]
    by (simp add: race0_parts race_checks demo_device) (simp add: demo_dev_def race_checks)
  moreover have "world_step ?w2 race_staged"
    using world_step.sweep_check [of ?w2 1 1 None "demo_event ''7'' 0" "[]"]
    by (simp add: race0_parts race_checks after_recon_def race_staged_def)
  ultimately show ?thesis by (meson converse_rtranclp_into_rtranclp rtranclp.rtrancl_refl)
qed

lemma race_to_end:
  obtains w where "world_step\<^sup>*\<^sup>* race_staged w" "zk_records (zw_db w) = [race_row]"
proof -
  let ?w1 = "race_staged\<lparr>zw_db := or_same (commit_punch demo_noon race_row demo_zk) demo_zk,
      zw_workers := (zw_workers race_staged)(0 := Resting)\<rparr>"
  let ?w2 = "?w1\<lparr>zw_db := or_same (commit_record race_row (zw_db ?w1)) (zw_db ?w1),
      zw_workers := (zw_workers ?w1)(1 := Sweeping 1 None [])\<rparr>"
  have "world_step race_staged ?w1"
    using world_step.punch_commit [of race_staged 0 demo_emp race_row]
    by (simp add: race_staged_def race0_parts)
  moreover have "world_step ?w1 ?w2"
    using world_step.sweep_commit [of ?w1 1 1 None "[]" race_row] by (simp add: race_staged_def)
  ultimately have "world_step\<^sup>*\<^sup>* race_staged ?w2" by (meson converse_rtranclp_into_rtranclp rtranclp.rtrancl_refl)
  moreover have "zk_records (zw_db ?w2) = [race_row]" by (simp add: commit_rows) (simp add: demo_zk_def)
  ultimately show ?thesis by (rule that)
qed


end
