(* ===== verification/ZkSession.thy ===== *)
theory ZkSession
  imports Interfaces "HOL-Library.Sublist"
begin

text \<open>
  The state of \<open>ZkSession\<close> (\<open>app/services/zk_session.py\<close>) and the parts of it that are
  shared between threads: the queue of submitted operations with their futures, the loops that
  drain and that fail it, and the record of evictions with the reconnect backoff. What an
  operation does to the reader is the parameter \<open>run_op\<close>: it maps the connection to the
  connection afterwards and an exception or a result.
\<close>

section \<open>The session\<close>

datatype ('r, 'x) future = Pending | Resolved 'r | Raised 'x

record ('o, 'r, 'x) zk_session =
  ss_queue :: "(nat \<times> 'o) list"
  ss_futures :: "nat \<Rightarrow> ('r, 'x) future option"
  ss_next :: nat
  ss_started :: bool
  ss_shutdown :: bool
  ss_needs_catch_up :: bool
  ss_kick_times :: "real list"
  ss_kick_backoff :: real
  ss_backoff :: real

definition BACKOFF_MIN_SECONDS :: real where "BACKOFF_MIN_SECONDS = 5"
definition BACKOFF_MAX_SECONDS :: real where "BACKOFF_MAX_SECONDS = 60"
definition KICK_BACKOFF_MAX_SECONDS :: real where "KICK_BACKOFF_MAX_SECONDS = 60"
definition KICK_CONSECUTIVE_WINDOW_SECONDS :: real where "KICK_CONSECUTIVE_WINDOW_SECONDS = 120"
definition KICK_HISTORY_SECONDS :: real where "KICK_HISTORY_SECONDS = 3600"

lemmas zk_constants = BACKOFF_MIN_SECONDS_def BACKOFF_MAX_SECONDS_def KICK_BACKOFF_MAX_SECONDS_def
  KICK_CONSECUTIVE_WINDOW_SECONDS_def KICK_HISTORY_SECONDS_def

text \<open>\<open>base\<close> is \<open>ZK_KICK_BACKOFF_SECONDS\<close>.\<close>

definition new_session :: "real \<Rightarrow> ('o, 'r, 'x) zk_session" where
  "new_session base = \<lparr>ss_queue = [], ss_futures = (\<lambda>_. None), ss_next = 0, ss_started = False,
     ss_shutdown = False, ss_needs_catch_up = True, ss_kick_times = [], ss_kick_backoff = base,
     ss_backoff = BACKOFF_MIN_SECONDS\<rparr>"

text \<open>\<open>start\<close> with the entry of the thread's \<open>_run\<close>, which resets its local backoff.\<close>

definition zk_start :: "('o, 'r, 'x) zk_session \<Rightarrow> ('o, 'r, 'x) zk_session" where
  "zk_start s = (if ss_started s then s
     else s\<lparr>ss_shutdown := False, ss_started := True, ss_needs_catch_up := True,
            ss_backoff := BACKOFF_MIN_SECONDS\<rparr>)"

text \<open>
  \<open>shutdown\<close> sets the event, waits for the thread for at most ten seconds and only then marks
  the session stopped; in between operations are still accepted.
\<close>

definition shutdown_request :: "('o, 'r, 'x) zk_session \<Rightarrow> ('o, 'r, 'x) zk_session" where
  "shutdown_request s = (if \<not> ss_started s then s else s\<lparr>ss_shutdown := True\<rparr>)"

definition shutdown_return :: "('o, 'r, 'x) zk_session \<Rightarrow> ('o, 'r, 'x) zk_session" where
  "shutdown_return s = s\<lparr>ss_started := False\<rparr>"

section \<open>Submitting\<close>

definition enqueue :: "'o \<Rightarrow> ('o, 'r, 'x) zk_session \<Rightarrow> ('o, 'r, 'x) zk_session" where
  "enqueue op s = s\<lparr>ss_queue := ss_queue s @ [(ss_next s, op)],
     ss_futures := (ss_futures s)(ss_next s \<mapsto> Pending), ss_next := Suc (ss_next s)\<rparr>"

datatype ('r, 'x) submitted = Queued nat | Direct "'x + 'r"

definition run_op_one_shot :: "('o \<Rightarrow> 'd \<Rightarrow> 'd \<times> ('x + 'r)) \<Rightarrow> 'x + 'd \<Rightarrow> 'o \<Rightarrow> 'x + 'r" where
  "run_op_one_shot run_op conn op = (case conn of Inl x \<Rightarrow> Inl x | Inr d \<Rightarrow> snd (run_op op d))"

definition submit_op ::
  "('o \<Rightarrow> 'd \<Rightarrow> 'd \<times> ('x + 'r)) \<Rightarrow> 'x + 'd \<Rightarrow> 'o \<Rightarrow> ('o, 'r, 'x) zk_session
     \<Rightarrow> ('o, 'r, 'x) zk_session \<times> ('r, 'x) submitted" where
  "submit_op run_op conn op s =
     (if \<not> ss_started s then (s, Direct (run_op_one_shot run_op conn op))
      else (enqueue op s, Queued (ss_next s)))"

text \<open>\<open>future.result(timeout)\<close> when the wait is over; \<open>late\<close> is its \<open>TimeoutError\<close>.\<close>

definition future_result :: "'x \<Rightarrow> nat \<Rightarrow> ('o, 'r, 'x) zk_session \<Rightarrow> 'x + 'r" where
  "future_result late i s = (case ss_futures s i of
       Some (Resolved r) \<Rightarrow> Inr r | Some (Raised x) \<Rightarrow> Inl x | _ \<Rightarrow> Inl late)"

text \<open>What other threads do to the session while its own thread is busy.\<close>

datatype 'o action = Submit 'o | ShutdownRequest | ShutdownReturn

definition act :: "'o action \<Rightarrow> ('o, 'r, 'x) zk_session \<Rightarrow> ('o, 'r, 'x) zk_session" where
  "act a s = (case a of Submit op \<Rightarrow> if ss_started s then enqueue op s else s
     | ShutdownRequest \<Rightarrow> shutdown_request s | ShutdownReturn \<Rightarrow> shutdown_return s)"

definition acts :: "'o action list \<Rightarrow> ('o, 'r, 'x) zk_session \<Rightarrow> ('o, 'r, 'x) zk_session" where
  "acts as s = fold act as s"

definition head_acts :: "'o action list list \<Rightarrow> 'o action list" where
  "head_acts ass = (case ass of [] \<Rightarrow> [] | as # _ \<Rightarrow> as)"

section \<open>Draining the queue\<close>

definition future_of :: "'x + 'r \<Rightarrow> ('r, 'x) future" where
  "future_of out = (case out of Inl x \<Rightarrow> Raised x | Inr r \<Rightarrow> Resolved r)"

text \<open>
  \<open>set_result\<close> and \<open>set_exception\<close> raise on a future that is already done. In
  \<open>_drain_op_queue\<close> a raising \<open>set_result\<close> is caught, but the \<open>set_exception\<close> of the handler
  raises again and leaves the loop: None.
\<close>

definition resolve :: "nat \<Rightarrow> ('r, 'x) future \<Rightarrow> ('o, 'r, 'x) zk_session \<Rightarrow> ('o, 'r, 'x) zk_session option" where
  "resolve i f s = (if (case ss_futures s i of Some Pending \<Rightarrow> True | _ \<Rightarrow> False)
     then Some (s\<lparr>ss_futures := (ss_futures s)(i \<mapsto> f)\<rparr>) else None)"

datatype ('o, 'r, 'x, 'd) drain_end =
    Drained nat 'd "('o, 'r, 'x) zk_session"
  | DrainRaised 'd "('o, 'r, 'x) zk_session"

lemma acts_simps [simp]: "acts [] s = s" "acts (a # as) s = acts as (act a s)"
  by (simp_all add: acts_def)

lemma length_queue_act: "length (ss_queue (act a s)) \<le> Suc (length (ss_queue s))"
  by (cases a) (simp_all add: act_def enqueue_def shutdown_request_def shutdown_return_def)

lemma length_queue_acts: "length (ss_queue (acts as s)) \<le> length (ss_queue s) + length as"
proof (induction as arbitrary: s)
  case Nil
  then show ?case by simp
next
  case (Cons a as)
  show ?case using Cons.IH [of "act a s"] length_queue_act [of a s] by simp
qed

lemma resolve_queue: "resolve i f s = Some s' \<Longrightarrow> ss_queue s' = ss_queue s"
  by (auto simp: resolve_def split: if_splits)

text \<open>The work that is left: queued operations and those still to be submitted.\<close>

definition pending_work :: "'o action list list \<Rightarrow> ('o, 'r, 'x) zk_session \<Rightarrow> nat" where
  "pending_work ass s = length (ss_queue s) + sum_list (map length ass)"

lemma pending_work_less:
  assumes "ss_queue s = e # q"
    and "ss_queue s' = ss_queue (acts (head_acts ass) (s\<lparr>ss_queue := q\<rparr>))"
  shows "pending_work (tl ass) s' < pending_work ass s"
  using assms length_queue_acts [of "head_acts ass" "s\<lparr>ss_queue := q\<rparr>"]
  by (cases ass) (auto simp: pending_work_def head_acts_def)

text \<open>
  \<open>_drain_op_queue\<close>: \<open>ass\<close> holds, for each operation run, what other threads do meanwhile.
\<close>

function drain_op_queue ::
  "('o \<Rightarrow> 'd \<Rightarrow> 'd \<times> ('x + 'r)) \<Rightarrow> 'o action list list \<Rightarrow> nat \<Rightarrow> 'd \<Rightarrow> ('o, 'r, 'x) zk_session
     \<Rightarrow> ('o, 'r, 'x, 'd) drain_end" where
  "drain_op_queue run_op ass n d s =
     (case ss_queue s of
        [] \<Rightarrow> Drained n d s
      | (i, op) # q \<Rightarrow>
          (case run_op op d of (d', out) \<Rightarrow>
             let s1 = acts (head_acts ass) (s\<lparr>ss_queue := q\<rparr>) in
             case resolve i (future_of out) s1 of
               None \<Rightarrow> DrainRaised d' s1
             | Some s2 \<Rightarrow> drain_op_queue run_op (tl ass) (Suc n) d' s2))"
  by pat_completeness auto
termination
  by (relation "measure (\<lambda>(run_op, ass, n, d, s). pending_work ass s)")
    (auto intro!: pending_work_less dest: resolve_queue)

declare drain_op_queue.simps [simp del]

text \<open>\<open>_fail_queued_ops\<close>: a future that is already done is passed over.\<close>

function fail_queued_ops ::
  "'x \<Rightarrow> 'o action list list \<Rightarrow> ('o, 'r, 'x) zk_session \<Rightarrow> ('o, 'r, 'x) zk_session" where
  "fail_queued_ops exc ass s =
     (case ss_queue s of
        [] \<Rightarrow> s
      | (i, op) # q \<Rightarrow>
          let s1 = acts (head_acts ass) (s\<lparr>ss_queue := q\<rparr>) in
          fail_queued_ops exc (tl ass)
            (case resolve i (Raised exc) s1 of None \<Rightarrow> s1 | Some s2 \<Rightarrow> s2))"
  by pat_completeness auto
termination
  by (relation "measure (\<lambda>(exc, ass, s). pending_work ass s)")
    (auto intro!: pending_work_less dest: resolve_queue split: option.splits)

declare fail_queued_ops.simps [simp del]

section \<open>Every queued future is pending\<close>

definition session_ok :: "('o, 'r, 'x) zk_session \<Rightarrow> bool" where
  "session_ok s \<longleftrightarrow> distinct (map fst (ss_queue s))
     \<and> (\<forall>i \<in> set (map fst (ss_queue s)). ss_futures s i = Some Pending)
     \<and> (\<forall>i. ss_futures s i \<noteq> None \<longrightarrow> i < ss_next s)"

text \<open>What any sequence of foreign actions may have changed.\<close>

definition extended :: "('o, 'r, 'x) zk_session \<Rightarrow> ('o, 'r, 'x) zk_session \<Rightarrow> bool" where
  "extended s s' \<longleftrightarrow> (\<exists>new. ss_queue s' = ss_queue s @ new \<and> (\<forall>i \<in> fst ` set new. ss_next s \<le> i))
     \<and> ss_next s \<le> ss_next s' \<and> (\<forall>i < ss_next s. ss_futures s' i = ss_futures s i)"

lemma extended_refl: "extended s s"
  by (simp add: extended_def)

lemma extended_trans: "extended s t \<Longrightarrow> extended t u \<Longrightarrow> extended s u"
  by (fastforce simp: extended_def)

lemma new_session_ok: "session_ok (new_session base)"
  by (simp add: session_ok_def new_session_def)

lemma act_ok: "session_ok s \<Longrightarrow> session_ok (act a s)"
  by (cases a) (force simp: session_ok_def act_def enqueue_def shutdown_request_def shutdown_return_def)+

lemma act_extended: "extended s (act a s)"
  by (cases a) (auto simp: extended_def act_def enqueue_def shutdown_request_def shutdown_return_def)

lemma acts_ok: "session_ok s \<Longrightarrow> session_ok (acts as s)"
  by (induction as arbitrary: s) (auto intro: act_ok)

lemma acts_extended: "extended s (acts as s)"
  by (induction as arbitrary: s) (auto intro: extended_refl act_extended extended_trans)

lemma pop_ok: "session_ok s \<Longrightarrow> ss_queue s = e # q \<Longrightarrow> session_ok (s\<lparr>ss_queue := q\<rparr>)"
  by (auto simp: session_ok_def)

text \<open>
  One turn of either loop: the popped future is still pending after the foreign actions, and
  settling it keeps the session well formed.
\<close>

lemma turn:
  assumes "session_ok s" and "ss_queue s = (i, op) # q"
  obtains s2 new where "resolve i f (acts as (s\<lparr>ss_queue := q\<rparr>)) = Some s2" "session_ok s2"
    "ss_queue s2 = q @ new" "\<forall>j \<in> fst ` set new. ss_next s \<le> j" "ss_next s \<le> ss_next s2"
    "ss_futures s2 i = Some f" "\<forall>j < ss_next s. j \<noteq> i \<longrightarrow> ss_futures s2 j = ss_futures s j"
    "i < ss_next s" "i \<notin> fst ` set (q @ new)"
proof -
  let ?s1 = "acts as (s\<lparr>ss_queue := q\<rparr>)"
  have ok: "session_ok ?s1" using pop_ok [OF assms] by (rule acts_ok)
  obtain new where new: "ss_queue ?s1 = q @ new" "\<forall>j \<in> fst ` set new. ss_next s \<le> j"
    and nxt: "ss_next s \<le> ss_next ?s1" and same: "\<forall>j < ss_next s. ss_futures ?s1 j = ss_futures s j"
    using acts_extended [of "s\<lparr>ss_queue := q\<rparr>" as] by (auto simp: extended_def)
  have i: "ss_futures s i = Some Pending" "i < ss_next s" "i \<notin> fst ` set q"
    using assms by (auto simp: session_ok_def)
  then have pend: "ss_futures ?s1 i = Some Pending" using same by simp
  have inew: "i \<notin> fst ` set (q @ new)" using i new(2) by fastforce
  let ?s2 = "?s1\<lparr>ss_futures := (ss_futures ?s1)(i \<mapsto> f)\<rparr>"
  have ok2: "session_ok ?s2"
    using ok inew new(1) i(2) nxt unfolding session_ok_def by (auto simp: image_Un)
  show ?thesis
    by (rule that [of ?s2 new])
      (use ok2 pend new nxt same i inew in \<open>simp_all add: resolve_def\<close>)
qed

section \<open>Both loops settle every operation once\<close>

text \<open>The reference: the operations one after the other on one connection.\<close>

fun run_all :: "('o \<Rightarrow> 'd \<Rightarrow> 'd \<times> ('x + 'r)) \<Rightarrow> 'o list \<Rightarrow> 'd \<Rightarrow> 'd \<times> ('x + 'r) list" where
  "run_all run_op [] d = (d, [])"
| "run_all run_op (op # ops) d =
     (let now = run_op op d; rest = run_all run_op ops (fst now) in (fst rest, snd now # snd rest))"

lemma length_run_all: "length (snd (run_all run_op ops d)) = length ops"
  by (induction ops arbitrary: d) (auto simp: Let_def)

definition settled ::
  "('o, 'r, 'x) zk_session \<Rightarrow> (nat \<times> 'o) list \<Rightarrow> ('x + 'r) list \<Rightarrow> ('o, 'r, 'x) zk_session \<Rightarrow> bool" where
  "settled s done_ops outs s' \<longleftrightarrow> ss_queue s' = [] \<and> session_ok s'
     \<and> prefix (ss_queue s) done_ops \<and> distinct (map fst done_ops) \<and> length outs = length done_ops
     \<and> (\<forall>k < length done_ops. ss_futures s' (fst (done_ops ! k)) = Some (future_of (outs ! k)))
     \<and> (\<forall>i < ss_next s. i \<notin> fst ` set done_ops \<longrightarrow> ss_futures s' i = ss_futures s i)
     \<and> (\<forall>i \<in> fst ` set done_ops. i \<in> fst ` set (ss_queue s) \<or> ss_next s \<le> i)"

lemma settled_Nil: "session_ok s \<Longrightarrow> ss_queue s = [] \<Longrightarrow> settled s [] [] s"
  by (simp add: settled_def)

lemma settled_answers:
  assumes "settled s ex outs s'" "i \<in> fst ` set (ss_queue s)"
  shows "\<exists>f. ss_futures s' i = Some f \<and> f \<noteq> Pending"
proof -
  have "prefix (ss_queue s) ex" using assms(1) by (simp add: settled_def)
  then have "i \<in> fst ` set ex" using assms(2) set_mono_prefix by blast
  then obtain k where "k < length ex" "i = fst (ex ! k)" by (auto simp: in_set_conv_nth)
  then have "ss_futures s' i = Some (future_of (outs ! k))" using assms(1) by (simp add: settled_def)
  then show ?thesis by (auto simp: future_of_def split: sum.splits)
qed

lemma settled_turn:
  assumes "ss_queue s = (i, op) # q"
    and "ss_queue s2 = q @ new" "\<forall>j \<in> fst ` set new. ss_next s \<le> j" "ss_next s \<le> ss_next s2"
    and "ss_futures s2 i = Some (future_of out)"
    and "\<forall>j < ss_next s. j \<noteq> i \<longrightarrow> ss_futures s2 j = ss_futures s j"
    and "i < ss_next s" "i \<notin> fst ` set (q @ new)"
    and st: "settled s2 ex outs s'"
  shows "settled s ((i, op) # ex) (out # outs) s'"
proof -
  have ids: "\<forall>j \<in> fst ` set ex. j \<in> fst ` set (q @ new) \<or> ss_next s2 \<le> j"
    using st assms(2) by (simp add: settled_def)
  have i: "i \<notin> fst ` set ex"
  proof
    assume "i \<in> fst ` set ex"
    with ids have "i \<in> fst ` set (q @ new) \<or> ss_next s2 \<le> i" by blast
    with assms(4,7,8) show False by linarith
  qed
  have "ss_futures s' i = Some (future_of out)"
    using st i assms(4,5,7) by (simp add: settled_def)
  then have "\<forall>k < length ((i, op) # ex).
      ss_futures s' (fst (((i, op) # ex) ! k)) = Some (future_of ((out # outs) ! k))"
    using st by (auto simp: settled_def less_Suc_eq_0_disj)
  moreover have "prefix ((i, op) # q) ((i, op) # ex)"
    using st assms(2) by (auto simp: settled_def intro: append_prefixD)
  moreover have "\<forall>j \<in> fst ` set ex. j \<in> fst ` set q \<or> ss_next s \<le> j"
  proof
    fix j assume "j \<in> fst ` set ex"
    with ids have "j \<in> fst ` set (q @ new) \<or> ss_next s2 \<le> j" by blast
    with assms(3,4) show "j \<in> fst ` set q \<or> ss_next s \<le> j" by auto
  qed
  moreover have "\<forall>j < ss_next s. j \<noteq> i \<and> j \<notin> fst ` set ex \<longrightarrow> ss_futures s' j = ss_futures s j"
    using st assms(4,6) by (simp add: settled_def)
  ultimately show ?thesis
    using st i assms(1) by (simp add: settled_def)
qed

lemma drain_settles:
  "session_ok s \<Longrightarrow> \<exists>ex d' s'. drain_op_queue run_op ass n d s = Drained (n + length ex) d' s'
     \<and> d' = fst (run_all run_op (map snd ex) d)
     \<and> settled s ex (snd (run_all run_op (map snd ex) d)) s'"
proof (induction run_op ass n d s rule: drain_op_queue.induct)
  case (1 run_op ass n d s)
  show ?case
  proof (cases "ss_queue s")
    case Nil
    then show ?thesis
      using settled_Nil [OF "1.prems"] drain_op_queue.simps [of run_op ass n d s]
      by (intro exI [of _ "[]"]) simp
  next
    case (Cons e q)
    obtain i op where e: "ss_queue s = (i, op) # q" using Cons by (cases e) auto
    obtain d1 out where op: "run_op op d = (d1, out)" by fastforce
    obtain s2 new where t: "resolve i (future_of out) (acts (head_acts ass) (s\<lparr>ss_queue := q\<rparr>)) = Some s2"
      "session_ok s2" "ss_queue s2 = q @ new" "\<forall>j \<in> fst ` set new. ss_next s \<le> j" "ss_next s \<le> ss_next s2"
      "ss_futures s2 i = Some (future_of out)" "\<forall>j < ss_next s. j \<noteq> i \<longrightarrow> ss_futures s2 j = ss_futures s j"
      "i < ss_next s" "i \<notin> fst ` set (q @ new)"
      using "1.prems" e by (rule turn)
    obtain ex d' s' where r: "drain_op_queue run_op (tl ass) (Suc n) d1 s2 = Drained (Suc n + length ex) d' s'"
      "d' = fst (run_all run_op (map snd ex) d1)" "settled s2 ex (snd (run_all run_op (map snd ex) d1)) s'"
      using "1.IH" [OF e refl op [symmetric] refl t(1) t(2)] by blast
    have "drain_op_queue run_op ass n d s = Drained (n + length ((i, op) # ex)) d' s'"
      using drain_op_queue.simps [of run_op ass n d s] e op t(1) r(1) by simp
    moreover have "settled s ((i, op) # ex) (out # snd (run_all run_op (map snd ex) d1)) s'"
      using e t(3-9) r(3) by (rule settled_turn)
    ultimately show ?thesis using op r(2)
      by (intro exI [of _ "(i, op) # ex"] exI [of _ d'] exI [of _ s']) (simp add: Let_def)
  qed
qed

lemma fail_settles:
  "session_ok s \<Longrightarrow> \<exists>ex. settled s ex (map (\<lambda>_. Inl exc) ex) (fail_queued_ops exc ass s)"
proof (induction exc ass s rule: fail_queued_ops.induct)
  case (1 exc ass s)
  show ?case
  proof (cases "ss_queue s")
    case Nil
    then show ?thesis
      using settled_Nil [OF "1.prems"] fail_queued_ops.simps [of exc ass s]
      by (intro exI [of _ "[]"]) simp
  next
    case (Cons e q)
    obtain i op where e: "ss_queue s = (i, op) # q" using Cons by (cases e) auto
    obtain s2 new where t: "resolve i (Raised exc) (acts (head_acts ass) (s\<lparr>ss_queue := q\<rparr>)) = Some s2"
      "session_ok s2" "ss_queue s2 = q @ new" "\<forall>j \<in> fst ` set new. ss_next s \<le> j" "ss_next s \<le> ss_next s2"
      "ss_futures s2 i = Some (Raised exc)" "\<forall>j < ss_next s. j \<noteq> i \<longrightarrow> ss_futures s2 j = ss_futures s j"
      "i < ss_next s" "i \<notin> fst ` set (q @ new)"
      using "1.prems" e by (rule turn)
    have step: "fail_queued_ops exc ass s = fail_queued_ops exc (tl ass) s2"
      using fail_queued_ops.simps [of exc ass s] e t(1) by simp
    obtain ex where ex: "settled s2 ex (map (\<lambda>_. Inl exc) ex) (fail_queued_ops exc (tl ass) s2)"
      using "1.IH" [OF e refl refl] t(1,2) by auto
    have "ss_futures s2 i = Some (future_of (Inl exc))" using t(6) by (simp add: future_of_def)
    with e t(3-5) have "settled s ((i, op) # ex) (Inl exc # map (\<lambda>_. Inl exc) ex)
        (fail_queued_ops exc (tl ass) s2)" using t(7-9) ex by (rule settled_turn)
    then show ?thesis unfolding step by (intro exI [of _ "(i, op) # ex"]) simp
  qed
qed

lemma future_result_of: "ss_futures s i = Some (future_of out) \<Longrightarrow> future_result late i s = out"
  by (cases out) (simp_all add: future_result_def future_of_def)

lemma settled_result:
  assumes "settled s ex outs s'" "k < length ex"
  shows "future_result late (fst (ex ! k)) s' = outs ! k"
  using assms by (intro future_result_of) (simp add: settled_def)

text \<open>
  C24. In a well-formed session the drain always ends: it runs the operations queued at its
  start and those submitted while it runs, in the order of submission and on one connection,
  and the caller of each gets exactly what its operation returned or raised; no other future
  changes and the queue is empty. When the reader cannot be reached, every queued caller gets
  the connection error instead.
\<close>

theorem drain_answers_every_caller:
  assumes "session_ok s"
  shows "(\<exists>ops d' s'. drain_op_queue run_op ass 0 d s = Drained (length ops) d' s'
      \<and> prefix (ss_queue s) ops \<and> distinct (map fst ops) \<and> ss_queue s' = [] \<and> session_ok s'
      \<and> d' = fst (run_all run_op (map snd ops) d)
      \<and> (\<forall>k < length ops. future_result late (fst (ops ! k)) s' = snd (run_all run_op (map snd ops) d) ! k)
      \<and> (\<forall>i < ss_next s. i \<notin> fst ` set ops \<longrightarrow> ss_futures s' i = ss_futures s i))
    \<and> (\<exists>ops. prefix (ss_queue s) ops \<and> ss_queue (fail_queued_ops exc ass s) = []
      \<and> (\<forall>k < length ops. future_result late (fst (ops ! k)) (fail_queued_ops exc ass s) = Inl exc))"
proof -
  obtain ops d' s' where r: "drain_op_queue run_op ass 0 d s = Drained (0 + length ops) d' s'"
    "d' = fst (run_all run_op (map snd ops) d)" "settled s ops (snd (run_all run_op (map snd ops) d)) s'"
    using drain_settles [OF assms, of run_op ass 0 d] by (elim exE conjE) (rule that)
  moreover have "prefix (ss_queue s) ops" "distinct (map fst ops)" "ss_queue s' = []" "session_ok s'"
    "\<forall>i < ss_next s. i \<notin> fst ` set ops \<longrightarrow> ss_futures s' i = ss_futures s i"
    using r(3) unfolding settled_def by blast+
  moreover have "\<forall>k < length ops. future_result late (fst (ops ! k)) s' = snd (run_all run_op (map snd ops) d) ! k"
    using settled_result [OF r(3)] by blast
  ultimately have 1: "\<exists>ops d' s'. drain_op_queue run_op ass 0 d s = Drained (length ops) d' s'
      \<and> prefix (ss_queue s) ops \<and> distinct (map fst ops) \<and> ss_queue s' = [] \<and> session_ok s'
      \<and> d' = fst (run_all run_op (map snd ops) d)
      \<and> (\<forall>k < length ops. future_result late (fst (ops ! k)) s' = snd (run_all run_op (map snd ops) d) ! k)
      \<and> (\<forall>i < ss_next s. i \<notin> fst ` set ops \<longrightarrow> ss_futures s' i = ss_futures s i)"
    unfolding add_0_left by blast
  obtain ex where ex: "settled s ex (map (\<lambda>_. Inl exc) ex) (fail_queued_ops exc ass s)"
    using fail_settles [OF assms] by blast
  then have "\<exists>ops. prefix (ss_queue s) ops \<and> ss_queue (fail_queued_ops exc ass s) = []
      \<and> (\<forall>k < length ops. future_result late (fst (ops ! k)) (fail_queued_ops exc ass s) = Inl exc)"
    using ex settled_result [OF ex] by (intro exI [of _ ex] conjI allI impI) (simp_all add: settled_def)
  with 1 show ?thesis by blast
qed

text \<open>An operation doubles its number or, at zero, raises; the connection counts the calls.\<close>

definition demo_op :: "nat \<Rightarrow> nat \<Rightarrow> nat \<times> (str + nat)" where
  "demo_op op d = (Suc d, if op = 0 then Inl ''boom'' else Inr (2 * op))"

definition demo_session :: "(nat, nat, str) zk_session" where
  "demo_session = acts [Submit 3, Submit 0] (zk_start (new_session 5))"

lemma demo_session_ok: "session_ok demo_session"
  unfolding demo_session_def by (rule acts_ok) (simp add: zk_start_def new_session_def session_ok_def)

lemma drain_answers_every_caller_witness:
  "\<exists>ops d' s'. drain_op_queue demo_op [[Submit 4]] 0 7 demo_session = Drained (length ops) d' s'
     \<and> prefix [(0 :: nat, 3 :: nat), (1, 0)] ops \<and> future_result ''late'' 0 s' = Inr 6
     \<and> future_result ''late'' 1 s' = Inl ''boom''"
proof -
  have q: "ss_queue demo_session = [(0, 3), (1, 0)]"
    by (simp add: demo_session_def act_def enqueue_def zk_start_def new_session_def)
  obtain ops d' s' where r: "drain_op_queue demo_op [[Submit 4]] 0 7 demo_session = Drained (length ops) d' s'"
    "prefix (ss_queue demo_session) ops"
    "\<forall>k < length ops. future_result ''late'' (fst (ops ! k)) s' = snd (run_all demo_op (map snd ops) 7) ! k"
    using drain_answers_every_caller [OF demo_session_ok, of demo_op "[[Submit 4]]" 7 "''late''"] by blast
  then obtain more where ops: "ops = (0, 3) # (1, 0) # more" using q by (auto simp: prefix_def)
  have "future_result ''late'' 0 s' = Inr 6" "future_result ''late'' 1 s' = Inl ''boom''"
    using r(3) [rule_format, of 0] r(3) [rule_format, of 1]
    by (simp_all add: ops demo_op_def Let_def)
  with r(1) r(2) [unfolded q] show ?thesis by blast
qed

section \<open>Evictions and the reconnect backoff\<close>

definition prune_kicks :: "real \<Rightarrow> real list \<Rightarrow> real list" where
  "prune_kicks now ts = dropWhile (\<lambda>t. t < now - KICK_HISTORY_SECONDS) ts"

definition record_stream_kick :: "real \<Rightarrow> real \<Rightarrow> ('o, 'r, 'x) zk_session \<Rightarrow> ('o, 'r, 'x) zk_session" where
  "record_stream_kick base now s =
     s\<lparr>ss_kick_backoff :=
         (if ss_kick_times s \<noteq> [] \<and> now - last (ss_kick_times s) < KICK_CONSECUTIVE_WINDOW_SECONDS
          then min (ss_kick_backoff s * 2) KICK_BACKOFF_MAX_SECONDS else base),
       ss_kick_times := prune_kicks now (ss_kick_times s @ [now])\<rparr>"

definition stream_kicks_in ::
  "real \<Rightarrow> real \<Rightarrow> ('o, 'r, 'x) zk_session \<Rightarrow> ('o, 'r, 'x) zk_session \<times> nat" where
  "stream_kicks_in window now s =
     (let kept = prune_kicks now (ss_kick_times s) in
      (s\<lparr>ss_kick_times := kept\<rparr>, count_where (\<lambda>t. now - window \<le> t) kept))"

datatype kick_event = Kicked real | Asked real real

fun kick_time :: "kick_event \<Rightarrow> real" where
  "kick_time (Kicked t) = t"
| "kick_time (Asked t w) = t"

fun kick_step :: "real \<Rightarrow> ('o, 'r, 'x) zk_session \<Rightarrow> kick_event \<Rightarrow> ('o, 'r, 'x) zk_session \<times> nat option" where
  "kick_step base s (Kicked t) = (record_stream_kick base t s, None)"
| "kick_step base s (Asked t w) = map_prod id Some (stream_kicks_in w t s)"

text \<open>The reference never forgets an eviction; the backoff is a function of the whole history.\<close>

fun history_step :: "real list \<Rightarrow> kick_event \<Rightarrow> real list \<times> nat option" where
  "history_step H (Kicked t) = (H @ [t], None)"
| "history_step H (Asked t w) = (H, Some (count_where (\<lambda>u. t - w \<le> u) H))"

text \<open>The evictions, newest first, that follow each other within the consecutive window.\<close>

fun streak :: "real list \<Rightarrow> nat" where
  "streak [] = 0"
| "streak [t] = 1"
| "streak (t # u # us) = (if t - u < KICK_CONSECUTIVE_WINDOW_SECONDS then Suc (streak (u # us)) else 1)"

definition streak_backoff :: "real \<Rightarrow> nat \<Rightarrow> real" where
  "streak_backoff base n = (if n \<le> 1 then base else min (base * 2 ^ (n - 1)) KICK_BACKOFF_MAX_SECONDS)"

definition tracks :: "real \<Rightarrow> real \<Rightarrow> real list \<Rightarrow> ('o, 'r, 'x) zk_session \<Rightarrow> bool" where
  "tracks base now H s \<longleftrightarrow> sorted H \<and> (\<forall>t \<in> set H. t \<le> now)
     \<and> (\<exists>c \<le> now - KICK_HISTORY_SECONDS. ss_kick_times s = filter (\<lambda>t. c \<le> t) H)
     \<and> ss_kick_backoff s = streak_backoff base (streak (rev H))"

lemma dropWhile_sorted: "sorted xs \<Longrightarrow> dropWhile (\<lambda>t. t < c) xs = filter (\<lambda>t. c \<le> t) (xs :: real list)"
proof (induction xs)
  case (Cons x xs)
  show ?case
  proof (cases "x < c")
    case False
    then have "\<forall>t \<in> set xs. c \<le> t" using Cons.prems by auto
    then have "filter (\<lambda>t. c \<le> t) xs = xs" by (rule filter_True)
    with False show ?thesis by simp
  qed (use Cons in simp)
qed simp

lemma prune_filter:
  assumes "sorted H" "c \<le> now - KICK_HISTORY_SECONDS"
  shows "prune_kicks now (filter (\<lambda>t. c \<le> t) H) = filter (\<lambda>t. now - KICK_HISTORY_SECONDS \<le> t) H"
proof -
  have "filter (\<lambda>t. now - KICK_HISTORY_SECONDS \<le> t) (filter (\<lambda>t. c \<le> t) H)
      = filter (\<lambda>t. now - KICK_HISTORY_SECONDS \<le> t) H"
    using assms(2) by (simp add: filter_filter) (rule filter_cong, auto)
  moreover have "sorted (filter (\<lambda>t. c \<le> t) H)" using assms(1) sorted_filter [of id H] by simp
  ultimately show ?thesis unfolding prune_kicks_def by (simp only: dropWhile_sorted)
qed

lemma streak_backoff_Suc:
  assumes "0 \<le> base" "n \<noteq> 0"
  shows "min (streak_backoff base n * 2) KICK_BACKOFF_MAX_SECONDS = streak_backoff base (Suc n)"
proof -
  obtain m where m: "n = Suc m" using assms(2) by (cases n) auto
  have "0 \<le> base * 2 ^ m" using assms(1) by simp
  then show ?thesis by (cases m) (auto simp: m streak_backoff_def KICK_BACKOFF_MAX_SECONDS_def)
qed

lemma streak_pos: "H \<noteq> [] \<Longrightarrow> streak H \<noteq> 0"
  by (cases H rule: streak.cases) auto

lemma last_filter: "sorted H \<Longrightarrow> filter (\<lambda>t. c \<le> t) H \<noteq> [] \<Longrightarrow> last (filter (\<lambda>t. c \<le> t) H) = last (H :: real list)"
proof (induction H rule: rev_induct)
  case (snoc x xs)
  show ?case
  proof (cases "c \<le> x")
    case False
    then have "filter (\<lambda>t. c \<le> t) xs = []" using snoc.prems(1) by (auto simp: sorted_append filter_empty_conv)
    with False snoc.prems(2) show ?thesis by simp
  qed simp
qed simp

lemma tracks_later: "tracks base now H s \<Longrightarrow> now \<le> now' \<Longrightarrow> tracks base now' H s"
  unfolding tracks_def by (meson diff_right_mono order_trans)

text \<open>A pruned eviction is an hour old, far beyond the consecutive window.\<close>

lemma tracks_recent:
  assumes "tracks base now H s"
  shows "(ss_kick_times s \<noteq> [] \<and> now - last (ss_kick_times s) < KICK_CONSECUTIVE_WINDOW_SECONDS)
    \<longleftrightarrow> H \<noteq> [] \<and> now - last H < KICK_CONSECUTIVE_WINDOW_SECONDS"
proof -
  obtain c where c: "c \<le> now - KICK_HISTORY_SECONDS" "ss_kick_times s = filter (\<lambda>t. c \<le> t) H"
    and so: "sorted H" using assms by (auto simp: tracks_def)
  show ?thesis
  proof (cases "ss_kick_times s = []")
    case True
    then have "H \<noteq> [] \<longrightarrow> last H < c" using c(2) by (auto simp: filter_empty_conv not_le)
    with True c(1) show ?thesis by (auto simp: zk_constants)
  next
    case False
    then show ?thesis using last_filter [OF so] c(2) by auto
  qed
qed

lemma streak_snoc:
  "streak (t # rev H) =
     (if H \<noteq> [] \<and> t - last H < KICK_CONSECUTIVE_WINDOW_SECONDS then Suc (streak (rev H)) else 1)"
  by (cases H rule: rev_cases) auto

lemma tracks_kick:
  assumes "tracks base now H s" "0 \<le> base"
  shows "tracks base now (H @ [now]) (record_stream_kick base now s)"
proof -
  obtain c where c: "c \<le> now - KICK_HISTORY_SECONDS" "ss_kick_times s = filter (\<lambda>t. c \<le> t) H"
    and so: "sorted (H @ [now])" and bo: "ss_kick_backoff s = streak_backoff base (streak (rev H))"
    using assms(1) by (auto simp: tracks_def sorted_append)
  have "c \<le> now" using c(1) by (simp add: zk_constants)
  then have "prune_kicks now (ss_kick_times s @ [now])
      = filter (\<lambda>t. now - KICK_HISTORY_SECONDS \<le> t) (H @ [now])"
    using prune_filter [OF so c(1)] c(2) by simp
  moreover have "ss_kick_backoff (record_stream_kick base now s)
      = streak_backoff base (streak (rev (H @ [now])))"
  proof (cases "H \<noteq> [] \<and> now - last H < KICK_CONSECUTIVE_WINDOW_SECONDS")
    case True
    then have "streak (rev H) \<noteq> 0" by (intro streak_pos) simp
    with True show ?thesis
      using streak_backoff_Suc [OF assms(2)] tracks_recent [OF assms(1)] bo
      by (simp add: streak_snoc record_stream_kick_def)
  next
    case False
    then show ?thesis
      using tracks_recent [OF assms(1)] by (auto simp: streak_snoc record_stream_kick_def streak_backoff_def)
  qed
  moreover have "0 \<le> KICK_HISTORY_SECONDS" by (simp add: KICK_HISTORY_SECONDS_def)
  ultimately show ?thesis
    using so by (auto simp: tracks_def record_stream_kick_def sorted_append
        intro!: exI [of _ "now - KICK_HISTORY_SECONDS"])
qed

lemma tracks_ask:
  assumes "tracks base now H s" "w \<le> KICK_HISTORY_SECONDS"
  shows "tracks base now H (fst (stream_kicks_in w now s))"
    and "snd (stream_kicks_in w now s) = count_where (\<lambda>t. now - w \<le> t) H"
proof -
  obtain c where c: "c \<le> now - KICK_HISTORY_SECONDS" "ss_kick_times s = filter (\<lambda>t. c \<le> t) H"
    and so: "sorted H" using assms(1) by (auto simp: tracks_def)
  have kept: "prune_kicks now (ss_kick_times s) = filter (\<lambda>t. now - KICK_HISTORY_SECONDS \<le> t) H"
    using prune_filter [OF so c(1)] c(2) by simp
  then show "tracks base now H (fst (stream_kicks_in w now s))"
    using assms(1) by (auto simp: tracks_def stream_kicks_in_def Let_def)
  have "filter (\<lambda>t. now - w \<le> t) (filter (\<lambda>t. now - KICK_HISTORY_SECONDS \<le> t) H)
      = filter (\<lambda>t. now - w \<le> t) H"
    using assms(2) by (simp add: filter_filter) (rule filter_cong, auto)
  then show "snd (stream_kicks_in w now s) = count_where (\<lambda>t. now - w \<le> t) H"
    by (simp add: stream_kicks_in_def Let_def kept count_where_def)
qed

lemma kick_step_tracks:
  assumes "tracks base now H s" "0 \<le> base" "now \<le> kick_time e"
    and "\<forall>w t. e = Asked t w \<longrightarrow> w \<le> KICK_HISTORY_SECONDS"
  shows "tracks base (kick_time e) (fst (history_step H e)) (fst (kick_step base s e))"
    and "snd (kick_step base s e) = snd (history_step H e)"
proof -
  have tr: "tracks base (kick_time e) H s" using assms(1,3) by (rule tracks_later)
  then show "tracks base (kick_time e) (fst (history_step H e)) (fst (kick_step base s e))"
    and "snd (kick_step base s e) = snd (history_step H e)"
    using assms(2,4) tracks_kick [OF tr] tracks_ask [OF tr] by (cases e; simp)+
qed

definition kicks_in :: "kick_event list \<Rightarrow> real list" where
  "kicks_in es = concat (map (\<lambda>e. case e of Kicked t \<Rightarrow> [t] | Asked t w \<Rightarrow> []) es)"

lemma history_kicks: "fst (run history_step H es) = H @ kicks_in es"
proof (induction es arbitrary: H)
  case Nil
  then show ?case by (simp add: kicks_in_def)
next
  case (Cons e es)
  show ?case
    unfolding run_Cons_proj using Cons.IH by (cases e) (simp_all add: kicks_in_def)
qed

lemma kick_run_tracks:
  "tracks base now H s \<Longrightarrow> 0 \<le> base \<Longrightarrow> sorted (now # map kick_time es)
   \<Longrightarrow> \<forall>w t. Asked t w \<in> set es \<longrightarrow> w \<le> KICK_HISTORY_SECONDS
   \<Longrightarrow> (\<exists>now'. tracks base now' (fst (run history_step H es)) (fst (run (kick_step base) s es)))
       \<and> snd (run (kick_step base) s es) = snd (run history_step H es)"
proof (induction es arbitrary: now H s)
  case Nil
  then show ?case by auto
next
  case (Cons e es)
  have w: "\<forall>w t. e = Asked t w \<longrightarrow> w \<le> KICK_HISTORY_SECONDS" and t: "now \<le> kick_time e"
    using Cons.prems(3,4) by auto
  note st = kick_step_tracks [OF Cons.prems(1,2) t w]
  have "(\<exists>now'. tracks base now' (fst (run history_step (fst (history_step H e)) es))
          (fst (run (kick_step base) (fst (kick_step base s e)) es)))
      \<and> snd (run (kick_step base) (fst (kick_step base s e)) es)
        = snd (run history_step (fst (history_step H e)) es)"
    using Cons.IH [OF st(1) Cons.prems(2)] Cons.prems(3,4) by auto
  then show ?case using st(2) by (simp only: run_Cons_proj simp_thms)
qed

text \<open>
  Over any sequence of evictions and queries at times that do not decrease, with windows
  of at most the hour of history kept, the pruned record answers every query like one that
  forgets nothing, and the wait before a reconnect is the base after a lone eviction and
  doubles with each further one that follows within two minutes, up to sixty seconds.
\<close>

theorem kicks_counted_and_backed_off:
  fixes s0 :: "('o, 'r, 'x) zk_session"
  assumes "s0 = new_session base" "0 \<le> base" "sorted (map kick_time es)"
    and "\<forall>w t. Asked t w \<in> set es \<longrightarrow> w \<le> KICK_HISTORY_SECONDS"
  shows "snd (run (kick_step base) s0 es) = snd (run history_step [] es)
     \<and> ss_kick_backoff (fst (run (kick_step base) s0 es)) = streak_backoff base (streak (rev (kicks_in es)))
     \<and> min base 60 \<le> ss_kick_backoff (fst (run (kick_step base) s0 es))
     \<and> ss_kick_backoff (fst (run (kick_step base) s0 es)) \<le> max base 60"
proof -
  let ?now = "case es of [] \<Rightarrow> 0 | e # _ \<Rightarrow> kick_time e"
  have "tracks base ?now [] s0"
    by (auto simp: tracks_def assms(1) new_session_def streak_backoff_def)
  moreover have "sorted (?now # map kick_time es)" using assms(3) by (cases es) auto
  ultimately have r: "(\<exists>now'. tracks base now' (fst (run history_step [] es)) (fst (run (kick_step base) s0 es)))
      \<and> snd (run (kick_step base) s0 es) = snd (run history_step [] es)"
    using assms(2,4) by (rule_tac kick_run_tracks)
  from r have b: "ss_kick_backoff (fst (run (kick_step base) s0 es)) = streak_backoff base (streak (rev (kicks_in es)))"
    by (auto simp: tracks_def history_kicks)
  have "base * 1 \<le> base * 2 ^ n" for n :: nat using assms(2) by (intro mult_left_mono) simp_all
  then have "min base 60 \<le> streak_backoff base n" "streak_backoff base n \<le> max base 60" for n
    by (simp_all add: streak_backoff_def KICK_BACKOFF_MAX_SECONDS_def min.coboundedI1 min.mono
        max.coboundedI2)
  then have "min base 60 \<le> ss_kick_backoff (fst (run (kick_step base) s0 es))"
    "ss_kick_backoff (fst (run (kick_step base) s0 es)) \<le> max base 60"
    by (simp_all only: b)
  with r b show ?thesis by blast
qed

lemma kicks_counted_and_backed_off_witness:
  "ss_kick_backoff (fst (run (kick_step 5) (new_session 5 :: (nat, nat, str) zk_session)
       [Kicked 0, Kicked 100, Asked 150 3600, Kicked 200])) = streak_backoff 5 3
   \<and> streak_backoff 5 3 = 20"
proof -
  have "streak (rev (kicks_in [Kicked 0, Kicked 100, Asked 150 3600, Kicked 200])) = 3"
    by (simp add: kicks_in_def zk_constants)
  moreover have "streak_backoff 5 3 = 20" by (simp add: streak_backoff_def zk_constants)
  ultimately show ?thesis
    using kicks_counted_and_backed_off [OF refl, of 5 "[Kicked 0, Kicked 100, Asked 150 3600, Kicked 200]",
        THEN conjunct2, THEN conjunct1]
    by (simp add: zk_constants)
qed

end
