(* ===== verification/ZkDaemon.thy ===== *)
theory ZkDaemon
  imports ZkIngest ZkSession
begin

text \<open>
  The loop of the reader's thread, \<open>ZkSession._run\<close>: connect, catch up when something may have
  been missed, stream live punches until evicted, interrupted or asked to stop, back off, and
  run the queued operations on a connection of their own. One iteration is \<open>zk_cycle\<close>; what
  the reader, the database and the other threads do in it is its environment. The loop joins
  the punch handling of \<open>ZkIngest\<close> with the queue and the backoff of \<open>ZkSession\<close>.
\<close>

section \<open>The environment of one iteration\<close>

text \<open>
  A live event whose handler may raise before or after its commit. \<open>None\<close> is the idle tick of
  \<open>live_capture\<close>.
\<close>

datatype fate = Handled | RaisedBeforeCommit | RaisedAfterCommit

record 'o stream_item =
  si_event :: "zk_event option"
  si_clock :: dtime
  si_commit_clock :: dtime
  si_fate :: fate
  si_acts :: "'o action list"

text \<open>A catch-up: the fetch raises or gives the log; the reconcile may raise after some records.\<close>

record 'x catch_run =
  cr_fetch :: "'x + (dtime \<times> zk_event) list"
  cr_clock :: dtime
  cr_breaks_after :: "nat option"

record ('o, 'd, 'x) cycle_env =
  ce_connect :: "'x option"
  ce_connect_acts :: "'o action list"
  ce_fail_acts :: "'o action list list"
  ce_wait_acts :: "'o action list"
  ce_catch :: "'x catch_run"
  ce_catch_acts :: "'o action list"
  ce_items :: "'o stream_item list"
  ce_dies :: "real option"
  ce_disconnect_acts :: "'o action list"
  ce_kick_clock :: real
  ce_kick_wait_acts :: "'o action list"
  ce_ops_connect :: "'x + 'd"
  ce_ops_acts :: "'o action list"
  ce_drain_acts :: "'o action list list"

section \<open>Catching up\<close>

text \<open>What a successful catch-up used: the device, its floor, the fetched log and the table.\<close>

record caught =
  ca_device :: "device option"
  ca_floor :: "dtime option"
  ca_log :: "(dtime \<times> zk_event) list"
  ca_before :: zk_db

definition zk_catch_up :: "int \<Rightarrow> 'x catch_run \<Rightarrow> zk_db \<Rightarrow> zk_db \<times> caught option" where
  "zk_catch_up lookback_hours c db =
     (case cr_fetch c of
        Inl _ \<Rightarrow> (db, None)
      | Inr records \<Rightarrow>
          (case cr_breaks_after c of
             Some k \<Rightarrow> (fst (reconcile_attendance lookback_hours False (cr_clock c) (take k records) db), None)
           | None \<Rightarrow> (fst (reconcile_attendance lookback_hours False (cr_clock c) records db),
               Some \<lparr>ca_device = active_device db,
                 ca_floor = (case active_device db of None \<Rightarrow> None
                   | Some d \<Rightarrow> catchup_floor lookback_hours False (cr_clock c) (dev_id d) db),
                 ca_log = records, ca_before = db\<rparr>)))"

section \<open>Streaming\<close>

definition should_break :: "('o, 'r, 'x) zk_session \<Rightarrow> bool" where
  "should_break s = (ss_shutdown s \<or> ss_queue s \<noteq> [])"

record ('o, 'r, 'x) streaming =
  sg_session :: "('o, 'r, 'x) zk_session"
  sg_db :: zk_db
  sg_asked_to_end :: bool
  sg_lost :: "zk_event list"

definition rearm :: "('o, 'r, 'x) zk_session \<Rightarrow> ('o, 'r, 'x) zk_session" where
  "rearm s = s\<lparr>ss_needs_catch_up := True\<rparr>"

definition stream_event ::
  "(zk_db \<Rightarrow> 'm option) \<Rightarrow> 'o stream_item \<Rightarrow> ('o, 'r, 'x) streaming \<Rightarrow> ('o, 'r, 'x) streaming" where
  "stream_event summary it g =
     (case si_event it of
        None \<Rightarrow> g
      | Some e \<Rightarrow>
          (let db' = fst (handle_punch summary (si_clock it) (si_commit_clock it) e (sg_db g)) in
           case si_fate it of
             Handled \<Rightarrow> g\<lparr>sg_db := db'\<rparr>
           | RaisedBeforeCommit \<Rightarrow> g\<lparr>sg_session := rearm (sg_session g), sg_lost := sg_lost g @ [e]\<rparr>
           | RaisedAfterCommit \<Rightarrow> g\<lparr>sg_session := rearm (sg_session g), sg_db := db'\<rparr>))"

definition stream_turn ::
  "(zk_db \<Rightarrow> 'm option) \<Rightarrow> 'o stream_item \<Rightarrow> ('o, 'r, 'x) streaming \<Rightarrow> ('o, 'r, 'x) streaming" where
  "stream_turn summary it g =
     (let g1 = stream_event summary it g; s = acts (si_acts it) (sg_session g1)
      in g1\<lparr>sg_session := s, sg_asked_to_end := (sg_asked_to_end g1 \<or> should_break s)\<rparr>)"

text \<open>\<open>_stream\<close>: the events the generator yields, then its clean end or an eviction.\<close>

definition zk_stream ::
  "(zk_db \<Rightarrow> 'm option) \<Rightarrow> real \<Rightarrow> 'o stream_item list \<Rightarrow> real option \<Rightarrow> ('o, 'r, 'x) zk_session \<Rightarrow> zk_db
     \<Rightarrow> ('o, 'r, 'x) streaming \<times> bool" where
  "zk_stream summary base items dies s db =
     (let g = fold (stream_turn summary) items
                \<lparr>sg_session = s, sg_db = db, sg_asked_to_end = False, sg_lost = []\<rparr>
      in case dies of
           None \<Rightarrow> (g, False)
         | Some t \<Rightarrow> (g\<lparr>sg_session := record_stream_kick base t (rearm (sg_session g))\<rparr>, True))"

section \<open>One iteration\<close>

datatype cycle_end = Again | Exited | ThreadDied

record cycle_out =
  co_end :: cycle_end
  co_waits :: "real list"
  co_caught :: "caught option"
  co_lost :: "zk_event list"
  co_drained :: "nat option"

record ('o, 'r, 'x) daemon =
  dm_session :: "('o, 'r, 'x) zk_session"
  dm_db :: zk_db

text \<open>The reader cannot be reached: the queued operations fail, and the thread waits.\<close>

definition unreachable_phase ::
  "('o, 'd, 'x) cycle_env \<Rightarrow> 'x \<Rightarrow> ('o, 'r, 'x) zk_session \<Rightarrow> ('o, 'r, 'x) zk_session \<times> real list \<times> cycle_end" where
  "unreachable_phase env exc s =
     (let s1 = rearm (fail_queued_ops exc (ce_fail_acts env) s) in
      if ss_shutdown s1 then (s1, [], Exited)
      else let s2 = acts (ce_wait_acts env) s1 in
        if ss_shutdown s2 then (s2, [ss_backoff s1], Exited)
        else (s2\<lparr>ss_backoff := min (ss_backoff s2 * 2) BACKOFF_MAX_SECONDS\<rparr>, [ss_backoff s1], Again))"

text \<open>Phase A: the catch-up, if one is due, and the stream.\<close>

definition catch_phase ::
  "int \<Rightarrow> ('o, 'd, 'x) cycle_env \<Rightarrow> ('o, 'r, 'x) zk_session \<Rightarrow> zk_db
     \<Rightarrow> ('o, 'r, 'x) zk_session \<times> zk_db \<times> caught option" where
  "catch_phase lookback_hours env s db =
     (if \<not> ss_needs_catch_up s then (s, db, None)
      else case zk_catch_up lookback_hours (ce_catch env) db of
        (db', c) \<Rightarrow> (acts (ce_catch_acts env)
           (if c = None then s else s\<lparr>ss_needs_catch_up := False\<rparr>), db', c))"

text \<open>The wait after an eviction with nothing queued.\<close>

definition kick_phase ::
  "('o, 'd, 'x) cycle_env \<Rightarrow> bool \<Rightarrow> ('o, 'r, 'x) zk_session \<Rightarrow> ('o, 'r, 'x) zk_session \<times> real list" where
  "kick_phase env died s =
     (if died \<and> ss_queue s = []
      then let s1 = fst (stream_kicks_in 3600 (ce_kick_clock env) s) in
        (acts (ce_kick_wait_acts env) s1, [ss_kick_backoff s1])
      else (s, []))"

text \<open>Phase B: the queued operations on a fresh connection.\<close>

definition ops_phase ::
  "('o \<Rightarrow> 'd \<Rightarrow> 'd \<times> ('x + 'r)) \<Rightarrow> ('o, 'd, 'x) cycle_env \<Rightarrow> ('o, 'r, 'x) zk_session
     \<Rightarrow> ('o, 'r, 'x) zk_session \<times> nat option \<times> cycle_end" where
  "ops_phase run_op env s =
     (if ss_queue s = [] then (s, None, Again)
      else let s1 = acts (ce_ops_acts env) s in
        case ce_ops_connect env of
          Inl _ \<Rightarrow> (rearm s1, None, Again)
        | Inr d \<Rightarrow> (case drain_op_queue run_op (ce_drain_acts env) 0 d s1 of
              Drained n d' s2 \<Rightarrow> (s2, Some n, Again)
            | DrainRaised d' s2 \<Rightarrow> (s2, None, ThreadDied)))"

definition connected_phase ::
  "('o \<Rightarrow> 'd \<Rightarrow> 'd \<times> ('x + 'r)) \<Rightarrow> (zk_db \<Rightarrow> 'm option) \<Rightarrow> real \<Rightarrow> int \<Rightarrow> ('o, 'd, 'x) cycle_env
     \<Rightarrow> ('o, 'r, 'x) zk_session \<Rightarrow> zk_db \<Rightarrow> ('o, 'r, 'x) daemon \<times> cycle_out" where
  "connected_phase run_op summary base lookback_hours env s db =
     (case catch_phase lookback_hours env (s\<lparr>ss_backoff := BACKOFF_MIN_SECONDS\<rparr>) db of
        (s1, db1, c) \<Rightarrow>
      case zk_stream summary base (ce_items env) (ce_dies env) s1 db1 of
        (g, died) \<Rightarrow>
          let s2 = acts (ce_disconnect_acts env) (sg_session g);
              out = \<lparr>co_end = Exited, co_waits = [], co_caught = c, co_lost = sg_lost g, co_drained = None\<rparr>
          in if ss_shutdown s2 then (\<lparr>dm_session = s2, dm_db = sg_db g\<rparr>, out)
             else case kick_phase env died s2 of
               (s3, waits) \<Rightarrow>
                 if ss_shutdown s3 \<and> waits \<noteq> [] then (\<lparr>dm_session = s3, dm_db = sg_db g\<rparr>, out\<lparr>co_waits := waits\<rparr>)
                 else case ops_phase run_op env s3 of
                   (s4, n, e) \<Rightarrow> (\<lparr>dm_session = s4, dm_db = sg_db g\<rparr>,
                      out\<lparr>co_end := e, co_waits := waits, co_drained := n\<rparr>))"

definition zk_cycle ::
  "('o \<Rightarrow> 'd \<Rightarrow> 'd \<times> ('x + 'r)) \<Rightarrow> (zk_db \<Rightarrow> 'm option) \<Rightarrow> real \<Rightarrow> int
     \<Rightarrow> ('o, 'r, 'x) daemon \<Rightarrow> ('o, 'd, 'x) cycle_env \<Rightarrow> ('o, 'r, 'x) daemon \<times> cycle_out" where
  "zk_cycle run_op summary base lookback_hours dm env =
     (if ss_shutdown (dm_session dm)
      then (dm, \<lparr>co_end = Exited, co_waits = [], co_caught = None, co_lost = [], co_drained = None\<rparr>)
      else let s = acts (ce_connect_acts env) (dm_session dm) in
        case ce_connect env of
          Some exc \<Rightarrow>
            (case unreachable_phase env exc s of
               (s', waits, e) \<Rightarrow> (\<lparr>dm_session = s', dm_db = dm_db dm\<rparr>,
                  \<lparr>co_end = e, co_waits = waits, co_caught = None, co_lost = [], co_drained = None\<rparr>))
        | None \<Rightarrow> connected_phase run_op summary base lookback_hours env s (dm_db dm))"

section \<open>What each phase keeps of the session\<close>

text \<open>Foreign actions and the two queue loops touch nothing but the queue and the flags.\<close>

definition same_loop_state :: "('o, 'r, 'x) zk_session \<Rightarrow> ('o, 'r, 'x) zk_session \<Rightarrow> bool" where
  "same_loop_state s s' \<longleftrightarrow> ss_backoff s' = ss_backoff s \<and> ss_needs_catch_up s' = ss_needs_catch_up s
     \<and> ss_kick_times s' = ss_kick_times s \<and> ss_kick_backoff s' = ss_kick_backoff s"

lemma same_loop_acts: "same_loop_state s (acts as s)"
proof (induction as arbitrary: s)
  case Nil
  then show ?case by (simp add: same_loop_state_def)
next
  case (Cons a as)
  have "same_loop_state s (act a s)"
    by (cases a) (simp_all add: same_loop_state_def act_def enqueue_def shutdown_request_def shutdown_return_def)
  with Cons.IH [of "act a s"] show ?case by (simp add: same_loop_state_def)
qed

lemma same_loop_resolve: "resolve i f s = Some s' \<Longrightarrow> same_loop_state s s'"
  by (auto simp: resolve_def same_loop_state_def split: if_splits)

lemma same_loop_trans: "same_loop_state s t \<Longrightarrow> same_loop_state t u \<Longrightarrow> same_loop_state s u"
  by (simp add: same_loop_state_def)

lemma same_loop_pop: "same_loop_state s (acts as (s\<lparr>ss_queue := q\<rparr>))"
  using same_loop_acts [of "s\<lparr>ss_queue := q\<rparr>" as] by (simp add: same_loop_state_def)

lemma same_loop_fail: "same_loop_state s (fail_queued_ops exc ass s)"
proof (induction exc ass s rule: fail_queued_ops.induct)
  case (1 exc ass s)
  show ?case
  proof (cases "ss_queue s")
    case Nil
    then show ?thesis by (simp add: fail_queued_ops.simps [of exc ass s] same_loop_state_def)
  next
    case (Cons e q)
    obtain i op where e: "ss_queue s = (i, op) # q" using Cons by (cases e) auto
    let ?s1 = "acts (head_acts ass) (s\<lparr>ss_queue := q\<rparr>)"
    let ?s2 = "case resolve i (Raised exc) ?s1 of None \<Rightarrow> ?s1 | Some s2 \<Rightarrow> s2"
    have "same_loop_state s ?s2"
      using same_loop_pop [of s "head_acts ass" q] same_loop_resolve [of i "Raised exc" ?s1]
      by (auto split: option.splits intro: same_loop_trans)
    moreover have "same_loop_state ?s2 (fail_queued_ops exc (tl ass) ?s2)"
      using "1.IH" [OF e refl refl] by simp
    ultimately show ?thesis
      using fail_queued_ops.simps [of exc ass s] e by (auto simp: Let_def intro: same_loop_trans)
  qed
qed

lemma same_loop_drain:
  "drain_op_queue run_op ass n d s = Drained m d' s' \<Longrightarrow> same_loop_state s s'"
proof (induction run_op ass n d s rule: drain_op_queue.induct)
  case (1 run_op ass n d s)
  show ?case
  proof (cases "ss_queue s")
    case Nil
    then show ?thesis
      using "1.prems" by (simp add: drain_op_queue.simps [of run_op ass n d s] same_loop_state_def)
  next
    case (Cons e q)
    obtain i op where e: "ss_queue s = (i, op) # q" using Cons by (cases e) auto
    obtain d1 out where op: "run_op op d = (d1, out)" by fastforce
    let ?s1 = "acts (head_acts ass) (s\<lparr>ss_queue := q\<rparr>)"
    obtain s2 where s2: "resolve i (future_of out) ?s1 = Some s2"
      "drain_op_queue run_op (tl ass) (Suc n) d1 s2 = Drained m d' s'"
      using "1.prems" e op drain_op_queue.simps [of run_op ass n d s] by (auto simp: Let_def split: option.splits)
    have "same_loop_state s2 s'" using "1.IH" [OF e refl op [symmetric] refl s2(1,2)] .
    then show ?thesis
      using same_loop_pop [of s "head_acts ass" q] same_loop_resolve [OF s2(1)] by (blast intro: same_loop_trans)
  qed
qed

text \<open>The loop invariant, with the bounds of both waits.\<close>

definition loop_ok :: "real \<Rightarrow> ('o, 'r, 'x) zk_session \<Rightarrow> bool" where
  "loop_ok base s \<longleftrightarrow> session_ok s
     \<and> BACKOFF_MIN_SECONDS \<le> ss_backoff s \<and> ss_backoff s \<le> BACKOFF_MAX_SECONDS
     \<and> min base KICK_BACKOFF_MAX_SECONDS \<le> ss_kick_backoff s
     \<and> ss_kick_backoff s \<le> max base KICK_BACKOFF_MAX_SECONDS"

lemma session_ok_loop_fields [simp]:
  "session_ok (s\<lparr>ss_needs_catch_up := b\<rparr>) = session_ok s" "session_ok (s\<lparr>ss_backoff := t\<rparr>) = session_ok s"
  "session_ok (s\<lparr>ss_kick_times := ts\<rparr>) = session_ok s" "session_ok (s\<lparr>ss_kick_backoff := t\<rparr>) = session_ok s"
  by (simp_all add: session_ok_def)

lemma loop_ok_same: "loop_ok base s \<Longrightarrow> same_loop_state s s' \<Longrightarrow> session_ok s' \<Longrightarrow> loop_ok base s'"
  by (simp add: loop_ok_def same_loop_state_def)

lemma loop_ok_acts: "loop_ok base s \<Longrightarrow> loop_ok base (acts as s)"
  by (rule loop_ok_same) (auto intro: same_loop_acts acts_ok simp: loop_ok_def)

lemma loop_ok_rearm: "loop_ok base s \<Longrightarrow> loop_ok base (rearm s)"
  by (simp add: loop_ok_def rearm_def)

lemma loop_ok_kick: "0 \<le> base \<Longrightarrow> loop_ok base s \<Longrightarrow> loop_ok base (record_stream_kick base t s)"
  by (auto simp: loop_ok_def record_stream_kick_def KICK_BACKOFF_MAX_SECONDS_def)

lemma loop_ok_fail: "loop_ok base s \<Longrightarrow> loop_ok base (fail_queued_ops exc ass s)"
  using fail_settles [of s exc ass]
  by (intro loop_ok_same [OF _ same_loop_fail]) (auto simp: loop_ok_def settled_def)

lemma loop_ok_drain:
  assumes "loop_ok base s"
  obtains n d' s' where "drain_op_queue run_op ass 0 d s = Drained n d' s'" "loop_ok base s'" "ss_queue s' = []"
    "\<forall>i \<in> fst ` set (ss_queue s). \<exists>f. ss_futures s' i = Some f \<and> f \<noteq> Pending"
proof -
  obtain ex d' s' where r: "drain_op_queue run_op ass 0 d s = Drained (0 + length ex) d' s'"
    "settled s ex (snd (run_all run_op (map snd ex) d)) s'"
    using drain_settles [of s run_op ass 0 d] assms by (auto simp: loop_ok_def)
  have "loop_ok base s'"
    using loop_ok_same [OF assms same_loop_drain [OF r(1)]] r(2) by (simp add: settled_def)
  moreover have "\<forall>i \<in> fst ` set (ss_queue s). \<exists>f. ss_futures s' i = Some f \<and> f \<noteq> Pending"
    using settled_answers [OF r(2)] by blast
  ultimately show ?thesis using that r by (simp add: settled_def)
qed

section \<open>The phases keep the invariant\<close>

lemma loop_ok_catch:
  assumes "loop_ok base s" "catch_phase lookback_hours env s db = (s', db', c)"
  shows "loop_ok base s'"
  using assms loop_ok_acts [of base]
  by (auto simp: catch_phase_def loop_ok_def split: if_splits prod.splits)

lemma stream_turn_session:
  "sg_session (stream_turn summary it g) = acts (si_acts it) (sg_session g)
   \<or> sg_session (stream_turn summary it g) = acts (si_acts it) (rearm (sg_session g))"
  by (auto simp: stream_turn_def stream_event_def Let_def split: option.splits fate.splits)

lemma loop_ok_turns:
  "loop_ok base (sg_session g) \<Longrightarrow> loop_ok base (sg_session (fold (stream_turn summary) items g))"
proof (induction items arbitrary: g)
  case (Cons it items)
  have "loop_ok base (sg_session (stream_turn summary it g))"
    using stream_turn_session [of summary it g] loop_ok_acts [OF Cons.prems]
      loop_ok_acts [OF loop_ok_rearm [OF Cons.prems]] by metis
  then show ?case using Cons.IH by simp
qed simp

lemma loop_ok_stream:
  assumes "0 \<le> base" "loop_ok base s" "zk_stream summary base items dies s db = (g, died)"
  shows "loop_ok base (sg_session g)"
proof -
  let ?g = "fold (stream_turn summary) items
    \<lparr>sg_session = s, sg_db = db, sg_asked_to_end = False, sg_lost = []\<rparr>"
  have 1: "loop_ok base (sg_session ?g)" using assms(2) by (intro loop_ok_turns) simp
  have "loop_ok base (record_stream_kick base t (rearm (sg_session ?g)))" for t
    using assms(1) loop_ok_rearm [OF 1] by (rule loop_ok_kick)
  with 1 show ?thesis
    using assms(3) by (auto simp: zk_stream_def Let_def split: option.splits)
qed

definition waits_ok :: "real \<Rightarrow> real list \<Rightarrow> bool" where
  "waits_ok base ws \<longleftrightarrow> (\<forall>w \<in> set ws. min base BACKOFF_MIN_SECONDS \<le> w \<and> w \<le> max base BACKOFF_MAX_SECONDS)"

lemma loop_ok_waits:
  assumes "loop_ok base s"
  shows "waits_ok base [ss_backoff s]" "waits_ok base [ss_kick_backoff s]" "waits_ok base []"
  using assms by (auto simp: waits_ok_def loop_ok_def zk_constants min_def max_def split: if_splits)

lemma loop_ok_kick_phase:
  assumes "loop_ok base s" "kick_phase env died s = (s', ws)"
  shows "loop_ok base s'" "waits_ok base ws"
proof -
  let ?s1 = "fst (stream_kicks_in 3600 (ce_kick_clock env) s)"
  have "loop_ok base ?s1" using assms(1) by (simp add: loop_ok_def stream_kicks_in_def Let_def)
  then show "loop_ok base s'" "waits_ok base ws"
    using assms loop_ok_waits [of base] loop_ok_acts
    by (auto simp: kick_phase_def Let_def split: if_splits)
qed

lemma loop_ok_unreachable:
  assumes "loop_ok base s" "unreachable_phase env exc s = (s', ws, e)"
  shows "loop_ok base s'" "waits_ok base ws" "e \<noteq> ThreadDied"
proof -
  let ?s1 = "rearm (fail_queued_ops exc (ce_fail_acts env) s)"
  let ?s2 = "acts (ce_wait_acts env) ?s1"
  have 1: "loop_ok base ?s1" using assms(1) by (intro loop_ok_rearm loop_ok_fail)
  have 2: "loop_ok base ?s2" using 1 by (rule loop_ok_acts)
  then have 3: "loop_ok base (?s2\<lparr>ss_backoff := min (ss_backoff ?s2 * 2) BACKOFF_MAX_SECONDS\<rparr>)"
    by (auto simp: loop_ok_def zk_constants)
  have "(s', ws, e) = (?s1, [], Exited) \<or> (s', ws, e) = (?s2, [ss_backoff ?s1], Exited)
      \<or> (s', ws, e) = (?s2\<lparr>ss_backoff := min (ss_backoff ?s2 * 2) BACKOFF_MAX_SECONDS\<rparr>, [ss_backoff ?s1], Again)"
    using assms(2) unfolding unreachable_phase_def Let_def by (simp split: if_splits)
  with 1 2 3 show "loop_ok base s'" "waits_ok base ws" "e \<noteq> ThreadDied"
    using loop_ok_waits(1,3) [OF 1] by blast+
qed

lemma loop_ok_ops:
  assumes "loop_ok base s" "ops_phase run_op env s = (s', n, e)"
  shows "loop_ok base s'" "e = Again" "n \<noteq> None \<Longrightarrow> ss_queue s' = []"
    "isl (ce_ops_connect env) \<or> (\<forall>i \<in> fst ` set (ss_queue s). \<exists>f. ss_futures s' i = Some f \<and> f \<noteq> Pending)"
proof -
  let ?s1 = "acts (ce_ops_acts env) s"
  have 1: "loop_ok base ?s1" using assms(1) by (rule loop_ok_acts)
  have q: "fst ` set (ss_queue s) \<subseteq> fst ` set (ss_queue ?s1)"
    using acts_extended [of s "ce_ops_acts env"] by (auto simp: extended_def)
  have all: "loop_ok base s' \<and> e = Again \<and> (n \<noteq> None \<longrightarrow> ss_queue s' = []) \<and>
    (isl (ce_ops_connect env) \<or> (\<forall>i \<in> fst ` set (ss_queue s). \<exists>f. ss_futures s' i = Some f \<and> f \<noteq> Pending))"
  proof (cases "ss_queue s = [] \<or> isl (ce_ops_connect env)")
    case True
    then show ?thesis
    proof (cases "ss_queue s = []")
      case True
      then show ?thesis using assms by (simp add: ops_phase_def)
    next
      case False
      with True obtain x where x: "ce_ops_connect env = Inl x" by (auto simp: isl_def)
      with False have "s' = rearm ?s1" "n = None" "e = Again" using assms(2) by (auto simp: ops_phase_def Let_def)
      with x show ?thesis using loop_ok_rearm [OF 1] by simp
    qed
  next
    case False
    then obtain d where d: "ce_ops_connect env = Inr d" by (cases "ce_ops_connect env") auto
    obtain m d' s2 where dr: "drain_op_queue run_op (ce_drain_acts env) 0 d ?s1 = Drained m d' s2"
      "loop_ok base s2" "ss_queue s2 = []"
      "\<forall>i \<in> fst ` set (ss_queue ?s1). \<exists>f. ss_futures s2 i = Some f \<and> f \<noteq> Pending"
      by (rule loop_ok_drain [OF 1, of run_op "ce_drain_acts env" d])
    with False assms(2) d have "s' = s2" "n = Some m" "e = Again"
      by (auto simp: ops_phase_def Let_def)
    with dr q show ?thesis by blast
  qed
  from all show "loop_ok base s'" "e = Again" "n \<noteq> None \<Longrightarrow> ss_queue s' = []"
    "isl (ce_ops_connect env) \<or> (\<forall>i \<in> fst ` set (ss_queue s). \<exists>f. ss_futures s' i = Some f \<and> f \<noteq> Pending)"
    by simp_all
qed

text \<open>What a connected iteration is made of.\<close>

lemma connected_phaseE:
  assumes "connected_phase run_op summary base lookback_hours env s db = (dm', out)"
  obtains s1 db1 c g died s3 ws where
    "catch_phase lookback_hours env (s\<lparr>ss_backoff := BACKOFF_MIN_SECONDS\<rparr>) db = (s1, db1, c)"
    "zk_stream summary base (ce_items env) (ce_dies env) s1 db1 = (g, died)"
    "dm_db dm' = sg_db g" "co_caught out = c" "co_lost out = sg_lost g"
    "(co_end out = Exited \<and> co_waits out = [] \<and> co_drained out = None
        \<and> dm_session dm' = acts (ce_disconnect_acts env) (sg_session g))
     \<or> (kick_phase env died (acts (ce_disconnect_acts env) (sg_session g)) = (s3, ws) \<and> co_waits out = ws
        \<and> ((co_end out = Exited \<and> ss_shutdown s3 \<and> ws \<noteq> [] \<and> co_drained out = None \<and> dm_session dm' = s3)
            \<or> ops_phase run_op env s3 = (dm_session dm', co_drained out, co_end out)))"
proof -
  obtain s1 db1 c where 1: "catch_phase lookback_hours env (s\<lparr>ss_backoff := BACKOFF_MIN_SECONDS\<rparr>) db = (s1, db1, c)"
    by (metis prod_cases3)
  obtain g died where 2: "zk_stream summary base (ce_items env) (ce_dies env) s1 db1 = (g, died)" by fastforce
  obtain s3 ws where 3: "kick_phase env died (acts (ce_disconnect_acts env) (sg_session g)) = (s3, ws)" by fastforce
  obtain s4 n e where 4: "ops_phase run_op env s3 = (s4, n, e)" by (metis prod_cases3)
  show ?thesis
    using assms 3 4
    by (intro that [OF 1 2, of s3 ws]) (auto simp: connected_phase_def 1 2 Let_def split: if_splits)
qed

lemma cycle_ok:
  assumes "0 \<le> base" "loop_ok base (dm_session dm)"
    and "zk_cycle run_op summary base lookback_hours dm env = (dm', out)"
  shows "loop_ok base (dm_session dm') \<and> waits_ok base (co_waits out) \<and> co_end out \<noteq> ThreadDied
    \<and> (co_drained out \<noteq> None \<longrightarrow> ss_queue (dm_session dm') = [])"
proof (cases "ss_shutdown (dm_session dm)")
  case True
  then show ?thesis using assms by (auto simp: zk_cycle_def waits_ok_def)
next
  case run: False
  let ?s = "acts (ce_connect_acts env) (dm_session dm)"
  have s: "loop_ok base ?s" using assms(2) by (rule loop_ok_acts)
  show ?thesis
  proof (cases "ce_connect env")
    case (Some exc)
    obtain s' ws e where u: "unreachable_phase env exc ?s = (s', ws, e)" by (metis prod_cases3)
    with Some show ?thesis
      using assms(3) run loop_ok_unreachable [OF s u] by (auto simp: zk_cycle_def Let_def)
  next
    case None
    then have "connected_phase run_op summary base lookback_hours env ?s (dm_db dm) = (dm', out)"
      using assms(3) run by (simp add: zk_cycle_def Let_def)
    then obtain s1 db1 c g died s3 ws where p:
      "catch_phase lookback_hours env (?s\<lparr>ss_backoff := BACKOFF_MIN_SECONDS\<rparr>) (dm_db dm) = (s1, db1, c)"
      "zk_stream summary base (ce_items env) (ce_dies env) s1 db1 = (g, died)"
      "(co_end out = Exited \<and> co_waits out = [] \<and> co_drained out = None
          \<and> dm_session dm' = acts (ce_disconnect_acts env) (sg_session g))
       \<or> (kick_phase env died (acts (ce_disconnect_acts env) (sg_session g)) = (s3, ws) \<and> co_waits out = ws
          \<and> ((co_end out = Exited \<and> ss_shutdown s3 \<and> ws \<noteq> [] \<and> co_drained out = None \<and> dm_session dm' = s3)
              \<or> ops_phase run_op env s3 = (dm_session dm', co_drained out, co_end out)))"
      by (rule connected_phaseE)
    have "loop_ok base (?s\<lparr>ss_backoff := BACKOFF_MIN_SECONDS\<rparr>)"
      using s by (simp add: loop_ok_def zk_constants)
    then have "loop_ok base s1" using p(1) by (rule loop_ok_catch)
    then have "loop_ok base (sg_session g)" using assms(1) p(2) by (metis loop_ok_stream)
    then have s2: "loop_ok base (acts (ce_disconnect_acts env) (sg_session g))" by (rule loop_ok_acts)
    from p(3) show ?thesis
    proof
      assume "kick_phase env died (acts (ce_disconnect_acts env) (sg_session g)) = (s3, ws) \<and> co_waits out = ws
        \<and> ((co_end out = Exited \<and> ss_shutdown s3 \<and> ws \<noteq> [] \<and> co_drained out = None \<and> dm_session dm' = s3)
            \<or> ops_phase run_op env s3 = (dm_session dm', co_drained out, co_end out))"
      then have k: "kick_phase env died (acts (ce_disconnect_acts env) (sg_session g)) = (s3, ws)"
        and w: "co_waits out = ws"
        and e: "(co_end out = Exited \<and> co_drained out = None \<and> dm_session dm' = s3)
           \<or> ops_phase run_op env s3 = (dm_session dm', co_drained out, co_end out)" by blast+
      note s3 = loop_ok_kick_phase [OF s2 k]
      from e show ?thesis
      proof
        assume "ops_phase run_op env s3 = (dm_session dm', co_drained out, co_end out)"
        from loop_ok_ops(1-3) [OF s3(1) this] show ?thesis using s3(2) w by simp
      qed (use s3 w in simp)
    qed (use s2 loop_ok_waits(3) [OF s2] in simp)
  qed
qed

section \<open>Every queued operation is answered\<close>

definition waiting :: "nat \<Rightarrow> ('o, 'r, 'x) zk_session \<Rightarrow> bool" where
  "waiting i s \<longleftrightarrow> i \<in> fst ` set (ss_queue s)"

definition answered :: "nat \<Rightarrow> ('o, 'r, 'x) zk_session \<Rightarrow> bool" where
  "answered i s \<longleftrightarrow> (\<exists>f. ss_futures s i = Some f \<and> f \<noteq> Pending)"

lemma waiting_acts: "waiting i s \<Longrightarrow> waiting i (acts as s)"
  using acts_extended [of s as] by (auto simp: waiting_def extended_def)

lemma waiting_fields [simp]:
  "waiting i (rearm s) = waiting i s" "waiting i (s\<lparr>ss_needs_catch_up := b\<rparr>) = waiting i s"
  "waiting i (s\<lparr>ss_backoff := t\<rparr>) = waiting i s" "waiting i (record_stream_kick base t s) = waiting i s"
  by (simp_all add: waiting_def rearm_def record_stream_kick_def)

lemma answered_acts: "answered i s \<Longrightarrow> session_ok s \<Longrightarrow> answered i (acts as s)"
  using acts_extended [of s as] by (fastforce simp: answered_def extended_def session_ok_def)

lemma waiting_turns: "waiting i (sg_session g) \<Longrightarrow> waiting i (sg_session (fold (stream_turn summary) items g))"
proof (induction items arbitrary: g)
  case (Cons it items)
  have "waiting i (sg_session (stream_turn summary it g))"
    using stream_turn_session [of summary it g] waiting_acts [of i "sg_session g"]
      waiting_acts [of i "rearm (sg_session g)"] Cons.prems by auto
  then show ?case using Cons.IH by simp
qed simp

lemma waiting_stream:
  assumes "waiting i s" "zk_stream summary base items dies s db = (g, died)"
  shows "waiting i (sg_session g)"
  using assms waiting_turns [of i "\<lparr>sg_session = s, sg_db = db, sg_asked_to_end = False, sg_lost = []\<rparr>" summary items]
  by (auto simp: zk_stream_def Let_def split: option.splits)

lemma waiting_catch: "waiting i s \<Longrightarrow> catch_phase lookback_hours env s db = (s', db', c) \<Longrightarrow> waiting i s'"
  by (auto simp: catch_phase_def intro!: waiting_acts split: if_splits prod.splits)

lemma unreachable_answers:
  assumes "loop_ok base s" "waiting i s" "unreachable_phase env exc s = (s', ws, e)"
  shows "answered i s'"
proof -
  let ?f = "fail_queued_ops exc (ce_fail_acts env) s"
  obtain ex where ex: "settled s ex (map (\<lambda>_. Inl exc) ex) ?f"
    using fail_settles [of s exc "ce_fail_acts env"] assms(1) by (auto simp: loop_ok_def)
  have "answered i ?f" using settled_answers [OF ex] assms(2) by (simp add: waiting_def answered_def)
  then have 1: "answered i (rearm ?f)" by (simp add: answered_def rearm_def)
  have "session_ok (rearm ?f)" using ex by (simp add: settled_def rearm_def)
  with 1 have "answered i (acts (ce_wait_acts env) (rearm ?f))" by (rule answered_acts)
  with 1 show ?thesis
    using assms(3) by (auto simp: unreachable_phase_def Let_def answered_def split: if_splits)
qed

lemma waiting_kick_phase:
  assumes "waiting i s" "kick_phase env died s = (s', ws)"
  shows "s' = s \<and> ws = []"
  using assms by (auto simp: kick_phase_def waiting_def split: if_splits)

text \<open>
  An operation waiting when an iteration of the loop begins has its answer when that
  iteration ends, unless the thread is shutting down or only the connection for the operations
  failed: the reader's answer when it was reached, the connection error when it was not.
\<close>

theorem ops_answered_in_a_cycle:
  assumes "0 \<le> base" "loop_ok base (dm_session dm)" "waiting i (dm_session dm)"
    and "zk_cycle run_op summary base lookback_hours dm env = (dm', out)" "co_end out = Again"
    and "ce_connect env \<noteq> None \<or> \<not> isl (ce_ops_connect env)"
  shows "answered i (dm_session dm')"
proof (cases "ce_connect env")
  case (Some exc)
  let ?s = "acts (ce_connect_acts env) (dm_session dm)"
  obtain s' ws e where u: "unreachable_phase env exc ?s = (s', ws, e)" by (metis prod_cases3)
  have "answered i s'" using loop_ok_acts [OF assms(2)] waiting_acts [OF assms(3)] u by (rule unreachable_answers)
  with Some u show ?thesis using assms(4,5) by (auto simp: zk_cycle_def Let_def split: if_splits)
next
  case None
  let ?s = "acts (ce_connect_acts env) (dm_session dm)"
  have "connected_phase run_op summary base lookback_hours env ?s (dm_db dm) = (dm', out)"
    using assms(4,5) None by (auto simp: zk_cycle_def Let_def split: if_splits)
  then obtain s1 db1 c g died s3 ws where p:
    "catch_phase lookback_hours env (?s\<lparr>ss_backoff := BACKOFF_MIN_SECONDS\<rparr>) (dm_db dm) = (s1, db1, c)"
    "zk_stream summary base (ce_items env) (ce_dies env) s1 db1 = (g, died)"
    "kick_phase env died (acts (ce_disconnect_acts env) (sg_session g)) = (s3, ws)"
    "ops_phase run_op env s3 = (dm_session dm', co_drained out, Again)"
    using assms(5) by (elim connected_phaseE) auto
  let ?s2 = "acts (ce_disconnect_acts env) (sg_session g)"
  have ok: "loop_ok base (?s\<lparr>ss_backoff := BACKOFF_MIN_SECONDS\<rparr>)"
    using loop_ok_acts [OF assms(2), of "ce_connect_acts env"] by (simp add: loop_ok_def zk_constants)
  have "waiting i (?s\<lparr>ss_backoff := BACKOFF_MIN_SECONDS\<rparr>)" using waiting_acts [OF assms(3)] by simp
  then have "waiting i s1" using p(1) by (rule waiting_catch)
  then have "waiting i (sg_session g)" using p(2) by (rule waiting_stream)
  then have w: "waiting i ?s2" by (rule waiting_acts)
  have "loop_ok base s1" using ok p(1) by (rule loop_ok_catch)
  with assms(1) have "loop_ok base (sg_session g)" using p(2) by (rule loop_ok_stream)
  then have ok2: "loop_ok base ?s2" by (rule loop_ok_acts)
  have s3: "s3 = ?s2" using waiting_kick_phase [OF w p(3)] by simp
  from loop_ok_ops(4) [OF ok2 p(4) [unfolded s3]] assms(6) None w show ?thesis
    unfolding waiting_def answered_def by blast
qed

section \<open>The life of the thread\<close>

text \<open>Iterations of the loop, and \<open>start\<close> again after whatever others did while it was stopped.\<close>

datatype ('o, 'd, 'x) daemon_event = Iterate "('o, 'd, 'x) cycle_env" | Restart "'o action list"

definition quiet_out :: cycle_out where
  "quiet_out = \<lparr>co_end = Again, co_waits = [], co_caught = None, co_lost = [], co_drained = None\<rparr>"

definition daemon_step ::
  "('o \<Rightarrow> 'd \<Rightarrow> 'd \<times> ('x + 'r)) \<Rightarrow> (zk_db \<Rightarrow> 'm option) \<Rightarrow> real \<Rightarrow> int
     \<Rightarrow> ('o, 'r, 'x) daemon \<Rightarrow> ('o, 'd, 'x) daemon_event \<Rightarrow> ('o, 'r, 'x) daemon \<times> cycle_out" where
  "daemon_step run_op summary base lookback_hours dm ev =
     (case ev of
        Iterate env \<Rightarrow> zk_cycle run_op summary base lookback_hours dm env
      | Restart as \<Rightarrow> (dm\<lparr>dm_session := zk_start (acts as (dm_session dm))\<rparr>, quiet_out))"

definition out_ok :: "real \<Rightarrow> cycle_out \<Rightarrow> bool" where
  "out_ok base out \<longleftrightarrow> co_end out \<noteq> ThreadDied \<and> waits_ok base (co_waits out)"

lemma loop_ok_start: "loop_ok base s \<Longrightarrow> loop_ok base (zk_start s)"
  by (auto simp: loop_ok_def zk_start_def session_ok_def zk_constants)

lemma daemon_step_ok:
  assumes "0 \<le> base" "loop_ok base (dm_session dm)"
    and "daemon_step run_op summary base lookback_hours dm ev = (dm', out)"
  shows "loop_ok base (dm_session dm') \<and> out_ok base out"
proof (cases ev)
  case (Iterate env)
  then have "zk_cycle run_op summary base lookback_hours dm env = (dm', out)"
    using assms(3) by (simp add: daemon_step_def)
  with assms(1,2) show ?thesis using cycle_ok unfolding out_ok_def by blast
next
  case (Restart as)
  then show ?thesis
    using assms loop_ok_start [OF loop_ok_acts [OF assms(2)]]
    by (auto simp: daemon_step_def out_ok_def quiet_out_def waits_ok_def)
qed

interpretation zk_loop: traced_machine "daemon_step run_op summary base lookback_hours"
  "\<lambda>h dm. 0 \<le> base \<longrightarrow> loop_ok base (dm_session dm) \<and> (\<forall>x \<in> set h. out_ok base (snd x))"
  for run_op summary base lookback_hours
  by unfold_locales (use daemon_step_ok in \<open>fastforce\<close>)

lemma loop_ok_new: "0 \<le> base \<Longrightarrow> loop_ok base (new_session base)"
  by (simp add: loop_ok_def new_session_ok) (simp add: new_session_def zk_constants)

text \<open>
  C27. From process start and through any sequence of iterations, restarts and foreign actions
  the session thread never dies of a queued operation, its session stays well formed (every
  queued future is pending, none is queued twice), and every wait before a reconnect is
  bounded: never below the smaller of five seconds and the configured base, never above the
  larger of a minute and that base.
\<close>

theorem session_thread_survives:
  assumes "0 \<le> base"
    and "run (daemon_step run_op summary base lookback_hours) \<lparr>dm_session = new_session base, dm_db = db\<rparr> es = (dm, tr)"
  shows "loop_ok base (dm_session dm)
     \<and> (\<forall>(ev, out) \<in> set tr. co_end out \<noteq> ThreadDied
           \<and> (\<forall>w \<in> set (co_waits out). min base 5 \<le> w \<and> w \<le> max base 60))"
proof -
  have "loop_ok base (dm_session dm) \<and> (\<forall>x \<in> set tr. out_ok base (snd x))"
    using zk_loop.hinv_run [where h = "[]" and base = base, OF _ assms(2)] assms(1) loop_ok_new [OF assms(1)] by simp
  then show ?thesis
    by (auto simp: out_ok_def waits_ok_def zk_constants)
qed

section \<open>No punch is lost for good\<close>

text \<open>
  The debt: punches whose handler raised before the commit. It is paid when each has a row,
  or when the thread still owes a catch-up.
\<close>

definition paid :: "zk_event list \<Rightarrow> ('o, 'r, 'x) zk_session \<Rightarrow> zk_db \<Rightarrow> bool" where
  "paid L s db \<longleftrightarrow> ss_needs_catch_up s \<or> (\<forall>e \<in> set L. scan_of e \<in> scans db)"

text \<open>
  What the reader has to provide: a log fetched in full contains every punch it once streamed,
  and that punch is not beyond the lookback, its badge is enrolled and a reader is configured.
\<close>

definition log_covers :: "zk_event list \<Rightarrow> caught option \<Rightarrow> bool" where
  "log_covers L co = (case co of None \<Rightarrow> True
     | Some c \<Rightarrow> \<forall>e \<in> set L. ca_device c \<noteq> None
         \<and> (\<exists>ce \<in> set (ca_log c). snd ce = e \<and> wanted (ca_floor c) (ca_before c) ce))"

fun recoverable :: "zk_event list \<Rightarrow> cycle_out list \<Rightarrow> bool" where
  "recoverable L [] = True"
| "recoverable L (out # outs) = (log_covers L (co_caught out) \<and> recoverable (L @ co_lost out) outs)"

lemma needs_same: "same_loop_state s s' \<Longrightarrow> ss_needs_catch_up s' = ss_needs_catch_up s"
  by (simp add: same_loop_state_def)

lemma needs_acts [simp]: "ss_needs_catch_up (acts as s) = ss_needs_catch_up s"
  using same_loop_acts by (rule needs_same)

lemma needs_simps [simp]:
  "ss_needs_catch_up (rearm s)" "ss_needs_catch_up (record_stream_kick base t s) = ss_needs_catch_up s"
  "ss_needs_catch_up (fst (stream_kicks_in w t s)) = ss_needs_catch_up s"
  by (simp_all add: rearm_def record_stream_kick_def stream_kicks_in_def Let_def)

lemma catch_up_scans: "zk_catch_up lookback_hours c db = (db', co) \<Longrightarrow> scans db \<subseteq> scans db'"
  by (auto simp: zk_catch_up_def dest: subsetD [OF reconcile_scans] split: sum.splits option.splits)

lemma catch_up_pays:
  assumes "zk_catch_up lookback_hours c db = (db', co)" "co \<noteq> None" "log_covers L co" "e \<in> set L"
  shows "scan_of e \<in> scans db'"
proof -
  obtain recs where f: "cr_fetch c = Inr recs" "cr_breaks_after c = None"
    using assms(1,2) by (auto simp: zk_catch_up_def split: sum.splits option.splits)
  then have db': "db' = fst (reconcile_attendance lookback_hours False (cr_clock c) recs db)"
    and co: "co = Some \<lparr>ca_device = active_device db,
      ca_floor = (case active_device db of None \<Rightarrow> None
        | Some d \<Rightarrow> catchup_floor lookback_hours False (cr_clock c) (dev_id d) db),
      ca_log = recs, ca_before = db\<rparr>"
    using assms(1) by (simp_all add: zk_catch_up_def)
  from assms(3,4) co obtain d ce where "active_device db = Some d" "ce \<in> set recs" "snd ce = e"
    "wanted (catchup_floor lookback_hours False (cr_clock c) (dev_id d) db) db ce"
    by (auto simp: log_covers_def)
  with reconcile_recovers show ?thesis unfolding db' by blast
qed

lemma paid_catch_phase:
  assumes "paid L s db" "catch_phase lookback_hours env s db = (s', db', co)" "log_covers L co"
  shows "paid L s' db'"
proof (cases "ss_needs_catch_up s")
  case True
  then obtain "zk_catch_up lookback_hours (ce_catch env) db = (db', co)"
    "s' = acts (ce_catch_acts env) (if co = None then s else s\<lparr>ss_needs_catch_up := False\<rparr>)"
    using assms(2) by (auto simp: catch_phase_def split: prod.splits)
  with True show ?thesis using catch_up_pays [OF _ _ assms(3)] by (auto simp: paid_def)
next
  case False
  then show ?thesis using assms(1,2) by (simp add: catch_phase_def)
qed

text \<open>A stream that loses a punch re-arms the catch-up, and never drops the flag.\<close>

definition stream_inv :: "('o, 'r, 'x) streaming \<Rightarrow> ('o, 'r, 'x) streaming \<Rightarrow> bool" where
  "stream_inv g g' \<longleftrightarrow> scans (sg_db g) \<subseteq> scans (sg_db g')
     \<and> (ss_needs_catch_up (sg_session g) \<longrightarrow> ss_needs_catch_up (sg_session g'))
     \<and> (sg_lost g' \<noteq> sg_lost g \<longrightarrow> ss_needs_catch_up (sg_session g'))"

lemma stream_turn_inv: "stream_inv g (stream_turn summary it g)"
  using handle_punch_scans
  by (fastforce simp: stream_inv_def stream_turn_def stream_event_def Let_def split: option.splits fate.splits)

lemma stream_inv_trans: "stream_inv g h \<Longrightarrow> stream_inv h k \<Longrightarrow> stream_inv g k"
  by (auto simp: stream_inv_def)

lemma stream_fold_inv: "stream_inv g (fold (stream_turn summary) items g)"
proof (induction items arbitrary: g)
  case Nil
  then show ?case by (simp add: stream_inv_def)
next
  case (Cons it items)
  show ?case using stream_inv_trans [OF stream_turn_inv Cons.IH] by simp
qed

lemma paid_stream:
  assumes "paid L s db" "zk_stream summary base items dies s db = (g, died)"
  shows "paid (L @ sg_lost g) (sg_session g) (sg_db g)"
proof -
  let ?g0 = "\<lparr>sg_session = s, sg_db = db, sg_asked_to_end = False, sg_lost = []\<rparr>"
  have "stream_inv ?g0 (fold (stream_turn summary) items ?g0)" by (rule stream_fold_inv)
  then show ?thesis
    using assms by (auto simp: paid_def stream_inv_def zk_stream_def Let_def split: option.splits)
qed

lemma paid_mono:
  "paid L s db \<Longrightarrow> (ss_needs_catch_up s \<Longrightarrow> ss_needs_catch_up s') \<Longrightarrow> paid L s' db"
  by (auto simp: paid_def)

lemma needs_kick_phase: "kick_phase env died s = (s', ws) \<Longrightarrow> ss_needs_catch_up s' = ss_needs_catch_up s"
  by (auto simp: kick_phase_def Let_def split: if_splits)

lemma needs_ops_phase:
  assumes "loop_ok base s" "ops_phase run_op env s = (s', n, e)"
  shows "ss_needs_catch_up s' = (ss_needs_catch_up s \<or> (ss_queue s \<noteq> [] \<and> isl (ce_ops_connect env)))"
proof (cases "ss_queue s = []")
  case True
  then show ?thesis using assms(2) by (simp add: ops_phase_def)
next
  case False
  let ?s1 = "acts (ce_ops_acts env) s"
  show ?thesis
  proof (cases "ce_ops_connect env")
    case (Inl x)
    then show ?thesis using assms(2) False by (auto simp: ops_phase_def Let_def)
  next
    case (Inr d)
    have "loop_ok base ?s1" using assms(1) by (rule loop_ok_acts)
    then obtain m d' s2 where dr: "drain_op_queue run_op (ce_drain_acts env) 0 d ?s1 = Drained m d' s2"
      by (rule loop_ok_drain)
    then show ?thesis
      using assms(2) False Inr needs_same [OF same_loop_drain [OF dr]] by (auto simp: ops_phase_def Let_def)
  qed
qed

text \<open>An iteration in which nothing fails.\<close>

definition smooth :: "('o, 'd, 'x) cycle_env \<Rightarrow> bool" where
  "smooth env \<longleftrightarrow> ce_connect env = None \<and> \<not> isl (cr_fetch (ce_catch env))
     \<and> cr_breaks_after (ce_catch env) = None \<and> list_all (\<lambda>it. si_fate it = Handled) (ce_items env)
     \<and> ce_dies env = None \<and> \<not> isl (ce_ops_connect env)"

lemma smooth_turns:
  "list_all (\<lambda>it. si_fate it = Handled) items \<Longrightarrow>
     ss_needs_catch_up (sg_session (fold (stream_turn summary) items g)) = ss_needs_catch_up (sg_session g)"
proof (induction items arbitrary: g)
  case (Cons it items)
  have "ss_needs_catch_up (sg_session (stream_turn summary it g)) = ss_needs_catch_up (sg_session g)"
    using Cons.prems by (auto simp: stream_turn_def stream_event_def Let_def split: option.splits)
  with Cons show ?case by simp
qed simp

lemma smooth_stream:
  assumes "smooth env" "zk_stream summary base (ce_items env) (ce_dies env) s db = (g, died)"
  shows "ss_needs_catch_up (sg_session g) = ss_needs_catch_up s"
proof -
  have "list_all (\<lambda>it. si_fate it = Handled) (ce_items env)" using assms(1) by (simp add: smooth_def)
  then have "ss_needs_catch_up (sg_session (fold (stream_turn summary) (ce_items env)
      \<lparr>sg_session = s, sg_db = db, sg_asked_to_end = False, sg_lost = []\<rparr>)) = ss_needs_catch_up s"
    by (simp add: smooth_turns)
  then show ?thesis using assms by (auto simp: zk_stream_def Let_def smooth_def)
qed

lemma smooth_catch:
  assumes "smooth env" "catch_phase lookback_hours env s db = (s', db', co)"
  shows "\<not> ss_needs_catch_up s'"
  using assms
  by (auto simp: smooth_def catch_phase_def zk_catch_up_def isl_def split: if_splits sum.splits)

lemma cycle_pays:
  assumes "0 \<le> base" "loop_ok base (dm_session dm)"
    and "zk_cycle run_op summary base lookback_hours dm env = (dm', out)"
    and "paid L (dm_session dm) (dm_db dm)" "log_covers L (co_caught out)"
  shows "paid (L @ co_lost out) (dm_session dm') (dm_db dm')"
    and "smooth env \<Longrightarrow> \<not> ss_shutdown (dm_session dm) \<Longrightarrow> \<not> ss_needs_catch_up (dm_session dm')"
proof -
  let ?s = "acts (ce_connect_acts env) (dm_session dm)"
  let ?goal = "paid (L @ co_lost out) (dm_session dm') (dm_db dm')
    \<and> (smooth env \<and> \<not> ss_shutdown (dm_session dm) \<longrightarrow> \<not> ss_needs_catch_up (dm_session dm'))"
  have ?goal
  proof (cases "ss_shutdown (dm_session dm)")
    case True
    then show ?thesis using assms(3,4) by (auto simp: zk_cycle_def)
  next
    case run: False
    show ?thesis
    proof (cases "ce_connect env")
      case (Some exc)
      obtain s' ws e where u: "unreachable_phase env exc ?s = (s', ws, e)" by (metis prod_cases3)
      have "ss_needs_catch_up s'" using u by (auto simp: unreachable_phase_def Let_def split: if_splits)
      with Some u run show ?thesis using assms(3) by (auto simp: zk_cycle_def Let_def paid_def smooth_def)
    next
      case None
      let ?sm = "?s\<lparr>ss_backoff := BACKOFF_MIN_SECONDS\<rparr>"
      have "connected_phase run_op summary base lookback_hours env ?s (dm_db dm) = (dm', out)"
        using assms(3) run None by (simp add: zk_cycle_def Let_def)
      then obtain s1 db1 c g died s3 ws where p:
        "catch_phase lookback_hours env ?sm (dm_db dm) = (s1, db1, c)"
        "zk_stream summary base (ce_items env) (ce_dies env) s1 db1 = (g, died)"
        "dm_db dm' = sg_db g" "co_caught out = c" "co_lost out = sg_lost g"
        and q: "(co_end out = Exited \<and> co_waits out = [] \<and> co_drained out = None
            \<and> dm_session dm' = acts (ce_disconnect_acts env) (sg_session g))
         \<or> (kick_phase env died (acts (ce_disconnect_acts env) (sg_session g)) = (s3, ws) \<and> co_waits out = ws
            \<and> ((co_end out = Exited \<and> ss_shutdown s3 \<and> ws \<noteq> [] \<and> co_drained out = None \<and> dm_session dm' = s3)
                \<or> ops_phase run_op env s3 = (dm_session dm', co_drained out, co_end out)))"
        by (rule connected_phaseE)
      let ?s2 = "acts (ce_disconnect_acts env) (sg_session g)"
      have "loop_ok base ?sm" using loop_ok_acts [OF assms(2)] by (simp add: loop_ok_def zk_constants)
      then have "loop_ok base s1" using p(1) by (rule loop_ok_catch)
      with assms(1) have "loop_ok base (sg_session g)" using p(2) by (rule loop_ok_stream)
      then have ok2: "loop_ok base ?s2" by (rule loop_ok_acts)
      have later: "ss_needs_catch_up (dm_session dm') \<longleftrightarrow> ss_needs_catch_up (sg_session g)
          \<or> (isl (ce_ops_connect env) \<and> ss_needs_catch_up (dm_session dm'))"
        using q
      proof (elim disjE conjE)
        assume k: "kick_phase env died ?s2 = (s3, ws)"
          and o: "ops_phase run_op env s3 = (dm_session dm', co_drained out, co_end out)"
        show ?thesis
          using needs_kick_phase [OF k] needs_ops_phase [OF loop_ok_kick_phase(1) [OF ok2 k] o] by auto
      next
        assume k: "kick_phase env died ?s2 = (s3, ws)" and e: "dm_session dm' = s3"
        show ?thesis using needs_kick_phase [OF k] e by auto
      qed auto
      have "paid L ?sm (dm_db dm)" using assms(4) by (simp add: paid_def)
      then have "paid L s1 db1" using p(1,4) assms(5) by (auto intro: paid_catch_phase)
      then have "paid (L @ co_lost out) (sg_session g) (dm_db dm')"
        using p(2,3,5) by (auto intro: paid_stream)
      then have 1: "paid (L @ co_lost out) (dm_session dm') (dm_db dm')"
        by (rule paid_mono) (use later in blast)
      have "smooth env \<Longrightarrow> \<not> ss_needs_catch_up (sg_session g)"
        using smooth_catch [OF _ p(1)] smooth_stream [OF _ p(2)] by simp
      with later 1 show ?thesis by (auto simp: smooth_def)
    qed
  qed
  then show "paid (L @ co_lost out) (dm_session dm') (dm_db dm')"
    and "smooth env \<Longrightarrow> \<not> ss_shutdown (dm_session dm) \<Longrightarrow> \<not> ss_needs_catch_up (dm_session dm')"
    by blast+
qed

lemma step_pays:
  assumes "0 \<le> base" "loop_ok base (dm_session dm)"
    and "daemon_step run_op summary base lookback_hours dm ev = (dm', out)"
    and "paid L (dm_session dm) (dm_db dm)" "log_covers L (co_caught out)"
  shows "paid (L @ co_lost out) (dm_session dm') (dm_db dm')"
proof (cases ev)
  case (Iterate env)
  then have "zk_cycle run_op summary base lookback_hours dm env = (dm', out)"
    using assms(3) by (simp add: daemon_step_def)
  with assms(1,2) show ?thesis using assms(4,5) by (rule cycle_pays(1))
next
  case (Restart as)
  have "paid L (zk_start (acts as (dm_session dm))) (dm_db dm)"
    using assms(4) by (rule paid_mono) (simp add: zk_start_def)
  with Restart show ?thesis using assms(3) by (auto simp: daemon_step_def quiet_out_def)
qed

definition lost_in :: "('e \<times> cycle_out) list \<Rightarrow> zk_event list" where
  "lost_in tr = concat (map (co_lost \<circ> snd) tr)"

lemma run_pays:
  "0 \<le> base \<Longrightarrow> loop_ok base (dm_session dm) \<Longrightarrow> paid L (dm_session dm) (dm_db dm)
   \<Longrightarrow> run (daemon_step run_op summary base lookback_hours) dm es = (dm', tr)
   \<Longrightarrow> recoverable L (map snd tr)
   \<Longrightarrow> paid (L @ lost_in tr) (dm_session dm') (dm_db dm') \<and> loop_ok base (dm_session dm')"
proof (induction es arbitrary: dm L tr)
  case Nil
  then show ?case by (simp add: lost_in_def)
next
  case (Cons e es)
  obtain dm1 out where st: "daemon_step run_op summary base lookback_hours dm e = (dm1, out)" by fastforce
  obtain tr' where tr: "run (daemon_step run_op summary base lookback_hours) dm1 es = (dm', tr')" "tr = (e, out) # tr'"
    using Cons.prems(4) st by (rule run_ConsE)
  have cov: "log_covers L (co_caught out)" "recoverable (L @ co_lost out) (map snd tr')"
    using Cons.prems(5) tr(2) by simp_all
  have p: "paid (L @ co_lost out) (dm_session dm1) (dm_db dm1)"
    using Cons.prems(1,2) st Cons.prems(3) cov(1) by (rule step_pays)
  have ok: "loop_ok base (dm_session dm1)"
    using daemon_step_ok [OF Cons.prems(1,2) st] by blast
  show ?case
    using Cons.IH [OF Cons.prems(1) ok p tr(1) cov(2)] tr(2) by (simp add: lost_in_def)
qed

lemma recoverable_snoc:
  "recoverable L (outs @ [out]) \<Longrightarrow>
     recoverable L outs \<and> log_covers (L @ concat (map co_lost outs)) (co_caught out)"
proof (induction outs arbitrary: L)
  case (Cons a outs)
  then show ?case using Cons.IH [of "L @ co_lost a"] by simp
qed simp

text \<open>
  C6. A punch whose handler failed before its commit is stored in the end: the failure re-arms
  the catch-up through every later eviction, failed connection, failed catch-up and restart,
  and after the first iteration in which reader and database work, every punch lost so far has
  its row, if the reader's log still shows it, its badge is enrolled and it is not older than
  the lookback.
\<close>

theorem lost_punches_recovered:
  assumes "0 \<le> base"
    and "run (daemon_step run_op summary base lookback_hours) \<lparr>dm_session = new_session base, dm_db = db\<rparr> es = (dm, tr)"
    and "zk_cycle run_op summary base lookback_hours dm env = (dm', out)"
    and "smooth env" "\<not> ss_shutdown (dm_session dm)"
    and "recoverable [] (map snd tr @ [out])"
  shows "\<forall>e \<in> set (lost_in tr). scan_of e \<in> scans (dm_db dm')"
proof -
  have rec: "recoverable [] (map snd tr)" "log_covers (lost_in tr) (co_caught out)"
    using recoverable_snoc [OF assms(6)] by (simp_all add: lost_in_def o_def)
  have "paid ([] @ lost_in tr) (dm_session dm) (dm_db dm) \<and> loop_ok base (dm_session dm)"
    by (rule run_pays [OF assms(1) _ _ assms(2) rec(1)]) (simp_all add: loop_ok_new assms(1) paid_def)
  then have pd: "paid (lost_in tr) (dm_session dm) (dm_db dm)" and ok: "loop_ok base (dm_session dm)"
    by simp_all
  have "paid (lost_in tr @ co_lost out) (dm_session dm') (dm_db dm')"
    using assms(1) ok assms(3) pd rec(2) by (rule cycle_pays(1))
  moreover have "\<not> ss_needs_catch_up (dm_session dm')"
    using assms(1) ok assms(3) pd rec(2) assms(4,5) by (rule cycle_pays(2))
  ultimately show ?thesis by (simp add: paid_def)
qed

definition demo_item :: "fate \<Rightarrow> nat stream_item" where
  "demo_item f = \<lparr>si_event = Some (demo_event ''7'' 0), si_clock = demo_noon, si_commit_clock = demo_noon,
     si_fate = f, si_acts = []\<rparr>"

definition demo_env :: "(dtime \<times> zk_event) list \<Rightarrow> nat stream_item list \<Rightarrow> (nat, nat, str) cycle_env" where
  "demo_env log_now items = \<lparr>ce_connect = None, ce_connect_acts = [], ce_fail_acts = [], ce_wait_acts = [],
     ce_catch = \<lparr>cr_fetch = Inr log_now, cr_clock = demo_noon, cr_breaks_after = None\<rparr>, ce_catch_acts = [],
     ce_items = items, ce_dies = None, ce_disconnect_acts = [], ce_kick_clock = 0, ce_kick_wait_acts = [],
     ce_ops_connect = Inr 0, ce_ops_acts = [], ce_drain_acts = []\<rparr>"

abbreviation demo_daemon_step ::
  "(nat, nat, str) daemon \<Rightarrow> (nat, nat, str) daemon_event \<Rightarrow> (nat, nat, str) daemon \<times> cycle_out" where
  "demo_daemon_step \<equiv> daemon_step demo_op (\<lambda>_. None :: nat option) 5 48"

definition demo_life :: "(nat, nat, str) daemon \<times> ((nat, nat, str) daemon_event \<times> cycle_out) list" where
  "demo_life = run demo_daemon_step \<lparr>dm_session = new_session 5, dm_db = demo_zk\<rparr>
     [Restart [], Iterate (demo_env [] [demo_item RaisedBeforeCommit])]"

definition demo_last :: "(nat, nat, str) daemon \<times> cycle_out" where
  "demo_last = zk_cycle demo_op (\<lambda>_. None :: nat option) 5 48 (fst demo_life)
     (demo_env [(demo_noon, demo_event ''7'' 0)] [])"

lemma demo_life_facts:
  "lost_in (snd demo_life) = [demo_event ''7'' 0]"
  "\<not> ss_shutdown (dm_session (fst demo_life))"
  "recoverable [] (map snd (snd demo_life) @ [snd demo_last])"
  by code_simp+

lemma demo_life_run:
  "run demo_daemon_step \<lparr>dm_session = new_session 5, dm_db = demo_zk\<rparr>
     [Restart [], Iterate (demo_env [] [demo_item RaisedBeforeCommit])] = (fst demo_life, snd demo_life)"
  by (simp only: demo_life_def prod.collapse)

lemma demo_last_cycle:
  "zk_cycle demo_op (\<lambda>_. None :: nat option) 5 48 (fst demo_life)
     (demo_env [(demo_noon, demo_event ''7'' 0)] []) = (fst demo_last, snd demo_last)"
  by (simp only: demo_last_def prod.collapse)

lemma lost_punches_recovered_witness:
  "scan_of (demo_event ''7'' 0) \<in> scans (dm_db (fst demo_last))"
proof -
  have "smooth (demo_env [(demo_noon, demo_event ''7'' 0)] [])" by (simp add: smooth_def demo_env_def)
  from lost_punches_recovered [OF _ demo_life_run demo_last_cycle this demo_life_facts(2,3)]
  show ?thesis by (simp add: demo_life_facts(1))
qed

lemma session_thread_survives_witness: "loop_ok 5 (dm_session (fst demo_life))"
  by (rule session_thread_survives [OF _ demo_life_run, THEN conjunct1]) simp

definition demo_busy :: "(nat, nat, str) daemon" where
  "demo_busy = \<lparr>dm_session = demo_session, dm_db = demo_zk\<rparr>"

lemma demo_busy_ok: "loop_ok 5 (dm_session demo_busy)" "waiting 1 (dm_session demo_busy)"
proof -
  have "loop_ok 5 (zk_start (new_session 5) :: (nat, nat, str) zk_session)"
    using loop_ok_start [OF loop_ok_new [of 5]] by simp
  then show "loop_ok 5 (dm_session demo_busy)"
    by (simp add: demo_busy_def demo_session_def loop_ok_acts del: acts_simps)
  show "waiting 1 (dm_session demo_busy)" by code_simp
qed

definition demo_cut :: "(nat, nat, str) cycle_env" where
  "demo_cut = (demo_env [] [])\<lparr>ce_connect := Some ''no route''\<rparr>"

lemma ops_answered_in_a_cycle_witness:
  "answered 1 (dm_session (fst (zk_cycle demo_op (\<lambda>_. None :: nat option) 5 48 demo_busy demo_cut)))"
proof (rule ops_answered_in_a_cycle [OF _ demo_busy_ok])
  let ?r = "zk_cycle demo_op (\<lambda>_. None :: nat option) 5 48 demo_busy demo_cut"
  show "?r = (fst ?r, snd ?r)" by simp
  show "co_end (snd ?r) = Again" by code_simp
  show "ce_connect demo_cut \<noteq> None \<or> \<not> isl (ce_ops_connect demo_cut)" by (simp add: demo_cut_def)
qed simp

end
