(* ===== verification/SlackNotifier.thy ===== *)
theory SlackNotifier
  imports Interfaces
begin

text \<open>
  Paging on the reader's time sync, \<open>app/services/slack_notifier.py\<close>. Each notification first
  decides and commits under the lock, then sends, then rolls its commit back if the send
  failed and nothing newer committed (\<open>commit_gen\<close>). The two halves are separate definitions;
  \<open>sent\<close> is the outcome of the HTTP call. The message texts are constructors.
\<close>

section \<open>State\<close>

record slack_config =
  heartbeat_hour :: int
  failure_suppress_seconds :: real
  page_after_failures :: nat
  degraded_suppress_seconds :: real

text \<open>\<open>max(1, page_after_failures)\<close>, two when the environment variable is no number.\<close>

definition page_threshold :: "str option \<Rightarrow> nat" where
  "page_threshold env = nat (max 1 (case env of None \<Rightarrow> 2
     | Some v \<Rightarrow> (case py_int v of None \<Rightarrow> 2 | Some n \<Rightarrow> n)))"

record slack_state =
  last_success :: "bool option"
  last_heartbeat_date :: "date option"
  last_failure_at :: "real option"
  consecutive_failures :: nat
  failure_streak_started :: "(int \<times> int) option"
  is_paged :: bool
  last_degraded_at :: "real option"
  commit_gen :: nat

definition new_notifier :: slack_state where
  "new_notifier = \<lparr>last_success = None, last_heartbeat_date = None, last_failure_at = None,
     consecutive_failures = 0, failure_streak_started = None, is_paged = False,
     last_degraded_at = None, commit_gen = 0\<rparr>"

definition commit :: "slack_state \<Rightarrow> slack_state" where
  "commit s = s\<lparr>commit_gen := Suc (commit_gen s)\<rparr>"

datatype normal_reason = Startup | Heartbeat

datatype message =
    Page nat "(int \<times> int) option"
  | Recovery nat
  | SyncOk normal_reason
  | DegradedNote nat

text \<open>A clock reading: the monotonic clock, and the Bangkok date with hour and minute.\<close>

record reading =
  mono :: real
  today :: date
  hour_minute :: "int \<times> int"

section \<open>Failures\<close>

definition decide_failure :: "slack_config \<Rightarrow> reading \<Rightarrow> slack_state \<Rightarrow> slack_state \<times> message option" where
  "decide_failure cfg t s0 =
     (let s = s0\<lparr>consecutive_failures := Suc (consecutive_failures s0)\<rparr>;
          streak = consecutive_failures s;
          s1 = (if streak = 1 then s\<lparr>failure_streak_started := Some (hour_minute t)\<rparr> else s);
          start = failure_streak_started s1;
          s2 = s1\<lparr>last_success := Some False\<rparr>
      in if streak < page_after_failures cfg then (s2, None)
         else if \<not> is_paged s \<or> (case last_failure_at s of None \<Rightarrow> False
                | Some f \<Rightarrow> failure_suppress_seconds cfg \<le> mono t - f)
         then (commit (s2\<lparr>is_paged := True, last_failure_at := Some (mono t)\<rparr>), Some (Page streak start))
         else (s2, None))"

definition settle_failure :: "nat \<Rightarrow> bool \<Rightarrow> slack_state \<Rightarrow> slack_state" where
  "settle_failure my_gen sent s =
     (if \<not> sent \<and> commit_gen s = my_gen then s\<lparr>is_paged := False, last_failure_at := None\<rparr> else s)"

definition handle_failure ::
  "slack_config \<Rightarrow> reading \<Rightarrow> bool \<Rightarrow> slack_state \<Rightarrow> slack_state \<times> message option" where
  "handle_failure cfg t sent s =
     (case decide_failure cfg t s of
        (s1, None) \<Rightarrow> (s1, None)
      | (s1, Some m) \<Rightarrow> (settle_failure (commit_gen s1) sent s1, Some m))"

section \<open>Successes\<close>

definition settle_recovery ::
  "nat \<Rightarrow> nat \<Rightarrow> (int \<times> int) option \<Rightarrow> bool \<Rightarrow> slack_state \<Rightarrow> slack_state" where
  "settle_recovery my_gen streak started sent s =
     (if sent then s\<lparr>last_success := Some True\<rparr>
      else if commit_gen s = my_gen
      then s\<lparr>is_paged := True, consecutive_failures := streak, failure_streak_started := started\<rparr>
      else s)"

definition decide_normal :: "slack_config \<Rightarrow> reading \<Rightarrow> slack_state \<Rightarrow> slack_state \<times> normal_reason option" where
  "decide_normal cfg t s =
     (let s1 = s\<lparr>last_success := Some True\<rparr> in
      if last_success s = None then (commit s1, Some Startup)
      else if fst (hour_minute t) = heartbeat_hour cfg \<and> last_heartbeat_date s \<noteq> Some (today t)
      then (commit (s1\<lparr>last_heartbeat_date := Some (today t)\<rparr>), Some Heartbeat)
      else (s1, None))"

definition settle_normal ::
  "nat \<Rightarrow> normal_reason \<Rightarrow> date option \<Rightarrow> bool \<Rightarrow> slack_state \<Rightarrow> slack_state" where
  "settle_normal my_gen reason prev sent s =
     (if reason = Heartbeat \<and> \<not> sent \<and> commit_gen s = my_gen then s\<lparr>last_heartbeat_date := prev\<rparr> else s)"

definition handle_normal_success ::
  "slack_config \<Rightarrow> reading \<Rightarrow> bool \<Rightarrow> slack_state \<Rightarrow> slack_state \<times> message option" where
  "handle_normal_success cfg t sent s =
     (case decide_normal cfg t s of
        (s1, None) \<Rightarrow> (s1, None)
      | (s1, Some reason) \<Rightarrow>
          (settle_normal (commit_gen s1) reason (last_heartbeat_date s) sent s1, Some (SyncOk reason)))"

definition handle_success ::
  "slack_config \<Rightarrow> reading \<Rightarrow> bool \<Rightarrow> slack_state \<Rightarrow> slack_state \<times> message option" where
  "handle_success cfg t sent s =
     (let cleared = s\<lparr>consecutive_failures := 0, failure_streak_started := None\<rparr> in
      if is_paged s
      then let s1 = commit (cleared\<lparr>is_paged := False\<rparr>) in
        (settle_recovery (commit_gen s1) (consecutive_failures s) (failure_streak_started s) sent s1,
         Some (Recovery (consecutive_failures s)))
      else if 0 < consecutive_failures s then handle_normal_success cfg t sent cleared
      else handle_normal_success cfg t sent s)"

definition notify_sync_result ::
  "slack_config \<Rightarrow> bool \<Rightarrow> reading \<Rightarrow> bool \<Rightarrow> slack_state \<Rightarrow> slack_state \<times> message option" where
  "notify_sync_result cfg success t sent s =
     (if \<not> success then handle_failure cfg t sent s else handle_success cfg t sent s)"

section \<open>The degraded note\<close>

definition notify_degraded ::
  "slack_config \<Rightarrow> nat \<Rightarrow> reading \<Rightarrow> bool \<Rightarrow> slack_state \<Rightarrow> slack_state \<times> message option" where
  "notify_degraded cfg kicks t sent s =
     (if (case last_degraded_at s of None \<Rightarrow> False
           | Some d \<Rightarrow> mono t - d < degraded_suppress_seconds cfg)
      then (s, None)
      else let s1 = commit (s\<lparr>last_degraded_at := Some (mono t)\<rparr>) in
        (if \<not> sent \<and> commit_gen s1 = Suc (commit_gen s) then s1\<lparr>last_degraded_at := None\<rparr> else s1,
         Some (DegradedNote kicks)))"

section \<open>Transport\<close>

text \<open>\<open>_send\<close>: False without a webhook, on an exception (None) and on any status but 200.\<close>

definition send_message :: "str \<Rightarrow> int option \<Rightarrow> bool" where
  "send_message webhook_url status = (webhook_url \<noteq> [] \<and> status = Some 200)"

section \<open>The notifier as a machine\<close>

text \<open>A tick carries the status the webhook answers with, None when the post raises.\<close>

datatype tick = Sync bool reading "int option" | Degraded nat reading "int option"

definition tick_step :: "slack_config \<Rightarrow> str \<Rightarrow> slack_state \<Rightarrow> tick \<Rightarrow> slack_state \<times> message option" where
  "tick_step cfg url s e = (case e of
       Sync ok t status \<Rightarrow> notify_sync_result cfg ok t (send_message url status) s
     | Degraded k t status \<Rightarrow> notify_degraded cfg k t (send_message url status) s)"

fun delivered :: "str \<Rightarrow> tick \<Rightarrow> bool" where
  "delivered url (Sync ok t status) = send_message url status"
| "delivered url (Degraded k t status) = send_message url status"

fun tick_reading :: "tick \<Rightarrow> reading" where
  "tick_reading (Sync ok t status) = t"
| "tick_reading (Degraded k t status) = t"

text \<open>
  What the channel's reader sees: the time of a delivered page that no delivered recovery has
  answered, whether a later page was lost on the way, and the failed checks in a row.
\<close>

record channel =
  open_page :: "real option"
  page_lost :: bool
  failed_in_a_row :: nat

definition seen :: "str \<Rightarrow> tick \<times> message option \<Rightarrow> channel \<Rightarrow> channel" where
  "seen url eo c =
     (let e = fst eo;
          c1 = (case e of Sync ok t st \<Rightarrow> c\<lparr>failed_in_a_row := (if ok then 0 else Suc (failed_in_a_row c))\<rparr>
                 | Degraded k t st \<Rightarrow> c)
      in case snd eo of
           Some (Page n start) \<Rightarrow>
             if delivered url e then c1\<lparr>open_page := Some (mono (tick_reading e)), page_lost := False\<rparr>
             else c1\<lparr>page_lost := (page_lost c \<or> open_page c \<noteq> None)\<rparr>
         | Some (Recovery n) \<Rightarrow> if delivered url e then c1\<lparr>open_page := None, page_lost := False\<rparr> else c1
         | _ \<Rightarrow> c1)"

definition channel_of :: "str \<Rightarrow> (tick \<times> message option) list \<Rightarrow> channel" where
  "channel_of url tr = fold (seen url) tr \<lparr>open_page = None, page_lost = False, failed_in_a_row = 0\<rparr>"

definition paging_inv :: "channel \<Rightarrow> slack_state \<Rightarrow> bool" where
  "paging_inv c s \<longleftrightarrow>
     (open_page c = None \<longrightarrow> \<not> is_paged s \<and> consecutive_failures s = failed_in_a_row c \<and> \<not> page_lost c)
     \<and> (is_paged s \<longrightarrow> last_failure_at s = open_page c)
     \<and> (open_page c \<noteq> None \<longrightarrow> is_paged s \<or> page_lost c)"

lemmas slack_defs = tick_step_def notify_sync_result_def handle_failure_def decide_failure_def
  settle_failure_def handle_success_def settle_recovery_def handle_normal_success_def
  decide_normal_def settle_normal_def notify_degraded_def commit_def Let_def

lemma failure_inv:
  assumes "paging_inv c s" "handle_failure cfg t (send_message url st) s = (s', out)"
  shows "paging_inv (seen url (Sync False t st, out) c) s'"
  using assms
  by (auto simp: slack_defs seen_def paging_inv_def split: if_splits option.splits)

lemma success_inv:
  assumes "paging_inv c s" "handle_success cfg t (send_message url st) s = (s', out)"
  shows "paging_inv (seen url (Sync True t st, out) c) s'"
  using assms
  by (auto simp: slack_defs seen_def paging_inv_def split: if_splits option.splits prod.splits)

lemma degraded_inv:
  assumes "paging_inv c s" "notify_degraded cfg k t sent s = (s', out)"
  shows "paging_inv (seen url (Degraded k t st, out) c) s'"
  using assms
  by (auto simp: slack_defs seen_def paging_inv_def split: if_splits option.splits)

lemma tick_inv:
  assumes "paging_inv c s" "tick_step cfg url s e = (s', out)"
  shows "paging_inv (seen url (e, out) c) s'"
  using assms failure_inv success_inv degraded_inv
  by (cases e) (auto simp: tick_step_def notify_sync_result_def split: if_splits)

interpretation paging: traced_machine "tick_step cfg url" "\<lambda>h s. paging_inv (channel_of url h) s"
  for cfg url
  by unfold_locales (simp add: channel_of_def tick_inv)

lemma new_paging_inv: "paging_inv (channel_of url []) new_notifier"
  by (simp add: paging_inv_def channel_of_def new_notifier_def)

section \<open>The paging protocol\<close>

lemma page_needs_streak:
  "paging_inv c s \<Longrightarrow> tick_step cfg url s e = (s', Some (Page n start)) \<Longrightarrow> open_page c = None
   \<Longrightarrow> n = Suc (failed_in_a_row c) \<and> page_after_failures cfg \<le> n \<and> (\<exists>t st. e = Sync False t st)"
  by (cases e) (auto simp: slack_defs paging_inv_def split: if_splits option.splits prod.splits)

lemma repage_spaced:
  "paging_inv c s \<Longrightarrow> tick_step cfg url s e = (s', Some (Page n start)) \<Longrightarrow> open_page c = Some p
   \<Longrightarrow> \<not> page_lost c \<Longrightarrow> failure_suppress_seconds cfg \<le> mono (tick_reading e) - p"
  by (cases e) (auto simp: slack_defs paging_inv_def split: if_splits option.splits prod.splits)

lemma recovery_answers_page:
  "paging_inv c s \<Longrightarrow> tick_step cfg url s e = (s', Some (Recovery n)) \<Longrightarrow> open_page c \<noteq> None"
  by (cases e) (auto simp: slack_defs paging_inv_def split: if_splits option.splits prod.splits)

lemma success_sends_recovery:
  "paging_inv c s \<Longrightarrow> open_page c \<noteq> None \<Longrightarrow> \<not> page_lost c
   \<Longrightarrow> snd (tick_step cfg url s (Sync True t st)) = Some (Recovery (consecutive_failures s))"
  by (auto simp: slack_defs paging_inv_def)


definition demo_cfg :: slack_config where
  "demo_cfg = \<lparr>heartbeat_hour = 9, failure_suppress_seconds = 1800, page_after_failures = page_threshold None,
     degraded_suppress_seconds = 3600\<rparr>"

definition at_second :: "real \<Rightarrow> reading" where
  "at_second t = \<lparr>mono = t, today = 739000, hour_minute = (14, 0)\<rparr>"

definition outage :: "tick list" where
  "outage = [Sync False (at_second 0) (Some 200), Sync False (at_second 300) (Some 200)]"

lemmas demo_slack = demo_cfg_def at_second_def outage_def page_threshold_def send_message_def
  new_notifier_def channel_of_def seen_def


text \<open>Once the flag is clear, good checks and degraded notes send neither pages nor recoveries.\<close>

definition calm :: "(tick \<times> message option) list \<Rightarrow> bool" where
  "calm tr \<longleftrightarrow> (\<forall>x \<in> set tr. case x of (e, out) \<Rightarrow> \<forall>n st. out \<noteq> Some (Recovery n) \<and> out \<noteq> Some (Page n st))"

lemma calm_run:
  "list_all (\<lambda>e. case e of Sync ok t st \<Rightarrow> ok | Degraded k t st \<Rightarrow> True) es \<Longrightarrow> \<not> is_paged s
   \<Longrightarrow> run (tick_step cfg url) s es = (s', tr) \<Longrightarrow> calm tr"
proof (induction es arbitrary: s tr)
  case Nil
  then show ?case by (simp add: calm_def)
next
  case (Cons e es)
  obtain s1 out where st: "tick_step cfg url s e = (s1, out)" by fastforce
  obtain tr1 where tr1: "run (tick_step cfg url) s1 es = (s', tr1)" "tr = (e, out) # tr1"
    using Cons.prems(3) st by (rule run_ConsE)
  have "\<not> is_paged s1 \<and> (\<forall>n st. out \<noteq> Some (Recovery n) \<and> out \<noteq> Some (Page n st))"
    using st Cons.prems(1,2) by (cases e) (auto simp: slack_defs split: if_splits option.splits prod.splits)
  then show ?case using Cons.IH [OF _ _ tr1(1)] Cons.prems(1) tr1(2) by (auto simp: calm_def)
qed

lemma calm_channel: "calm tr \<Longrightarrow> open_page (fold (seen url) tr c) = open_page c"
  by (induction tr arbitrary: c)
    (auto simp: calm_def seen_def Let_def split: tick.splits option.splits message.splits)

text \<open>
  The proviso is needed: when the repeated page of a long outage is not delivered, its rollback
  clears the flag of the page that was, and the recovery of the incident is never sent.
\<close>

lemma lost_repage_drops_recovery:
  fixes later :: "tick list"
  assumes "list_all (\<lambda>e. case e of Sync ok t st \<Rightarrow> ok | Degraded k t st \<Rightarrow> True) later"
    and "run (tick_step demo_cfg ''hook'') new_notifier
           (outage @ [Sync False (at_second 2100) None] @ later) = (s, tr)"
  shows "open_page (channel_of ''hook'' tr) = Some 300 \<and> (\<forall>(e, out) \<in> set tr. \<forall>n. out \<noteq> Some (Recovery n))"
proof -
  let ?first = "outage @ [Sync False (at_second 2100) None]"
  obtain s1 tr1 where r1: "run (tick_step demo_cfg ''hook'') new_notifier ?first = (s1, tr1)" by fastforce
  obtain tr2 where r2: "run (tick_step demo_cfg ''hook'') s1 later = (s, tr2)" "tr = tr1 @ tr2"
    using assms(2) r1 run_append [of "tick_step demo_cfg ''hook''" new_notifier ?first later]
    by (auto split: prod.splits)
  have 1: "\<not> is_paged s1" "open_page (channel_of ''hook'' tr1) = Some 300"
    "\<forall>(e, out) \<in> set tr1. \<forall>n. out \<noteq> Some (Recovery n)"
    using r1 by (auto simp: demo_slack slack_defs)
  have 2: "\<forall>x \<in> set tr2. case x of (e, out) \<Rightarrow> \<forall>n st. out \<noteq> Some (Recovery n) \<and> out \<noteq> Some (Page n st)"
    using calm_run [OF assms(1) 1(1) r2(1)] unfolding calm_def .
  then have "open_page (channel_of ''hook'' tr) = Some 300"
    using calm_channel [of tr2] 1(2) r2(2) by (simp add: channel_of_def calm_def)
  then show ?thesis using 1(3) 2 r2(2) by auto
qed

end
