(* ===== verification/EmployeeRegistry.thy ===== *)
theory EmployeeRegistry
  imports ShiftService LineAccount
begin

text \<open>
  The employee registry: \<open>app/api/consolidated_employees.py\<close> (rows, schedules, the merged device
  list) and \<open>app/api/admin_employees.py\<close> (grants, cards, the merge tool), over the tables that
  refer to a badge. The Thai word in front of a default display name is the argument \<open>label\<close>;
  a date string is the result of \<open>strptime\<close>, None when it raises. Foreign keys are not enforced
  (SQLite without the pragma), and the sessions do not flush on their own.
\<close>

section \<open>Tables\<close>

record application_log =
  al_action :: str
  al_message :: str
  al_badge :: "str option"
  al_success :: "bool option"

record registry =
  rg_employees :: "employee list"
  rg_attendance :: "attendance_record list"
  rg_logs :: "application_log list"
  rg_rosters :: shift_db
  rg_leaves :: "employee_leave list"
  rg_grants :: "employee_app_grant list"
  rg_requests :: "staff_leave_request list"
  rg_request_days :: "staff_leave_day list"

definition unique_opt :: "('r \<Rightarrow> 'a option) \<Rightarrow> 'r list \<Rightarrow> bool" where
  "unique_opt f rows = distinct (map f (filter (\<lambda>r. f r \<noteq> None) rows))"

text \<open>The UNIQUE columns of \<open>employees\<close>.\<close>

definition employees_ok :: "employee list \<Rightarrow> bool" where
  "employees_ok emps = (distinct (map badge_number emps) \<and> unique_opt line_user_id emps
     \<and> unique_opt line_linking_code emps \<and> unique_opt email emps \<and> unique_opt nfc_card_uid emps)"

definition registry_ok :: "registry \<Rightarrow> bool" where
  "registry_ok s = (employees_ok (rg_employees s) \<and> distinct (map ar_key (rg_attendance s))
     \<and> distinct (map sa_key (assignments (rg_rosters s))) \<and> distinct (map es_key (schedules (rg_rosters s)))
     \<and> distinct (map el_key (rg_leaves s)) \<and> distinct (map eg_key (rg_grants s)))"

datatype registry_answer =
    RgNotFound | RgBadRequest | RgConflict | RgTooLong | RgServerError
  | RgDone | RgCreated | RgRow employee
  | RgGrants "str list" | RgCard "str option"
  | RgMerged bool "(str \<times> nat \<times> nat) list"
  | RgSchedule employee_schedule | RgSchedules "employee_schedule list"

definition find_badge :: "str \<Rightarrow> employee list \<Rightarrow> employee option" where
  "find_badge badge emps = first (\<lambda>e. badge_number e = badge) emps"

text \<open>The commit of one changed row, and of one added row: None is the IntegrityError.\<close>

definition save_employee :: "employee \<Rightarrow> employee list \<Rightarrow> employee list option" where
  "save_employee e emps =
     (let emps' = update_where (same_badge e) (\<lambda>_. e) emps in if employees_ok emps' then Some emps' else None)"

definition add_employee :: "employee \<Rightarrow> employee list \<Rightarrow> employee list option" where
  "add_employee e emps = (if employees_ok (emps @ [e]) then Some (emps @ [e]) else None)"

definition commit_row ::
  "employee list option \<Rightarrow> registry_answer \<Rightarrow> registry \<Rightarrow> registry \<times> registry_answer" where
  "commit_row c ans s = (case c of None \<Rightarrow> (s, RgServerError) | Some emps \<Rightarrow> (s\<lparr>rg_employees := emps\<rparr>, ans))"

section \<open>Single rows\<close>

definition new_row :: "str \<Rightarrow> str \<Rightarrow> bool \<Rightarrow> bool \<Rightarrow> employee" where
  "new_row badge name active hidden =
     \<lparr>badge_number = badge, english_name = None, thai_name = None, display_name = name, department = None,
      position = None, is_active = active, is_hidden = hidden, line_user_id = None,
      line_display_name = None, line_picture_url = None, line_linking_code = None,
      line_linking_code_generated_at = None, emp_role = None, default_shift_id = None,
      emp_location = None, email = None, pending_approval = False, join_source = ''device'',
      nfc_card_uid = None\<rparr>"

definition default_name :: "str \<Rightarrow> str \<Rightarrow> str" where
  "default_name label badge = label @ '' '' @ badge"

definition update_employee_nickname ::
  "str \<Rightarrow> str \<Rightarrow> str option \<Rightarrow> str option \<Rightarrow> registry \<Rightarrow> registry \<times> registry_answer" where
  "update_employee_nickname label badge nickname disp s =
     (let name = or_else nickname (or_else disp (default_name label badge)) in
      case find_badge badge (rg_employees s) of
        None \<Rightarrow> commit_row (add_employee (new_row badge name True False) (rg_employees s)) RgCreated s
      | Some e \<Rightarrow> commit_row (save_employee (e\<lparr>display_name := name\<rparr>) (rg_employees s)) RgDone s)"

definition update_employee_status :: "str \<Rightarrow> bool option \<Rightarrow> registry \<Rightarrow> registry \<times> registry_answer" where
  "update_employee_status badge active s =
     (case find_badge badge (rg_employees s) of
        None \<Rightarrow> commit_row (add_employee (new_row badge (''User '' @ badge)
            (case active of None \<Rightarrow> True | Some b \<Rightarrow> b) False) (rg_employees s)) RgDone s
      | Some e \<Rightarrow> commit_row (save_employee
            (e\<lparr>is_active := (case active of None \<Rightarrow> is_active e | Some b \<Rightarrow> b)\<rparr>) (rg_employees s)) RgDone s)"

definition update_employee_hidden_status :: "str \<Rightarrow> bool option \<Rightarrow> registry \<Rightarrow> registry \<times> registry_answer" where
  "update_employee_hidden_status badge hidden s =
     (case find_badge badge (rg_employees s) of
        None \<Rightarrow> commit_row (add_employee (new_row badge (''User '' @ badge) True
            (case hidden of None \<Rightarrow> False | Some b \<Rightarrow> b)) (rg_employees s)) RgDone s
      | Some e \<Rightarrow> commit_row (save_employee
            (e\<lparr>is_hidden := (case hidden of None \<Rightarrow> is_hidden e | Some b \<Rightarrow> b)\<rparr>) (rg_employees s)) RgDone s)"

definition ALLOWED_ROLES :: "str list" where
  "ALLOWED_ROLES = [''reception'', ''housekeeping'', ''technician'', ''admin'']"

definition ALLOWED_LOCATIONS :: "str list" where
  "ALLOWED_LOCATIONS = [''HF'', ''HF_VILLE'']"

definition allowed :: "str list \<Rightarrow> str option \<Rightarrow> bool" where
  "allowed values v = (case v of None \<Rightarrow> True | Some x \<Rightarrow> x \<in> set values)"

definition none_if_blank :: "str option \<Rightarrow> str option" where
  "none_if_blank v = (if v = Some [] then None else v)"

definition update_employee_shift_assignment ::
  "str \<Rightarrow> str option \<Rightarrow> str option \<Rightarrow> str option \<Rightarrow> registry \<Rightarrow> registry \<times> registry_answer" where
  "update_employee_shift_assignment badge raw_role raw_code raw_location s =
     (case find_badge badge (rg_employees s) of
        None \<Rightarrow> (s, RgNotFound)
      | Some e \<Rightarrow>
          let r = none_if_blank raw_role; code = none_if_blank raw_code; loc = none_if_blank raw_location in
          if \<not> allowed ALLOWED_ROLES r then (s, RgBadRequest)
          else
            let sh = (case code of None \<Rightarrow> None
                | Some c \<Rightarrow> first (\<lambda>x. shift_code x = c) (shifts (rg_rosters s)))
            in if code \<noteq> None \<and> sh = None then (s, RgBadRequest)
               else if \<not> allowed ALLOWED_LOCATIONS loc then (s, RgBadRequest)
               else
                 let e' = e\<lparr>emp_role := r, default_shift_id := map_option shift_id sh, emp_location := loc\<rparr>
                 in commit_row (save_employee e' (rg_employees s)) (RgRow e') s)"

text \<open>\<open>create_employee\<close>: the check looks for the badge as sent, the row gets it stripped.\<close>

definition create_employee ::
  "str \<Rightarrow> str \<Rightarrow> str option \<Rightarrow> str option \<Rightarrow> str option \<Rightarrow> str option \<Rightarrow> bool \<Rightarrow> bool \<Rightarrow> registry
   \<Rightarrow> registry \<times> registry_answer" where
  "create_employee label badge english thai dept pos active hidden s =
     (if find_badge badge (rg_employees s) \<noteq> None then (s, RgBadRequest)
      else if badge = [] \<or> strip badge = [] then (s, RgBadRequest)
      else
        let e = (new_row (strip badge) (or_else thai (or_else english (default_name label badge))) active hidden)
              \<lparr>english_name := english, thai_name := thai, department := dept, position := pos,
               join_source := ''manual''\<rparr>
        in commit_row (add_employee e (rg_employees s)) (RgRow e) s)"

definition patched :: "'a option \<Rightarrow> 'a option \<Rightarrow> 'a option" where
  "patched new old = (case new of None \<Rightarrow> old | Some x \<Rightarrow> Some x)"

definition update_employee ::
  "str \<Rightarrow> str \<Rightarrow> str option \<Rightarrow> str option \<Rightarrow> str option \<Rightarrow> str option \<Rightarrow> bool option \<Rightarrow> bool option
   \<Rightarrow> registry \<Rightarrow> registry \<times> registry_answer" where
  "update_employee label badge english thai dept pos active hidden s =
     (case find_badge badge (rg_employees s) of
        None \<Rightarrow> (s, RgNotFound)
      | Some e \<Rightarrow>
          let e1 = e\<lparr>english_name := patched english (english_name e), thai_name := patched thai (thai_name e),
                department := patched dept (department e), position := patched pos (position e),
                is_active := (case active of None \<Rightarrow> is_active e | Some b \<Rightarrow> b),
                is_hidden := (case hidden of None \<Rightarrow> is_hidden e | Some b \<Rightarrow> b)\<rparr>;
              e2 = e1\<lparr>display_name := or_else (thai_name e1) (or_else (english_name e1) (default_name label badge))\<rparr>
          in commit_row (save_employee e2 (rg_employees s)) (RgRow e2) s)"

definition delete_employee :: "str \<Rightarrow> registry \<Rightarrow> registry \<times> registry_answer" where
  "delete_employee badge s =
     (case find_badge badge (rg_employees s) of
        None \<Rightarrow> (s, RgNotFound)
      | Some e \<Rightarrow> commit_row (save_employee (e\<lparr>is_active := False\<rparr>) (rg_employees s)) RgDone s)"

definition update_thai_name :: "str \<Rightarrow> str option \<Rightarrow> str option \<Rightarrow> registry \<Rightarrow> registry \<times> registry_answer" where
  "update_thai_name badge thai disp s =
     (case find_badge badge (rg_employees s) of
        None \<Rightarrow> (s, RgNotFound)
      | Some e \<Rightarrow>
          let name = (case thai of None \<Rightarrow> [] | Some t \<Rightarrow> t) in
          if 200 < length name then (s, RgTooLong)
          else commit_row (save_employee (e\<lparr>thai_name := Some name,
                display_name := (case disp of None \<Rightarrow> name | Some d \<Rightarrow> d)\<rparr>) (rg_employees s)) RgDone s)"

text \<open>The values a row may hold in the columns without a CHECK constraint.\<close>

definition JOIN_SOURCES :: "str list" where
  "JOIN_SOURCES = [''device'', ''manual'', ''self_onboard'']"

definition row_typed :: "employee \<Rightarrow> bool" where
  "row_typed e = (allowed ALLOWED_ROLES (emp_role e) \<and> allowed ALLOWED_LOCATIONS (emp_location e)
     \<and> join_source e \<in> set JOIN_SOURCES)"

section \<open>Schedules\<close>

text \<open>\<open>strptime(value, "%H:%M")\<close>: one or two digits in each field, and \<open>strftime("%H:%M")\<close>.\<close>

definition clock_field :: "int \<Rightarrow> str \<Rightarrow> bool" where
  "clock_field bound s = (s \<noteq> [] \<and> length s \<le> 2 \<and> list_all is_digit s \<and> digits_value s < bound)"

definition parse_clock_time :: "str \<Rightarrow> tod option" where
  "parse_clock_time s =
     (case partition_at (CHR '':'') s of (h, found, m) \<Rightarrow>
        if found \<and> clock_field 24 h \<and> clock_field 60 m
        then Some (digits_value h * hour_us + digits_value m * minute_us) else None)"

definition two_digits :: "int \<Rightarrow> str" where
  "two_digits n = (if n < 10 then CHR ''0'' # show_int n else show_int n)"

definition format_clock_time :: "tod \<Rightarrow> str" where
  "format_clock_time t = two_digits (tod_hour t) @ CHR '':'' # two_digits (tod_minute t)"

text \<open>None: HTTP 400. \<open>[]\<close> as well as an absent list stores NULL.\<close>

definition work_days_to_storage :: "int list option \<Rightarrow> str option option" where
  "work_days_to_storage days =
     (case days of
        None \<Rightarrow> Some None
      | Some ds \<Rightarrow>
          if ds = [] then Some None
          else if \<exists>d \<in> set ds. d < 0 \<or> 6 < d then None
          else Some (Some (join_on (CHR '','') (map show_int (sort (remdups ds))))))"

fun ints_of_parts :: "str list \<Rightarrow> int list option" where
  "ints_of_parts [] = Some []"
| "ints_of_parts (p # ps) =
     (if p = [] then ints_of_parts ps
      else case (py_int p, ints_of_parts ps) of (Some i, Some is) \<Rightarrow> Some (i # is) | _ \<Rightarrow> None)"

definition work_days_to_list :: "str option \<Rightarrow> int list option" where
  "work_days_to_list stored =
     (if \<not> truthy stored then Some [] else ints_of_parts (split_on (CHR '','') (or_else stored [])))"

text \<open>The as-of-today version decides the cached role.\<close>

definition recompute_current_role :: "date \<Rightarrow> shift_db \<Rightarrow> employee \<Rightarrow> employee" where
  "recompute_current_role today db e =
     e\<lparr>emp_role := (case schedule_as_of db (badge_number e) today of None \<Rightarrow> None | Some v \<Rightarrow> es_role v)\<rparr>"

definition get_employee_schedule :: "str \<Rightarrow> registry \<Rightarrow> registry \<times> registry_answer" where
  "get_employee_schedule badge s =
     (if find_badge badge (rg_employees s) = None then (s, RgNotFound)
      else (s, RgSchedules (rev (sort_key effective_from
              (rev (filter (\<lambda>v. es_badge v = badge) (schedules (rg_rosters s))))))))"

definition save_schedule :: "employee_schedule \<Rightarrow> shift_db \<Rightarrow> shift_db" where
  "save_schedule v db =
     (if first (\<lambda>x. es_key x = es_key v) (schedules db) \<noteq> None
      then db\<lparr>schedules := update_where (\<lambda>x. es_key x = es_key v) (\<lambda>_. v) (schedules db)\<rparr>
      else db\<lparr>schedules := schedules db @ [v]\<rparr>)"

definition clock_arg :: "str option \<Rightarrow> tod option option" where
  "clock_arg raw = (if \<not> truthy raw then Some None else map_option Some (parse_clock_time (or_else raw [])))"

text \<open>The row of a request, or None for HTTP 400.\<close>

definition schedule_row ::
  "str \<Rightarrow> date option \<Rightarrow> str option \<Rightarrow> int list option \<Rightarrow> str option \<Rightarrow> str option \<Rightarrow> employee_schedule option"
  where
  "schedule_row badge day raw_role days raw_start raw_end =
     (let r = none_if_blank raw_role in
      case (day, work_days_to_storage days, clock_arg raw_start, clock_arg raw_end) of
        (Some d, Some wd, Some a, Some b) \<Rightarrow>
          if \<not> allowed ALLOWED_ROLES r \<or> truthy raw_start \<noteq> truthy raw_end then None
          else if r = Some ''reception''
          then Some \<lparr>es_badge = badge, effective_from = d, es_role = r, work_days = None,
                     work_start = None, work_end = None\<rparr>
          else Some \<lparr>es_badge = badge, effective_from = d, es_role = r, work_days = wd,
                     work_start = a, work_end = b\<rparr>
      | _ \<Rightarrow> None)"

text \<open>One commit of the changed rosters and the changed row.\<close>

definition save_with_rosters ::
  "employee \<Rightarrow> shift_db \<Rightarrow> registry_answer \<Rightarrow> registry \<Rightarrow> registry \<times> registry_answer" where
  "save_with_rosters e db ans s =
     (case save_employee e (rg_employees s) of
        None \<Rightarrow> (s, RgServerError)
      | Some emps \<Rightarrow> (s\<lparr>rg_employees := emps, rg_rosters := db\<rparr>, ans))"

definition upsert_employee_schedule ::
  "date \<Rightarrow> str \<Rightarrow> date option \<Rightarrow> str option \<Rightarrow> int list option \<Rightarrow> str option \<Rightarrow> str option \<Rightarrow> str option
   \<Rightarrow> registry \<Rightarrow> registry \<times> registry_answer" where
  "upsert_employee_schedule today badge day raw_role days raw_start raw_end raw_location s =
     (case find_badge badge (rg_employees s) of
        None \<Rightarrow> (s, RgNotFound)
      | Some e \<Rightarrow>
          (case schedule_row badge day raw_role days raw_start raw_end of
             None \<Rightarrow> (s, RgBadRequest)
           | Some v \<Rightarrow>
               let loc = none_if_blank raw_location in
               if \<not> allowed ALLOWED_LOCATIONS loc then (s, RgBadRequest)
               else
                 let db = save_schedule v (rg_rosters s);
                     e1 = recompute_current_role today db e;
                     e2 = (if raw_location \<noteq> None then e1\<lparr>emp_location := loc\<rparr> else e1)
                 in save_with_rosters e2 db (RgSchedule v) s))"

definition delete_employee_schedule ::
  "date \<Rightarrow> str \<Rightarrow> date option \<Rightarrow> registry \<Rightarrow> registry \<times> registry_answer" where
  "delete_employee_schedule today badge day s =
     (case find_badge badge (rg_employees s) of
        None \<Rightarrow> (s, RgNotFound)
      | Some e \<Rightarrow>
          (case day of
             None \<Rightarrow> (s, RgBadRequest)
           | Some d \<Rightarrow>
               if first (\<lambda>v. es_key v = (badge, d)) (schedules (rg_rosters s)) = None then (s, RgNotFound)
               else
                 let db = (rg_rosters s)\<lparr>schedules := delete_where (\<lambda>v. es_key v = (badge, d))
                       (schedules (rg_rosters s))\<rparr>
                 in save_with_rosters (recompute_current_role today db e) db RgDone s))"

section \<open>Lists\<close>

definition get_employees :: "bool \<Rightarrow> bool \<Rightarrow> registry \<Rightarrow> employee list" where
  "get_employees include_hidden include_inactive s =
     filter (\<lambda>e. (include_hidden \<or> \<not> is_hidden e) \<and> (include_inactive \<or> is_active e)) (rg_employees s)"

text \<open>
  A user of the device: its id, and its name where it has one. The merged list shows the row
  of the database, or a row made up for a badge without one.
\<close>

datatype listed = InDatabase employee str | OnDevice str str str

fun listed_badge :: "listed \<Rightarrow> str" where
  "listed_badge (InDatabase e zk) = badge_number e"
| "listed_badge (OnDevice badge zk shown) = badge"

definition merge_device_user ::
  "bool \<Rightarrow> bool \<Rightarrow> employee list \<Rightarrow> str \<times> str option \<Rightarrow> listed list" where
  "merge_device_user include_hidden include_inactive emps u =
     (case u of (badge, zk) \<Rightarrow>
        (case find_badge badge emps of
           Some e \<Rightarrow>
             if (\<not> include_hidden \<and> is_hidden e) \<or> (\<not> include_inactive \<and> \<not> is_active e) then []
             else [InDatabase e (case zk of None \<Rightarrow> [] | Some n \<Rightarrow> n)]
         | None \<Rightarrow> [OnDevice badge (case zk of None \<Rightarrow> [] | Some n \<Rightarrow> n)
             (case zk of None \<Rightarrow> ''User '' @ badge | Some n \<Rightarrow> n)]))"

text \<open>\<open>str.isdigit\<close>: also the superscripts, which \<open>int\<close> then refuses.\<close>

definition py_isdigit :: "str \<Rightarrow> bool" where
  "py_isdigit s = (s \<noteq> [] \<and> list_all (\<lambda>c. is_digit c \<or> of_char c \<in> {178, 179, 185::nat}) s)"

definition badge_order :: "str \<Rightarrow> bool \<times> int" where
  "badge_order b = (if py_isdigit b then (False, digits_value b) else (True, 0))"

text \<open>None: HTTP 500. An absent cache entry is an empty device.\<close>

definition get_employees_from_device ::
  "bool \<Rightarrow> bool \<Rightarrow> bool \<Rightarrow> (str \<times> str option) list option \<Rightarrow> registry \<Rightarrow> listed list option" where
  "get_employees_from_device has_device include_hidden include_inactive cached s =
     (if \<not> has_device then None
      else
        let rows = concat (map (merge_device_user include_hidden include_inactive (rg_employees s))
              (case cached of None \<Rightarrow> [] | Some us \<Rightarrow> us))
        in if \<exists>r \<in> set rows. py_isdigit (listed_badge r) \<and> \<not> list_all is_digit (listed_badge r) then None
           else Some (sort_key (badge_order \<circ> listed_badge) rows))"

section \<open>Grants and cards\<close>

definition APP_CATALOG :: "str list" where
  "APP_CATALOG = [''rooms'', ''portal'', ''payroll'', ''ota'', ''housekeeping'', ''housekeeping_admin'',
     ''reception'', ''reimbursement'']"

definition DEFAULT_GRANTED_APP_IDS :: "str list" where
  "DEFAULT_GRANTED_APP_IDS = [''rooms'', ''portal'', ''reimbursement'']"

definition admin_actor_label :: "str \<Rightarrow> str" where
  "admin_actor_label identity =
     (if startswith identity ''cf-access:'' then drop 10 identity else ''admin'')"

definition app_ids :: "str \<Rightarrow> employee_app_grant list \<Rightarrow> str list" where
  "app_ids badge grants = map eg_app_id (filter (\<lambda>g. eg_badge g = badge) grants)"

definition get_employee_grants :: "str \<Rightarrow> registry \<Rightarrow> registry \<times> registry_answer" where
  "get_employee_grants badge s =
     (if find_badge badge (rg_employees s) = None then (s, RgNotFound)
      else (s, RgGrants (app_ids badge (rg_grants s))))"

definition grant :: "str \<Rightarrow> str \<Rightarrow> str \<Rightarrow> employee_app_grant" where
  "grant badge app by_whom = \<lparr>eg_badge = badge, eg_app_id = app, eg_granted_by = Some by_whom\<rparr>"

definition update_employee_grants :: "str \<Rightarrow> str \<Rightarrow> str list \<Rightarrow> registry \<Rightarrow> registry \<times> registry_answer" where
  "update_employee_grants identity badge requested s =
     (if find_badge badge (rg_employees s) = None then (s, RgNotFound)
      else if \<exists>a \<in> set requested. a \<notin> set APP_CATALOG then (s, RgBadRequest)
      else
        let existing = app_ids badge (rg_grants s);
            left = delete_where (\<lambda>g. eg_badge g = badge \<and> eg_app_id g \<notin> set requested) (rg_grants s);
            new = map (\<lambda>a. grant badge a (admin_actor_label identity))
                    (filter (\<lambda>a. a \<notin> set existing) (remdups requested));
            after = left @ new
        in (s\<lparr>rg_grants := after\<rparr>, RgGrants (sort (app_ids badge after))))"

definition set_employee_nfc_card :: "str \<Rightarrow> str option \<Rightarrow> registry \<Rightarrow> registry \<times> registry_answer" where
  "set_employee_nfc_card badge raw s =
     (case find_badge badge (rg_employees s) of
        None \<Rightarrow> (s, RgNotFound)
      | Some e \<Rightarrow>
          let uid = none_if_blank (Some (strip (or_else raw []))) in
          if uid \<noteq> None \<and> (\<exists>x \<in> set (rg_employees s). nfc_card_uid x = uid \<and> badge_number x \<noteq> badge)
          then (s, RgConflict)
          else (case save_employee (e\<lparr>nfc_card_uid := uid\<rparr>) (rg_employees s) of
              None \<Rightarrow> (s, RgConflict)
            | Some emps \<Rightarrow> (s\<lparr>rg_employees := emps\<rparr>, RgCard uid)))"

section \<open>Merging two badges\<close>

text \<open>\<open>_move_all\<close>: one UPDATE statement, sent at once; None when it violates the table's key.\<close>

definition move_all ::
  "('r \<Rightarrow> bool) \<Rightarrow> ('r \<Rightarrow> 'r) \<Rightarrow> ('r list \<Rightarrow> bool) \<Rightarrow> 'r list \<Rightarrow> ('r list \<times> nat \<times> nat) option" where
  "move_all ours move ok rows =
     (let rows' = update_where ours move rows in
      if ok rows' then Some (rows', count_where ours rows, 0) else None)"

text \<open>
  \<open>_move_or_drop_duplicates\<close>: \<open>collides r\<close> says that a row of the surviving badge has the key of
  \<open>r\<close>. The session does not flush by itself, so every check sees the rows of the database. The
  changes wait for the flush: a colliding row is deleted, another one gets the new badge.
\<close>

definition move_or_drop ::
  "('r \<Rightarrow> bool) \<Rightarrow> ('r \<Rightarrow> bool) \<Rightarrow> ('r \<Rightarrow> 'r) \<Rightarrow> 'r list \<Rightarrow> 'r list \<times> nat \<times> nat" where
  "move_or_drop ours collides move rows =
     (update_where ours move (delete_where (\<lambda>r. ours r \<and> collides r) rows),
      count_where (\<lambda>r. ours r \<and> \<not> collides r) rows, count_where (\<lambda>r. ours r \<and> collides r) rows)"

text \<open>
  The same pass on a table that \<open>Employee\<close> cascades deletes to (\<open>shift_assignments\<close> and \<open>schedules\<close>
  are \<open>relationship(..., cascade="all, delete-orphan")\<close>): \<open>db.delete(from_employee)\<close> loads the
  collection from the database, where the moved rows still carry the old badge because nothing
  was flushed, and marks all of them deleted. The counts are those of the pass.
\<close>

definition move_then_cascade ::
  "('r \<Rightarrow> bool) \<Rightarrow> ('r \<Rightarrow> bool) \<Rightarrow> 'r list \<Rightarrow> 'r list \<times> nat \<times> nat" where
  "move_then_cascade ours collides rows =
     (delete_where ours rows,
      count_where (\<lambda>r. ours r \<and> \<not> collides r) rows, count_where (\<lambda>r. ours r \<and> collides r) rows)"

text \<open>\<open>_COPYABLE_FIELDS_IF_TARGET_EMPTY\<close>.\<close>

definition copy_text :: "str option \<Rightarrow> str option \<Rightarrow> str option" where
  "copy_text old new = (if truthy old \<and> \<not> truthy new then old else new)"

definition copied_fields :: "employee \<Rightarrow> employee \<Rightarrow> employee" where
  "copied_fields f t = t
     \<lparr>line_user_id := copy_text (line_user_id f) (line_user_id t),
      line_display_name := copy_text (line_display_name f) (line_display_name t),
      line_picture_url := copy_text (line_picture_url f) (line_picture_url t),
      line_linking_code := copy_text (line_linking_code f) (line_linking_code t),
      line_linking_code_generated_at := (if line_linking_code_generated_at t = None
        then line_linking_code_generated_at f else line_linking_code_generated_at t),
      email := copy_text (email f) (email t),
      nfc_card_uid := copy_text (nfc_card_uid f) (nfc_card_uid t),
      english_name := copy_text (english_name f) (english_name t),
      thai_name := copy_text (thai_name f) (thai_name t),
      emp_role := copy_text (emp_role f) (emp_role t),
      emp_location := copy_text (emp_location f) (emp_location t),
      department := copy_text (department f) (department t),
      position := copy_text (position f) (position t)\<rparr>"

definition merge_log :: "str \<Rightarrow> str \<Rightarrow> bool \<Rightarrow> application_log" where
  "merge_log from_b to_b rename =
     \<lparr>al_action = ''merge_employees'',
      al_message = ''Merged employee '' @ from_b @ '' into '' @ to_b @ '' (''
        @ (if rename then ''rename'' else ''merge'') @ '')'',
      al_badge = Some to_b, al_success = Some True\<rparr>"

definition attendance_to :: "str \<Rightarrow> attendance_record \<Rightarrow> attendance_record" where
  "attendance_to b r = r\<lparr>ar_badge := b\<rparr>"
definition log_to :: "str \<Rightarrow> application_log \<Rightarrow> application_log" where "log_to b r = r\<lparr>al_badge := Some b\<rparr>"
definition assignment_to :: "str \<Rightarrow> shift_assignment \<Rightarrow> shift_assignment" where "assignment_to b r = r\<lparr>sa_badge := b\<rparr>"
definition schedule_to :: "str \<Rightarrow> employee_schedule \<Rightarrow> employee_schedule" where "schedule_to b r = r\<lparr>es_badge := b\<rparr>"
definition leave_to :: "str \<Rightarrow> employee_leave \<Rightarrow> employee_leave" where "leave_to b r = r\<lparr>el_badge := b\<rparr>"
definition grant_to :: "str \<Rightarrow> employee_app_grant \<Rightarrow> employee_app_grant" where "grant_to b r = r\<lparr>eg_badge := b\<rparr>"

lemmas row_moves = attendance_to_def log_to_def assignment_to_def schedule_to_def leave_to_def grant_to_def

definition merge_summary :: "(nat \<times> nat) list \<Rightarrow> (str \<times> nat \<times> nat) list" where
  "merge_summary counts = zip [''attendance_records'', ''application_logs'', ''shift_assignments'',
     ''employee_schedules'', ''employee_leaves'', ''employee_app_grants''] counts"

text \<open>Case A: no row has the new badge. None is the \<open>IntegrityError\<close>, a rollback and HTTP 500.\<close>

definition rename_employee ::
  "str \<Rightarrow> str \<Rightarrow> employee \<Rightarrow> registry \<Rightarrow> (registry \<times> (str \<times> nat \<times> nat) list) option" where
  "rename_employee from_b to_b f s =
     (let emps = update_where (same_badge f) (\<lambda>e. e\<lparr>badge_number := to_b\<rparr>) (rg_employees s);
          db = rg_rosters s
      in if \<not> employees_ok emps then None
         else case (move_all (\<lambda>r. ar_badge r = from_b) (attendance_to to_b) (distinct \<circ> map ar_key) (rg_attendance s),
                    move_all (\<lambda>r. al_badge r = Some from_b) (log_to to_b) (\<lambda>_. True) (rg_logs s),
                    move_all (\<lambda>r. sa_badge r = from_b) (assignment_to to_b) (distinct \<circ> map sa_key) (assignments db),
                    move_all (\<lambda>r. es_badge r = from_b) (schedule_to to_b) (distinct \<circ> map es_key) (schedules db),
                    move_all (\<lambda>r. el_badge r = from_b) (leave_to to_b) (distinct \<circ> map el_key) (rg_leaves s),
                    move_all (\<lambda>r. eg_badge r = from_b) (grant_to to_b) (distinct \<circ> map eg_key) (rg_grants s)) of
           (Some (ars, c1), Some (logs, c2), Some (sas, c3), Some (ess, c4), Some (els, c5), Some (egs, c6)) \<Rightarrow>
             Some (s\<lparr>rg_employees := emps, rg_attendance := ars, rg_logs := logs @ [merge_log from_b to_b True],
                     rg_rosters := db\<lparr>assignments := sas, schedules := ess\<rparr>, rg_leaves := els, rg_grants := egs\<rparr>,
                   merge_summary [c1, c2, c3, c4, c5, c6])
         | _ \<Rightarrow> None)"

text \<open>Case B: the row \<open>t\<close> survives.\<close>

definition absorb_employee ::
  "str \<Rightarrow> str \<Rightarrow> employee \<Rightarrow> employee \<Rightarrow> registry \<Rightarrow> (registry \<times> (str \<times> nat \<times> nat) list) option" where
  "absorb_employee from_b to_b f t s =
     (let emps = update_where (same_badge t) (\<lambda>_. copied_fields f t)
            (delete_where (same_badge f) (rg_employees s));
          db = rg_rosters s;
          sa = move_then_cascade (\<lambda>r. sa_badge r = from_b)
                 (\<lambda>r. first (\<lambda>x. sa_key x = (to_b, sa_date r)) (assignments db) \<noteq> None) (assignments db);
          es = move_then_cascade (\<lambda>r. es_badge r = from_b)
                 (\<lambda>r. first (\<lambda>x. es_key x = (to_b, effective_from r)) (schedules db) \<noteq> None) (schedules db);
          el = move_or_drop (\<lambda>r. el_badge r = from_b)
                 (\<lambda>r. first (\<lambda>x. el_key x = (to_b, el_date r)) (rg_leaves s) \<noteq> None) (leave_to to_b) (rg_leaves s);
          eg = move_or_drop (\<lambda>r. eg_badge r = from_b)
                 (\<lambda>r. first (\<lambda>x. eg_key x = (to_b, eg_app_id r)) (rg_grants s) \<noteq> None) (grant_to to_b) (rg_grants s)
      in case (move_all (\<lambda>r. ar_badge r = from_b) (attendance_to to_b) (distinct \<circ> map ar_key) (rg_attendance s),
               move_all (\<lambda>r. al_badge r = Some from_b) (log_to to_b) (\<lambda>_. True) (rg_logs s)) of
           (Some (ars, c1), Some (logs, c2)) \<Rightarrow>
             if \<not> employees_ok emps then None
             else Some (s\<lparr>rg_employees := emps, rg_attendance := ars, rg_logs := logs @ [merge_log from_b to_b False],
                     rg_rosters := db\<lparr>assignments := fst sa, schedules := fst es\<rparr>,
                     rg_leaves := fst el, rg_grants := fst eg\<rparr>,
                   merge_summary [c1, c2, snd sa, snd es, snd el, snd eg])
         | _ \<Rightarrow> None)"

definition merge_employees :: "str \<Rightarrow> str \<Rightarrow> registry \<Rightarrow> registry \<times> registry_answer" where
  "merge_employees raw_from raw_to s =
     (let from_b = strip raw_from; to_b = strip raw_to in
      if from_b = [] \<or> to_b = [] then (s, RgBadRequest)
      else if from_b = to_b then (s, RgBadRequest)
      else case find_badge from_b (rg_employees s) of
        None \<Rightarrow> (s, RgNotFound)
      | Some f \<Rightarrow>
          (case find_badge to_b (rg_employees s) of
             None \<Rightarrow> (case rename_employee from_b to_b f s of
                 None \<Rightarrow> (s, RgServerError) | Some (s', summary) \<Rightarrow> (s', RgMerged True summary))
           | Some t \<Rightarrow>
               if truthy (line_user_id f) \<and> truthy (line_user_id t) \<and> line_user_id f \<noteq> line_user_id t
               then (s, RgConflict)
               else (case absorb_employee from_b to_b f t s of
                   None \<Rightarrow> (s, RgServerError) | Some (s', summary) \<Rightarrow> (s', RgMerged False summary))))"

end
