(* ===== verification/ReaderLogin.thy ===== *)
theory ReaderLogin
  imports Oidc
begin

text \<open>
  Card and kiosk log-in, \<open>app/api/reader.py\<close>: the stores of pending taps, claims, self-service
  tickets and elevation tickets, and the endpoints over them. A long poll is two kinds of
  event: the request that parks and each turn of its loop (\<open>Poll\<close>). Every reading of
  \<open>time.time()\<close> and \<open>time.monotonic()\<close>, every random token and the wait budget are
  arguments; the employee and grant tables are those of the moment. The Thai text and the
  markup of the pages are left out. \<open>/hk-escalate\<close> is in \<open>Escalation\<close>.
\<close>

section \<open>Stores\<close>

definition PENDING_TAP_TTL_SECONDS :: real where "PENDING_TAP_TTL_SECONDS = 30"
definition CLAIM_TTL_SECONDS :: real where "CLAIM_TTL_SECONDS = 600"
definition SELF_LOGIN_TICKET_TTL_SECONDS :: real where "SELF_LOGIN_TICKET_TTL_SECONDS = 600"
definition ELEVATE_TICKET_TTL_SECONDS :: real where "ELEVATE_TICKET_TTL_SECONDS = 600"
definition ELEVATE_LABEL_MAX_CHARS :: nat where "ELEVATE_LABEL_MAX_CHARS = 64"

lemmas reader_ttls = PENDING_TAP_TTL_SECONDS_def CLAIM_TTL_SECONDS_def
  SELF_LOGIN_TICKET_TTL_SECONDS_def ELEVATE_TICKET_TTL_SECONDS_def

record tap =
  tap_badge :: str
  tap_display_name :: str
  tap_apps :: "str list"
  tap_expires_at :: real

record claim =
  cl_reader_id :: str
  cl_app :: str
  cl_expires_at :: real

record self_login_ticket =
  sl_reader_id :: str
  sl_expires_at :: real

datatype elevate_status = ElevatePending | ElevateAuthorized | ElevateDenied

record elevate_ticket =
  ev_app :: str
  ev_label :: str
  ev_status :: elevate_status
  ev_assertion :: "str option"
  ev_expires_at :: real

record reader_stores =
  pending_taps :: "(str, tap) dict"
  claims :: "(str, claim) dict"
  self_login_tickets :: "(str, self_login_ticket) dict"
  elevate_tickets :: "(str, elevate_ticket) dict"

definition empty_stores :: reader_stores where
  "empty_stores = \<lparr>pending_taps = [], claims = [], self_login_tickets = [], elevate_tickets = []\<rparr>"

definition prune_stores :: "real \<Rightarrow> reader_stores \<Rightarrow> reader_stores" where
  "prune_stores now s =
     s\<lparr>pending_taps := sweep (\<lambda>v. tap_expires_at v \<le> now) (pending_taps s),
       claims := sweep (\<lambda>v. cl_expires_at v \<le> now) (claims s),
       self_login_tickets := sweep (\<lambda>v. sl_expires_at v \<le> now) (self_login_tickets s),
       elevate_tickets := sweep (\<lambda>v. ev_expires_at v \<le> now) (elevate_tickets s)\<rparr>"

definition stash_pending_tap :: "real \<Rightarrow> str \<Rightarrow> str \<Rightarrow> str \<Rightarrow> str list \<Rightarrow> reader_stores \<Rightarrow> reader_stores" where
  "stash_pending_tap now reader badge name apps s =
     (let s1 = prune_stores now s in
      s1\<lparr>pending_taps := AList.update reader
        \<lparr>tap_badge = badge, tap_display_name = name, tap_apps = apps,
         tap_expires_at = now + PENDING_TAP_TTL_SECONDS\<rparr> (pending_taps s1)\<rparr>)"

definition consume_pending_tap :: "real \<Rightarrow> str \<Rightarrow> reader_stores \<Rightarrow> reader_stores \<times> tap option" where
  "consume_pending_tap now reader s =
     (s\<lparr>pending_taps := AList.delete reader (pending_taps s)\<rparr>,
      case map_of (pending_taps s) reader of
        None \<Rightarrow> None
      | Some r \<Rightarrow> if tap_expires_at r \<le> now then None else Some r)"

definition create_claim :: "real \<Rightarrow> str \<Rightarrow> str \<Rightarrow> str \<Rightarrow> reader_stores \<Rightarrow> reader_stores" where
  "create_claim now token reader app s =
     (let s1 = prune_stores now s in
      s1\<lparr>claims := AList.update token
        \<lparr>cl_reader_id = reader, cl_app = app, cl_expires_at = now + CLAIM_TTL_SECONDS\<rparr> (claims s1)\<rparr>)"

definition lookup_claim :: "real \<Rightarrow> str \<Rightarrow> reader_stores \<Rightarrow> claim option" where
  "lookup_claim now token s =
     (case map_of (claims s) token of
        None \<Rightarrow> None | Some r \<Rightarrow> if cl_expires_at r \<le> now then None else Some r)"

definition create_self_login_ticket :: "real \<Rightarrow> str \<Rightarrow> str \<Rightarrow> reader_stores \<Rightarrow> reader_stores" where
  "create_self_login_ticket now token reader s =
     (let s1 = prune_stores now s in
      s1\<lparr>self_login_tickets := AList.update token
        \<lparr>sl_reader_id = reader, sl_expires_at = now + SELF_LOGIN_TICKET_TTL_SECONDS\<rparr>
        (self_login_tickets s1)\<rparr>)"

definition lookup_self_login_ticket :: "real \<Rightarrow> str \<Rightarrow> reader_stores \<Rightarrow> self_login_ticket option" where
  "lookup_self_login_ticket now token s =
     (case map_of (self_login_tickets s) token of
        None \<Rightarrow> None | Some r \<Rightarrow> if sl_expires_at r \<le> now then None else Some r)"

definition create_elevate_ticket :: "real \<Rightarrow> str \<Rightarrow> str \<Rightarrow> str \<Rightarrow> reader_stores \<Rightarrow> reader_stores" where
  "create_elevate_ticket now token app label s =
     (let s1 = prune_stores now s in
      s1\<lparr>elevate_tickets := AList.update token
        \<lparr>ev_app = app, ev_label = label, ev_status = ElevatePending, ev_assertion = None,
         ev_expires_at = now + ELEVATE_TICKET_TTL_SECONDS\<rparr> (elevate_tickets s1)\<rparr>)"

definition lookup_elevate_ticket :: "real \<Rightarrow> str \<Rightarrow> reader_stores \<Rightarrow> elevate_ticket option" where
  "lookup_elevate_ticket now token s =
     (case map_of (elevate_tickets s) token of
        None \<Rightarrow> None | Some r \<Rightarrow> if ev_expires_at r \<le> now then None else Some r)"

definition resolve_elevate_ticket ::
  "real \<Rightarrow> str \<Rightarrow> bool \<Rightarrow> str option \<Rightarrow> reader_stores \<Rightarrow> reader_stores \<times> bool" where
  "resolve_elevate_ticket now token authorized assertion s =
     (case map_of (elevate_tickets s) token of
        None \<Rightarrow> (s, False)
      | Some r \<Rightarrow>
          if ev_expires_at r \<le> now then (s, False)
          else if ev_status r \<noteq> ElevatePending then (s, False)
          else (s\<lparr>elevate_tickets := AList.update token
              (r\<lparr>ev_status := (if authorized then ElevateAuthorized else ElevateDenied),
                 ev_assertion := assertion\<rparr>) (elevate_tickets s)\<rparr>, True))"

definition take_resolved_elevate_ticket ::
  "real \<Rightarrow> str \<Rightarrow> reader_stores \<Rightarrow> reader_stores \<times> elevate_ticket option" where
  "take_resolved_elevate_ticket now token s =
     (case map_of (elevate_tickets s) token of
        None \<Rightarrow> (s, None)
      | Some r \<Rightarrow>
          if ev_expires_at r \<le> now then (s, None)
          else if ev_status r = ElevatePending then (s, None)
          else (s\<lparr>elevate_tickets := AList.delete token (elevate_tickets s)\<rparr>, Some r))"

section \<open>Looking up employees\<close>

text \<open>
  \<open>str.upper\<close> of one character below code point 256; None: the result lies above. SQLite's
  \<open>upper\<close> changes only ASCII letters: it is \<open>upper\<close>.
\<close>

definition python_upper_char :: "char \<Rightarrow> str option" where
  "python_upper_char c = (let n = (of_char c :: nat) in
     if (97 \<le> n \<and> n \<le> 122) \<or> (224 \<le> n \<and> n \<le> 254 \<and> n \<noteq> 247) then Some [char_of (n - 32)]
     else if n = 223 then Some ''SS''
     else if n = 181 \<or> n = 255 then None
     else Some [c])"

fun python_upper :: "str \<Rightarrow> str option" where
  "python_upper [] = Some []"
| "python_upper (c # s) =
     (case python_upper_char c of
        None \<Rightarrow> None
      | Some u \<Rightarrow> (case python_upper s of None \<Rightarrow> None | Some v \<Rightarrow> Some (u @ v)))"

definition holds_card :: "str option \<Rightarrow> employee \<Rightarrow> bool" where
  "holds_card u e = (case nfc_card_uid e of None \<Rightarrow> False | Some n \<Rightarrow> u = Some (upper n))"

definition find_employee_by_uid :: "employee list \<Rightarrow> str \<Rightarrow> employee option" where
  "find_employee_by_uid emps uid = first (holds_card (python_upper (strip uid))) emps"

definition find_employee_by_badge :: "employee list \<Rightarrow> str \<Rightarrow> employee option" where
  "find_employee_by_badge emps badge =
     (let b = strip badge in if b = [] then None else first (\<lambda>e. badge_number e = b) emps)"

definition grant_app_ids :: "employee_app_grant list \<Rightarrow> str \<Rightarrow> str list" where
  "grant_app_ids grants badge = map eg_app_id (sort_key eg_app_id (filter (\<lambda>g. eg_badge g = badge) grants))"

definition admissible :: "employee \<Rightarrow> bool" where
  "admissible e = (is_active e \<and> \<not> pending_approval e)"

section \<open>Endpoints\<close>

record card_identity =
  ci_badge :: str
  ci_display_name :: str
  ci_apps :: "str list"
  ci_active :: bool
  ci_pending :: bool
  ci_location :: "str option"

text \<open>
  The answers: \<open>RdNotFound\<close> 404, \<open>RdUnauthorized\<close> 401, \<open>RdBadRequest\<close> 400, \<open>RdServerError\<close> an uncaught
  exception, \<open>RdCardRefused\<close> and \<open>RdNotAuthorized\<close> 403, \<open>RdNoContent\<close> 204. \<open>RdParked\<close> is no answer
  yet, \<open>RdGone\<close> a turn of a request that is not parked.
\<close>

datatype reader_response =
    RdNotFound | RdUnauthorized | RdBadRequest | RdServerError | RdCardRefused | RdNotAuthorized
  | RdNoContent | RdParked | RdGone
  | RdScanned str | RdClaim str | RdElevate str | RdTicket str
  | RdAssertion str | RdSession str str str
  | RdIdentity "card_identity option"
  | RdElevatePage str str | RdElevateExpired | RdAccountNotReady | RdNoGrant | RdElevateDone str str
  | RdOnboard str

datatype parked =
    ForTap str str real
  | ForSelf str real
  | ForElevate str real

record reader_world =
  rw_stores :: reader_stores
  rw_oidc :: oidc_state
  rw_parked :: "(nat, parked) dict"

definition new_reader_world :: reader_world where
  "new_reader_world = \<lparr>rw_stores = empty_stores, rw_oidc = empty_oidc, rw_parked = []\<rparr>"

definition resolve_secret :: "env \<Rightarrow> str" where
  "resolve_secret env = strip (getenv env ''READER_RESOLVE_SECRET'' [])"

definition reader_secret :: "env \<Rightarrow> str" where
  "reader_secret env = strip (getenv env ''READER_SECRET'' [])"

definition reader_is_enabled :: "env \<Rightarrow> bool" where
  "reader_is_enabled env = (resolve_secret env \<noteq> [])"

definition self_login_enabled :: "env \<Rightarrow> bool" where
  "self_login_enabled env = (reader_secret env \<noteq> [])"

text \<open>\<open>_require_secret\<close>: None lets the request pass.\<close>

definition require_secret :: "str option \<Rightarrow> str \<Rightarrow> reader_response option" where
  "require_secret header expected =
     (if expected = [] then Some RdNotFound
      else if \<not> truthy header then Some RdUnauthorized
      else (case compare_digest (or_else header []) expected of
          Inl e \<Rightarrow> Some RdServerError
        | Inr False \<Rightarrow> Some RdUnauthorized
        | Inr True \<Rightarrow> None))"

definition guarded ::
  "str option \<Rightarrow> str \<Rightarrow> (reader_world \<Rightarrow> reader_world \<times> reader_response) \<Rightarrow> reader_world
   \<Rightarrow> reader_world \<times> reader_response" where
  "guarded header expected f w =
     (case require_secret header expected of Some r \<Rightarrow> (w, r) | None \<Rightarrow> f w)"

definition card_identity_of :: "employee_app_grant list \<Rightarrow> employee \<Rightarrow> card_identity" where
  "card_identity_of grants e =
     \<lparr>ci_badge = badge_number e, ci_display_name = display_name e,
      ci_apps = grant_app_ids grants (badge_number e), ci_active = is_active e,
      ci_pending = pending_approval e, ci_location = emp_location e\<rparr>"

definition resolve_card ::
  "str \<Rightarrow> employee list \<Rightarrow> employee_app_grant list \<Rightarrow> reader_world \<Rightarrow> reader_world \<times> reader_response" where
  "resolve_card uid emps grants w =
     (w, RdIdentity (map_option (card_identity_of grants) (find_employee_by_uid emps uid)))"

definition resolve_badge ::
  "str \<Rightarrow> employee list \<Rightarrow> employee_app_grant list \<Rightarrow> reader_world \<Rightarrow> reader_world \<times> reader_response" where
  "resolve_badge badge emps grants w =
     (w, RdIdentity (map_option (card_identity_of grants) (find_employee_by_badge emps badge)))"

definition scan_card ::
  "str \<Rightarrow> str \<Rightarrow> real \<Rightarrow> employee list \<Rightarrow> employee_app_grant list \<Rightarrow> reader_world
   \<Rightarrow> reader_world \<times> reader_response" where
  "scan_card uid reader now emps grants w =
     (case find_employee_by_uid emps uid of
        None \<Rightarrow> (w, RdCardRefused)
      | Some e \<Rightarrow>
          if \<not> is_active e \<or> pending_approval e then (w, RdCardRefused)
          else (w\<lparr>rw_stores := stash_pending_tap now reader (badge_number e) (display_name e)
                  (grant_app_ids grants (badge_number e)) (rw_stores w)\<rparr>,
                RdScanned (display_name e)))"

definition claim_reader ::
  "str \<Rightarrow> str \<Rightarrow> str \<Rightarrow> real \<Rightarrow> reader_world \<Rightarrow> reader_world \<times> reader_response" where
  "claim_reader reader app token now w =
     (w\<lparr>rw_stores := create_claim now token reader app (rw_stores w)\<rparr>, RdClaim token)"

definition park :: "nat \<Rightarrow> parked \<Rightarrow> reader_world \<Rightarrow> reader_world" where
  "park rid p w = w\<lparr>rw_parked := AList.update rid p (rw_parked w)\<rparr>"

definition unpark :: "nat \<Rightarrow> reader_world \<Rightarrow> reader_world" where
  "unpark rid w = w\<lparr>rw_parked := AList.delete rid (rw_parked w)\<rparr>"

definition wait_for_tap ::
  "nat \<Rightarrow> str \<Rightarrow> real \<Rightarrow> real \<Rightarrow> reader_world \<Rightarrow> reader_world \<times> reader_response" where
  "wait_for_tap rid token now deadline w =
     (case lookup_claim now token (rw_stores w) of
        None \<Rightarrow> (w, RdNotFound)
      | Some c \<Rightarrow> (park rid (ForTap (cl_reader_id c) (cl_app c) deadline) w, RdParked))"

definition tap_identity :: "tap \<Rightarrow> identity" where
  "tap_identity r = \<lparr>id_badge = tap_badge r, id_email = synthetic_email_for_badge (tap_badge r),
     id_name = tap_display_name r, id_apps = tap_apps r\<rparr>"

text \<open>An assertion is minted by the provider; without a signing key it raises.\<close>

definition mint_assertion ::
  "oidc_lib \<Rightarrow> env \<Rightarrow> real \<Rightarrow> identity \<Rightarrow> str \<Rightarrow> reader_world \<Rightarrow> reader_world \<times> str option" where
  "mint_assertion lib env t i app w =
     (case mint_id_token lib env t i None app (rw_oidc w) of (os, a) \<Rightarrow> (w\<lparr>rw_oidc := os\<rparr>, a))"

definition answer_tap ::
  "oidc_lib \<Rightarrow> env \<Rightarrow> real \<Rightarrow> str \<Rightarrow> tap \<Rightarrow> reader_world \<Rightarrow> reader_world \<times> reader_response" where
  "answer_tap lib env t app r w =
     (if app \<notin> set (tap_apps r) then (w, RdNotAuthorized)
      else (case mint_assertion lib env t (tap_identity r) app w of
          (w1, None) \<Rightarrow> (w1, RdServerError)
        | (w1, Some a) \<Rightarrow> (w1, RdAssertion a)))"

definition no_answer_yet :: "nat \<Rightarrow> real \<Rightarrow> real \<Rightarrow> reader_world \<Rightarrow> reader_world \<times> reader_response" where
  "no_answer_yet rid clk deadline w =
     (if deadline \<le> clk then (unpark rid w, RdNoContent) else (w, RdParked))"

definition poll_tap ::
  "oidc_lib \<Rightarrow> env \<Rightarrow> nat \<Rightarrow> real \<Rightarrow> real \<Rightarrow> real \<Rightarrow> str \<Rightarrow> str \<Rightarrow> real \<Rightarrow> reader_world
   \<Rightarrow> reader_world \<times> reader_response" where
  "poll_tap lib env rid now clk t reader app deadline w =
     (case consume_pending_tap now reader (rw_stores w) of
        (st, Some r) \<Rightarrow> answer_tap lib env t app r (unpark rid (w\<lparr>rw_stores := st\<rparr>))
      | (st, None) \<Rightarrow> no_answer_yet rid clk deadline (w\<lparr>rw_stores := st\<rparr>))"

definition elevate_start ::
  "str \<Rightarrow> str option \<Rightarrow> str \<Rightarrow> real \<Rightarrow> reader_world \<Rightarrow> reader_world \<times> reader_response" where
  "elevate_start raw_app raw_label token now w =
     (let app = strip raw_app in
      if app = [] then (w, RdBadRequest)
      else
        let label = take ELEVATE_LABEL_MAX_CHARS (strip (or_else raw_label [])) in
        (w\<lparr>rw_stores := create_elevate_ticket now token app label (rw_stores w)\<rparr>, RdElevate token))"

definition elevate_wait ::
  "nat \<Rightarrow> str \<Rightarrow> real \<Rightarrow> real \<Rightarrow> reader_world \<Rightarrow> reader_world \<times> reader_response" where
  "elevate_wait rid token now deadline w =
     (if lookup_elevate_ticket now token (rw_stores w) = None then (w, RdNotFound)
      else (park rid (ForElevate token deadline) w, RdParked))"

definition poll_elevate ::
  "nat \<Rightarrow> real \<Rightarrow> real \<Rightarrow> str \<Rightarrow> real \<Rightarrow> reader_world \<Rightarrow> reader_world \<times> reader_response" where
  "poll_elevate rid now clk token deadline w =
     (case take_resolved_elevate_ticket now token (rw_stores w) of
        (st, Some r) \<Rightarrow>
          (unpark rid (w\<lparr>rw_stores := st\<rparr>),
           if ev_status r \<noteq> ElevateAuthorized \<or> \<not> truthy (ev_assertion r) then RdNotAuthorized
           else RdAssertion (or_else (ev_assertion r) []))
      | (st, None) \<Rightarrow> no_answer_yet rid clk deadline (w\<lparr>rw_stores := st\<rparr>))"

definition mint_self_login_session ::
  "oidc_lib \<Rightarrow> real \<Rightarrow> employee list \<Rightarrow> str \<Rightarrow> reader_response" where
  "mint_self_login_session lib t emps badge =
     (case first (\<lambda>e. badge_number e = badge) emps of
        None \<Rightarrow> RdNotAuthorized
      | Some e \<Rightarrow>
          if \<not> is_active e \<or> pending_approval e then RdNotAuthorized
          else
            let name = or_else (line_display_name e) (display_name e) in
            RdSession (create_jwt_token (ol_jwt lib) (ol_line lib) t (line_user_id e)
                (Some (badge_number e)) (Some name) (line_picture_url e))
              (badge_number e) name)"

definition self_login_start ::
  "env \<Rightarrow> str \<Rightarrow> str \<Rightarrow> real \<Rightarrow> reader_world \<Rightarrow> reader_world \<times> reader_response" where
  "self_login_start env raw token now w =
     (if \<not> self_login_enabled env then (w, RdNotFound)
      else
        let reader = strip raw in
        if reader = [] then (w, RdBadRequest)
        else (w\<lparr>rw_stores := create_self_login_ticket now token reader (rw_stores w)\<rparr>, RdTicket token))"

definition self_login_wait ::
  "env \<Rightarrow> nat \<Rightarrow> str \<Rightarrow> real \<Rightarrow> real \<Rightarrow> reader_world \<Rightarrow> reader_world \<times> reader_response" where
  "self_login_wait env rid ticket now deadline w =
     (if \<not> self_login_enabled env then (w, RdNotFound)
      else (case lookup_self_login_ticket now ticket (rw_stores w) of
          None \<Rightarrow> (w, RdNotFound)
        | Some r \<Rightarrow> (park rid (ForSelf (sl_reader_id r) deadline) w, RdParked)))"

definition poll_self ::
  "oidc_lib \<Rightarrow> nat \<Rightarrow> real \<Rightarrow> real \<Rightarrow> real \<Rightarrow> employee list \<Rightarrow> str \<Rightarrow> real \<Rightarrow> reader_world
   \<Rightarrow> reader_world \<times> reader_response" where
  "poll_self lib rid now clk t emps reader deadline w =
     (case consume_pending_tap now reader (rw_stores w) of
        (st, Some r) \<Rightarrow> (unpark rid (w\<lparr>rw_stores := st\<rparr>), mint_self_login_session lib t emps (tap_badge r))
      | (st, None) \<Rightarrow> no_answer_yet rid clk deadline (w\<lparr>rw_stores := st\<rparr>))"

definition poll ::
  "oidc_lib \<Rightarrow> env \<Rightarrow> nat \<Rightarrow> real \<Rightarrow> real \<Rightarrow> real \<Rightarrow> employee list \<Rightarrow> reader_world
   \<Rightarrow> reader_world \<times> reader_response" where
  "poll lib env rid now clk t emps w =
     (case map_of (rw_parked w) rid of
        None \<Rightarrow> (w, RdGone)
      | Some (ForTap reader app deadline) \<Rightarrow> poll_tap lib env rid now clk t reader app deadline w
      | Some (ForSelf reader deadline) \<Rightarrow> poll_self lib rid now clk t emps reader deadline w
      | Some (ForElevate token deadline) \<Rightarrow> poll_elevate rid now clk token deadline w)"

definition elevate_confirm_page ::
  "env \<Rightarrow> str \<Rightarrow> real \<Rightarrow> reader_world \<Rightarrow> reader_world \<times> reader_response" where
  "elevate_confirm_page env ticket now w =
     (if \<not> reader_is_enabled env then (w, RdNotFound)
      else (case lookup_elevate_ticket now ticket (rw_stores w) of
          None \<Rightarrow> (w, RdElevateExpired)
        | Some r \<Rightarrow>
            if ev_status r \<noteq> ElevatePending then (w, RdElevateExpired)
            else (w, RdElevatePage (ev_label r)
                (LINE_LOGIN_PATH @ ''?redirect='' @ quote (''elevate:'' @ ticket)))))"

text \<open>
  \<open>continue_elevate_after_line\<close>: \<open>t1\<close> is read by the look-up, \<open>t2\<close> by the minting or by the
  onboarding token, \<open>t3\<close> by the resolution.
\<close>

definition admit_elevation ::
  "oidc_lib \<Rightarrow> env \<Rightarrow> str \<Rightarrow> real \<Rightarrow> real \<Rightarrow> elevate_ticket \<Rightarrow> employee \<Rightarrow> employee_app_grant list
   \<Rightarrow> reader_world \<Rightarrow> reader_world \<times> reader_response" where
  "admit_elevation lib env ticket t2 t3 r e grants w =
     (if ev_app r \<notin> set (grant_app_ids grants (badge_number e))
      then (w\<lparr>rw_stores := fst (resolve_elevate_ticket t3 ticket False None (rw_stores w))\<rparr>, RdNoGrant)
      else (case mint_assertion lib env t2 (identity_of e grants) (ev_app r) w of
          (w1, None) \<Rightarrow> (w1, RdServerError)
        | (w1, Some a) \<Rightarrow>
            (case resolve_elevate_ticket t3 ticket True (Some a) (rw_stores w1) of
               (st, False) \<Rightarrow> (w1\<lparr>rw_stores := st\<rparr>, RdElevateExpired)
             | (st, True) \<Rightarrow> (w1\<lparr>rw_stores := st\<rparr>, RdElevateDone (display_name e) (ev_label r)))))"

definition continue_elevate_after_line ::
  "oidc_lib \<Rightarrow> env \<Rightarrow> str \<Rightarrow> str \<Rightarrow> str option \<Rightarrow> str option \<Rightarrow> real \<Rightarrow> real \<Rightarrow> real \<Rightarrow> employee list
   \<Rightarrow> employee_app_grant list \<Rightarrow> reader_world \<Rightarrow> reader_world \<times> reader_response" where
  "continue_elevate_after_line lib env ticket user name picture t1 t2 t3 emps grants w =
     (case lookup_elevate_ticket t1 ticket (rw_stores w) of
        None \<Rightarrow> (w, RdElevateExpired)
      | Some r \<Rightarrow>
          if ev_status r \<noteq> ElevatePending then (w, RdElevateExpired)
          else (case first (\<lambda>e. line_user_id e = Some user) emps of
              None \<Rightarrow> (w, RdOnboard (ONBOARD_PATH @ ''?''
                @ onboarding_continuation_query (ol_jwt lib) (ol_line lib) t2 user name picture))
            | Some e \<Rightarrow>
                if pending_approval e \<or> \<not> is_active e then (w, RdAccountNotReady)
                else admit_elevation lib env ticket t2 t3 r e grants w))"

section \<open>The endpoints as a machine\<close>

datatype reader_event =
    ResolveCard env "str option" str "employee list" "employee_app_grant list"
  | ResolveBadge env "str option" str "employee list" "employee_app_grant list"
  | Scan env "str option" str str real "employee list" "employee_app_grant list"
  | ClaimReader env "str option" str str str real
  | WaitForTap env "str option" nat str real real
  | ElevateStart env "str option" str "str option" str real
  | ElevateWait env "str option" nat str real real
  | SelfStart env str str real
  | SelfWait env nat str real real
  | Poll env nat real real real "employee list"
  | ElevatePage env str real
  | ElevateReturn env str str "str option" "str option" real real real "employee list"
      "employee_app_grant list"

fun reader_step :: "oidc_lib \<Rightarrow> reader_world \<Rightarrow> reader_event \<Rightarrow> reader_world \<times> reader_response" where
  "reader_step lib w (ResolveCard env h uid emps grants) =
     guarded h (resolve_secret env) (resolve_card uid emps grants) w"
| "reader_step lib w (ResolveBadge env h badge emps grants) =
     guarded h (resolve_secret env) (resolve_badge badge emps grants) w"
| "reader_step lib w (Scan env h uid reader now emps grants) =
     guarded h (reader_secret env) (scan_card uid reader now emps grants) w"
| "reader_step lib w (ClaimReader env h reader app token now) =
     guarded h (resolve_secret env) (claim_reader reader app token now) w"
| "reader_step lib w (WaitForTap env h rid token now deadline) =
     guarded h (resolve_secret env) (wait_for_tap rid token now deadline) w"
| "reader_step lib w (ElevateStart env h app label token now) =
     guarded h (resolve_secret env) (elevate_start app label token now) w"
| "reader_step lib w (ElevateWait env h rid token now deadline) =
     guarded h (resolve_secret env) (elevate_wait rid token now deadline) w"
| "reader_step lib w (SelfStart env reader token now) = self_login_start env reader token now w"
| "reader_step lib w (SelfWait env rid ticket now deadline) = self_login_wait env rid ticket now deadline w"
| "reader_step lib w (Poll env rid now clk t emps) = poll lib env rid now clk t emps w"
| "reader_step lib w (ElevatePage env ticket now) = elevate_confirm_page env ticket now w"
| "reader_step lib w (ElevateReturn env ticket user name picture t1 t2 t3 emps grants) =
     continue_elevate_after_line lib env ticket user name picture t1 t2 t3 emps grants w"

section \<open>What the stores hold\<close>

text \<open>
  A predicate on the entries of each store; every operation keeps it, given that what it
  writes satisfies it.
\<close>

definition holds :: "('k, 'v) dict \<Rightarrow> ('k \<Rightarrow> 'v \<Rightarrow> bool) \<Rightarrow> bool" where
  "holds d P \<longleftrightarrow> dict_ok d \<and> (\<forall>k v. map_of d k = Some v \<longrightarrow> P k v)"

lemma holds_Nil [simp]: "holds [] P"
  by (simp add: holds_def)

lemma holdsD: "holds d P \<Longrightarrow> map_of d k = Some v \<Longrightarrow> P k v"
  by (simp add: holds_def)

lemma holds_mono: "holds d P \<Longrightarrow> (\<And>k v. P k v \<Longrightarrow> Q k v) \<Longrightarrow> holds d Q"
  by (auto simp: holds_def)

lemma holds_update: "holds d P \<Longrightarrow> P k v \<Longrightarrow> holds (AList.update k v d) P"
  by (auto simp: holds_def dict_simps)

lemma holds_delete: "holds d P \<Longrightarrow> holds (AList.delete k d) P"
  by (auto simp: holds_def dict_simps split: if_splits)

lemma holds_sweep: "holds d P \<Longrightarrow> holds (sweep dead d) P"
  by (auto simp: holds_def dict_simps split: option.splits if_splits)

lemmas holds_intros = holds_update holds_delete holds_sweep

definition stores_hold ::
  "(str \<Rightarrow> tap \<Rightarrow> bool) \<Rightarrow> (str \<Rightarrow> claim \<Rightarrow> bool) \<Rightarrow> (str \<Rightarrow> self_login_ticket \<Rightarrow> bool)
   \<Rightarrow> (str \<Rightarrow> elevate_ticket \<Rightarrow> bool) \<Rightarrow> reader_stores \<Rightarrow> bool" where
  "stores_hold T C L E s \<longleftrightarrow> holds (pending_taps s) T \<and> holds (claims s) C
     \<and> holds (self_login_tickets s) L \<and> holds (elevate_tickets s) E"

lemma stores_hold_mono:
  assumes "stores_hold T C L E s"
    and "\<And>k v. T k v \<Longrightarrow> T' k v" "\<And>k v. C k v \<Longrightarrow> C' k v" "\<And>k v. L k v \<Longrightarrow> L' k v"
      "\<And>k v. E k v \<Longrightarrow> E' k v"
  shows "stores_hold T' C' L' E' s"
  using assms unfolding stores_hold_def by (blast intro: holds_mono)

lemma prune_holds: "stores_hold T C L E s \<Longrightarrow> stores_hold T C L E (prune_stores now s)"
  by (simp add: stores_hold_def prune_stores_def holds_sweep)

lemma stash_holds:
  "stores_hold T C L E s \<Longrightarrow> T reader \<lparr>tap_badge = b, tap_display_name = n, tap_apps = a,
      tap_expires_at = now + PENDING_TAP_TTL_SECONDS\<rparr>
   \<Longrightarrow> stores_hold T C L E (stash_pending_tap now reader b n a s)"
  using prune_holds [of T C L E s now]
  by (simp add: stores_hold_def stash_pending_tap_def Let_def holds_update)

lemma claim_holds:
  "stores_hold T C L E s \<Longrightarrow> C token \<lparr>cl_reader_id = reader, cl_app = app,
      cl_expires_at = now + CLAIM_TTL_SECONDS\<rparr>
   \<Longrightarrow> stores_hold T C L E (create_claim now token reader app s)"
  using prune_holds [of T C L E s now]
  by (simp add: stores_hold_def create_claim_def Let_def holds_update)

lemma self_ticket_holds:
  "stores_hold T C L E s \<Longrightarrow> L token \<lparr>sl_reader_id = reader,
      sl_expires_at = now + SELF_LOGIN_TICKET_TTL_SECONDS\<rparr>
   \<Longrightarrow> stores_hold T C L E (create_self_login_ticket now token reader s)"
  using prune_holds [of T C L E s now]
  by (simp add: stores_hold_def create_self_login_ticket_def Let_def holds_update)

lemma elevate_ticket_holds:
  "stores_hold T C L E s \<Longrightarrow> E token \<lparr>ev_app = app, ev_label = label, ev_status = ElevatePending,
      ev_assertion = None, ev_expires_at = now + ELEVATE_TICKET_TTL_SECONDS\<rparr>
   \<Longrightarrow> stores_hold T C L E (create_elevate_ticket now token app label s)"
  using prune_holds [of T C L E s now]
  by (simp add: stores_hold_def create_elevate_ticket_def Let_def holds_update)

lemma consume_tap_holds:
  assumes "stores_hold T C L E s" "consume_pending_tap now reader s = (s', ro)"
  shows "stores_hold T C L E s'"
    and "ro = Some r \<Longrightarrow> T reader r \<and> now < tap_expires_at r"
  using assms by (auto simp: stores_hold_def consume_pending_tap_def holds_delete
      dest: holdsD split: option.splits if_splits)

lemma resolve_ticket_holds:
  assumes st: "stores_hold T C L E s" and r: "resolve_elevate_ticket now token ok a s = (s', done)"
    and E: "\<And>r. E token r \<Longrightarrow> map_of (elevate_tickets s) token = Some r
      \<Longrightarrow> E token (r\<lparr>ev_status := (if ok then ElevateAuthorized else ElevateDenied), ev_assertion := a\<rparr>)"
  shows "stores_hold T C L E s'"
proof (cases "s' = s")
  case True
  then show ?thesis using st by simp
next
  case False
  then obtain v where v: "map_of (elevate_tickets s) token = Some v"
      "s' = s\<lparr>elevate_tickets := AList.update token
         (v\<lparr>ev_status := (if ok then ElevateAuthorized else ElevateDenied), ev_assertion := a\<rparr>)
         (elevate_tickets s)\<rparr>"
    using r by (auto simp: resolve_elevate_ticket_def split: option.splits if_splits)
  have "E token v" using st v(1) by (auto simp: stores_hold_def dest: holdsD)
  then have "E token (v\<lparr>ev_status := (if ok then ElevateAuthorized else ElevateDenied), ev_assertion := a\<rparr>)"
    using v(1) by (rule E)
  then show ?thesis using st v(2) by (simp add: stores_hold_def holds_update)
qed

lemma take_resolved_holds:
  assumes "stores_hold T C L E s" "take_resolved_elevate_ticket now token s = (s', ro)"
  shows "stores_hold T C L E s'"
    and "ro = Some r \<Longrightarrow> E token r \<and> ev_status r \<noteq> ElevatePending"
  using assms by (auto simp: stores_hold_def take_resolved_elevate_ticket_def holds_delete
      dest: holdsD split: option.splits if_splits)

section \<open>Where an answer comes from\<close>

type_synonym reader_history = "(reader_event \<times> reader_response) list"

text \<open>A card of \<open>e\<close> was shown to the reader, by the reader's own secret, and accepted.\<close>

definition card_shown :: "reader_history \<Rightarrow> str \<Rightarrow> real \<Rightarrow> employee \<Rightarrow> employee_app_grant list \<Rightarrow> bool" where
  "card_shown h reader now e grants \<longleftrightarrow> (\<exists>env uid emps.
     (Scan env (Some (reader_secret env)) uid reader now emps grants, RdScanned (display_name e)) \<in> set h
     \<and> reader_secret env \<noteq> [] \<and> find_employee_by_uid emps uid = Some e \<and> admissible e)"

text \<open>An application that knows the other secret paired a terminal with the reader.\<close>

definition paired :: "reader_history \<Rightarrow> str \<Rightarrow> str \<Rightarrow> bool" where
  "paired h reader app \<longleftrightarrow> (\<exists>env token now.
     (ClaimReader env (Some (resolve_secret env)) reader app token now, RdClaim token) \<in> set h
     \<and> resolve_secret env \<noteq> [])"

definition self_paired :: "reader_history \<Rightarrow> str \<Rightarrow> bool" where
  "self_paired h reader \<longleftrightarrow> (\<exists>env raw token now. (SelfStart env raw token now, RdTicket token) \<in> set h
     \<and> strip raw = reader)"

definition ticket_asked :: "reader_history \<Rightarrow> str \<Rightarrow> str \<Rightarrow> bool" where
  "ticket_asked h token app \<longleftrightarrow> (\<exists>env raw label now.
     (ElevateStart env (Some (resolve_secret env)) raw label token now, RdElevate token) \<in> set h
     \<and> resolve_secret env \<noteq> [] \<and> strip raw = app)"

text \<open>The employee \<open>e\<close> completed a LINE log-in for the ticket.\<close>

definition line_completed :: "reader_history \<Rightarrow> str \<Rightarrow> employee \<Rightarrow> employee_app_grant list \<Rightarrow> bool" where
  "line_completed h token e grants \<longleftrightarrow> (\<exists>env user name picture t1 t2 t3 emps label.
     (ElevateReturn env token user name picture t1 t2 t3 emps grants,
      RdElevateDone (display_name e) label) \<in> set h
     \<and> first (\<lambda>e. line_user_id e = Some user) emps = Some e \<and> admissible e)"

definition minted :: "oidc_lib \<Rightarrow> identity \<Rightarrow> str \<Rightarrow> str \<Rightarrow> bool" where
  "minted lib i app a \<longleftrightarrow> (\<exists>env t s s'. mint_id_token lib env t i None app s = (s', Some a))"

definition may_enter :: "employee \<Rightarrow> employee_app_grant list \<Rightarrow> str \<Rightarrow> bool" where
  "may_enter e grants app \<longleftrightarrow> admissible e \<and> app \<in> set (grant_app_ids grants (badge_number e))"

definition entitled :: "oidc_lib \<Rightarrow> reader_history \<Rightarrow> reader_event \<Rightarrow> reader_response \<Rightarrow> bool" where
  "entitled lib h ev out = (case (ev, out) of
     (Poll env rid now clk t emps, RdAssertion a) \<Rightarrow>
       (\<exists>e grants app. may_enter e grants app \<and> minted lib (identity_of e grants) app a
          \<and> ((\<exists>reader shown. card_shown h reader shown e grants \<and> now < shown + 30 \<and> paired h reader app)
             \<or> (\<exists>token. ticket_asked h token app \<and> line_completed h token e grants)))
   | (Poll env rid now clk t emps, RdSession tok badge name) \<Rightarrow>
       (\<exists>e grants reader shown e'. card_shown h reader shown e grants \<and> now < shown + 30
          \<and> self_paired h reader \<and> badge_number e = badge
          \<and> first (\<lambda>x. badge_number x = badge) emps = Some e' \<and> admissible e'
          \<and> tok = create_jwt_token (ol_jwt lib) (ol_line lib) t (line_user_id e') (Some badge)
              (Some name) (line_picture_url e'))
   | (_, RdAssertion a) \<Rightarrow> False
   | (_, RdSession tok badge name) \<Rightarrow> False
   | _ \<Rightarrow> True)"

definition tap_backed :: "reader_history \<Rightarrow> str \<Rightarrow> tap \<Rightarrow> bool" where
  "tap_backed h reader r \<longleftrightarrow> (\<exists>now e grants. card_shown h reader now e grants
     \<and> r = \<lparr>tap_badge = badge_number e, tap_display_name = display_name e,
            tap_apps = grant_app_ids grants (badge_number e),
            tap_expires_at = now + PENDING_TAP_TTL_SECONDS\<rparr>)"

definition elevate_backed :: "oidc_lib \<Rightarrow> reader_history \<Rightarrow> str \<Rightarrow> elevate_ticket \<Rightarrow> bool" where
  "elevate_backed lib h token r \<longleftrightarrow> ticket_asked h token (ev_app r)
     \<and> (ev_status r = ElevateAuthorized \<longrightarrow> (\<exists>e grants a. ev_assertion r = Some a
          \<and> may_enter e grants (ev_app r) \<and> minted lib (identity_of e grants) (ev_app r) a
          \<and> line_completed h token e grants))"

definition parked_backed :: "reader_history \<Rightarrow> nat \<Rightarrow> parked \<Rightarrow> bool" where
  "parked_backed h rid p = (case p of
     ForTap reader app deadline \<Rightarrow> paired h reader app
   | ForSelf reader deadline \<Rightarrow> self_paired h reader
   | ForElevate token deadline \<Rightarrow> True)"

definition reader_backed :: "oidc_lib \<Rightarrow> reader_history \<Rightarrow> reader_world \<Rightarrow> bool" where
  "reader_backed lib h w \<longleftrightarrow>
     stores_hold (tap_backed h) (\<lambda>k c. paired h (cl_reader_id c) (cl_app c))
       (\<lambda>k c. self_paired h (sl_reader_id c)) (elevate_backed lib h) (rw_stores w)
     \<and> holds (rw_parked w) (parked_backed h)"

lemma history_mono:
  assumes "set h \<subseteq> set h'"
  shows "card_shown h reader now e grants \<Longrightarrow> card_shown h' reader now e grants"
    and "paired h reader app \<Longrightarrow> paired h' reader app"
    and "self_paired h reader \<Longrightarrow> self_paired h' reader"
    and "ticket_asked h token app \<Longrightarrow> ticket_asked h' token app"
    and "line_completed h token e grants \<Longrightarrow> line_completed h' token e grants"
    and "tap_backed h reader r \<Longrightarrow> tap_backed h' reader r"
    and "elevate_backed lib h token v \<Longrightarrow> elevate_backed lib h' token v"
    and "parked_backed h rid p \<Longrightarrow> parked_backed h' rid p"
  using assms
  unfolding card_shown_def paired_def self_paired_def ticket_asked_def line_completed_def tap_backed_def
    elevate_backed_def parked_backed_def
  by (blast | (cases p; force))+

lemma reader_backed_mono: "reader_backed lib h w \<Longrightarrow> set h \<subseteq> set h' \<Longrightarrow> reader_backed lib h' w"
  unfolding reader_backed_def
  by (auto elim!: stores_hold_mono holds_mono intro: history_mono)

lemma guardedE:
  assumes "guarded header expected f w = (w', out)"
  obtains "w' = w" "out \<in> {RdNotFound, RdUnauthorized, RdServerError}"
    | "header = Some expected" "expected \<noteq> []" "f w = (w', out)"
proof (cases "require_secret header expected")
  case None
  then have "header = Some expected" "expected \<noteq> []"
    by (auto simp: require_secret_def truthy_iff split: if_splits sum.splits bool.splits)
  moreover have "f w = (w', out)" using assms None by (simp add: guarded_def)
  ultimately show ?thesis by (rule that(2))
next
  case (Some r)
  then have "w' = w" "out = r" using assms by (auto simp: guarded_def)
  moreover have "r \<in> {RdNotFound, RdUnauthorized, RdServerError}"
    using Some by (auto simp: require_secret_def split: if_splits sum.splits bool.splits)
  ultimately show ?thesis by (intro that(1)) auto
qed

definition hands_out :: "reader_response \<Rightarrow> bool" where
  "hands_out out = (case out of RdAssertion a \<Rightarrow> True | RdSession t b n \<Rightarrow> True | _ \<Rightarrow> False)"

lemma entitled_other: "\<not> hands_out out \<Longrightarrow> entitled lib h ev out"
  by (cases out; cases ev) (simp_all add: hands_out_def entitled_def)

lemmas small_endpoints = resolve_card_def resolve_badge_def scan_card_def claim_reader_def
  wait_for_tap_def elevate_start_def elevate_wait_def self_login_start_def self_login_wait_def
  elevate_confirm_page_def

lemma mint_assertion_effect:
  assumes "mint_assertion lib env t i app w = (w', a)"
  shows "rw_stores w' = rw_stores w \<and> rw_parked w' = rw_parked w
    \<and> (\<forall>x. a = Some x \<longrightarrow> minted lib i app x)"
  using assms by (auto simp: mint_assertion_def minted_def split: prod.splits)

text \<open>Only a turn of a long poll hands out an assertion or a session.\<close>

lemma only_poll_hands_out:
  assumes "reader_step lib w ev = (w', out)" "hands_out out"
  obtains env rid now clk t emps where "ev = Poll env rid now clk t emps"
proof (cases ev)
  case (ElevateReturn env token user name picture t1 t2 t3 emps grants)
  then show ?thesis using assms
    by (auto simp: continue_elevate_after_line_def admit_elevation_def hands_out_def
        split: option.splits if_splits prod.splits bool.splits)
qed (use assms that in \<open>auto simp: small_endpoints hands_out_def Let_def elim!: guardedE
    split: option.splits if_splits\<close>)

lemma backed_update:
  assumes "reader_backed lib h w"
    and "stores_hold (tap_backed h) (\<lambda>k c. paired h (cl_reader_id c) (cl_app c))
       (\<lambda>k c. self_paired h (sl_reader_id c)) (elevate_backed lib h) st"
  shows "reader_backed lib h (w\<lparr>rw_stores := st\<rparr>)"
  using assms by (simp add: reader_backed_def)

lemma backed_park: "reader_backed lib h w \<Longrightarrow> parked_backed h rid p \<Longrightarrow> reader_backed lib h (park rid p w)"
  by (simp add: reader_backed_def park_def holds_update)

lemma backed_unpark: "reader_backed lib h w \<Longrightarrow> reader_backed lib h (unpark rid w)"
  by (simp add: reader_backed_def unpark_def holds_delete)

lemma backed_stores: "reader_backed lib h w \<Longrightarrow> stores_hold (tap_backed h)
    (\<lambda>k c. paired h (cl_reader_id c) (cl_app c)) (\<lambda>k c. self_paired h (sl_reader_id c))
    (elevate_backed lib h) (rw_stores w)"
  by (simp add: reader_backed_def)

lemma backed_same:
  assumes "reader_backed lib h w" "rw_stores w' = rw_stores w" "rw_parked w' = rw_parked w"
  shows "reader_backed lib h w'"
  using assms by (simp add: reader_backed_def)

text \<open>Each event that writes, over the history that already holds it.\<close>

lemma backed_scan:
  assumes B: "reader_backed lib h w" and ev: "(Scan env header uid reader now emps grants, out) \<in> set h"
    and s: "reader_step lib w (Scan env header uid reader now emps grants) = (w', out)"
  shows "reader_backed lib h w'"
  using s unfolding reader_step.simps
proof (cases rule: guardedE)
  case 1
  then show ?thesis using B by simp
next
  case 2
  show ?thesis
  proof (cases "w' = w")
    case True
    then show ?thesis using B by simp
  next
    case False
    then obtain e where e: "find_employee_by_uid emps uid = Some e" "admissible e"
        "out = RdScanned (display_name e)"
        "w' = w\<lparr>rw_stores := stash_pending_tap now reader (badge_number e) (display_name e)
                  (grant_app_ids grants (badge_number e)) (rw_stores w)\<rparr>"
      using 2(3) by (auto simp: scan_card_def admissible_def split: option.splits if_splits)
    have "card_shown h reader now e grants"
      unfolding card_shown_def using ev 2(1,2) e(1-3) by blast
    then show ?thesis unfolding e(4)
      by (intro backed_update [OF B] stash_holds [OF backed_stores [OF B]]) (auto simp: tap_backed_def)
  qed
qed

lemma backed_claim:
  assumes B: "reader_backed lib h w" and ev: "(ClaimReader env header reader app token now, out) \<in> set h"
    and s: "reader_step lib w (ClaimReader env header reader app token now) = (w', out)"
  shows "reader_backed lib h w'"
  using s unfolding reader_step.simps
proof (cases rule: guardedE)
  case 1
  then show ?thesis using B by simp
next
  case 2
  then have e: "out = RdClaim token"
      "w' = w\<lparr>rw_stores := create_claim now token reader app (rw_stores w)\<rparr>"
    by (simp_all add: claim_reader_def)
  have "paired h reader app" unfolding paired_def using ev 2(1,2) e(1) by blast
  then show ?thesis unfolding e(2)
    by (intro backed_update [OF B] claim_holds [OF backed_stores [OF B]]) simp
qed

lemma backed_elevate_start:
  assumes B: "reader_backed lib h w" and ev: "(ElevateStart env header raw label token now, out) \<in> set h"
    and s: "reader_step lib w (ElevateStart env header raw label token now) = (w', out)"
  shows "reader_backed lib h w'"
  using s unfolding reader_step.simps
proof (cases rule: guardedE)
  case 1
  then show ?thesis using B by simp
next
  case 2
  show ?thesis
  proof (cases "strip raw = []")
    case True
    then show ?thesis using B 2(3) by (simp add: elevate_start_def)
  next
    case False
    then have e: "out = RdElevate token"
        "w' = w\<lparr>rw_stores := create_elevate_ticket now token (strip raw)
            (take ELEVATE_LABEL_MAX_CHARS (strip (or_else label []))) (rw_stores w)\<rparr>"
      using 2(3) by (simp_all add: elevate_start_def Let_def)
    have "ticket_asked h token (strip raw)" unfolding ticket_asked_def using ev 2(1,2) e(1) by blast
    then show ?thesis unfolding e(2)
      by (intro backed_update [OF B] elevate_ticket_holds [OF backed_stores [OF B]])
         (simp add: elevate_backed_def)
  qed
qed

lemma backed_self_start:
  assumes B: "reader_backed lib h w" and ev: "(SelfStart env raw token now, out) \<in> set h"
    and s: "reader_step lib w (SelfStart env raw token now) = (w', out)"
  shows "reader_backed lib h w'"
proof (cases "w' = w")
  case True
  then show ?thesis using B by simp
next
  case False
  then have e: "out = RdTicket token"
      "w' = w\<lparr>rw_stores := create_self_login_ticket now token (strip raw) (rw_stores w)\<rparr>"
    using s by (auto simp: self_login_start_def Let_def split: if_splits)
  have "self_paired h (strip raw)" unfolding self_paired_def using ev e(1) by blast
  then show ?thesis unfolding e(2)
    by (intro backed_update [OF B] self_ticket_holds [OF backed_stores [OF B]]) simp
qed

lemma backed_waits:
  assumes B: "reader_backed lib h w" and s: "reader_step lib w ev = (w', out)"
    and ev: "ev = WaitForTap env header rid token now deadline
      \<or> ev = ElevateWait env header rid token now deadline \<or> ev = SelfWait env rid token now deadline"
  shows "reader_backed lib h w'"
proof -
  note st = backed_stores [OF B, unfolded stores_hold_def]
  have c: "paired h (cl_reader_id c) (cl_app c)" if "lookup_claim now token (rw_stores w) = Some c" for c
    using that st by (auto simp: lookup_claim_def dest: holdsD split: option.splits if_splits)
  have l: "self_paired h (sl_reader_id c)"
    if "lookup_self_login_ticket now token (rw_stores w) = Some c" for c
    using that st by (auto simp: lookup_self_login_ticket_def dest: holdsD split: option.splits if_splits)
  show ?thesis using ev s B
    by (elim disjE)
       (auto simp: wait_for_tap_def elevate_wait_def self_login_wait_def parked_backed_def c l
         elim!: guardedE intro!: backed_park split: option.splits if_splits)
qed

lemma backed_no_answer:
  "reader_backed lib h w \<Longrightarrow> no_answer_yet rid clk deadline w = (w', out) \<Longrightarrow>
     reader_backed lib h w' \<and> \<not> hands_out out"
  by (auto simp: no_answer_yet_def hands_out_def backed_unpark split: if_splits)

lemma backed_poll_tap:
  assumes B: "reader_backed lib h w" and p: "paired h reader app"
    and s: "poll_tap lib env rid now clk t reader app deadline w = (w', out)"
  shows "reader_backed lib h w' \<and> entitled lib h (Poll env rid now clk t emps) out"
proof -
  obtain st ro where c: "consume_pending_tap now reader (rw_stores w) = (st, ro)" by fastforce
  have B1: "reader_backed lib h (w\<lparr>rw_stores := st\<rparr>)"
    using B consume_tap_holds(1) [OF backed_stores [OF B] c] by (rule backed_update)
  show ?thesis
  proof (cases ro)
    case None
    then show ?thesis using s c backed_no_answer [OF B1] by (auto simp: poll_tap_def entitled_other)
  next
    case (Some r)
    let ?w = "unpark rid (w\<lparr>rw_stores := st\<rparr>)"
    have B2: "reader_backed lib h ?w" using B1 by (rule backed_unpark)
    have a: "answer_tap lib env t app r ?w = (w', out)" using s c Some by (simp add: poll_tap_def)
    obtain shown e grants where e: "card_shown h reader shown e grants"
        "r = \<lparr>tap_badge = badge_number e, tap_display_name = display_name e,
            tap_apps = grant_app_ids grants (badge_number e),
            tap_expires_at = shown + PENDING_TAP_TTL_SECONDS\<rparr>"
      and fresh: "now < tap_expires_at r"
      using consume_tap_holds(2) [OF backed_stores [OF B] c Some] by (auto simp: tap_backed_def)
    have i: "tap_identity r = identity_of e grants"
      by (simp add: e(2) tap_identity_def identity_of_def grant_app_ids_def)
    obtain w1 m where m: "mint_assertion lib env t (tap_identity r) app ?w = (w1, m)" by fastforce
    have B3: "reader_backed lib h w1"
      using B2 mint_assertion_effect [OF m] by (auto intro: backed_same)
    show ?thesis
    proof (cases "app \<in> set (tap_apps r) \<and> m \<noteq> None")
      case True
      then obtain x where x: "m = Some x" "w' = w1" "out = RdAssertion x"
        using a m by (auto simp: answer_tap_def)
      have "may_enter e grants app" using True e by (auto simp: may_enter_def card_shown_def)
      moreover have "minted lib (identity_of e grants) app x"
        using mint_assertion_effect [OF m] x(1) i by simp
      moreover have "now < shown + 30" using fresh e(2) by (simp add: reader_ttls)
      ultimately have "entitled lib h (Poll env rid now clk t emps) out"
        unfolding x(3) entitled_def prod.case reader_event.case reader_response.case
        using e(1) p by blast
      then show ?thesis using B3 x(2) by simp
    next
      case False
      then show ?thesis using a m B2 B3
        by (auto simp: answer_tap_def hands_out_def intro!: entitled_other split: if_splits)
    qed
  qed
qed

lemma backed_poll_self:
  assumes B: "reader_backed lib h w" and p: "self_paired h reader"
    and s: "poll_self lib rid now clk t emps reader deadline w = (w', out)"
  shows "reader_backed lib h w' \<and> entitled lib h (Poll env rid now clk t emps) out"
proof -
  obtain st ro where c: "consume_pending_tap now reader (rw_stores w) = (st, ro)" by fastforce
  have B1: "reader_backed lib h (w\<lparr>rw_stores := st\<rparr>)"
    using B consume_tap_holds(1) [OF backed_stores [OF B] c] by (rule backed_update)
  show ?thesis
  proof (cases ro)
    case None
    then show ?thesis using s c backed_no_answer [OF B1] by (auto simp: poll_self_def entitled_other)
  next
    case (Some r)
    then have w': "w' = unpark rid (w\<lparr>rw_stores := st\<rparr>)"
        "out = mint_self_login_session lib t emps (tap_badge r)"
      using s c by (auto simp: poll_self_def)
    obtain shown e grants where e: "card_shown h reader shown e grants" "tap_badge r = badge_number e"
        "now < shown + 30"
      using consume_tap_holds(2) [OF backed_stores [OF B] c Some] by (auto simp: tap_backed_def reader_ttls)
    have "entitled lib h (Poll env rid now clk t emps) out"
    proof (cases "hands_out out")
      case True
      then obtain e' where e': "first (\<lambda>x. badge_number x = tap_badge r) emps = Some e'" "admissible e'"
          "out = RdSession (create_jwt_token (ol_jwt lib) (ol_line lib) t (line_user_id e')
            (Some (badge_number e')) (Some (or_else (line_display_name e') (display_name e')))
            (line_picture_url e')) (badge_number e') (or_else (line_display_name e') (display_name e'))"
        using w'(2) by (auto simp: mint_self_login_session_def hands_out_def Let_def admissible_def
            split: option.splits if_splits)
      have "badge_number e' = badge_number e" using first_Some [OF e'(1)] e(2) by simp
      then show ?thesis using e e' p by (auto simp: entitled_def)
    qed (rule entitled_other)
    then show ?thesis using backed_unpark [OF B1] w'(1) by simp
  qed
qed

lemma backed_poll_elevate:
  assumes B: "reader_backed lib h w"
    and s: "poll_elevate rid now clk token deadline w = (w', out)"
  shows "reader_backed lib h w' \<and> entitled lib h (Poll env rid now clk t emps) out"
proof -
  obtain st ro where c: "take_resolved_elevate_ticket now token (rw_stores w) = (st, ro)" by fastforce
  have B1: "reader_backed lib h (w\<lparr>rw_stores := st\<rparr>)"
    using B take_resolved_holds(1) [OF backed_stores [OF B] c] by (rule backed_update)
  show ?thesis
  proof (cases ro)
    case None
    then show ?thesis using s c backed_no_answer [OF B1] by (auto simp: poll_elevate_def entitled_other)
  next
    case (Some r)
    have r: "elevate_backed lib h token r" using take_resolved_holds(2) [OF backed_stores [OF B] c Some]
      by simp
    have w': "w' = unpark rid (w\<lparr>rw_stores := st\<rparr>)"
        "out = (if ev_status r \<noteq> ElevateAuthorized \<or> \<not> truthy (ev_assertion r) then RdNotAuthorized
           else RdAssertion (or_else (ev_assertion r) []))"
      using s c Some by (auto simp: poll_elevate_def)
    have "entitled lib h (Poll env rid now clk t emps) out"
    proof (cases "ev_status r = ElevateAuthorized \<and> truthy (ev_assertion r)")
      case True
      then obtain e grants a where e: "ev_assertion r = Some a" "may_enter e grants (ev_app r)"
          "minted lib (identity_of e grants) (ev_app r) a" "line_completed h token e grants"
          "ticket_asked h token (ev_app r)"
        using r by (auto simp: elevate_backed_def)
      have "or_else (ev_assertion r) [] = a" using e(1) True by (cases a) auto
      then have out: "out = RdAssertion a" using w'(2) True by simp
      show ?thesis unfolding out entitled_def prod.case reader_event.case reader_response.case
        using e(2-5) by blast
    next
      case False
      then show ?thesis using w'(2) by (intro entitled_other) (auto simp: hands_out_def)
    qed
    then show ?thesis using backed_unpark [OF B1] w'(1) by simp
  qed
qed

lemma backed_elevate_return:
  assumes B: "reader_backed lib h w"
    and ev: "(ElevateReturn env token user name picture t1 t2 t3 emps grants, out) \<in> set h"
    and s: "reader_step lib w (ElevateReturn env token user name picture t1 t2 t3 emps grants) = (w', out)"
  shows "reader_backed lib h w'"
proof (cases "w' = w")
  case True
  then show ?thesis using B by simp
next
  case False
  then obtain r e where r: "lookup_elevate_ticket t1 token (rw_stores w) = Some r"
      "first (\<lambda>e. line_user_id e = Some user) emps = Some e" "admissible e"
      "admit_elevation lib env token t2 t3 r e grants w = (w', out)"
    using s by (auto simp: continue_elevate_after_line_def admissible_def split: option.splits if_splits)
  show ?thesis
  proof (cases "ev_app r \<in> set (grant_app_ids grants (badge_number e))")
    case False
    obtain st ok where st: "resolve_elevate_ticket t3 token False None (rw_stores w) = (st, ok)" by fastforce
    then have w': "w' = w\<lparr>rw_stores := st\<rparr>" using r(4) False by (auto simp: admit_elevation_def)
    show ?thesis unfolding w'
      by (intro backed_update [OF B] resolve_ticket_holds [OF backed_stores [OF B] st])
         (simp add: elevate_backed_def)
  next
    case True
    then have may: "may_enter e grants (ev_app r)" using r(3) by (simp add: may_enter_def)
    obtain w1 m where m: "mint_assertion lib env t2 (identity_of e grants) (ev_app r) w = (w1, m)"
      by fastforce
    have B1: "reader_backed lib h w1" using B mint_assertion_effect [OF m] by (auto intro: backed_same)
    show ?thesis
    proof (cases m)
      case None
      then show ?thesis using r(4) True m B1 by (auto simp: admit_elevation_def)
    next
      case (Some a)
      obtain st ok where st: "resolve_elevate_ticket t3 token True (Some a) (rw_stores w1) = (st, ok)"
        by fastforce
      have w': "w' = w1\<lparr>rw_stores := st\<rparr>"
          "ok \<longrightarrow> out = RdElevateDone (display_name e) (ev_label r)"
        using r(4) True m Some st by (auto simp: admit_elevation_def split: bool.splits)
      have a: "minted lib (identity_of e grants) (ev_app r) a"
        using mint_assertion_effect [OF m] Some by simp
      have same: "map_of (elevate_tickets (rw_stores w1)) token = Some r"
        using r(1) mint_assertion_effect [OF m]
        by (auto simp: lookup_elevate_ticket_def split: option.splits if_splits)
      show ?thesis
      proof (cases ok)
        case False
        then have "st = rw_stores w1"
          using st by (auto simp: resolve_elevate_ticket_def split: option.splits if_splits)
        then show ?thesis using B1 w'(1) by simp
      next
        case ok: True
        have "line_completed h token e grants"
          unfolding line_completed_def using ev w'(2) ok r(2,3) by blast
        then show ?thesis unfolding w'(1)
          using may a same
          by (intro backed_update [OF B1] resolve_ticket_holds [OF backed_stores [OF B1] st])
             (auto simp: elevate_backed_def)
      qed
    qed
  qed
qed

lemma backed_step:
  assumes B: "reader_backed lib h w" and s: "reader_step lib w ev = (w', out)"
  shows "reader_backed lib (h @ [(ev, out)]) w' \<and> entitled lib h ev out"
proof -
  define h' where "h' = h @ [(ev, out)]"
  have B1: "reader_backed lib h' w" using B unfolding h'_def by (rule reader_backed_mono) auto
  have ev: "(ev, out) \<in> set h'" by (simp add: h'_def)
  have other: "reader_backed lib h' w'" if "\<nexists>env rid now clk t emps. ev = Poll env rid now clk t emps"
  proof (cases ev)
    case (Scan env header uid reader now emps grants)
    show ?thesis using ev s unfolding Scan by (rule backed_scan [OF B1])
  next
    case (ClaimReader env header reader app token now)
    show ?thesis using ev s unfolding ClaimReader by (rule backed_claim [OF B1])
  next
    case (ElevateStart env header app label token now)
    show ?thesis using ev s unfolding ElevateStart by (rule backed_elevate_start [OF B1])
  next
    case (SelfStart env raw token now)
    show ?thesis using ev s unfolding SelfStart by (rule backed_self_start [OF B1])
  next
    case (ElevateReturn env token user name picture t1 t2 t3 emps grants)
    show ?thesis using ev s unfolding ElevateReturn by (rule backed_elevate_return [OF B1])
  next
    case (Poll env rid now clk t emps)
    then show ?thesis using that by blast
  next
    case (ElevatePage env token now)
    then show ?thesis using s B1
      by (auto simp: elevate_confirm_page_def split: if_splits option.splits)
  next
    case (WaitForTap env header rid token now deadline)
    show ?thesis by (rule backed_waits [OF B1 s]) (simp add: WaitForTap)
  next
    case (ElevateWait env header rid token now deadline)
    show ?thesis by (rule backed_waits [OF B1 s]) (simp add: ElevateWait)
  next
    case (SelfWait env rid token now deadline)
    show ?thesis by (rule backed_waits [OF B1 s]) (simp add: SelfWait)
  qed (use B1 s in \<open>auto simp: resolve_card_def resolve_badge_def elim!: guardedE\<close>)
  have other_ent: "entitled lib h ev out" if "\<nexists>env rid now clk t emps. ev = Poll env rid now clk t emps"
    by (rule entitled_other) (use only_poll_hands_out [OF s] that in metis)
  have polled: "reader_backed lib h' w' \<and> entitled lib h ev out" if "ev = Poll env rid now clk t emps"
    for env rid now clk t emps
  proof -
    have p: "poll lib env rid now clk t emps w = (w', out)" using s that by simp
    have "reader_backed lib h w' \<and> entitled lib h (Poll env rid now clk t emps) out"
    proof (cases "map_of (rw_parked w) rid")
      case None
      then show ?thesis using p B by (auto simp: poll_def hands_out_def intro: entitled_other)
    next
      case (Some q)
      then have "parked_backed h rid q" using B by (auto simp: reader_backed_def dest: holdsD)
      then show ?thesis using p Some
          backed_poll_tap [OF B] backed_poll_self [OF B] backed_poll_elevate [OF B]
        by (cases q) (auto simp: poll_def parked_backed_def)
    qed
    then show ?thesis using that reader_backed_mono [of lib h w' h'] by (auto simp: h'_def)
  qed
  have "reader_backed lib h' w' \<and> entitled lib h ev out"
  proof (cases "\<nexists>env rid now clk t emps. ev = Poll env rid now clk t emps")
    case True
    then show ?thesis using other other_ent by simp
  next
    case False
    then obtain env rid now clk t emps where "ev = Poll env rid now clk t emps" by auto
    then show ?thesis by (rule polled)
  qed
  then show ?thesis by (simp add: h'_def)
qed

text \<open>Every answer so far was deserved by what came before it.\<close>

definition reader_sound :: "oidc_lib \<Rightarrow> reader_history \<Rightarrow> reader_world \<Rightarrow> bool" where
  "reader_sound lib h w \<longleftrightarrow> reader_backed lib h w
     \<and> (\<forall>h1 ev out h2. h = h1 @ (ev, out) # h2 \<longrightarrow> entitled lib h1 ev out)"

interpretation reader: traced_machine "reader_step lib" "reader_sound lib" for lib
proof unfold_locales
  fix h w ev w' out
  assume s: "reader_sound lib h w" and step: "reader_step lib w ev = (w', out)"
  have new: "reader_backed lib (h @ [(ev, out)]) w' \<and> entitled lib h ev out"
    using s step by (intro backed_step) (auto simp: reader_sound_def)
  moreover have "entitled lib h1 e r" if "h @ [(ev, out)] = h1 @ (e, r) # h2" for h1 e r h2
  proof (cases h2 rule: rev_cases)
    case Nil
    then show ?thesis using that new by simp
  next
    case (snoc h3 x)
    then have "h = h1 @ (e, r) # h3" using that by simp
    then show ?thesis using s by (auto simp: reader_sound_def)
  qed
  ultimately show "reader_sound lib (h @ [(ev, out)]) w'" by (auto simp: reader_sound_def)
qed

lemma new_reader_backed: "reader_backed lib [] new_reader_world"
  by (simp add: reader_backed_def new_reader_world_def empty_stores_def stores_hold_def)

text \<open>
  C21. A card assertion or a self-service session is only ever handed out to a long poll, and only
  on the strength of an earlier event: a card of an active, approved employee shown to the
  paired reader less than thirty seconds before (for an assertion the employee then held the
  application's grant, for a session the employee is still active and approved), or a LINE
  log-in of such an employee completed for an elevation ticket of that application. The
  assertion names that employee and that application, the session that employee.
\<close>

theorem reader_login_deserved:
  assumes "run (reader_step lib) new_reader_world es = (w, h @ (ev, out) # h')"
  shows "entitled lib h ev out"
proof -
  have "reader_sound lib [] new_reader_world" by (simp add: reader_sound_def new_reader_backed)
  then have "reader_sound lib ([] @ h @ (ev, out) # h') w" using assms by (rule reader.hinv_run)
  then show ?thesis by (auto simp: reader_sound_def)
qed

section \<open>Each answer needs a scan or a completion of its own\<close>

definition supplies :: "reader_response \<Rightarrow> bool" where
  "supplies out = (case out of RdScanned n \<Rightarrow> True | RdElevateDone n l \<Rightarrow> True | _ \<Rightarrow> False)"

definition handed_out :: "reader_history \<Rightarrow> nat" where
  "handed_out h = length (filter (\<lambda>(ev, out). hands_out out) h)"

definition supplied :: "reader_history \<Rightarrow> nat" where
  "supplied h = length (filter (\<lambda>(ev, out). supplies out) h)"

definition authorized_tickets :: "reader_stores \<Rightarrow> nat" where
  "authorized_tickets s = length (filter (\<lambda>(k, r). ev_status r = ElevateAuthorized) (elevate_tickets s))"

definition in_store :: "reader_stores \<Rightarrow> nat" where
  "in_store s = length (pending_taps s) + authorized_tickets s"

lemma filter_delete_le: "length (filter P (AList.delete k d)) \<le> length (filter P d)"
  by (induction d) auto

lemma filter_sweep_le: "length (filter P (sweep dead d)) \<le> length (filter P d)"
proof -
  have "length (filter P (fold AList.delete ks d)) \<le> length (filter P d)" for ks
    by (induction ks arbitrary: d) (auto intro: order_trans [OF _ filter_delete_le])
  then show ?thesis by (simp add: sweep_def)
qed

lemma filter_delete_less:
  assumes "map_of d k = Some v" "P (k, v)"
  shows "length (filter P (AList.delete k d)) < length (filter P d)"
  using assms(1)
proof (induction d)
  case Nil
  then show ?case by simp
next
  case (Cons x d)
  show ?case
  proof (cases "fst x = k")
    case True
    then have "x = (k, v)" using Cons.prems by (cases x) simp
    then show ?thesis using assms(2) filter_delete_le [of P k d] by simp
  next
    case False
    then show ?thesis using Cons by (cases x) auto
  qed
qed

lemma filter_update_le: "length (filter P (AList.update k v d)) \<le> Suc (length (filter P d))"
  by (induction d) auto

lemma filter_update_other: "\<not> P (k, v) \<Longrightarrow> length (filter P (AList.update k v d)) \<le> length (filter P d)"
  by (induction d) auto

lemma length_delete_less: "map_of d k = Some v \<Longrightarrow> length (AList.delete k d) < length d"
  using filter_delete_less [of d k v "\<lambda>_. True"] by simp

lemma in_store_prune: "in_store (prune_stores now s) \<le> in_store s"
  by (simp add: in_store_def authorized_tickets_def prune_stores_def add_mono length_sweep_le filter_sweep_le)

lemma in_store_stash: "in_store (stash_pending_tap now reader b n a s) \<le> Suc (in_store s)"
  using in_store_prune [of now s] length_update
  by (fastforce simp: stash_pending_tap_def Let_def in_store_def authorized_tickets_def
      intro: order_trans [OF add_le_mono1 [OF length_update]])

lemma in_store_claim: "in_store (create_claim now token reader app s) \<le> in_store s"
  using in_store_prune [of now s]
  by (simp add: create_claim_def Let_def in_store_def authorized_tickets_def)

lemma in_store_self: "in_store (create_self_login_ticket now token reader s) \<le> in_store s"
  using in_store_prune [of now s]
  by (simp add: create_self_login_ticket_def Let_def in_store_def authorized_tickets_def)

lemma in_store_elevate: "in_store (create_elevate_ticket now token app label s) \<le> in_store s"
proof -
  let ?P = "\<lambda>(k :: str, r). ev_status r = ElevateAuthorized"
  have "in_store (create_elevate_ticket now token app label s) \<le> in_store (prune_stores now s)"
    unfolding create_elevate_ticket_def Let_def in_store_def authorized_tickets_def
    by (simp add: filter_update_other)
  then show ?thesis using in_store_prune order_trans by blast
qed

lemma in_store_consume:
  "consume_pending_tap now reader s = (s', ro) \<Longrightarrow>
     in_store s' + (if ro = None then 0 else 1) \<le> in_store s"
  using length_delete_less [of "pending_taps s" reader] length_delete_le [of reader "pending_taps s"]
  by (auto simp: consume_pending_tap_def in_store_def authorized_tickets_def Suc_le_eq
      split: option.splits if_splits)

lemma in_store_take:
  "take_resolved_elevate_ticket now token s = (s', ro) \<Longrightarrow>
     in_store s' + (case ro of Some r \<Rightarrow> if ev_status r = ElevateAuthorized then 1 else 0 | None \<Rightarrow> 0)
       \<le> in_store s"
  using filter_delete_less [of "elevate_tickets s" token _ "\<lambda>(k, r). ev_status r = ElevateAuthorized"]
    filter_delete_le [of "\<lambda>(k, r). ev_status r = ElevateAuthorized" token "elevate_tickets s"]
  by (auto simp: take_resolved_elevate_ticket_def in_store_def authorized_tickets_def Suc_le_eq
      split: option.splits if_splits)

lemma in_store_resolve:
  "resolve_elevate_ticket now token ok a s = (s', done) \<Longrightarrow>
     in_store s' \<le> in_store s + (if done \<and> ok then 1 else 0)"
  using filter_update_le [of "\<lambda>(k, r). ev_status r = ElevateAuthorized" token _ "elevate_tickets s"]
    filter_update_other [of "\<lambda>(k, r). ev_status r = ElevateAuthorized" token _ "elevate_tickets s"]
  by (auto simp: resolve_elevate_ticket_def in_store_def authorized_tickets_def
      split: option.splits if_splits)

definition balance :: "reader_world \<Rightarrow> reader_response \<Rightarrow> reader_world \<Rightarrow> bool" where
  "balance w out w' \<longleftrightarrow> in_store (rw_stores w') + (if hands_out out then 1 else 0)
     \<le> in_store (rw_stores w) + (if supplies out then 1 else 0)"

lemma balance_same: "in_store (rw_stores w') \<le> in_store (rw_stores w) \<Longrightarrow> \<not> hands_out out \<Longrightarrow> balance w out w'"
  by (simp add: balance_def)

lemma balance_poll_tap:
  assumes s: "poll_tap lib env rid now clk t reader app deadline w = (w', out)"
  shows "balance w out w'"
proof -
  obtain st ro where c: "consume_pending_tap now reader (rw_stores w) = (st, ro)" by fastforce
  note in_store_consume [OF c]
  then show ?thesis using s c mint_assertion_effect
    by (cases ro)
       (auto simp: poll_tap_def no_answer_yet_def balance_def hands_out_def answer_tap_def unpark_def
         split: if_splits prod.splits option.splits dest!: mint_assertion_effect)
qed

lemma balance_poll_self:
  assumes s: "poll_self lib rid now clk t emps reader deadline w = (w', out)"
  shows "balance w out w'"
proof -
  obtain st ro where c: "consume_pending_tap now reader (rw_stores w) = (st, ro)" by fastforce
  note in_store_consume [OF c]
  then show ?thesis using s c
    by (cases ro) (auto simp: poll_self_def no_answer_yet_def balance_def hands_out_def unpark_def
        split: if_splits)
qed

lemma balance_poll_elevate:
  assumes s: "poll_elevate rid now clk token deadline w = (w', out)"
  shows "balance w out w'"
proof -
  obtain st ro where c: "take_resolved_elevate_ticket now token (rw_stores w) = (st, ro)" by fastforce
  note in_store_take [OF c]
  then show ?thesis using s c
    by (cases ro) (auto simp: poll_elevate_def no_answer_yet_def balance_def hands_out_def unpark_def
        split: if_splits)
qed

lemma balance_elevate_return:
  assumes s: "continue_elevate_after_line lib env token user name picture t1 t2 t3 emps grants w = (w', out)"
  shows "balance w out w'"
proof -
  have d: "in_store (fst (resolve_elevate_ticket t token False a v)) \<le> in_store v" for t a v
    by (cases "resolve_elevate_ticket t token False a v") (auto dest: in_store_resolve)
  have r: "in_store st \<le> in_store v + (if ok then 1 else 0)"
    if "resolve_elevate_ticket t token True a v = (st, ok)" for t a v st ok
    using in_store_resolve [OF that] by simp
  show ?thesis using s
    by (auto simp: continue_elevate_after_line_def admit_elevation_def balance_def hands_out_def
        supplies_def d split: if_splits prod.splits option.splits bool.splits
        dest!: mint_assertion_effect dest: r)
qed

lemma balance_step: "reader_step lib w ev = (w', out) \<Longrightarrow> balance w out w'"
proof (cases ev)
  case (Poll env rid now clk t emps)
  assume "reader_step lib w ev = (w', out)"
  then have p: "poll lib env rid now clk t emps w = (w', out)" using Poll by simp
  show ?thesis
  proof (cases "map_of (rw_parked w) rid")
    case None
    then show ?thesis using p by (auto simp: poll_def balance_def hands_out_def)
  next
    case (Some q)
    then show ?thesis using p
      by (cases q) (auto simp: poll_def intro: balance_poll_tap balance_poll_self balance_poll_elevate)
  qed
next
  case (ElevateReturn env token user name picture t1 t2 t3 emps grants)
  assume "reader_step lib w ev = (w', out)"
  then show ?thesis using ElevateReturn by (auto intro: balance_elevate_return)
next
  case (Scan env header uid reader now emps grants)
  assume "reader_step lib w ev = (w', out)"
  then show ?thesis using Scan
    by (auto simp: scan_card_def balance_def hands_out_def supplies_def in_store_stash elim!: guardedE
        split: option.splits if_splits)
qed (auto simp: small_endpoints Let_def balance_def hands_out_def supplies_def in_store_claim in_store_self
    in_store_elevate park_def elim!: guardedE split: option.splits if_splits)

interpretation reader_ledger: traced_machine "reader_step lib"
  "\<lambda>h w. handed_out h + in_store (rw_stores w) \<le> supplied h" for lib
proof unfold_locales
  fix h w ev w' out
  assume "handed_out h + in_store (rw_stores w) \<le> supplied h" "reader_step lib w ev = (w', out)"
  with balance_step [of lib w ev w' out]
  show "handed_out (h @ [(ev, out)]) + in_store (rw_stores w') \<le> supplied (h @ [(ev, out)])"
    by (auto simp: balance_def handed_out_def supplied_def)
qed

text \<open>
  C26. A scan or a completed LINE log-in is spent by one answer: however requests interleave and
  however many terminals poll the same reader, the assertions and sessions handed out are
  never more than the accepted scans and the completed elevations.
\<close>

theorem taps_delivered_once:
  assumes "run (reader_step lib) new_reader_world es = (w, tr)"
  shows "handed_out tr + in_store (rw_stores w) \<le> supplied tr"
proof -
  have "handed_out [] + in_store (rw_stores new_reader_world) \<le> supplied []"
    by (simp add: handed_out_def in_store_def authorized_tickets_def new_reader_world_def empty_stores_def)
  then have "handed_out ([] @ tr) + in_store (rw_stores w) \<le> supplied ([] @ tr)"
    using assms by (rule reader_ledger.hinv_run)
  then show ?thesis by simp
qed

section \<open>A paired terminal gets its tap\<close>

lemma guarded_pass: "ascii k \<Longrightarrow> k \<noteq> [] \<Longrightarrow> guarded (Some k) k f w = f w"
  by (cases k) (simp_all add: guarded_def require_secret_def compare_digest_def)

lemma lookup_after_claim: "now < t + 600 \<Longrightarrow>
    lookup_claim now token (create_claim t token reader app s)
      = Some \<lparr>cl_reader_id = reader, cl_app = app, cl_expires_at = t + 600\<rparr>"
  by (simp add: lookup_claim_def create_claim_def Let_def map_of_update reader_ttls)

lemma consume_after_stash: "now < t + 30 \<Longrightarrow>
    \<exists>st. consume_pending_tap now reader (stash_pending_tap t reader b n a s)
      = (st, Some \<lparr>tap_badge = b, tap_display_name = n, tap_apps = a, tap_expires_at = t + 30\<rparr>)"
  by (simp add: consume_pending_tap_def stash_pending_tap_def Let_def map_of_update reader_ttls)

text \<open>
  Card log-in works: an application that pairs a terminal and starts its long poll within ten
  minutes receives the assertion of the employee who then shows an enrolled card to that
  reader, in the first turn of the poll within thirty seconds, whatever else the stores hold,
  provided both secrets are configured in ASCII, the provider can sign and the employee may
  enter the application.
\<close>

theorem card_login_works:
  assumes secrets: "ascii (resolve_secret env)" "resolve_secret env \<noteq> []"
      "ascii (reader_secret env)" "reader_secret env \<noteq> []"
    and e: "find_employee_by_uid emps uid = Some e" "may_enter e grants app"
    and key: "mint_id_token lib env t (identity_of e grants) None app (rw_oidc w) = (os, Some a)"
    and times: "t2 < t1 + 600" "t4 < t3 + 30"
  shows "\<exists>w'. run (reader_step lib) w
     [ClaimReader env (Some (resolve_secret env)) reader app token t1,
      WaitForTap env (Some (resolve_secret env)) rid token t2 deadline,
      Scan env (Some (reader_secret env)) uid reader t3 emps grants,
      Poll env rid t4 clk t emps']
   = (w', [(ClaimReader env (Some (resolve_secret env)) reader app token t1, RdClaim token),
      (WaitForTap env (Some (resolve_secret env)) rid token t2 deadline, RdParked),
      (Scan env (Some (reader_secret env)) uid reader t3 emps grants, RdScanned (display_name e)),
      (Poll env rid t4 clk t emps', RdAssertion a)])"
proof -
  let ?w1 = "w\<lparr>rw_stores := create_claim t1 token reader app (rw_stores w)\<rparr>"
  let ?w2 = "park rid (ForTap reader app deadline) ?w1"
  let ?w3 = "?w2\<lparr>rw_stores := stash_pending_tap t3 reader (badge_number e) (display_name e)
      (grant_app_ids grants (badge_number e)) (rw_stores ?w2)\<rparr>"
  let ?tap = "\<lparr>tap_badge = badge_number e, tap_display_name = display_name e,
      tap_apps = grant_app_ids grants (badge_number e), tap_expires_at = t3 + 30\<rparr>"
  have s1: "reader_step lib w (ClaimReader env (Some (resolve_secret env)) reader app token t1)
      = (?w1, RdClaim token)"
    using secrets by (simp add: guarded_pass claim_reader_def)
  have s2: "reader_step lib ?w1 (WaitForTap env (Some (resolve_secret env)) rid token t2 deadline)
      = (?w2, RdParked)"
    using secrets times(1) by (simp add: guarded_pass wait_for_tap_def lookup_after_claim)
  have adm: "is_active e" "\<not> pending_approval e" "app \<in> set (grant_app_ids grants (badge_number e))"
    using e(2) by (auto simp: may_enter_def admissible_def)
  have s3: "reader_step lib ?w2 (Scan env (Some (reader_secret env)) uid reader t3 emps grants)
      = (?w3, RdScanned (display_name e))"
    using secrets e(1) adm by (simp add: guarded_pass scan_card_def)
  obtain st where st: "consume_pending_tap t4 reader (rw_stores ?w3) = (st, Some ?tap)"
    using consume_after_stash [OF times(2)] by fastforce
  have parked: "map_of (rw_parked ?w3) rid = Some (ForTap reader app deadline)"
    by (simp add: park_def map_of_update)
  have i: "tap_identity ?tap = identity_of e grants"
    by (simp add: tap_identity_def identity_of_def grant_app_ids_def)
  have os: "rw_oidc (unpark rid (?w3\<lparr>rw_stores := st\<rparr>)) = rw_oidc w"
    by (simp add: unpark_def park_def)
  have "\<exists>w'. reader_step lib ?w3 (Poll env rid t4 clk t emps') = (w', RdAssertion a)"
    using parked st i os key adm(3)
    by (simp add: poll_def poll_tap_def answer_tap_def mint_assertion_def)
  then show ?thesis using s1 s2 s3 by auto
qed

section \<open>A concrete run\<close>

definition reader_demo_lib :: oidc_lib where
  "reader_demo_lib = \<lparr>ol_parse_pem = (\<lambda>p. Some (257, 3, p)), ol_sha256 = (\<lambda>bs. [1, 2, 3]),
     ol_sign = (\<lambda>c pem kid. ic_aud c @ ''.'' @ ic_sub c), ol_basic = (\<lambda>s. None), ol_unquote = (\<lambda>s. s),
     ol_jwt = \<lparr>jwt_encode = (\<lambda>k c. ''jwt''), jwt_decode = (\<lambda>k t s. Inl JwtInvalid)\<rparr>,
     ol_line = \<lparr>channel_id = ''1'', channel_secret = ''s'', callback_url = ''u'', jwt_secret = ''k''\<rparr>\<rparr>"

definition reader_demo_env :: env where
  "reader_demo_env = (\<lambda>n. if n = ''HFID_SIGNING_KEY'' then Some ''k''
     else if n = ''READER_SECRET'' then Some ''r'' else if n = ''READER_RESOLVE_SECRET'' then Some ''q''
     else None)"

definition reader_demo_employee :: employee where
  "reader_demo_employee = \<lparr>badge_number = ''7'', english_name = None, thai_name = None,
     display_name = ''A'', department = None, position = None, is_active = True, is_hidden = False,
     line_user_id = None, line_display_name = None, line_picture_url = None, line_linking_code = None,
     line_linking_code_generated_at = None, emp_role = None, default_shift_id = None,
     emp_location = None, email = None, pending_approval = False, join_source = ''device'',
     nfc_card_uid = Some ''ab''\<rparr>"

definition reader_demo_grants :: "employee_app_grant list" where
  "reader_demo_grants = [\<lparr>eg_badge = ''7'', eg_app_id = ''portal'', eg_granted_by = None\<rparr>]"

lemma reader_demo_facts:
  "resolve_secret reader_demo_env = ''q''" "reader_secret reader_demo_env = ''r''"
  "ascii ''q''" "ascii ''r''"
  "find_employee_by_uid [reader_demo_employee] ''AB'' = Some reader_demo_employee"
  "may_enter reader_demo_employee reader_demo_grants ''portal''"
  by (simp_all add: resolve_secret_def reader_secret_def reader_demo_env_def getenv_def strip_def
      lstrip_def py_space_def ascii_def find_employee_by_uid_def first_def holds_card_def
      reader_demo_employee_def python_upper_char_def upper_def upper_char_def may_enter_def
      admissible_def grant_app_ids_def reader_demo_grants_def char_of_def bit_0)

lemma reader_demo_mint:
  "\<exists>os. mint_id_token reader_demo_lib reader_demo_env 14 (identity_of reader_demo_employee reader_demo_grants)
     None ''portal'' empty_oidc = (os, Some ''portal.7'')"
  by (simp add: mint_id_token_def load_key_material_def raw_signing_key_def reader_demo_env_def getenv_def
      strip_def lstrip_def py_space_def Let_def empty_oidc_def material_of_def
      reader_demo_lib_def claims_for_def identity_of_def reader_demo_employee_def)

definition reader_demo_events :: "reader_event list" where
  "reader_demo_events =
     [ClaimReader reader_demo_env (Some ''q'') ''desk'' ''portal'' ''t'' 0,
      WaitForTap reader_demo_env (Some ''q'') 1 ''t'' 5 30,
      Scan reader_demo_env (Some ''r'') ''AB'' ''desk'' 10 [reader_demo_employee] reader_demo_grants,
      Poll reader_demo_env 1 12 7 14 []]"

definition reader_demo_trace :: reader_history where
  "reader_demo_trace = zip reader_demo_events
     [RdClaim ''t'', RdParked, RdScanned (display_name reader_demo_employee), RdAssertion ''portal.7'']"

lemma reader_demo_run:
  "\<exists>w. run (reader_step reader_demo_lib) new_reader_world reader_demo_events = (w, reader_demo_trace)"
proof -
  obtain os where m: "mint_id_token reader_demo_lib reader_demo_env 14
      (identity_of reader_demo_employee reader_demo_grants) None ''portal'' (rw_oidc new_reader_world)
      = (os, Some ''portal.7'')"
    using reader_demo_mint by (auto simp: new_reader_world_def)
  have run_demo: "reader_step reader_demo_lib new_reader_world
      (ClaimReader reader_demo_env (Some ''q'') ''desk'' ''portal'' ''t'' 0)
    = (new_reader_world\<lparr>rw_stores := create_claim 0 ''t'' ''desk'' ''portal'' empty_stores\<rparr>, RdClaim ''t'')"
    by (simp add: reader_demo_facts guarded_pass claim_reader_def new_reader_world_def)
  let ?w1 = "new_reader_world\<lparr>rw_stores := create_claim 0 ''t'' ''desk'' ''portal'' empty_stores\<rparr>"
  let ?w2 = "park 1 (ForTap ''desk'' ''portal'' 30) ?w1"
  have s2: "reader_step reader_demo_lib ?w1 (WaitForTap reader_demo_env (Some ''q'') 1 ''t'' 5 30)
      = (?w2, RdParked)"
    by (simp add: reader_demo_facts guarded_pass wait_for_tap_def lookup_after_claim)
  let ?w3 = "?w2\<lparr>rw_stores := stash_pending_tap 10 ''desk'' (badge_number reader_demo_employee)
      (display_name reader_demo_employee)
      (grant_app_ids reader_demo_grants (badge_number reader_demo_employee)) (rw_stores ?w2)\<rparr>"
  have adm: "is_active reader_demo_employee" "\<not> pending_approval reader_demo_employee"
      "''portal'' \<in> set (grant_app_ids reader_demo_grants (badge_number reader_demo_employee))"
    using reader_demo_facts(6) by (auto simp: may_enter_def admissible_def)
  have s3: "reader_step reader_demo_lib ?w2
      (Scan reader_demo_env (Some ''r'') ''AB'' ''desk'' 10 [reader_demo_employee] reader_demo_grants)
      = (?w3, RdScanned (display_name reader_demo_employee))"
    using adm by (simp add: reader_demo_facts guarded_pass scan_card_def)
  let ?tap = "\<lparr>tap_badge = badge_number reader_demo_employee,
      tap_display_name = display_name reader_demo_employee,
      tap_apps = grant_app_ids reader_demo_grants (badge_number reader_demo_employee), tap_expires_at = 10 + 30\<rparr>"
  have "\<exists>st. consume_pending_tap 12 ''desk'' (rw_stores ?w3) = (st, Some ?tap)"
    using consume_after_stash [of 12 10] by simp
  then obtain st where st: "consume_pending_tap 12 ''desk'' (rw_stores ?w3) = (st, Some ?tap)" by blast
  have i: "tap_identity ?tap = identity_of reader_demo_employee reader_demo_grants"
    by (simp add: tap_identity_def identity_of_def grant_app_ids_def)
  have parked: "map_of (rw_parked ?w3) 1 = Some (ForTap ''desk'' ''portal'' 30)"
    by (simp add: park_def map_of_update)
  have os: "rw_oidc (unpark 1 (?w3\<lparr>rw_stores := st\<rparr>)) = rw_oidc new_reader_world"
    by (simp add: unpark_def park_def)
  have "\<exists>w. reader_step reader_demo_lib ?w3 (Poll reader_demo_env 1 12 7 14 []) = (w, RdAssertion ''portal.7'')"
    using parked st i os m adm(3)
    by (simp add: poll_def poll_tap_def answer_tap_def mint_assertion_def)
  then show ?thesis using run_demo s2 s3 by (auto simp: reader_demo_events_def reader_demo_trace_def)
qed

theorem reader_login_deserved_witness:
  "entitled reader_demo_lib (take 3 reader_demo_trace) (Poll reader_demo_env 1 12 7 14 [])
     (RdAssertion ''portal.7'')"
proof -
  obtain w where w: "run (reader_step reader_demo_lib) new_reader_world reader_demo_events
      = (w, reader_demo_trace)"
    using reader_demo_run by blast
  have split: "reader_demo_trace
      = take 3 reader_demo_trace @ (Poll reader_demo_env 1 12 7 14 [], RdAssertion ''portal.7'') # []"
    by (simp add: reader_demo_trace_def reader_demo_events_def)
  show ?thesis using w by (subst (asm) split) (rule reader_login_deserved)
qed

theorem taps_delivered_once_witness:
  "handed_out reader_demo_trace = 1 \<and> supplied reader_demo_trace = 1
     \<and> handed_out reader_demo_trace \<le> supplied reader_demo_trace"
proof -
  obtain w where w: "run (reader_step reader_demo_lib) new_reader_world reader_demo_events
      = (w, reader_demo_trace)"
    using reader_demo_run by blast
  show ?thesis using taps_delivered_once [OF w]
    by (simp add: reader_demo_trace_def reader_demo_events_def handed_out_def supplied_def hands_out_def
        supplies_def)
qed

theorem card_login_works_witness:
  "\<exists>w' tr. run (reader_step reader_demo_lib) new_reader_world reader_demo_events = (w', tr)
     \<and> snd (last tr) = RdAssertion ''portal.7''"
proof -
  obtain os where m: "mint_id_token reader_demo_lib reader_demo_env 14
      (identity_of reader_demo_employee reader_demo_grants) None ''portal'' (rw_oidc new_reader_world)
      = (os, Some ''portal.7'')"
    using reader_demo_mint by (auto simp: new_reader_world_def)
  have "(5 :: real) < 0 + 600" "(12 :: real) < 10 + 30" by simp_all
  then show ?thesis
    using card_login_works [of reader_demo_env "[reader_demo_employee]" "''AB''" reader_demo_employee
        reader_demo_grants "''portal''" reader_demo_lib 14 new_reader_world os "''portal.7''" 5 0 12 10
        "''desk''" "''t''" 1 30 7 "[]"] m
    by (fastforce simp: reader_demo_facts reader_demo_events_def)
qed

end
