(* ===== verification/Onboarding.thy ===== *)
theory Onboarding
  imports EmployeeRegistry ReaderLogin
begin

text \<open>
  Self-service onboarding: \<open>app/services/badge_service.py\<close>, \<open>app/api/public_onboarding.py\<close> and
  \<open>app/api/admin_onboarding.py\<close>, over the registry of \<open>EmployeeRegistry\<close>. The decoded session
  token and the clock are arguments; the Slack notice and the LINE menu that follow a commit
  are left out.
\<close>

section \<open>Q-badges\<close>

definition Q_BADGE_START :: int where "Q_BADGE_START = 1001"

text \<open>\<open>LIKE 'Q%'\<close> ignores the case of ASCII letters in SQLite.\<close>

definition like_q :: "str \<Rightarrow> bool" where
  "like_q b = (case b of [] \<Rightarrow> False | c # r \<Rightarrow> lower_char c = CHR ''q'')"

definition q_suffixes :: "employee list \<Rightarrow> str list" where
  "q_suffixes emps = filter py_isdigit (map (drop 1) (filter like_q (map badge_number emps)))"

text \<open>None: \<open>int\<close> refuses a superscript that \<open>isdigit\<close> lets through.\<close>

definition generate_next_q_badge :: "employee list \<Rightarrow> str option" where
  "generate_next_q_badge emps =
     (if \<exists>d \<in> set (q_suffixes emps). \<not> list_all is_digit d then None
      else Some (CHR ''Q'' # show_int (fold (\<lambda>d n. max n (digits_value d)) (q_suffixes emps) (Q_BADGE_START - 1) + 1)))"

text \<open>
  The attempts of \<open>create_self_onboarded_employee\<close>: \<open>rivals\<close> are the rows other sessions commit
  between the reading and the commit of an attempt.
\<close>

datatype onboard_result = NewBadge str | NoBadge | BadgeCrash

definition after_rivals :: "employee list \<Rightarrow> employee list \<Rightarrow> employee list" where
  "after_rivals rivals emps =
     (if employees_ok (emps @ rivals) \<and> list_all row_typed rivals then emps @ rivals else emps)"

fun onboard_attempts ::
  "employee list list \<Rightarrow> (str \<Rightarrow> employee) \<Rightarrow> employee list \<Rightarrow> employee list \<times> onboard_result" where
  "onboard_attempts [] row emps = (emps, NoBadge)"
| "onboard_attempts (rivals # rest) row emps =
     (case generate_next_q_badge emps of
        None \<Rightarrow> (emps, BadgeCrash)
      | Some b \<Rightarrow>
          (case add_employee (row b) (after_rivals rivals emps) of
             Some emps' \<Rightarrow> (emps', NewBadge b)
           | None \<Rightarrow> onboard_attempts rest row (after_rivals rivals emps)))"

definition MAX_ATTEMPTS :: nat where "MAX_ATTEMPTS = 5"

definition create_self_onboarded_employee ::
  "employee list list \<Rightarrow> (str \<Rightarrow> employee) \<Rightarrow> employee list \<Rightarrow> employee list \<times> onboard_result" where
  "create_self_onboarded_employee rivals row emps =
     onboard_attempts (take MAX_ATTEMPTS (rivals @ replicate MAX_ATTEMPTS [])) row emps"

section \<open>Submissions\<close>

definition SUBMIT_ATTEMPT_WINDOW_SECONDS :: real where "SUBMIT_ATTEMPT_WINDOW_SECONDS = 60"
definition SUBMIT_ATTEMPT_MAX_PER_WINDOW :: nat where "SUBMIT_ATTEMPT_MAX_PER_WINDOW = 5"
definition SUBMIT_ATTEMPT_RETENTION_SECONDS :: real where "SUBMIT_ATTEMPT_RETENTION_SECONDS = 300"

lemmas submit_limits = SUBMIT_ATTEMPT_WINDOW_SECONDS_def SUBMIT_ATTEMPT_MAX_PER_WINDOW_def
  SUBMIT_ATTEMPT_RETENTION_SECONDS_def

type_synonym submit_guard = "(str, real list) dict"

definition enforce_submit_rate_limit :: "real \<Rightarrow> str \<Rightarrow> submit_guard \<Rightarrow> submit_guard \<times> int option" where
  "enforce_submit_rate_limit now key g =
     (let ts = filter (\<lambda>t. t > now - SUBMIT_ATTEMPT_RETENTION_SECONDS)
                 (case map_of g key of None \<Rightarrow> [] | Some xs \<Rightarrow> xs);
          w = filter (\<lambda>t. t > now - SUBMIT_ATTEMPT_WINDOW_SECONDS) ts
      in if SUBMIT_ATTEMPT_MAX_PER_WINDOW \<le> length w
         then (AList.update key ts g,
               Some (max 1 (\<lfloor>SUBMIT_ATTEMPT_WINDOW_SECONDS - (now - hd w)\<rfloor> + 1)))
         else (AList.update key (ts @ [now]) g, None))"

record onboarding =
  on_registry :: registry
  on_guard :: submit_guard

record submission =
  sb_thai_name :: str
  sb_english_name :: "str option"
  sb_nickname :: str
  sb_location :: str
  sb_department :: "str option"
  sb_position :: "str option"

datatype onboard_status = StatusNone | StatusPending str | StatusApproved str | StatusRejected

datatype onboard_answer =
    OnInvalid | OnUnauthorized | OnRateLimited int | OnBadRequest | OnConflict | OnServerError
  | OnNotFound | OnSubmitted str | OnStatus onboard_status | OnApproved str
  | OnRejected bool | OnRegistry registry_answer

definition submitted_row :: "session_claims \<Rightarrow> submission \<Rightarrow> str \<Rightarrow> employee" where
  "submitted_row p b badge =
     \<lparr>badge_number = badge,
      english_name = none_if_blank (Some (strip (or_else (sb_english_name b) []))),
      thai_name = Some (strip (sb_thai_name b)), display_name = strip (sb_nickname b),
      department = none_if_blank (Some (strip (or_else (sb_department b) []))),
      position = none_if_blank (Some (strip (or_else (sb_position b) []))),
      is_active = False, is_hidden = False, line_user_id = sc_line_user_id p,
      line_display_name = sc_display_name p, line_picture_url = sc_picture_url p,
      line_linking_code = None, line_linking_code_generated_at = None, emp_role = None,
      default_shift_id = None, emp_location = Some (strip (sb_location b)), email = None,
      pending_approval = True, join_source = ''self_onboard'', nfc_card_uid = None\<rparr>"

definition valid_body :: "submission \<Rightarrow> bool" where
  "valid_body b = (1 \<le> length (sb_thai_name b) \<and> length (sb_thai_name b) \<le> 100
     \<and> 1 \<le> length (sb_nickname b) \<and> length (sb_nickname b) \<le> 100)"

definition submit_onboarding ::
  "real \<Rightarrow> str \<Rightarrow> jwt_failure + session_claims \<Rightarrow> submission \<Rightarrow> employee list list \<Rightarrow> onboarding
   \<Rightarrow> onboarding \<times> onboard_answer" where
  "submit_onboarding now ip token b rivals s =
     (if \<not> valid_body b then (s, OnInvalid)
      else case token of
        Inl e \<Rightarrow> (s, OnUnauthorized)
      | Inr p \<Rightarrow>
          if \<not> truthy (sc_line_user_id p) then (s, OnUnauthorized)
          else (case enforce_submit_rate_limit now (ip @ '':'' @ or_else (sc_line_user_id p) []) (on_guard s) of
              (g, Some n) \<Rightarrow> (s\<lparr>on_guard := g\<rparr>, OnRateLimited n)
            | (g, None) \<Rightarrow>
                let s1 = s\<lparr>on_guard := g\<rparr>; emps = rg_employees (on_registry s) in
                if strip (sb_location b) \<notin> set ALLOWED_LOCATIONS \<or> strip (sb_thai_name b) = []
                   \<or> strip (sb_nickname b) = [] then (s1, OnBadRequest)
                else if first (\<lambda>e. line_user_id e = sc_line_user_id p) emps \<noteq> None then (s1, OnConflict)
                else (case create_self_onboarded_employee rivals (submitted_row p b) emps of
                    (emps', NewBadge badge) \<Rightarrow>
                      (s1\<lparr>on_registry := (on_registry s)\<lparr>rg_employees := emps'\<rparr>\<rparr>, OnSubmitted badge)
                  | (emps', _) \<Rightarrow>
                      (s1\<lparr>on_registry := (on_registry s)\<lparr>rg_employees := emps'\<rparr>\<rparr>, OnServerError))))"

definition status_of_employee :: "employee option \<Rightarrow> onboard_status" where
  "status_of_employee r = (case r of
     None \<Rightarrow> StatusNone
   | Some e \<Rightarrow>
       if pending_approval e then StatusPending (badge_number e)
       else if is_active e then StatusApproved (badge_number e)
       else if join_source e = ''self_onboard'' then StatusRejected else StatusNone)"

definition get_onboarding_status ::
  "str option \<Rightarrow> (str \<Rightarrow> jwt_failure + session_claims) \<Rightarrow> onboarding \<Rightarrow> onboarding \<times> onboard_answer" where
  "get_onboarding_status authorization decode s =
     (case bearer_token authorization of
        None \<Rightarrow> (s, OnUnauthorized)
      | Some tok \<Rightarrow>
          (case decode tok of
             Inl e \<Rightarrow> (s, OnUnauthorized)
           | Inr p \<Rightarrow>
               if \<not> truthy (sc_line_user_id p) then (s, OnUnauthorized)
               else (s, OnStatus (status_of_employee
                      (first (\<lambda>e. line_user_id e = sc_line_user_id p) (rg_employees (on_registry s)))))))"

section \<open>Decisions\<close>

text \<open>\<open>_require_pending_employee\<close>.\<close>

definition require_pending_employee :: "str \<Rightarrow> registry \<Rightarrow> onboard_answer + employee" where
  "require_pending_employee badge r =
     (case find_badge badge (rg_employees r) of
        None \<Rightarrow> Inl OnNotFound
      | Some e \<Rightarrow> if \<not> pending_approval e then Inl OnBadRequest else Inr e)"

definition approved_row :: "employee \<Rightarrow> employee" where
  "approved_row e = e\<lparr>is_active := True, pending_approval := False,
     email := (if \<not> truthy (email e) then Some (lower (badge_number e) @ ''@emp.thehfhotel.org'')
               else email e)\<rparr>"

definition approve_onboarding :: "str \<Rightarrow> str \<Rightarrow> onboarding \<Rightarrow> onboarding \<times> onboard_answer" where
  "approve_onboarding identity badge s =
     (let r = on_registry s in
      case require_pending_employee badge r of
        Inl a \<Rightarrow> (s, a)
      | Inr e \<Rightarrow>
          (case save_employee (approved_row e) (rg_employees r) of
             None \<Rightarrow> (s, OnServerError)
           | Some emps \<Rightarrow>
               let new = map (\<lambda>a. grant (badge_number e) a (admin_actor_label identity))
                     (filter (\<lambda>a. a \<notin> set (app_ids (badge_number e) (rg_grants r))) DEFAULT_GRANTED_APP_IDS)
               in (s\<lparr>on_registry := r\<lparr>rg_employees := emps, rg_grants := rg_grants r @ new\<rparr>\<rparr>,
                   OnApproved (badge_number e))))"

text \<open>
  \<open>reject_onboarding\<close>: with attendance the row stays, switched off; without, it is deleted, and
  with it the assignments and schedules \<open>Employee\<close> cascades to. Rows of other tables stay.
\<close>

definition reject_onboarding :: "str \<Rightarrow> onboarding \<Rightarrow> onboarding \<times> onboard_answer" where
  "reject_onboarding badge s =
     (let r = on_registry s in
      case require_pending_employee badge r of
        Inl a \<Rightarrow> (s, a)
      | Inr e \<Rightarrow>
          if first (\<lambda>x. ar_badge x = badge_number e) (rg_attendance r) \<noteq> None
          then (case save_employee (e\<lparr>is_active := False, pending_approval := False\<rparr>) (rg_employees r) of
              None \<Rightarrow> (s, OnServerError)
            | Some emps \<Rightarrow> (s\<lparr>on_registry := r\<lparr>rg_employees := emps\<rparr>\<rparr>, OnRejected False))
          else (s\<lparr>on_registry := r
                 \<lparr>rg_employees := delete_where (same_badge e) (rg_employees r),
                  rg_rosters := (rg_rosters r)
                    \<lparr>assignments := delete_where (\<lambda>x. sa_badge x = badge_number e) (assignments (rg_rosters r)),
                     schedules := delete_where (\<lambda>x. es_badge x = badge_number e) (schedules (rg_rosters r))\<rparr>\<rparr>\<rparr>,
                OnRejected True))"

definition list_pending_onboardings :: "onboarding \<Rightarrow> employee list" where
  "list_pending_onboardings s = filter pending_approval (rg_employees (on_registry s))"

section \<open>The registry as a machine\<close>

datatype registry_event =
    UpdateNickname str str "str option" "str option"
  | UpdateStatus str "bool option"
  | UpdateHidden str "bool option"
  | UpdateShift str "str option" "str option" "str option"
  | CreateEmployee str str "str option" "str option" "str option" "str option" bool bool
  | UpdateEmployee str str "str option" "str option" "str option" "str option" "bool option" "bool option"
  | DeleteEmployee str
  | UpdateThaiName str "str option" "str option"
  | UpsertSchedule date str "date option" "str option" "int list option" "str option" "str option" "str option"
  | DeleteSchedule date str "date option"
  | UpdateGrants str str "str list"
  | SetCard str "str option"
  | MergeEmployees str str
  | SubmitOnboarding real str "jwt_failure + session_claims" submission "employee list list"
  | ApproveOnboarding str str
  | RejectOnboarding str

definition in_registry ::
  "(registry \<Rightarrow> registry \<times> registry_answer) \<Rightarrow> onboarding \<Rightarrow> onboarding \<times> onboard_answer" where
  "in_registry f s = (case f (on_registry s) of (r, a) \<Rightarrow> (s\<lparr>on_registry := r\<rparr>, OnRegistry a))"

fun registry_step :: "onboarding \<Rightarrow> registry_event \<Rightarrow> onboarding \<times> onboard_answer" where
  "registry_step s (UpdateNickname label b n d) = in_registry (update_employee_nickname label b n d) s"
| "registry_step s (UpdateStatus b a) = in_registry (update_employee_status b a) s"
| "registry_step s (UpdateHidden b h) = in_registry (update_employee_hidden_status b h) s"
| "registry_step s (UpdateShift b r c l) = in_registry (update_employee_shift_assignment b r c l) s"
| "registry_step s (CreateEmployee label b en th dp ps act hid) =
     in_registry (create_employee label b en th dp ps act hid) s"
| "registry_step s (UpdateEmployee label b en th dp ps act hid) =
     in_registry (update_employee label b en th dp ps act hid) s"
| "registry_step s (DeleteEmployee b) = in_registry (delete_employee b) s"
| "registry_step s (UpdateThaiName b t d) = in_registry (update_thai_name b t d) s"
| "registry_step s (UpsertSchedule today b day r ds st en l) =
     in_registry (upsert_employee_schedule today b day r ds st en l) s"
| "registry_step s (DeleteSchedule today b day) = in_registry (delete_employee_schedule today b day) s"
| "registry_step s (UpdateGrants who b apps) = in_registry (update_employee_grants who b apps) s"
| "registry_step s (SetCard b uid) = in_registry (set_employee_nfc_card b uid) s"
| "registry_step s (MergeEmployees f t) = in_registry (merge_employees f t) s"
| "registry_step s (SubmitOnboarding now ip tok b rivals) = submit_onboarding now ip tok b rivals s"
| "registry_step s (ApproveOnboarding who b) = approve_onboarding who b s"
| "registry_step s (RejectOnboarding b) = reject_onboarding b s"

end
