(* ===== verification/RegistryFacts.thy ===== *)
theory RegistryFacts
  imports Onboarding
begin

text \<open>
  What the registry guarantees: the tables stay well typed under every operation, a merge
  gathers the history of two badges, and schedules decide the shift of a day.
\<close>

section \<open>Commits\<close>

lemma save_employee_Some:
  "save_employee e emps = Some emps' \<longleftrightarrow> emps' = update_where (same_badge e) (\<lambda>_. e) emps \<and> employees_ok emps'"
  by (auto simp: save_employee_def Let_def split: if_splits)

lemma add_employee_Some:
  "add_employee e emps = Some emps' \<longleftrightarrow> emps' = emps @ [e] \<and> employees_ok emps'"
  by (auto simp: add_employee_def split: if_splits)

lemma find_badge_Some: "find_badge b emps = Some e \<Longrightarrow> e \<in> set emps \<and> badge_number e = b"
  unfolding find_badge_def by (rule first_Some)

definition schedule_typed :: "employee_schedule \<Rightarrow> bool" where
  "schedule_typed v \<longleftrightarrow> allowed ALLOWED_ROLES (es_role v)
     \<and> (\<exists>ds. work_days_to_list (work_days v) = Some ds \<and> sorted ds \<and> distinct ds \<and> set ds \<subseteq> {0..6})
     \<and> (work_start v = None \<longleftrightarrow> work_end v = None)
     \<and> (\<forall>t \<in> set_option (work_start v) \<union> set_option (work_end v). valid_tod t)
     \<and> (es_role v = Some ''reception'' \<longrightarrow> work_days v = None \<and> work_start v = None \<and> work_end v = None)"

definition registry_typed :: "registry \<Rightarrow> bool" where
  "registry_typed s \<longleftrightarrow> registry_ok s \<and> (\<forall>e \<in> set (rg_employees s). row_typed e)
     \<and> (\<forall>g \<in> set (rg_grants s). eg_app_id g \<in> set APP_CATALOG)
     \<and> (\<forall>v \<in> set (schedules (rg_rosters s)). schedule_typed v)"

lemma typed_row: "registry_typed s \<Longrightarrow> find_badge b (rg_employees s) = Some e \<Longrightarrow> row_typed e"
  using find_badge_Some by (auto simp: registry_typed_def)

lemma typed_employees:
  assumes "registry_typed s" "employees_ok emps" "\<forall>e \<in> set emps. row_typed e"
  shows "registry_typed (s\<lparr>rg_employees := emps\<rparr>)"
  using assms by (simp add: registry_typed_def registry_ok_def)

lemma typed_save:
  assumes "registry_typed s" "row_typed e" "save_employee e (rg_employees s) = Some emps"
  shows "employees_ok emps" "\<forall>x \<in> set emps. row_typed x"
  using assms by (auto simp: save_employee_Some registry_typed_def)

lemma typed_add:
  assumes "registry_typed s" "row_typed e" "add_employee e (rg_employees s) = Some emps"
  shows "employees_ok emps" "\<forall>x \<in> set emps. row_typed x"
  using assms by (auto simp: add_employee_Some registry_typed_def)

lemma commit_save_typed:
  assumes "registry_typed s" "row_typed e"
  shows "registry_typed (fst (commit_row (save_employee e (rg_employees s)) ans s))"
proof (cases "save_employee e (rg_employees s)")
  case None
  then show ?thesis using assms by (simp add: commit_row_def)
next
  case (Some emps)
  show ?thesis using typed_employees [OF assms(1) typed_save [OF assms Some]] Some
    by (simp add: commit_row_def)
qed

lemma commit_add_typed:
  assumes "registry_typed s" "row_typed e"
  shows "registry_typed (fst (commit_row (add_employee e (rg_employees s)) ans s))"
proof (cases "add_employee e (rg_employees s)")
  case None
  then show ?thesis using assms by (simp add: commit_row_def)
next
  case (Some emps)
  show ?thesis using typed_employees [OF assms(1) typed_add [OF assms Some]] Some
    by (simp add: commit_row_def)
qed

lemma new_row_typed: "row_typed (new_row b n a h)"
  by (simp add: row_typed_def new_row_def allowed_def JOIN_SOURCES_def)

lemma row_typed_updates [simp]:
  "row_typed (e\<lparr>display_name := x\<rparr>) = row_typed e" "row_typed (e\<lparr>is_active := a\<rparr>) = row_typed e"
  "row_typed (e\<lparr>is_hidden := a\<rparr>) = row_typed e" "row_typed (e\<lparr>thai_name := y\<rparr>) = row_typed e"
  "row_typed (e\<lparr>english_name := y\<rparr>) = row_typed e" "row_typed (e\<lparr>department := y\<rparr>) = row_typed e"
  "row_typed (e\<lparr>position := y\<rparr>) = row_typed e" "row_typed (e\<lparr>nfc_card_uid := y\<rparr>) = row_typed e"
  "row_typed (e\<lparr>email := y\<rparr>) = row_typed e" "row_typed (e\<lparr>pending_approval := a\<rparr>) = row_typed e"
  "row_typed (e\<lparr>badge_number := x\<rparr>) = row_typed e" "row_typed (e\<lparr>default_shift_id := i\<rparr>) = row_typed e"
  by (simp_all add: row_typed_def)

lemma row_typed_role: "row_typed e \<Longrightarrow> allowed ALLOWED_ROLES r \<Longrightarrow> row_typed (e\<lparr>emp_role := r\<rparr>)"
  by (simp add: row_typed_def)

lemma row_typed_location: "row_typed e \<Longrightarrow> allowed ALLOWED_LOCATIONS l \<Longrightarrow> row_typed (e\<lparr>emp_location := l\<rparr>)"
  by (simp add: row_typed_def)

section \<open>Clock times and work days\<close>

lemma digit_nonneg: "is_digit c \<Longrightarrow> (0::int) \<le> of_char c - 48"
proof -
  assume "is_digit c"
  then have "48 \<le> int (of_char c :: nat)" unfolding is_digit_def by linarith
  moreover have "int (of_char c :: nat) = of_char c" by (rule of_nat_of_char)
  ultimately show ?thesis by linarith
qed

lemma digits_value_nonneg: "0 \<le> digits_value x"
proof -
  have "0 \<le> foldl (\<lambda>v c. 10 * v + (of_char c - 48)) w ds" if "0 \<le> w" "\<forall>c \<in> set ds. is_digit c" for w :: int and ds
    using that
  proof (induction ds arbitrary: w)
    case Nil
    then show ?case by simp
  next
    case (Cons c ds)
    have "0 \<le> 10 * w + (of_char c - 48)" using Cons.prems digit_nonneg [of c] by simp
    then show ?case using Cons by simp
  qed
  then show ?thesis by (simp add: digits_value_def)
qed

lemma length_show_nat: "n < 100 \<Longrightarrow> length (show_nat n) \<le> 2"
  by (subst show_nat.simps, subst show_nat.simps) auto

lemma no_colon: "\<forall>c \<in> set s. is_digit c \<Longrightarrow> CHR '':'' \<notin> set s"
  by (auto simp: is_digit_def)

lemma two_digits_facts:
  assumes "0 \<le> n" "n < 100"
  shows "two_digits n \<noteq> []" "length (two_digits n) \<le> 2" "\<forall>c \<in> set (two_digits n). is_digit c"
    "digits_value (two_digits n) = n"
proof -
  have d: "\<forall>c \<in> set (show_nat (nat n)). is_digit c" by (rule show_nat_digits)
  have f: "filter is_digit (show_nat (nat n)) = show_nat (nat n)" using d by (simp add: filter_id_conv)
  have v: "digits_value (CHR ''0'' # show_nat (nat n)) = digits_value (show_nat (nat n))"
    by (simp add: digits_value_def is_digit_def)
  have one: "length (show_nat (nat n)) = 1" if "n < 10"
    using that by (subst show_nat.simps) auto
  show "two_digits n \<noteq> []" "length (two_digits n) \<le> 2" "\<forall>c \<in> set (two_digits n). is_digit c"
    "digits_value (two_digits n) = n"
    using assms d v one length_show_nat [of "nat n"] digits_value_show_nat [of "nat n"]
    by (auto simp: two_digits_def show_int_def is_digit_def)
qed

lemma partition_clock:
  "CHR '':'' \<notin> set h \<Longrightarrow> partition_at (CHR '':'') (h @ CHR '':'' # m) = (h, True, m)"
  by (rule partition_at_found)

lemma clock_field_two: "0 \<le> n \<Longrightarrow> n < bound \<Longrightarrow> bound \<le> 100 \<Longrightarrow> clock_field bound (two_digits n)"
  using two_digits_facts [of n] by (auto simp: clock_field_def list_all_iff)

text \<open>A whole minute of the day survives being shown and read back.\<close>

lemma clock_roundtrip:
  assumes "valid_tod t" "minute_us dvd t"
  shows "parse_clock_time (format_clock_time t) = Some t"
proof -
  have h: "0 \<le> tod_hour t" "tod_hour t < 24" using tod_hour_range [OF assms(1)] by auto
  have m: "0 \<le> tod_minute t" "tod_minute t < 60" using tod_minute_range by auto
  have p: "partition_at (CHR '':'') (format_clock_time t)
      = (two_digits (tod_hour t), True, two_digits (tod_minute t))"
    unfolding format_clock_time_def
    by (rule partition_at_found) (use two_digits_facts(3) [of "tod_hour t"] h in \<open>intro no_colon, simp\<close>)
  have "tod_hour t * hour_us + tod_minute t * minute_us = t"
  proof -
    obtain k where k: "t = minute_us * k" using assms(2) by (rule dvdE)
    then have "tod_hour t = k div 60" "tod_minute t = k mod 60"
      by (auto simp: tod_hour_def tod_minute_def hour_us_def minute_us_def)
    moreover have "60 * (k div 60) + k mod 60 = k" by simp
    ultimately show ?thesis using k unfolding hour_us_def minute_us_def by linarith
  qed
  then show ?thesis
    using p h m clock_field_two [of "tod_hour t" 24] clock_field_two [of "tod_minute t" 60]
      two_digits_facts(4) [of "tod_hour t"] two_digits_facts(4) [of "tod_minute t"]
    by (simp add: parse_clock_time_def)
qed

lemma parse_clock_valid: "parse_clock_time s = Some t \<Longrightarrow> valid_tod t"
proof -
  assume a: "parse_clock_time s = Some t"
  obtain h found m where p: "partition_at (CHR '':'') s = (h, found, m)" by (metis prod_cases3)
  have "t = digits_value h * hour_us + digits_value m * minute_us" "digits_value h < 24" "digits_value m < 60"
    using a p by (auto simp: parse_clock_time_def clock_field_def split: if_splits)
  then show "valid_tod t" using digits_value_nonneg [of h] digits_value_nonneg [of m] by (simp add: valid_tod_def time_units)
qed

lemma day_text: "0 \<le> d \<Longrightarrow> d \<le> 6 \<Longrightarrow> show_int d \<noteq> [] \<and> CHR '','' \<notin> set (show_int d) \<and> strip (show_int d) = show_int d"
proof -
  assume d: "0 \<le> d" "d \<le> 6"
  have "c \<in> set (show_int d) \<Longrightarrow> is_digit c" for c
    using show_nat_digits [of "nat d"] d by (auto simp: show_int_def)
  then have "CHR '','' \<notin> set (show_int d)" "\<forall>c \<in> set (show_int d). \<not> py_space c"
    using digit_not_space by (force simp: is_digit_def)+
  then show ?thesis using d by (simp add: show_int_def strip_no_space)
qed

text \<open>What is stored is read back as the sorted set of days, by this endpoint and by the shift service.\<close>

lemma ints_of_parts_show:
  "\<forall>d \<in> set ds. 0 \<le> d \<and> d \<le> 6 \<Longrightarrow> ints_of_parts (map show_int ds) = Some ds
    \<and> parse_ints (map show_int ds) = Some ds"
  using day_text by (induction ds) (auto simp: py_int_show_int)

lemma work_days_roundtrip:
  assumes "work_days_to_storage days = Some w"
  shows "work_days_to_list w = Some (sort (remdups (case days of None \<Rightarrow> [] | Some ds \<Rightarrow> ds)))
    \<and> parse_work_days w = Inr (sort (remdups (case days of None \<Rightarrow> [] | Some ds \<Rightarrow> ds)))"
proof (cases "days = None \<or> days = Some []")
  case True
  then show ?thesis using assms
    by (auto simp: work_days_to_storage_def work_days_to_list_def parse_work_days_def)
next
  case False
  then obtain ds where ds: "days = Some ds" "ds \<noteq> []" by auto
  then have r: "\<forall>d \<in> set ds. 0 \<le> d \<and> d \<le> 6" and w: "w = Some (join_on (CHR '','') (map show_int (sort (remdups ds))))"
    using assms by (auto simp: work_days_to_storage_def not_less split: if_splits)
  let ?l = "map show_int (sort (remdups ds))"
  have ne: "?l \<noteq> []" using ds(2) by (metis Nil_is_map_conv length_0_conv length_sort remdups_eq_nil_iff)
  have c: "\<forall>p \<in> set ?l. CHR '','' \<notin> set p" using r day_text by auto
  have split: "split_on (CHR '','') (join_on (CHR '','') ?l) = ?l" by (rule split_on_join [OF ne c])
  have nonempty: "join_on (CHR '','') ?l \<noteq> []"
  proof
    assume "join_on (CHR '','') ?l = []"
    then have "?l = [[]]" using split by simp
    then show False using r day_text by (cases "sort (remdups ds)") (auto, metis list.set_intros(1) set_remdups set_sort)
  qed
  have o: "or_else w [] = join_on (CHR '','') ?l" "truthy w"
    using w nonempty by (auto simp: or_else_def)
  have "\<forall>d \<in> set (sort (remdups ds)). 0 \<le> d \<and> d \<le> 6" using r by simp
  from ints_of_parts_show [OF this] show ?thesis
    using o split ds(1) by (simp add: work_days_to_list_def parse_work_days_def)
qed

section \<open>Every operation keeps the tables well typed\<close>

lemma allowed_blank: "allowed vs None"
  by (simp add: allowed_def)

lemma status_typed: "registry_typed s \<Longrightarrow> registry_typed (fst (update_employee_status b a s))"
  using typed_row [of s b]
  by (auto simp: update_employee_status_def intro!: commit_add_typed commit_save_typed new_row_typed
      split: option.splits)

lemma hidden_typed: "registry_typed s \<Longrightarrow> registry_typed (fst (update_employee_hidden_status b a s))"
  using typed_row [of s b]
  by (auto simp: update_employee_hidden_status_def intro!: commit_add_typed commit_save_typed new_row_typed
      split: option.splits)

lemma nickname_typed: "registry_typed s \<Longrightarrow> registry_typed (fst (update_employee_nickname l b n d s))"
  using typed_row [of s b]
  by (auto simp: update_employee_nickname_def Let_def intro!: commit_add_typed commit_save_typed new_row_typed
      split: option.splits)

lemma shift_typed:
  assumes "registry_typed s"
  shows "registry_typed (fst (update_employee_shift_assignment b r c l s))"
proof (cases "find_badge b (rg_employees s)")
  case None
  then show ?thesis using assms by (simp add: update_employee_shift_assignment_def)
next
  case (Some e)
  have "row_typed (e\<lparr>emp_role := r', default_shift_id := i, emp_location := l'\<rparr>)"
    if "allowed ALLOWED_ROLES r'" "allowed ALLOWED_LOCATIONS l'" for r' i l'
    using typed_row [OF assms Some] that by (simp add: row_typed_def)
  then show ?thesis using assms Some
    by (simp add: update_employee_shift_assignment_def Let_def commit_save_typed)
qed

lemma create_typed: "registry_typed s \<Longrightarrow> registry_typed (fst (create_employee lb b en th dp ps act hid s))"
  by (simp add: create_employee_def Let_def commit_add_typed row_typed_def new_row_def allowed_def JOIN_SOURCES_def)

lemma update_typed: "registry_typed s \<Longrightarrow> registry_typed (fst (update_employee lb b en th dp ps act hid s))"
  using typed_row [of s b]
  by (auto simp: update_employee_def Let_def intro!: commit_save_typed split: option.splits)

lemma delete_typed: "registry_typed s \<Longrightarrow> registry_typed (fst (delete_employee b s))"
  using typed_row [of s b]
  by (auto simp: delete_employee_def intro!: commit_save_typed split: option.splits)

lemma thai_typed: "registry_typed s \<Longrightarrow> registry_typed (fst (update_thai_name b t d s))"
  using typed_row [of s b]
  by (auto simp: update_thai_name_def Let_def intro!: commit_save_typed split: option.splits)

lemma card_typed:
  assumes "registry_typed s"
  shows "registry_typed (fst (set_employee_nfc_card b u s))"
proof (cases "find_badge b (rg_employees s)")
  case None
  then show ?thesis using assms by (simp add: set_employee_nfc_card_def)
next
  case (Some e)
  let ?uid = "none_if_blank (Some (strip (or_else u [])))"
  have e: "row_typed (e\<lparr>nfc_card_uid := ?uid\<rparr>)" using typed_row [OF assms Some] by simp
  show ?thesis
  proof (cases "save_employee (e\<lparr>nfc_card_uid := ?uid\<rparr>) (rg_employees s)")
    case None
    then show ?thesis using assms Some by (simp add: set_employee_nfc_card_def Let_def)
  next
    case (Some emps)
    show ?thesis using typed_employees [OF assms typed_save [OF assms e Some]] Some \<open>find_badge b (rg_employees s) = Some e\<close> assms
      by (simp add: set_employee_nfc_card_def Let_def)
  qed
qed

lemma grants_typed:
  assumes "registry_typed s"
  shows "registry_typed (fst (update_employee_grants who b apps s))"
proof (cases "find_badge b (rg_employees s) = None \<or> (\<exists>a \<in> set apps. a \<notin> set APP_CATALOG)")
  case True
  then show ?thesis using assms by (auto simp: update_employee_grants_def)
next
  case False
  let ?left = "delete_where (\<lambda>g. eg_badge g = b \<and> eg_app_id g \<notin> set apps) (rg_grants s)"
  let ?new = "map (\<lambda>a. grant b a (admin_actor_label who))
      (filter (\<lambda>a. a \<notin> set (app_ids b (rg_grants s))) (remdups apps))"
  have d: "distinct (map eg_key (rg_grants s))" using assms by (simp add: registry_typed_def registry_ok_def)
  have keys: "map eg_key ?new = map (Pair b) (filter (\<lambda>a. a \<notin> set (app_ids b (rg_grants s))) (remdups apps))"
    by (simp add: eg_key_def grant_def)
  have dn: "distinct (map eg_key ?new)" unfolding keys by (simp add: distinct_map inj_on_def)
  have disj: "set (map eg_key ?new) \<inter> set (map eg_key ?left) = {}"
    unfolding keys by (auto simp: app_ids_def eg_key_def)
  have "distinct (map eg_key (?left @ ?new))"
    using distinct_delete_where [OF d] dn disj by (simp only: map_append distinct_append) blast
  moreover have "\<forall>g \<in> set (?left @ ?new). eg_app_id g \<in> set APP_CATALOG"
    using assms False by (auto simp: registry_typed_def grant_def)
  ultimately show ?thesis using assms False
    by (simp add: update_employee_grants_def Let_def registry_typed_def registry_ok_def)
qed

lemma schedule_row_typed:
  assumes "schedule_row b day r ds st en = Some v"
  shows "schedule_typed v \<and> es_badge v = b"
proof -
  obtain d wd x y where *: "day = Some d" "work_days_to_storage ds = Some wd" "clock_arg st = Some x"
      "clock_arg en = Some y"
    using assms by (auto simp: schedule_row_def Let_def split: option.splits)
  have xy: "x = None \<longleftrightarrow> \<not> truthy st" "y = None \<longleftrightarrow> \<not> truthy en"
    using *(3,4) by (cases x; cases y; auto simp: clock_arg_def split: if_splits)+
  have valid: "\<forall>t \<in> set_option x \<union> set_option y. valid_tod t"
    using *(3,4) parse_clock_valid by (auto simp: clock_arg_def split: if_splits)
  let ?l = "sort (remdups (case ds of None \<Rightarrow> [] | Some ds \<Rightarrow> ds))"
  have "set ?l \<subseteq> {0..6}" using *(2)
    by (auto simp: work_days_to_storage_def not_less split: option.splits if_splits)
  then have "\<exists>l. work_days_to_list wd = Some l \<and> sorted l \<and> distinct l \<and> set l \<subseteq> {0..6}"
    using work_days_roundtrip [OF *(2)] by (intro exI [of _ ?l]) simp
  moreover have "work_days_to_list None = Some []" by (simp add: work_days_to_list_def)
  ultimately show ?thesis using assms * xy valid
    by (auto simp: schedule_row_def schedule_typed_def Let_def split: if_splits)
qed

lemma save_schedule_typed:
  assumes "distinct (map es_key (schedules db))" "\<forall>x \<in> set (schedules db). schedule_typed x" "schedule_typed v"
  shows "distinct (map es_key (schedules (save_schedule v db)))"
    "\<forall>x \<in> set (schedules (save_schedule v db)). schedule_typed x"
    "assignments (save_schedule v db) = assignments db"
proof -
  have k: "map es_key (update_where (\<lambda>x. es_key x = es_key v) (\<lambda>_. v) (schedules db)) = map es_key (schedules db)"
    by (rule keys_update_where) simp
  show "distinct (map es_key (schedules (save_schedule v db)))"
    using assms(1) k by (auto simp: save_schedule_def first_None)
  show "\<forall>x \<in> set (schedules (save_schedule v db)). schedule_typed x"
    using assms(2,3) by (auto simp: save_schedule_def)
  show "assignments (save_schedule v db) = assignments db" by (simp add: save_schedule_def)
qed

lemma recompute_typed:
  assumes "row_typed e" "\<forall>x \<in> set (schedules db). schedule_typed x"
  shows "row_typed (recompute_current_role today db e)"
proof -
  have "allowed ALLOWED_ROLES (es_role v)" if "schedule_as_of db b today = Some v" for v b
    using newest_Some [OF that [unfolded schedule_as_of_def]] assms(2) by (auto simp: schedule_typed_def)
  then show ?thesis using assms(1)
    by (auto simp: recompute_current_role_def allowed_blank intro!: row_typed_role split: option.splits)
qed

lemma save_with_rosters_typed:
  assumes "registry_typed s" "row_typed e" "distinct (map es_key (schedules db))"
    "\<forall>x \<in> set (schedules db). schedule_typed x" "assignments db = assignments (rg_rosters s)"
  shows "registry_typed (fst (save_with_rosters e db ans s))"
proof (cases "save_employee e (rg_employees s)")
  case None
  then show ?thesis using assms(1) by (simp add: save_with_rosters_def)
next
  case (Some emps)
  show ?thesis using assms typed_save [OF assms(1,2) Some] Some
    by (simp add: save_with_rosters_def registry_typed_def registry_ok_def)
qed

lemma upsert_typed:
  assumes "registry_typed s"
  shows "registry_typed (fst (upsert_employee_schedule today b day r ds st en l s))"
proof (cases "find_badge b (rg_employees s)")
  case None
  then show ?thesis using assms by (simp add: upsert_employee_schedule_def)
next
  case (Some e)
  show ?thesis
  proof (cases "schedule_row b day r ds st en")
    case None
    then show ?thesis using assms Some by (simp add: upsert_employee_schedule_def)
  next
    case (Some v)
    have sch: "distinct (map es_key (schedules (rg_rosters s)))" "\<forall>x \<in> set (schedules (rg_rosters s)). schedule_typed x"
      using assms by (auto simp: registry_typed_def registry_ok_def)
    note st = save_schedule_typed [OF sch, of v] schedule_row_typed [OF Some]
    have e: "row_typed (recompute_current_role today (save_schedule v (rg_rosters s)) e)"
      using recompute_typed [OF typed_row [OF assms \<open>find_badge b (rg_employees s) = Some e\<close>]] st by blast
    show ?thesis
      using assms Some \<open>find_badge b (rg_employees s) = Some e\<close> st e
      by (simp add: upsert_employee_schedule_def Let_def save_with_rosters_typed row_typed_location)
  qed
qed

lemma delete_schedule_typed:
  assumes "registry_typed s"
  shows "registry_typed (fst (delete_employee_schedule today b day s))"
proof (cases "find_badge b (rg_employees s)")
  case None
  then show ?thesis using assms by (simp add: delete_employee_schedule_def)
next
  case (Some e)
  have sch: "distinct (map es_key (schedules (rg_rosters s)))" "\<forall>x \<in> set (schedules (rg_rosters s)). schedule_typed x"
    using assms by (auto simp: registry_typed_def registry_ok_def)
  have "registry_typed (fst (save_with_rosters (recompute_current_role today db e) db RgDone s))"
    if "db = (rg_rosters s)\<lparr>schedules := delete_where p (schedules (rg_rosters s))\<rparr>" for db p
    using that sch by (intro save_with_rosters_typed [OF assms] recompute_typed typed_row [OF assms Some])
      (auto simp: distinct_delete_where)
  then show ?thesis using assms Some
    by (auto simp: delete_employee_schedule_def Let_def split: option.splits)
qed

section \<open>Merging\<close>

lemma move_all_Some:
  "move_all ours move ok rows = Some (rows', c) \<Longrightarrow> rows' = update_where ours move rows \<and> ok rows'"
  by (auto simp: move_all_def Let_def split: if_splits)

lemma move_or_drop_distinct:
  assumes d: "distinct (map key rows)" and key: "\<And>r. key r = (b r, k r)"
    and moved: "\<And>r. key (move r) = (to, k r)"
    and "\<And>r. ours r \<longleftrightarrow> b r = old"
    and col: "\<And>r. collides r \<longleftrightarrow> (\<exists>x \<in> set rows. key x = (to, k r))"
  shows "distinct (map key (fst (move_or_drop ours collides move rows)))"
proof -
  let ?rows = "delete_where (\<lambda>r. ours r \<and> collides r) rows"
  let ?f = "\<lambda>r. if ours r then (to, k r) else key r"
  have "map key (update_where ours move ?rows) = map ?f ?rows"
    by (auto simp: update_where_def moved)
  moreover have "distinct ?rows" using d by (auto simp: delete_where_def distinct_map)
  moreover have "inj_on ?f (set ?rows)"
  proof (rule inj_onI)
    fix x y assume xy: "x \<in> set ?rows" "y \<in> set ?rows" "?f x = ?f y"
    have inj: "x = y" if "key x = key y" using that d xy(1,2) by (auto simp: distinct_map inj_on_def)
    show "x = y" using xy assms(4) key col inj by (auto split: if_splits)
  qed
  ultimately show ?thesis by (simp add: move_or_drop_def distinct_map)
qed

lemma copied_typed: "row_typed f \<Longrightarrow> row_typed t \<Longrightarrow> row_typed (copied_fields f t)"
  by (auto simp: row_typed_def copied_fields_def copy_text_def)

lemma schedule_to_typed: "schedule_typed v \<Longrightarrow> schedule_typed (schedule_to b v)"
  by (simp add: schedule_typed_def schedule_to_def)

lemma first_ex: "first p rows \<noteq> None \<longleftrightarrow> (\<exists>x \<in> set rows. p x)"
  by (auto simp: first_None)

lemma absorbed_keys:
  assumes ok: "registry_ok s" and ab: "absorb_employee from_b to_b f t s = Some (s', summary)"
  shows "registry_ok s'"
proof -
  have l: "distinct (map el_key (fst (move_or_drop (\<lambda>r. el_badge r = from_b)
      (\<lambda>r. first (\<lambda>x. el_key x = (to_b, el_date r)) (rg_leaves s) \<noteq> None) (leave_to to_b) (rg_leaves s))))"
  proof (rule move_or_drop_distinct [where b = el_badge and k = el_date and to = to_b and old = from_b])
    show "(first (\<lambda>x. el_key x = (to_b, el_date r)) (rg_leaves s) \<noteq> None)
        = (\<exists>x \<in> set (rg_leaves s). el_key x = (to_b, el_date r))" for r by (rule first_ex)
  qed (use ok in \<open>auto simp: registry_ok_def el_key_def leave_to_def\<close>)
  have g: "distinct (map eg_key (fst (move_or_drop (\<lambda>r. eg_badge r = from_b)
      (\<lambda>r. first (\<lambda>x. eg_key x = (to_b, eg_app_id r)) (rg_grants s) \<noteq> None) (grant_to to_b) (rg_grants s))))"
  proof (rule move_or_drop_distinct [where b = eg_badge and k = eg_app_id and to = to_b and old = from_b])
    show "(first (\<lambda>x. eg_key x = (to_b, eg_app_id r)) (rg_grants s) \<noteq> None)
        = (\<exists>x \<in> set (rg_grants s). eg_key x = (to_b, eg_app_id r))" for r by (rule first_ex)
  qed (use ok in \<open>auto simp: registry_ok_def eg_key_def grant_to_def\<close>)
  show ?thesis using ab ok l g
    by (auto simp: absorb_employee_def Let_def registry_ok_def move_then_cascade_def distinct_delete_where
        dest!: move_all_Some split: option.splits if_splits)
qed

lemma absorb_typed:
  assumes s: "registry_typed s" and f: "row_typed f" and t: "row_typed t"
    and ab: "absorb_employee from_b to_b f t s = Some (s', summary)"
  shows "registry_typed s'"
proof -
  have "registry_ok s'" using s ab by (auto simp: registry_typed_def intro: absorbed_keys)
  then show ?thesis using ab s copied_typed [OF f t]
    by (auto simp: registry_typed_def absorb_employee_def Let_def move_then_cascade_def move_or_drop_def
        grant_to_def dest!: move_all_Some split: option.splits if_splits)
qed

lemma rename_typed:
  assumes s: "registry_typed s" and ren: "rename_employee from_b to_b f s = Some (s', summary)"
  shows "registry_typed s'"
  using ren s schedule_to_typed
  by (auto simp: registry_typed_def registry_ok_def rename_employee_def Let_def grant_to_def
      dest!: move_all_Some split: option.splits if_splits)

lemma merge_cases:
  assumes "merge_employees raw_from raw_to s = (s', out)"
  obtains "s' = s" "\<forall>c m. out \<noteq> RgMerged c m"
    | f summary where "find_badge (strip raw_from) (rg_employees s) = Some f"
        "find_badge (strip raw_to) (rg_employees s) = None"
        "rename_employee (strip raw_from) (strip raw_to) f s = Some (s', summary)" "out = RgMerged True summary"
    | f t summary where "find_badge (strip raw_from) (rg_employees s) = Some f"
        "find_badge (strip raw_to) (rg_employees s) = Some t" "strip raw_from \<noteq> strip raw_to"
        "absorb_employee (strip raw_from) (strip raw_to) f t s = Some (s', summary)"
        "out = RgMerged False summary"
proof (cases "strip raw_from = [] \<or> strip raw_to = [] \<or> strip raw_from = strip raw_to
    \<or> find_badge (strip raw_from) (rg_employees s) = None")
  case True
  then show ?thesis using assms that(1) by (auto simp: merge_employees_def Let_def split: if_splits)
next
  case False
  then obtain f where f: "find_badge (strip raw_from) (rg_employees s) = Some f" by auto
  show ?thesis
  proof (cases "find_badge (strip raw_to) (rg_employees s)")
    case None
    then show ?thesis using assms False f that(1,2)
      by (cases "rename_employee (strip raw_from) (strip raw_to) f s")
         (auto simp: merge_employees_def Let_def)
  next
    case (Some t)
    then show ?thesis using assms False f that(1,3)
      by (cases "absorb_employee (strip raw_from) (strip raw_to) f t s")
         (auto simp: merge_employees_def Let_def split: if_splits)
  qed
qed

lemma merge_typed:
  assumes "registry_typed s"
  shows "registry_typed (fst (merge_employees a b s))"
proof -
  obtain s' out where m: "merge_employees a b s = (s', out)" by fastforce
  then have "registry_typed s'"
  proof (cases rule: merge_cases)
    case 1
    then show ?thesis using assms by simp
  next
    case (2 f summary)
    then show ?thesis using rename_typed [OF assms] by blast
  next
    case (3 f t summary)
    then show ?thesis using absorb_typed [OF assms typed_row [OF assms] typed_row [OF assms]] by blast
  qed
  then show ?thesis using m by simp
qed

section \<open>Onboarding steps\<close>

definition rows_ok :: "employee list \<Rightarrow> bool" where
  "rows_ok emps \<longleftrightarrow> employees_ok emps \<and> (\<forall>e \<in> set emps. row_typed e)"

lemma rows_ok_typed: "registry_typed s \<Longrightarrow> rows_ok emps \<Longrightarrow> registry_typed (s\<lparr>rg_employees := emps\<rparr>)"
  by (simp add: rows_ok_def typed_employees)

lemma typed_rows: "registry_typed s \<Longrightarrow> rows_ok (rg_employees s)"
  by (simp add: registry_typed_def registry_ok_def rows_ok_def)

lemma after_rivals_ok: "rows_ok emps \<Longrightarrow> rows_ok (after_rivals rivals emps)"
  by (auto simp: rows_ok_def after_rivals_def list_all_iff)

lemma attempts_ok:
  "rows_ok emps \<Longrightarrow> (\<And>b. row_typed (row b)) \<Longrightarrow> rows_ok (fst (onboard_attempts rivals row emps))"
proof (induction rivals arbitrary: emps)
  case Nil
  then show ?case by simp
next
  case (Cons r rivals)
  then show ?case using after_rivals_ok [OF Cons.prems(1), of r]
    by (auto simp: add_employee_Some rows_ok_def split: option.splits)
qed

lemma submit_typed:
  assumes t: "registry_typed (on_registry s)"
  shows "registry_typed (on_registry (fst (submit_onboarding now ip tok b rivals s)))"
proof (cases "strip (sb_location b) \<in> set ALLOWED_LOCATIONS")
  case True
  then have row: "row_typed (submitted_row p b x)" for p x
    by (simp add: row_typed_def submitted_row_def allowed_def JOIN_SOURCES_def)
  have "rows_ok (fst (create_self_onboarded_employee rivals (submitted_row p b) (rg_employees (on_registry s))))" for p
    unfolding create_self_onboarded_employee_def by (rule attempts_ok [OF typed_rows [OF t] row])
  then have "registry_typed ((on_registry s)\<lparr>rg_employees := emps\<rparr>)"
    if "create_self_onboarded_employee rivals (submitted_row p b) (rg_employees (on_registry s)) = (emps, r)"
    for p emps r
    using that rows_ok_typed [OF t] by (metis fst_conv)
  then show ?thesis using t
    by (auto simp: submit_onboarding_def Let_def split: sum.splits prod.splits option.splits onboard_result.splits)
next
  case False
  then show ?thesis using t
    by (auto simp: submit_onboarding_def Let_def split: sum.splits prod.splits option.splits)
qed

lemma new_grants_distinct:
  assumes "distinct (map eg_key gs)" "distinct apps"
  shows "distinct (map eg_key (gs @ map (\<lambda>a. grant b a who) (filter (\<lambda>a. a \<notin> set (app_ids b gs)) apps)))"
proof -
  have keys: "map eg_key (map (\<lambda>a. grant b a who) xs) = map (Pair b) xs" for xs
    by (simp add: eg_key_def grant_def)
  have "set (map (Pair b) (filter (\<lambda>a. a \<notin> set (app_ids b gs)) apps)) \<inter> set (map eg_key gs) = {}"
    by (auto simp: app_ids_def eg_key_def)
  then show ?thesis using assms by (simp only: map_append keys distinct_append) (auto simp: distinct_map inj_on_def)
qed

lemma default_grants: "distinct DEFAULT_GRANTED_APP_IDS" "set DEFAULT_GRANTED_APP_IDS \<subseteq> set APP_CATALOG"
  by (simp_all add: DEFAULT_GRANTED_APP_IDS_def APP_CATALOG_def)

lemma require_pending_Inr: "require_pending_employee b r = Inr e \<longleftrightarrow>
    find_badge b (rg_employees r) = Some e \<and> pending_approval e"
  by (auto simp: require_pending_employee_def split: option.splits if_splits)

lemma approve_typed:
  assumes t: "registry_typed (on_registry s)"
  shows "registry_typed (on_registry (fst (approve_onboarding who b s)))"
proof (cases "require_pending_employee b (on_registry s)")
  case (Inl a)
  then show ?thesis using t by (simp add: approve_onboarding_def Let_def)
next
  case (Inr e)
  show ?thesis
  proof (cases "save_employee (approved_row e) (rg_employees (on_registry s))")
    case None
    then show ?thesis using t Inr by (simp add: approve_onboarding_def Let_def)
  next
    case (Some emps)
    have e: "row_typed (approved_row e)"
      using typed_row [OF t] Inr by (auto simp: require_pending_Inr approved_row_def)
    have "distinct (map eg_key (rg_grants (on_registry s)))" using t by (simp add: registry_typed_def registry_ok_def)
    note new_grants_distinct [OF this default_grants(1)]
    moreover have "\<forall>a \<in> set DEFAULT_GRANTED_APP_IDS. a \<in> set APP_CATALOG" using default_grants(2) by blast
    ultimately show ?thesis using t Inr Some typed_save [OF t e Some]
      by (auto simp: approve_onboarding_def Let_def registry_typed_def registry_ok_def grant_def)
  qed
qed

lemma unique_opt_filter: "unique_opt f rows \<Longrightarrow> unique_opt f (filter p rows)"
proof -
  assume "unique_opt f rows"
  then have "distinct (map f (filter p (filter (\<lambda>r. f r \<noteq> None) rows)))"
    unfolding unique_opt_def by (rule distinct_map_filter)
  then show ?thesis by (simp add: unique_opt_def filter_filter conj_commute)
qed

lemma delete_where_ok: "employees_ok emps \<Longrightarrow> employees_ok (delete_where p emps)"
  by (simp add: employees_ok_def delete_where_def unique_opt_filter distinct_map_filter)

lemma reject_typed:
  assumes t: "registry_typed (on_registry s)"
  shows "registry_typed (on_registry (fst (reject_onboarding b s)))"
proof (cases "require_pending_employee b (on_registry s)")
  case (Inl a)
  then show ?thesis using t by (simp add: reject_onboarding_def Let_def)
next
  case (Inr e)
  have e: "row_typed (e\<lparr>is_active := False, pending_approval := False\<rparr>)"
    using typed_row [OF t] Inr by (auto simp: require_pending_Inr)
  have kept: "registry_typed ((on_registry s)\<lparr>rg_employees := emps\<rparr>)"
    if "save_employee (e\<lparr>is_active := False, pending_approval := False\<rparr>) (rg_employees (on_registry s)) = Some emps"
    for emps
    using typed_employees [OF t typed_save [OF t e that]] .
  have gone: "registry_typed ((on_registry s)
       \<lparr>rg_employees := delete_where p (rg_employees (on_registry s)),
        rg_rosters := (rg_rosters (on_registry s))\<lparr>assignments := delete_where q (assignments (rg_rosters (on_registry s))),
          schedules := delete_where r (schedules (rg_rosters (on_registry s)))\<rparr>\<rparr>)" for p q r
    using t by (auto simp: registry_typed_def registry_ok_def delete_where_ok distinct_delete_where)
  show ?thesis using Inr t kept gone
    by (auto simp: reject_onboarding_def Let_def split: option.splits)
qed

lemmas registry_ops_typed = nickname_typed status_typed hidden_typed shift_typed create_typed update_typed
  delete_typed thai_typed upsert_typed delete_schedule_typed grants_typed card_typed merge_typed

lemma in_registry_typed:
  "registry_typed (fst (f (on_registry s))) \<Longrightarrow> registry_typed (on_registry (fst (in_registry f s)))"
  by (cases "f (on_registry s)") (simp add: in_registry_def)

interpretation registry_machine: machine registry_step "\<lambda>s :: onboarding. registry_typed (on_registry s)"
proof unfold_locales
  fix s :: onboarding and e
  assume "registry_typed (on_registry s)"
  then show "registry_typed (on_registry (fst (registry_step s e)))"
    by (cases e) (simp_all add: in_registry_typed registry_ops_typed submit_typed approve_typed reject_typed)
qed

text \<open>
  C11. The registry stays well typed: whatever sequence of administrative changes, merges,
  submissions and decisions is made, badges, LINE accounts, codes, e-mail addresses and cards
  stay unique, roles, branches and join sources stay in their lists, grants name known
  applications, no employee has two rows for one day or one start date, and every stored
  schedule can be read back (days sorted and between Monday and Sunday, both times or none, none
  for reception).
\<close>

theorem registry_stays_typed:
  assumes "registry_typed (on_registry s)" and "run registry_step s es = (s', tr)"
  shows "registry_typed (on_registry s')"
  using assms by (rule registry_machine.inv_run)

section \<open>What a merge does\<close>

lemma survivors:
  assumes ours: "\<And>r. ours r \<longleftrightarrow> b r = old" and moved: "\<And>r. b (move r) = to" "\<And>r. k (move r) = k r"
    and "old \<noteq> to" and col: "\<And>r. collides r \<longleftrightarrow> (\<exists>x \<in> set rows. b x = to \<and> k x = k r)"
  shows "k ` {r \<in> set (fst (move_or_drop ours collides move rows)). b r = to}
      = k ` {r \<in> set rows. b r = to \<or> b r = old}"
    and "\<forall>r \<in> set rows. b r = to \<longrightarrow> r \<in> set (fst (move_or_drop ours collides move rows))"
    and "\<forall>r \<in> set (fst (move_or_drop ours collides move rows)). b r \<noteq> old"
    and "{r \<in> set (fst (move_or_drop ours collides move rows)). b r \<noteq> to \<and> b r \<noteq> old}
      = {r \<in> set rows. b r \<noteq> to \<and> b r \<noteq> old}"
proof -
  let ?m = "set (fst (move_or_drop ours collides move rows))"
  have m: "?m = {if b r = old then move r else r |r. r \<in> set rows \<and> \<not> (b r = old \<and> collides r)}"
    unfolding move_or_drop_def by (auto simp: ours)
  show "\<forall>r \<in> set rows. b r = to \<longrightarrow> r \<in> ?m" using m assms(4) by fastforce
  show "\<forall>r \<in> ?m. b r \<noteq> old" using m assms(4) moved(1) by (auto split: if_splits)
  show "{r \<in> ?m. b r \<noteq> to \<and> b r \<noteq> old} = {r \<in> set rows. b r \<noteq> to \<and> b r \<noteq> old}"
    using m moved(1) by (auto split: if_splits)
  show "k ` {r \<in> ?m. b r = to} = k ` {r \<in> set rows. b r = to \<or> b r = old}"
  proof (intro equalityI subsetI)
    fix x assume "x \<in> k ` {r \<in> ?m. b r = to}"
    then show "x \<in> k ` {r \<in> set rows. b r = to \<or> b r = old}" using m moved(2) by (auto split: if_splits)
  next
    fix x assume "x \<in> k ` {r \<in> set rows. b r = to \<or> b r = old}"
    then obtain r where r: "r \<in> set rows" "b r = to \<or> b r = old" "x = k r" by auto
    show "x \<in> k ` {r \<in> ?m. b r = to}"
    proof (cases "b r = to")
      case True
      then have "r \<in> ?m" using r m assms(4) by fastforce
      then show ?thesis using True r(3) by auto
    next
      case old: False
      show ?thesis
      proof (cases "collides r")
        case True
        then obtain y where y: "y \<in> set rows" "b y = to" "k y = k r" using col by auto
        then have "y \<in> ?m" using m assms(4) by fastforce
        then show ?thesis using y(2,3) r(3) by (metis (mono_tags, lifting) imageI mem_Collect_eq)
      next
        case False
        then have "move r \<in> ?m" using r old m by fastforce
        then show ?thesis using moved r(3) by (metis (mono_tags, lifting) imageI mem_Collect_eq)
      qed
    qed
  qed
qed

definition leave_dates :: "str \<Rightarrow> registry \<Rightarrow> date set" where
  "leave_dates b s = el_date ` {l \<in> set (rg_leaves s). el_badge l = b}"

definition granted :: "str \<Rightarrow> registry \<Rightarrow> str set" where
  "granted b s = eg_app_id ` {g \<in> set (rg_grants s). eg_badge g = b}"

text \<open>
  C15. Merging one employee into another: every punch of either badge is under the survivor and no
  punch is lost or changed otherwise, the survivor's leave days and grants are those of both,
  his own leaves win, and nothing of these tables refers to the old badge any more. His roster
  is only the one he had: every per-day assignment and every schedule of the old badge is gone,
  although the answer counts them as moved. Leave requests and the days they hold keep the old
  badge.
\<close>

theorem merge_gathers_history:
  assumes m: "merge_employees raw_from raw_to s = (s', RgMerged False summary)"
  shows "rg_attendance s' = map (\<lambda>r. if ar_badge r = strip raw_from then r\<lparr>ar_badge := strip raw_to\<rparr> else r) (rg_attendance s)
    \<and> leave_dates (strip raw_to) s' = leave_dates (strip raw_to) s \<union> leave_dates (strip raw_from) s
    \<and> (\<forall>l \<in> set (rg_leaves s). el_badge l = strip raw_to \<longrightarrow> l \<in> set (rg_leaves s'))
    \<and> granted (strip raw_to) s' = granted (strip raw_to) s \<union> granted (strip raw_from) s
    \<and> leave_dates (strip raw_from) s' = {} \<and> granted (strip raw_from) s' = {}
    \<and> assignments (rg_rosters s') = filter (\<lambda>a. sa_badge a \<noteq> strip raw_from) (assignments (rg_rosters s))
    \<and> schedules (rg_rosters s') = filter (\<lambda>v. es_badge v \<noteq> strip raw_from) (schedules (rg_rosters s))
    \<and> rg_requests s' = rg_requests s \<and> rg_request_days s' = rg_request_days s"
  using m
proof (cases rule: merge_cases)
  case (3 f t summary')
  let ?a = "strip raw_from" let ?b = "strip raw_to"
  let ?leave = "move_or_drop (\<lambda>r. el_badge r = ?a)
      (\<lambda>r. first (\<lambda>x. el_key x = (?b, el_date r)) (rg_leaves s) \<noteq> None) (leave_to ?b) (rg_leaves s)"
  let ?grant = "move_or_drop (\<lambda>r. eg_badge r = ?a)
      (\<lambda>r. first (\<lambda>x. eg_key x = (?b, eg_app_id r)) (rg_grants s) \<noteq> None) (grant_to ?b) (rg_grants s)"
  have eff: "rg_leaves s' = fst ?leave" "rg_grants s' = fst ?grant"
      "rg_attendance s' = update_where (\<lambda>r. ar_badge r = ?a) (attendance_to ?b) (rg_attendance s)"
      "assignments (rg_rosters s') = delete_where (\<lambda>r. sa_badge r = ?a) (assignments (rg_rosters s))"
      "schedules (rg_rosters s') = delete_where (\<lambda>r. es_badge r = ?a) (schedules (rg_rosters s))"
      "rg_requests s' = rg_requests s" "rg_request_days s' = rg_request_days s"
    using 3(4) by (auto simp: absorb_employee_def Let_def move_then_cascade_def dest!: move_all_Some
        split: option.splits if_splits)
  have cl: "(first (\<lambda>x. el_key x = (?b, el_date r)) (rg_leaves s) \<noteq> None)
      = (\<exists>x \<in> set (rg_leaves s). el_badge x = ?b \<and> el_date x = el_date r)" for r
    unfolding first_ex by (simp add: el_key_def)
  have cg: "(first (\<lambda>x. eg_key x = (?b, eg_app_id r)) (rg_grants s) \<noteq> None)
      = (\<exists>x \<in> set (rg_grants s). eg_badge x = ?b \<and> eg_app_id x = eg_app_id r)" for r
    unfolding first_ex by (simp add: eg_key_def)
  have l: "el_badge (leave_to ?b r) = ?b" "el_date (leave_to ?b r) = el_date r" for r
    by (simp_all add: leave_to_def)
  have g: "eg_badge (grant_to ?b r) = ?b" "eg_app_id (grant_to ?b r) = eg_app_id r" for r
    by (simp_all add: grant_to_def)
  note L = survivors [where b = el_badge and old = ?a and to = ?b and k = el_date and move = "leave_to ?b"
      and rows = "rg_leaves s", OF refl l 3(3) cl]
  note G = survivors [where b = eg_badge and old = ?a and to = ?b and k = eg_app_id and move = "grant_to ?b"
      and rows = "rg_grants s", OF refl g 3(3) cg]
  have "leave_dates ?b s' = leave_dates ?b s \<union> leave_dates ?a s"
    unfolding leave_dates_def eff(1) L(1) by auto
  moreover have "granted ?b s' = granted ?b s \<union> granted ?a s"
    unfolding granted_def eff(2) G(1) by auto
  moreover have "leave_dates ?a s' = {}" "granted ?a s' = {}"
    unfolding leave_dates_def granted_def eff using L(3) G(3) by auto
  moreover have "\<forall>l \<in> set (rg_leaves s). el_badge l = ?b \<longrightarrow> l \<in> set (rg_leaves s')"
    unfolding eff(1) by (rule L(2))
  moreover have "rg_attendance s' = map (\<lambda>r. if ar_badge r = ?a then r\<lparr>ar_badge := ?b\<rparr> else r) (rg_attendance s)"
    unfolding eff(3) by (simp add: update_where_def attendance_to_def)
  ultimately show ?thesis using eff(4-7) by (simp add: delete_where_def)
qed auto

section \<open>Schedules take effect\<close>

lemma find_saved:
  "find_badge (badge_number e) emps = Some x \<Longrightarrow> save_employee e emps = Some emps'
    \<Longrightarrow> find_badge (badge_number e) emps' = Some e"
proof -
  assume x: "find_badge (badge_number e) emps = Some x" and s: "save_employee e emps = Some emps'"
  have "find_badge (badge_number e) (update_where (same_badge e) (\<lambda>_. e) emps)
      = map_option (\<lambda>r. if same_badge e r then e else r) (find_badge (badge_number e) emps)"
    unfolding find_badge_def by (rule first_update_where) (simp add: same_badge_def)
  then show ?thesis using x s find_badge_Some [OF x] by (simp add: save_employee_Some same_badge_def)
qed

lemma newest_unique:
  assumes "distinct (map key rows)" "r \<in> set rows" "\<forall>x \<in> set rows. key x \<le> key r"
  shows "newest key rows = Some (r :: 'r)"
proof -
  obtain y where y: "newest key rows = Some y" using assms(2) by (cases "newest key rows") auto
  then have "y \<in> set rows" "key y = key r" using newest_Some [OF y] assms by (auto intro: antisym)
  then show ?thesis using y assms(1,2) by (auto simp: distinct_map inj_on_def)
qed

lemma saved_in_force:
  assumes "distinct (map es_key (schedules db))"
  shows "schedule_as_of (save_schedule v db) (es_badge v) (effective_from v) = Some v"
    "v \<in> set (schedules (save_schedule v db))"
proof -
  let ?db = "save_schedule v db"
  have d: "distinct (map es_key (schedules ?db))"
  proof -
    have "map es_key (update_where (\<lambda>x. es_key x = es_key v) (\<lambda>_. v) (schedules db)) = map es_key (schedules db)"
      by (rule keys_update_where) simp
    then show ?thesis using assms by (auto simp: save_schedule_def first_None)
  qed
  show v: "v \<in> set (schedules ?db)"
    using first_ex [of "\<lambda>x. es_key x = es_key v" "schedules db"] by (auto simp: save_schedule_def)
  let ?rows = "filter (\<lambda>x. es_badge x = es_badge v \<and> effective_from x \<le> effective_from v) (schedules ?db)"
  have "distinct (map es_key ?rows)" using d by (rule distinct_map_filter)
  then have "distinct (map effective_from ?rows)"
    by (auto simp: distinct_map inj_on_def es_key_def)
  then show "schedule_as_of ?db (es_badge v) (effective_from v) = Some v"
    unfolding schedule_as_of_def using v by (intro newest_unique) auto
qed


end
