(* ===== verification/OnboardingFacts.thy ===== *)
theory OnboardingFacts
  imports RegistryFacts
begin

text \<open>
  From a submission to a log-in: generated badges, the conditions under which a submission and its
  approval go through, and what a rejected applicant leaves behind.
\<close>

section \<open>Reissued badges\<close>

lemma fold_max_ge:
  "n \<le> fold (\<lambda>d m. max m (f d)) ds (n :: int) \<and> (\<forall>d \<in> set ds. f d \<le> fold (\<lambda>d m. max m (f d)) ds n)"
proof (induction ds arbitrary: n)
  case Nil
  then show ?case by simp
next
  case (Cons d ds)
  show ?case using Cons.IH [of "max n (f d)"] by auto
qed

lemma lower_Q: "lower_char (CHR ''Q'') = CHR ''q''"
  by code_simp

text \<open>A generated badge is nobody's.\<close>

lemma next_q_badge_fresh:
  assumes "generate_next_q_badge emps = Some b"
  shows "b \<notin> badge_number ` set emps"
proof
  assume b: "b \<in> badge_number ` set emps"
  let ?m = "fold (\<lambda>d n. max n (digits_value d)) (q_suffixes emps) (Q_BADGE_START - 1)"
  have m: "Q_BADGE_START - 1 \<le> ?m" "\<forall>d \<in> set (q_suffixes emps). digits_value d \<le> ?m"
    using fold_max_ge [of "Q_BADGE_START - 1" digits_value] by blast+
  have be: "b = CHR ''Q'' # show_int (?m + 1)" using assms by (auto simp: generate_next_q_badge_def split: if_splits)
  have pos: "0 < ?m + 1" using m(1) by (simp add: Q_BADGE_START_def)
  have s: "show_int (?m + 1) = show_nat (nat (?m + 1))" using pos by (simp add: show_int_def)
  have dg: "py_isdigit (show_int (?m + 1))" "digits_value (show_int (?m + 1)) = ?m + 1"
    using show_nat_digits [of "nat (?m + 1)"] pos
    by (auto simp: s py_isdigit_def list_all_iff digits_value_show_nat)
  have "show_int (?m + 1) = drop 1 b" by (simp add: be)
  moreover have "like_q b" by (simp add: be like_q_def lower_Q)
  ultimately have "show_int (?m + 1) \<in> set (q_suffixes emps)" using b dg(1) by (auto simp: q_suffixes_def)
  then show False using m(2) dg(2) by fastforce
qed

lemma unique_opt_snoc: "unique_opt f (rows @ [r]) \<longleftrightarrow>
    unique_opt f rows \<and> (f r = None \<or> (\<forall>x \<in> set rows. f x \<noteq> f r))"
proof (cases "f r")
  case None
  then show ?thesis by (simp add: unique_opt_def)
next
  case (Some v)
  then have "f r \<in> f ` {x \<in> set rows. f x \<noteq> None} \<longleftrightarrow> (\<exists>x \<in> set rows. f x = f r)" by (auto simp: image_iff)
  then show ?thesis using Some by (auto simp: unique_opt_def)
qed

text \<open>The conditions under which a submission goes through, apart from the body's own.\<close>

definition new_user :: "session_claims \<Rightarrow> submission \<Rightarrow> employee list \<Rightarrow> bool" where
  "new_user p b emps \<longleftrightarrow> truthy (sc_line_user_id p) \<and> valid_body b
     \<and> strip (sb_location b) \<in> set ALLOWED_LOCATIONS \<and> strip (sb_thai_name b) \<noteq> [] \<and> strip (sb_nickname b) \<noteq> []
     \<and> (\<forall>e \<in> set emps. line_user_id e \<noteq> sc_line_user_id p)"

lemma submit_new:
  assumes t: "registry_typed (on_registry s)" and n: "new_user p b (rg_employees (on_registry s))"
    and q: "generate_next_q_badge (rg_employees (on_registry s)) = Some badge"
    and rate: "snd (enforce_submit_rate_limit now (ip @ '':'' @ or_else (sc_line_user_id p) []) (on_guard s)) = None"
  shows "\<exists>g. submit_onboarding now ip (Inr p) b [] s
     = (s\<lparr>on_guard := g, on_registry := (on_registry s)\<lparr>rg_employees := rg_employees (on_registry s) @ [submitted_row p b badge]\<rparr>\<rparr>,
        OnSubmitted badge)"
proof -
  let ?emps = "rg_employees (on_registry s)"
  let ?row = "submitted_row p b badge"
  have ok: "employees_ok ?emps" using t by (simp add: registry_typed_def registry_ok_def)
  have fresh: "badge \<notin> badge_number ` set ?emps" using q by (rule next_q_badge_fresh)
  have "employees_ok (?emps @ [?row])"
    using ok fresh n by (simp add: employees_ok_def unique_opt_snoc submitted_row_def new_user_def)
  then have add: "add_employee ?row ?emps = Some (?emps @ [?row])" by (simp add: add_employee_def)
  have rep: "take MAX_ATTEMPTS ([] @ replicate MAX_ATTEMPTS ([] :: employee list)) = [] # replicate 4 []"
    by (simp add: MAX_ATTEMPTS_def numeral_eq_Suc)
  have "create_self_onboarded_employee [] (submitted_row p b) ?emps = (?emps @ [?row], NewBadge badge)"
    unfolding create_self_onboarded_employee_def rep using q add ok by (simp add: after_rivals_def)
  moreover have "first (\<lambda>e. line_user_id e = sc_line_user_id p) ?emps = None"
    using n by (simp add: first_None new_user_def)
  ultimately show ?thesis using n rate
    by (cases "enforce_submit_rate_limit now (ip @ '':'' @ or_else (sc_line_user_id p) []) (on_guard s)")
       (auto simp: submit_onboarding_def new_user_def Let_def)
qed

lemma unique_opt_update:
  assumes "unique_opt f rows" "distinct (map k rows)" "k e = k x" "x \<in> set rows"
    and "f e = f x \<or> f e = None \<or> (\<forall>y \<in> set rows. f y \<noteq> f e)"
  shows "unique_opt f (update_where (\<lambda>y. k y = k e) (\<lambda>_. e) rows)"
proof -
  have inj: "y = z" if "y \<in> set rows" "z \<in> set rows" "f y = Some w" "f z = Some w" for y z w
    using assms(1) that by (auto simp: unique_opt_def distinct_map inj_on_def)
  have kx: "k y = k e \<longleftrightarrow> y = x" if "y \<in> set rows" for y
    using assms(2-4) that by (auto simp: distinct_map inj_on_def)
  let ?g = "\<lambda>y. if k y = k e then e else y"
  have d: "distinct rows" using assms(2) by (simp add: distinct_map)
  have "map f (filter (\<lambda>r. f r \<noteq> None) (map ?g rows)) = map (f \<circ> ?g) (filter (\<lambda>r. f (?g r) \<noteq> None) rows)"
    by (simp add: filter_map o_def)
  moreover have "inj_on (f \<circ> ?g) (set (filter (\<lambda>r. f (?g r) \<noteq> None) rows))"
  proof (rule inj_onI)
    fix y z assume "y \<in> set (filter (\<lambda>r. f (?g r) \<noteq> None) rows)" "z \<in> set (filter (\<lambda>r. f (?g r) \<noteq> None) rows)"
      and eq: "(f \<circ> ?g) y = (f \<circ> ?g) z"
    then have yz: "y \<in> set rows" "z \<in> set rows" and "f (?g y) \<noteq> None" by auto
    then obtain w where w: "f (?g y) = Some w" "f (?g z) = Some w" using eq by (auto simp: o_def)
    have clash: "u = x" if "u \<in> set rows" "f u = Some w" "f e = Some w" for u
      using assms(5) that inj [of u x w] assms(4) by auto
    show "y = z"
    proof (cases "y = x")
      case True
      then show ?thesis using w kx [OF yz(1)] kx [OF yz(2)] clash [OF yz(2)] by (auto split: if_splits)
    next
      case False
      then have fy: "f y = Some w" using w(1) kx [OF yz(1)] by simp
      show ?thesis
      proof (cases "z = x")
        case True
        then show ?thesis using w(2) kx [OF yz(2)] clash [OF yz(1) fy] False by simp
      next
        case False
        then show ?thesis using w(2) kx [OF yz(2)] inj [OF yz fy] by simp
      qed
    qed
  qed
  ultimately show ?thesis using d by (simp add: unique_opt_def update_where_def distinct_map)
qed

lemma employees_ok_update:
  assumes ok: "employees_ok emps" and x: "find_badge (badge_number e) emps = Some x"
    and f: "\<And>f. f \<in> {line_user_id, line_linking_code, email, nfc_card_uid} \<Longrightarrow>
      f e = f x \<or> f e = None \<or> (\<forall>y \<in> set emps. f y \<noteq> f e)"
  shows "save_employee e emps = Some (update_where (same_badge e) (\<lambda>_. e) emps)"
proof -
  have x': "x \<in> set emps" "badge_number x = badge_number e" using find_badge_Some [OF x] by auto
  have s: "same_badge e = (\<lambda>y. badge_number y = badge_number e)" by (simp add: same_badge_def fun_eq_iff)
  have k: "map badge_number (update_where (same_badge e) (\<lambda>_. e) emps) = map badge_number emps"
    by (rule keys_update_where) (simp add: same_badge_def)
  have "unique_opt f (update_where (same_badge e) (\<lambda>_. e) emps)"
    if "f \<in> {line_user_id, line_linking_code, email, nfc_card_uid}" for f
    unfolding s using ok x' f [OF that] that
    by (intro unique_opt_update [where k = badge_number and x = x]) (auto simp: employees_ok_def)
  then show ?thesis using ok k by (simp add: save_employee_Some employees_ok_def)
qed


section \<open>From submission to log-in\<close>

lemma find_snoc: "b \<notin> badge_number ` set emps \<Longrightarrow> badge_number e = b \<Longrightarrow> find_badge b (emps @ [e]) = Some e"
  by (induction emps) (auto simp: find_badge_def)

lemma app_ids_append [simp]: "app_ids b (xs @ ys) = app_ids b xs @ app_ids b ys"
  by (simp add: app_ids_def)

lemma app_ids_new: "app_ids b (map (\<lambda>a. grant b a who) apps) = apps"
  by (induction apps) (auto simp: app_ids_def grant_def)

lemma app_ids_left:
  "set (app_ids b (delete_where (\<lambda>g. eg_badge g = b \<and> eg_app_id g \<notin> A) gs)) = set (app_ids b gs) \<inter> A"
  by (auto simp: app_ids_def delete_where_def)

lemma granted_app_ids: "granted b r = set (app_ids b (rg_grants r))"
  by (auto simp: granted_def app_ids_def)

lemma grants_replaced:
  assumes "find_badge badge (rg_employees r) \<noteq> None" and "set apps \<subseteq> set APP_CATALOG"
  shows "\<exists>gs ids. update_employee_grants who badge apps r = (r\<lparr>rg_grants := gs\<rparr>, RgGrants ids)
    \<and> set (app_ids badge gs) = set apps"
proof -
  have "\<not> (\<exists>a \<in> set apps. a \<notin> set APP_CATALOG)" using assms(2) by blast
  then show ?thesis using assms(1)
    by (auto simp: update_employee_grants_def Let_def app_ids_new app_ids_left)
qed

lemma approve_pending:
  assumes "find_badge badge (rg_employees (on_registry s)) = Some e" "pending_approval e"
    and "save_employee (approved_row e) (rg_employees (on_registry s)) = Some emps"
  shows "\<exists>gs. approve_onboarding who badge s
      = (s\<lparr>on_registry := (on_registry s)\<lparr>rg_employees := emps, rg_grants := gs\<rparr>\<rparr>, OnApproved badge)
    \<and> set DEFAULT_GRANTED_APP_IDS \<subseteq> set (app_ids badge gs)"
  using assms find_badge_Some [OF assms(1)]
  by (auto simp: approve_onboarding_def Let_def require_pending_employee_def app_ids_new)

lemma reject_pending:
  assumes "find_badge badge (rg_employees (on_registry s)) = Some e" "pending_approval e" "badge_number e = badge"
    and "first (\<lambda>x. ar_badge x = badge) (rg_attendance (on_registry s)) = None"
  shows "\<exists>db. reject_onboarding badge s = (s\<lparr>on_registry := (on_registry s)
      \<lparr>rg_employees := delete_where (same_badge e) (rg_employees (on_registry s)), rg_rosters := db\<rparr>\<rparr>, OnRejected True)"
  using assms by (auto simp: reject_onboarding_def Let_def require_pending_employee_def)

definition emp_mail :: "str \<Rightarrow> str" where "emp_mail badge = lower badge @ ''@emp.thehfhotel.org''"


text \<open>
  A badge comes back: when the newest self-registered employee is rejected without a punch, the
  next applicant gets the same badge, and with it every grant and every leave row that was left
  under it.
\<close>

theorem rejected_badge_reissued:
  assumes t: "registry_typed (on_registry s)" and n: "new_user p b (rg_employees (on_registry s))"
    and q: "generate_next_q_badge (rg_employees (on_registry s)) = Some badge"
    and rate: "snd (enforce_submit_rate_limit now (ip @ '':'' @ or_else (sc_line_user_id p) []) (on_guard s)) = None"
    and punches: "\<forall>r \<in> set (rg_attendance (on_registry s)). ar_badge r \<noteq> badge"
    and run: "run registry_step s [SubmitOnboarding now ip (Inr p) b [], UpdateGrants who badge apps,
        RejectOnboarding badge] = (s', tr)"
    and apps: "set apps \<subseteq> set APP_CATALOG"
  shows "snd (last tr) = OnRejected True
    \<and> rg_employees (on_registry s') = rg_employees (on_registry s)
    \<and> generate_next_q_badge (rg_employees (on_registry s')) = Some badge
    \<and> granted badge (on_registry s') = set apps"
proof -
  let ?emps = "rg_employees (on_registry s)" and ?row = "submitted_row p b badge"
  obtain g where sub: "submit_onboarding now ip (Inr p) b [] s
     = (s\<lparr>on_guard := g, on_registry := (on_registry s)\<lparr>rg_employees := ?emps @ [?row]\<rparr>\<rparr>, OnSubmitted badge)"
    (is "_ = (?s1, _)") using submit_new [OF t n q rate] by blast
  have fresh: "badge \<notin> badge_number ` set ?emps" using q by (rule next_q_badge_fresh)
  have row: "badge_number ?row = badge" "pending_approval ?row" by (simp_all add: submitted_row_def)
  have f: "find_badge badge (?emps @ [?row]) = Some ?row" using find_snoc [OF fresh row(1)] .
  have "find_badge badge (rg_employees (on_registry ?s1)) \<noteq> None" using f by simp
  from grants_replaced [OF this apps] obtain gs ids where
      gr: "update_employee_grants who badge apps (on_registry ?s1) = ((on_registry ?s1)\<lparr>rg_grants := gs\<rparr>, RgGrants ids)"
        "set (app_ids badge gs) = set apps" by blast
  have none: "first (\<lambda>x. ar_badge x = badge) (rg_attendance (on_registry s)) = None"
    using punches by (simp add: first_None)
  have del: "delete_where (same_badge ?row) (?emps @ [?row]) = ?emps"
    using fresh row(1) by (auto simp: delete_where_def same_badge_def filter_id_conv image_iff)
  let ?s2 = "?s1\<lparr>on_registry := (on_registry ?s1)\<lparr>rg_grants := gs\<rparr>\<rparr>"
  obtain db where rej: "reject_onboarding badge ?s2
      = (?s2\<lparr>on_registry := (on_registry ?s2)\<lparr>rg_employees := ?emps, rg_rosters := db\<rparr>\<rparr>, OnRejected True)"
    using reject_pending [of badge ?s2 ?row] f row none del by auto
  have "registry_step ?s1 (UpdateGrants who badge apps) = (?s2, OnRegistry (RgGrants ids))"
    using gr(1) by (simp add: in_registry_def)
  moreover have "registry_step s (SubmitOnboarding now ip (Inr p) b []) = (?s1, OnSubmitted badge)"
    using sub by simp
  moreover have "registry_step ?s2 (RejectOnboarding badge) = (fst (reject_onboarding badge ?s2), OnRejected True)"
    using rej by simp
  ultimately have "s' = fst (reject_onboarding badge ?s2)" "snd (last tr) = OnRejected True"
    using run by (auto simp del: registry_step.simps)
  then show ?thesis using rej gr(2) q by (simp add: granted_app_ids)
qed

section \<open>Cards\<close>

lemma python_upper_ascii: "\<forall>c \<in> set s. of_char c < (128::nat) \<Longrightarrow> python_upper s = Some (upper s)"
proof (induction s)
  case Nil
  then show ?case by (simp add: upper_def)
next
  case (Cons c s)
  then have "python_upper_char c = Some [upper_char c]"
    by (auto simp: python_upper_char_def upper_char_def Let_def)
  then show ?case using Cons by (simp add: upper_def)
qed

lemma strip_subset: "set (strip s) \<subseteq> set s"
  by (auto simp: strip_def lstrip_def dest!: set_dropWhileD)

lemma first_is_owner:
  assumes "find_badge b emps = Some e" and "p e"
  shows "first p emps = Some e \<longleftrightarrow> (\<forall>x \<in> set (takeWhile (\<lambda>x. badge_number x \<noteq> b) emps). \<not> p x)"
  using assms
proof (induction emps)
  case Nil
  then show ?case by (simp add: find_badge_def)
next
  case (Cons x emps)
  show ?case
  proof (cases "badge_number x = b")
    case True
    then have "x = e" using Cons.prems(1) by (simp add: find_badge_def)
    then show ?thesis using True Cons.prems(2) by simp
  next
    case False
    then have f: "find_badge b emps = Some e" using Cons.prems(1) by (simp add: find_badge_def)
    moreover have "x \<noteq> e" using False find_badge_Some [OF f] by auto
    ultimately show ?thesis using False Cons.IH Cons.prems(2) by auto
  qed
qed

text \<open>
  A card that the endpoint accepts is stored under no other badge, and the reader finds its owner
  by it exactly when no earlier row holds a card that differs in the case of letters only: the
  endpoint compares the numbers as written, the reader ignores case.
\<close>

theorem card_resolves_to_owner:
  assumes set: "set_employee_nfc_card b (Some raw) s = (s', RgCard (Some u))"
    and ascii: "\<forall>c \<in> set raw. of_char c < (128::nat)"
  shows "u = strip raw
    \<and> (\<forall>x \<in> set (rg_employees s'). nfc_card_uid x = Some u \<longrightarrow> badge_number x = b)
    \<and> (\<exists>e. find_badge b (rg_employees s') = Some e \<and> nfc_card_uid e = Some u
         \<and> (find_employee_by_uid (rg_employees s') raw = Some e
            \<longleftrightarrow> (\<forall>x \<in> set (takeWhile (\<lambda>x. badge_number x \<noteq> b) (rg_employees s')). \<forall>c.
                   nfc_card_uid x = Some c \<longrightarrow> upper c \<noteq> upper u)))"
proof -
  obtain e where e: "find_badge b (rg_employees s) = Some e"
    using set by (auto simp: set_employee_nfc_card_def split: option.splits)
  have raw: "strip (or_else (Some raw) []) = strip raw" by (auto simp: or_else_def truthy_def)
  have uid: "u = strip raw" "strip raw \<noteq> []"
    using set e by (auto simp: set_employee_nfc_card_def raw Let_def none_if_blank_def split: option.splits if_splits)
  have other: "\<forall>x \<in> set (rg_employees s). nfc_card_uid x = Some u \<longrightarrow> badge_number x = b"
    using set e by (auto simp: set_employee_nfc_card_def raw Let_def none_if_blank_def split: option.splits if_splits)
  let ?e = "e\<lparr>nfc_card_uid := Some u\<rparr>"
  obtain emps where emps: "save_employee ?e (rg_employees s) = Some emps" "s' = s\<lparr>rg_employees := emps\<rparr>"
    using set e by (auto simp: set_employee_nfc_card_def raw Let_def none_if_blank_def split: option.splits if_splits)
  have b: "badge_number ?e = b" using find_badge_Some [OF e] by simp
  have f: "find_badge b emps = Some ?e" using find_saved [of ?e "rg_employees s" e emps] e emps(1) b by simp
  have "emps = update_where (same_badge ?e) (\<lambda>_. ?e) (rg_employees s)"
    using emps(1) by (simp add: save_employee_Some)
  then have only: "\<forall>x \<in> set emps. nfc_card_uid x = Some u \<longrightarrow> badge_number x = b"
    using other b by (auto simp: update_where_def)
  have "python_upper (strip raw) = Some (upper u)"
    using ascii strip_subset [of raw] by (auto simp: uid(1) intro: python_upper_ascii)
  then have "find_employee_by_uid emps raw = first (holds_card (Some (upper u))) emps"
    by (simp add: find_employee_by_uid_def)
  moreover have "holds_card (Some (upper u)) x \<longleftrightarrow> (\<exists>c. nfc_card_uid x = Some c \<and> upper c = upper u)" for x
    by (auto simp: holds_card_def split: option.splits)
  moreover have "holds_card (Some (upper u)) ?e" by (simp add: holds_card_def)
  ultimately show ?thesis using first_is_owner [OF f, of "holds_card (Some (upper u))"] emps(2) f uid(1) only
    by auto
qed

section \<open>A small registry\<close>

text \<open>Two employees, one of them with leave, a schedule and a grant under another badge.\<close>

definition demo_row :: "str \<Rightarrow> str option \<Rightarrow> employee" where
  "demo_row badge uid = (new_row badge ''N'' True False)\<lparr>nfc_card_uid := uid\<rparr>"

definition demo_registry :: onboarding where
  "demo_registry =
     \<lparr>on_registry = \<lparr>rg_employees = [demo_row ''7'' (Some ''ab''), demo_row ''8'' None],
        rg_attendance = [], rg_logs = [],
        rg_rosters = \<lparr>shifts = [], assignments = [],
          schedules = [\<lparr>es_badge = ''8'', effective_from = 3, es_role = None, work_days = None,
             work_start = None, work_end = None\<rparr>]\<rparr>,
        rg_leaves = [\<lparr>el_badge = ''8'', el_date = 5, el_leave_type = ''sick'', el_note = None\<rparr>],
        rg_grants = [\<lparr>eg_badge = ''8'', eg_app_id = ''portal'', eg_granted_by = None\<rparr>],
        rg_requests = [], rg_request_days = []\<rparr>,
      on_guard = []\<rparr>"

definition demo_claims :: session_claims where
  "demo_claims = \<lparr>sc_line_user_id = Some ''U'', sc_employee_badge = None, sc_display_name = None,
     sc_picture_url = None, sc_iat = 0, sc_exp = 9\<rparr>"

definition demo_body :: submission where
  "demo_body = \<lparr>sb_thai_name = ''T'', sb_english_name = None, sb_nickname = ''N'', sb_location = ''HF'',
     sb_department = None, sb_position = None\<rparr>"

lemma demo_typed: "registry_typed (on_registry demo_registry)"
  by (simp add: registry_typed_def registry_ok_def employees_ok_def unique_opt_def demo_registry_def
      demo_row_def new_row_def row_typed_def schedule_typed_def allowed_def JOIN_SOURCES_def APP_CATALOG_def work_days_to_list_def)

lemma demo_submission:
  "new_user demo_claims demo_body (rg_employees (on_registry demo_registry))"
  "generate_next_q_badge (rg_employees (on_registry demo_registry)) = Some ''Q1001''"
  "snd (enforce_submit_rate_limit 0 ([] @ '':'' @ or_else (sc_line_user_id demo_claims) [])
     (on_guard demo_registry)) = None"
  "\<forall>e \<in> set (rg_employees (on_registry demo_registry)). email e \<noteq> Some (emp_mail ''Q1001'')"
proof -
  show "new_user demo_claims demo_body (rg_employees (on_registry demo_registry))" by code_simp
  show "generate_next_q_badge (rg_employees (on_registry demo_registry)) = Some ''Q1001''" by code_simp
  show "snd (enforce_submit_rate_limit 0 ([] @ '':'' @ or_else (sc_line_user_id demo_claims) [])
     (on_guard demo_registry)) = None"
    by (simp add: enforce_submit_rate_limit_def Let_def submit_limits demo_registry_def)
qed (simp add: demo_registry_def demo_row_def new_row_def)

theorem registry_stays_typed_witness:
  "registry_typed (on_registry (fst (run registry_step demo_registry
     [MergeEmployees ''8'' ''7'', UpdateStatus ''9'' None, DeleteEmployee ''9''])))"
  using registry_stays_typed [OF demo_typed] by (metis prod.collapse)

theorem merge_gathers_history_witness:
  "leave_dates ''7'' (fst (merge_employees ''8'' ''7'' (on_registry demo_registry))) = {5}
    \<and> schedules (rg_rosters (fst (merge_employees ''8'' ''7'' (on_registry demo_registry)))) = []"
proof -
  have b: "strip ''8'' = ''8''" "strip ''7'' = ''7''" by code_simp+
  let ?m = "merge_employees ''8'' ''7'' (on_registry demo_registry)"
  have "\<exists>x. snd ?m = RgMerged False x"
    by (simp add: merge_employees_def b find_badge_def demo_registry_def demo_row_def new_row_def Let_def
        absorb_employee_def copied_fields_def copy_text_def truthy_def move_all_def employees_ok_def
        update_where_def delete_where_def same_badge_def unique_opt_def)
  then obtain x where "?m = (fst ?m, RgMerged False x)" by (metis prod.collapse)
  from merge_gathers_history [OF this]
  show ?thesis unfolding b by (auto simp: leave_dates_def demo_registry_def)
qed


theorem rejected_badge_reissued_witness:
  "granted ''Q1001'' (on_registry (fst (run registry_step demo_registry
      [SubmitOnboarding 0 [] (Inr demo_claims) demo_body [], UpdateGrants [] ''Q1001'' [''payroll''],
       RejectOnboarding ''Q1001'']))) = {''payroll''}"
proof -
  have "\<forall>r \<in> set (rg_attendance (on_registry demo_registry)). ar_badge r \<noteq> ''Q1001''"
    by (simp add: demo_registry_def)
  note R = rejected_badge_reissued [OF demo_typed demo_submission(1-3) this]
  have "set [''payroll''] \<subseteq> set APP_CATALOG" by (simp add: APP_CATALOG_def)
  then show ?thesis using R by (metis list.set(1) list.set(2) prod.collapse)
qed

theorem card_resolves_to_owner_witness:
  "find_employee_by_uid (rg_employees (fst (set_employee_nfc_card ''8'' (Some ''AB'') (on_registry demo_registry))))
     ''AB'' \<noteq> Some (demo_row ''8'' (Some ''AB''))"
proof -
  have s: "set_employee_nfc_card ''8'' (Some ''AB'') (on_registry demo_registry)
      = ((on_registry demo_registry)\<lparr>rg_employees := [demo_row ''7'' (Some ''ab''), demo_row ''8'' (Some ''AB'')]\<rparr>,
         RgCard (Some ''AB''))" (is "_ = (?s, _)")
    by code_simp
  have u: "upper ''ab'' = upper ''AB''" by code_simp
  have "\<forall>c \<in> set ''AB''. of_char c < (128::nat)" by code_simp
  from card_resolves_to_owner [OF s this] show ?thesis
    unfolding s using u by (simp add: find_badge_def demo_row_def new_row_def)
qed


end
