(* ===== verification/LineLogin.thy ===== *)
theory LineLogin
  imports HandoffStore LineAccount OidcTokens ReaderLogin
begin

text \<open>
  The log-in half of \<open>app/api/line_auth.py\<close>: \<open>/login\<close>, \<open>/callback\<close>, \<open>/handoff/wait\<close> and
  \<open>/verify-token\<close>, which tie the login states, the hand-off tickets, the identity provider and the
  card readers together. The two calls to LINE of a callback are its argument \<open>cb_profile\<close>; pages
  are constructors that hold what varies in them. A long poll is a request that parks and one
  event per turn of its loop.
\<close>

section \<open>Requests and answers\<close>

record http_request =
  hr_headers :: "str \<Rightarrow> str option"
  hr_peer :: "str option"

definition user_agent :: "http_request \<Rightarrow> str" where
  "user_agent r = or_else (hr_headers r ''user-agent'') []"

definition request_ip :: "env \<Rightarrow> http_request \<Rightarrow> str" where
  "request_ip env r = client_ip env (hr_headers r) (hr_peer r)"

text \<open>What one \<open>/login\<close> draws and reads: the ticket id and secret, the state, the clock.\<close>

record login_draws =
  ld_ticket :: str
  ld_secret :: str
  ld_state :: str
  ld_ttl :: real
  ld_ticket_time :: real
  ld_state_time :: real
  ld_sweep_time :: real

text \<open>The profile of the LINE user, with the defaults of the handler.\<close>

record line_profile =
  lp_user :: str
  lp_name :: str
  lp_picture :: str

record callback_query =
  cq_code :: "str option"
  cq_state :: "str option"
  cq_error :: "str option"
  cq_error_description :: "str option"
  cq_redirect :: "str option"

text \<open>What a callback reads: its request, clocks, LINE's answer, a drawn code, the tables.\<close>

record callback_context =
  cb_request :: http_request
  cb_now :: real
  cb_now' :: real
  cb_profile :: "line_profile option"
  cb_t1 :: real
  cb_t2 :: real
  cb_t3 :: real
  cb_code :: str
  cb_employees :: "employee list"
  cb_grants :: "employee_app_grant list"

datatype line_response =
    LnBadRequest | LnServerError | LnUnauthorized | LnNotFound | LnBusy | LnNoContent | LnParked | LnGone
  | LnAutoRedirect str | LnGuidance str | LnHandoffPage str str bool
  | LnLoginFailed str | LnLanding str
  | LnSignedIn | LnOtherDevice | LnExpired
  | LnReady str | LnFailed bool
  | LnValid session_claims
  | LnOidc oidc_response | LnReader reader_response

record line_world =
  lw_states :: state_store
  lw_handoff :: handoff_store
  lw_reader :: reader_world
  lw_waits :: "(nat, str option \<times> real) dict"

definition new_line_world :: line_world where
  "new_line_world = \<lparr>lw_states = [], lw_handoff = empty_store, lw_reader = new_reader_world, lw_waits = []\<rparr>"

abbreviation lw_oidc :: "line_world \<Rightarrow> oidc_state" where
  "lw_oidc w \<equiv> rw_oidc (lw_reader w)"

definition set_oidc :: "oidc_state \<Rightarrow> line_world \<Rightarrow> line_world" where
  "set_oidc s w = w\<lparr>lw_reader := (lw_reader w)\<lparr>rw_oidc := s\<rparr>\<rparr>"

section \<open>Starting a login\<close>

definition combined_hint :: "str option \<Rightarrow> str option \<Rightarrow> str option" where
  "combined_hint redirect qr_context =
     (if truthy qr_context \<and> truthy redirect
      then Some (or_else redirect [] @ CHR ''|'' # or_else qr_context []) else redirect)"

fun contains :: "str \<Rightarrow> str \<Rightarrow> bool" where
  "contains p [] = (p = [])"
| "contains p (c # s) = (startswith (c # s) p \<or> contains p s)"

definition MOBILE_TOKENS :: "str list" where
  "MOBILE_TOKENS = [''iphone'', ''ipad'', ''ipod'', ''android'', ''mobile'']"

definition is_mobile :: "str \<Rightarrow> bool" where
  "is_mobile ua = (\<exists>t \<in> set MOBILE_TOKENS. contains t (lower ua))"

definition is_behind_proxy :: "env \<Rightarrow> bool" where
  "is_behind_proxy env = (lower (getenv env ''BEHIND_PROXY'' ''false'') = ''true'')"

text \<open>\<open>template\<close>: the polling page is readable. It is read once and kept.\<close>

definition handoff_applies :: "env \<Rightarrow> bool \<Rightarrow> str option \<Rightarrow> bool \<Rightarrow> str \<Rightarrow> bool" where
  "handoff_applies env template hint mobile ua =
     (handoff_is_enabled env \<and> startswith (or_else hint []) ''oidc:'' \<and> mobile
      \<and> \<not> is_line_in_app_browser (Some ua) \<and> template)"

definition line_login ::
  "oidc_lib \<Rightarrow> env \<Rightarrow> bool \<Rightarrow> http_request \<Rightarrow> str option \<Rightarrow> str option \<Rightarrow> login_draws \<Rightarrow> line_world
   \<Rightarrow> line_world \<times> line_response" where
  "line_login lib env template req redirect qr_context d w =
     (let hint = combined_hint redirect qr_context; ua = user_agent req; mobile = is_mobile ua in
      if startswith (or_else hint []) ''handoff:'' then (w, LnBadRequest)
      else
        let (hs, nt) =
              (if handoff_applies env template hint mobile ua
               then create_ticket (or_else hint []) (Some (request_ip env req)) (ld_ticket_time d) (ld_ttl d)
                      (ld_ticket d) (ld_secret d) (lw_handoff w)
               else (lw_handoff w, None));
            effective = (case nt of None \<Rightarrow> hint | Some n \<Rightarrow> Some (''handoff:'' @ ticket_id n));
            (st, r) = generate_authorization_url (ol_line lib) None (ld_state d) effective (\<not> mobile)
                        (Some ua) (ld_state_time d) (ld_sweep_time d) (lw_states w);
            w' = w\<lparr>lw_states := st, lw_handoff := hs\<rparr>
        in case r of
             None \<Rightarrow> (w', LnServerError)
           | Some (url, _) \<Rightarrow>
               (w', case nt of
                      Some n \<Rightarrow> LnHandoffPage url (cookie_value n) (is_behind_proxy env)
                    | None \<Rightarrow>
                        if startswith (or_else hint []) ''oidc:'' \<and> mobile \<and> \<not> is_line_in_app_browser (Some ua)
                        then LnGuidance url else LnAutoRedirect url))"

section \<open>The callback\<close>

definition callback_target :: "str option \<Rightarrow> str option \<Rightarrow> str option \<times> str option" where
  "callback_target stored redirect =
     (if truthy stored \<and> CHR ''|'' \<in> set (or_else stored [])
      then (case partition_at (CHR ''|'') (or_else stored []) of (r, _, ctx) \<Rightarrow> (Some r, Some ctx))
      else (if truthy stored then stored else redirect, None))"

definition after_prefix :: "str \<Rightarrow> str option \<Rightarrow> str option" where
  "after_prefix p redirect =
     (if startswith (or_else redirect []) p then Some (drop (length p) (or_else redirect [])) else None)"

definition continue_handoff_after_line ::
  "str \<Rightarrow> line_profile \<Rightarrow> str \<Rightarrow> real \<Rightarrow> line_world \<Rightarrow> line_world \<times> line_response" where
  "continue_handoff_after_line tid p ip now w =
     (case resolve_ticket tid (lp_user p) (Some (lp_name p)) (Some (lp_picture p)) (Some ip) now (lw_handoff w) of
        (hs, r) \<Rightarrow> (w\<lparr>lw_handoff := hs\<rparr>,
          case r of
            Inl e \<Rightarrow> LnServerError
          | Inr RESOLVE_OK \<Rightarrow> LnSignedIn
          | Inr RESOLVE_IP_MISMATCH \<Rightarrow> LnOtherDevice
          | Inr _ \<Rightarrow> LnExpired))"

text \<open>The address the last page goes to when no continuation applies.\<close>

definition landing_url ::
  "oidc_lib \<Rightarrow> real \<Rightarrow> line_profile \<Rightarrow> str option \<Rightarrow> str option \<Rightarrow> employee list \<Rightarrow> str" where
  "landing_url lib now p redirect qr_context emps =
     (let user = lp_user p; name = Some (lp_name p); picture = Some (lp_picture p);
          token = (\<lambda>badge. create_jwt_token (ol_jwt lib) (ol_line lib) now (Some user) badge name picture);
          ctx = (if truthy qr_context then ''&qr_context='' @ or_else qr_context [] else [])
      in case first (\<lambda>e. line_user_id e = Some user) emps of
           Some e \<Rightarrow>
             if redirect = Some ''qr-scan-callback''
             then ''/qr-checkin/scan-callback?jwt='' @ token (Some (badge_number e)) @ ctx
             else ''/qr-checkin/mobile?jwt='' @ token (Some (badge_number e))
         | None \<Rightarrow>
             if redirect = Some ''onboard''
             then ''/qr-checkin/onboard?''
               @ onboarding_continuation_query (ol_jwt lib) (ol_line lib) now user name picture
             else ''/qr-checkin/link-account?jwt='' @ token None
               @ ''&line_user_id='' @ quote user @ ''&display_name='' @ quote (lp_name p)
               @ ''&picture_url='' @ quote (lp_picture p)
               @ (if truthy redirect then ''&redirect='' @ quote (or_else redirect []) else []) @ ctx)"

definition continue_login ::
  "oidc_lib \<Rightarrow> env \<Rightarrow> str option \<Rightarrow> str option \<Rightarrow> line_profile \<Rightarrow> callback_context \<Rightarrow> line_world
   \<Rightarrow> line_world \<times> line_response" where
  "continue_login lib env redirect qr_context p c w =
     (let name = Some (lp_name p); picture = Some (lp_picture p) in
      case after_prefix ''handoff:'' redirect of
        Some tid \<Rightarrow> continue_handoff_after_line tid p (request_ip env (cb_request c)) (cb_t1 c) w
      | None \<Rightarrow>
          (case after_prefix ''oidc:'' redirect of
             Some tid \<Rightarrow>
               (case continue_oidc_after_line lib (cb_t1 c) (cb_t2 c) (cb_code c) tid (lp_user p) name picture
                       (cb_employees c) (cb_grants c) (lw_oidc w) of
                  (s, out) \<Rightarrow> (set_oidc s w, LnOidc out))
           | None \<Rightarrow>
               (case after_prefix ''elevate:'' redirect of
                  Some tid \<Rightarrow>
                    (case continue_elevate_after_line lib env tid (lp_user p) name picture (cb_t1 c) (cb_t2 c)
                            (cb_t3 c) (cb_employees c) (cb_grants c) (lw_reader w) of
                       (rw, out) \<Rightarrow> (w\<lparr>lw_reader := rw\<rparr>, LnReader out))
                | None \<Rightarrow> (w, LnLanding (landing_url lib (cb_t1 c) p redirect qr_context (cb_employees c))))))"

definition line_callback ::
  "oidc_lib \<Rightarrow> env \<Rightarrow> callback_query \<Rightarrow> callback_context \<Rightarrow> line_world \<Rightarrow> line_world \<times> line_response" where
  "line_callback lib env q c w =
     (if truthy (cq_error q)
      then (w, LnLoginFailed (or_else (cq_error_description q) (or_else (cq_error q) [])))
      else if \<not> truthy (cq_code q) \<or> \<not> truthy (cq_state q) then (w, LnBadRequest)
      else case validate_state (cb_now c) (cb_now' c) (or_else (cq_state q) []) (lw_states w) of
        (st, ok, stored) \<Rightarrow>
          let w1 = w\<lparr>lw_states := st\<rparr> in
          if \<not> ok then (w1, LnBadRequest)
          else (case callback_target stored (cq_redirect q) of
              (redirect, qr_context) \<Rightarrow>
                (case cb_profile c of
                   None \<Rightarrow> (w1, LnServerError)
                 | Some p \<Rightarrow> continue_login lib env redirect qr_context p c w1)))"

section \<open>The waiting tab\<close>

definition end_wait :: "nat \<Rightarrow> line_world \<Rightarrow> line_world" where
  "end_wait rid w = w\<lparr>lw_handoff := release_waiter (lw_handoff w), lw_waits := AList.delete rid (lw_waits w)\<rparr>"

text \<open>The store puts the user into every ticket it resolves.\<close>

definition complete_handoff ::
  "oidc_lib \<Rightarrow> real \<Rightarrow> real \<Rightarrow> str \<Rightarrow> employee list \<Rightarrow> employee_app_grant list \<Rightarrow> ticket \<Rightarrow> line_world
   \<Rightarrow> line_world \<times> line_response" where
  "complete_handoff lib t1 t2 code emps grants r w =
     (case after_prefix ''oidc:'' (Some (t_inner_hint r)) of
        None \<Rightarrow> (w, LnFailed False)
      | Some tid \<Rightarrow>
          (case continue_oidc_after_line lib t1 t2 code tid (or_else (t_line_user_id r) [])
                  (t_display_name r) (t_picture_url r) emps grants (lw_oidc w) of
             (s, out) \<Rightarrow> (set_oidc s w,
               case out of RedirectTo url \<Rightarrow> LnReady url | ErrorPage n \<Rightarrow> LnFailed (n = 403) | _ \<Rightarrow> LnFailed False)))"

text \<open>A request that is already waiting is no new request.\<close>

definition handoff_wait ::
  "env \<Rightarrow> nat \<Rightarrow> str option \<Rightarrow> real \<Rightarrow> real \<Rightarrow> line_world \<Rightarrow> line_world \<times> line_response" where
  "handoff_wait env rid cookie now deadline w =
     (if map_of (lw_waits w) rid \<noteq> None then (w, LnGone)
      else if \<not> handoff_is_enabled env then (w, LnNotFound)
      else (case peek cookie now (lw_handoff w) of
          Inl e \<Rightarrow> (w, LnServerError)
        | Inr None \<Rightarrow> (w, LnNotFound)
        | Inr (Some _) \<Rightarrow>
            (case try_acquire_waiter (lw_handoff w) of
               (hs, False) \<Rightarrow> (w, LnBusy)
             | (hs, True) \<Rightarrow>
                 (w\<lparr>lw_handoff := hs, lw_waits := AList.update rid (cookie, deadline) (lw_waits w)\<rparr>, LnParked))))"

definition handoff_poll ::
  "oidc_lib \<Rightarrow> nat \<Rightarrow> real \<Rightarrow> real \<Rightarrow> real \<Rightarrow> real \<Rightarrow> str \<Rightarrow> employee list \<Rightarrow> employee_app_grant list
   \<Rightarrow> line_world \<Rightarrow> line_world \<times> line_response" where
  "handoff_poll lib rid now clk t1 t2 code emps grants w =
     (case map_of (lw_waits w) rid of
        None \<Rightarrow> (w, LnGone)
      | Some (cookie, deadline) \<Rightarrow>
          (case take_resolved cookie now (lw_handoff w) of
             (hs, Inl e) \<Rightarrow> (end_wait rid (w\<lparr>lw_handoff := hs\<rparr>), LnServerError)
           | (hs, Inr (Some r)) \<Rightarrow>
               complete_handoff lib t1 t2 code emps grants r (end_wait rid (w\<lparr>lw_handoff := hs\<rparr>))
           | (hs, Inr None) \<Rightarrow>
               if deadline \<le> clk then (end_wait rid (w\<lparr>lw_handoff := hs\<rparr>), LnNoContent)
               else (w\<lparr>lw_handoff := hs\<rparr>, LnParked)))"

definition verify_token :: "oidc_lib \<Rightarrow> str \<Rightarrow> real \<Rightarrow> line_world \<Rightarrow> line_world \<times> line_response" where
  "verify_token lib token now w =
     (w, case verify_jwt_token (ol_jwt lib) (ol_line lib) now token of
           Inl e \<Rightarrow> LnUnauthorized | Inr payload \<Rightarrow> LnValid payload)"

section \<open>The log-in machine\<close>

text \<open>
  The endpoints of this file together with those of the provider and of the readers. The two
  continuations are no endpoints: only a callback or a waiting tab reaches them.
\<close>

datatype line_event =
    Login env http_request "str option" "str option" login_draws
  | Callback env callback_query callback_context
  | HandoffWait env nat "str option" real real
  | HandoffPoll nat real real real real str "employee list" "employee_app_grant list"
  | VerifyToken str real
  | AtProvider oidc_event
  | AtReader reader_event

definition provider_endpoint :: "oidc_event \<Rightarrow> bool" where
  "provider_endpoint ev = (case ev of LineReturn t t' code tid user name picture emps grants \<Rightarrow> False | _ \<Rightarrow> True)"

definition reader_endpoint :: "reader_event \<Rightarrow> bool" where
  "reader_endpoint ev =
     (case ev of ElevateReturn env ticket user name picture t1 t2 t3 emps grants \<Rightarrow> False | _ \<Rightarrow> True)"

fun line_step :: "oidc_lib \<Rightarrow> bool \<Rightarrow> line_world \<Rightarrow> line_event \<Rightarrow> line_world \<times> line_response" where
  "line_step lib template w (Login env req redirect qr_context d) =
     line_login lib env template req redirect qr_context d w"
| "line_step lib template w (Callback env q c) = line_callback lib env q c w"
| "line_step lib template w (HandoffWait env rid cookie now deadline) =
     handoff_wait env rid cookie now deadline w"
| "line_step lib template w (HandoffPoll rid now clk t1 t2 code emps grants) =
     handoff_poll lib rid now clk t1 t2 code emps grants w"
| "line_step lib template w (VerifyToken token now) = verify_token lib token now w"
| "line_step lib template w (AtProvider ev) =
     (if provider_endpoint ev
      then (case oidc_step lib (lw_oidc w) ev of (s, out) \<Rightarrow> (set_oidc s w, LnOidc out))
      else (w, LnNotFound))"
| "line_step lib template w (AtReader ev) =
     (if reader_endpoint ev
      then (case reader_step lib (lw_reader w) ev of (rw, out) \<Rightarrow> (w\<lparr>lw_reader := rw\<rparr>, LnReader out))
      else (w, LnNotFound))"

end
