(* ===== verification/LineLoginFacts.thy ===== *)
theory LineLoginFacts
  imports LineLogin
begin

text \<open>
  What the log-in endpoints guarantee together: how many waiting tabs they keep, to whom a login
  is delivered, and what stands behind a token. The invariants of the hand-off store
  (\<open>delivery_inv\<close>) and of the provider (\<open>provenance\<close>) are used as they are: the history of the whole
  machine backs a history of each part.
\<close>

section \<open>Waiting tabs\<close>

definition waits_ok :: "line_world \<Rightarrow> bool" where
  "waits_ok w \<longleftrightarrow> handoff_inv (lw_handoff w) \<and> dict_ok (lw_waits w)
     \<and> active_waiters (lw_handoff w) = length (lw_waits w)"

lemma create_ticket_inv:
  assumes "handoff_inv s" "create_ticket hint ip now ttl tid secret s = (s', r)"
  shows "handoff_inv s' \<and> waiters s' = waiters s"
  using handoff_step_inv [OF assms(1), of "CreateTicket hint ip now ttl tid secret"] assms(2)
  by (auto simp: create_ticket_def prune_locked_def Let_def split: if_splits)

lemma resolve_ticket_inv:
  assumes "handoff_inv s" "resolve_ticket tid u n p ip now s = (s', r)"
  shows "handoff_inv s' \<and> waiters s' = waiters s"
  using handoff_step_inv [OF assms(1), of "ResolveTicket tid u n p ip now"] assms(2)
  by (auto simp: resolve_ticket_def split: option.splits if_splits sum.splits bool.splits)

lemma take_resolved_inv:
  assumes "handoff_inv s" "take_resolved c now s = (s', r)"
  shows "handoff_inv s' \<and> waiters s' = waiters s"
  using handoff_step_inv [OF assms(1), of "TakeResolved c now"] assms(2)
  by (auto simp: take_resolved_def split: option.splits if_splits sum.splits)

lemma length_delete_present:
  "dict_ok d \<Longrightarrow> map_of d k = Some v \<Longrightarrow> Suc (length (AList.delete k d)) = length d"
proof (induction d)
  case Nil
  then show ?case by simp
next
  case (Cons x d)
  have "AList.delete k d = d" if "k \<notin> fst ` set d"
    using that by (force simp: AList.delete_eq intro!: filter_True)
  then show ?case using Cons by (cases x) (auto simp: dict_ok_def split: if_splits)
qed

lemma length_update_absent: "map_of d k = None \<Longrightarrow> length (AList.update k v d) = Suc (length d)"
  by (induction d) (auto split: if_splits)

lemma end_wait_ok:
  assumes "waits_ok w" "map_of (lw_waits w) rid = Some v"
  shows "waits_ok (end_wait rid w)"
proof -
  have "Suc (length (AList.delete rid (lw_waits w))) = length (lw_waits w)"
    using assms by (intro length_delete_present) (auto simp: waits_ok_def)
  then have "waiters (release_waiter (lw_handoff w)) = length (AList.delete rid (lw_waits w))"
    using assms(1) by (auto simp: waits_ok_def active_waiters_def release_waiter_def)
  moreover have "handoff_inv (release_waiter (lw_handoff w))"
    using assms(1) handoff_step_inv [of "lw_handoff w" ReleaseWaiter] by (simp add: waits_ok_def)
  ultimately show ?thesis using assms(1)
    by (simp add: waits_ok_def end_wait_def active_waiters_def dict_simps)
qed

lemma waits_ok_cong:
  "waits_ok w \<Longrightarrow> handoff_inv (lw_handoff w') \<and> waiters (lw_handoff w') = waiters (lw_handoff w)
    \<Longrightarrow> lw_waits w' = lw_waits w \<Longrightarrow> waits_ok w'"
  by (simp add: waits_ok_def active_waiters_def)

lemma set_oidc_simps [simp]:
  "lw_states (set_oidc s w) = lw_states w" "lw_handoff (set_oidc s w) = lw_handoff w"
  "lw_waits (set_oidc s w) = lw_waits w" "rw_oidc (lw_reader (set_oidc s w)) = s"
  by (simp_all add: set_oidc_def)

lemma end_wait_simps [simp]:
  "lw_states (end_wait rid w) = lw_states w" "lw_reader (end_wait rid w) = lw_reader w"
  "tickets (lw_handoff (end_wait rid w)) = tickets (lw_handoff w)"
  "lw_waits (end_wait rid w) = AList.delete rid (lw_waits w)"
  by (simp_all add: end_wait_def release_waiter_def)

text \<open>The parts of the world each operation leaves alone.\<close>

lemma login_frame:
  assumes "line_login lib env template req redirect qr d w = (w', out)"
  shows "lw_reader w' = lw_reader w" "lw_waits w' = lw_waits w"
    and "lw_handoff w' = lw_handoff w \<or> (\<exists>r. create_ticket (or_else (combined_hint redirect qr) [])
      (Some (request_ip env req)) (ld_ticket_time d) (ld_ttl d) (ld_ticket d) (ld_secret d) (lw_handoff w)
      = (lw_handoff w', r))"
  using assms by (auto simp: line_login_def Let_def split: if_splits prod.splits option.splits)

lemma continue_login_waits:
  assumes "continue_login lib env redirect qr p c w = (w', out)"
  shows "lw_states w' = lw_states w" "lw_waits w' = lw_waits w"
    and "lw_handoff w' = lw_handoff w \<or> (\<exists>tid r. resolve_ticket tid (lp_user p) (Some (lp_name p))
      (Some (lp_picture p)) (Some (request_ip env (cb_request c))) (cb_t1 c) (lw_handoff w) = (lw_handoff w', r))"
  using assms by (auto simp: continue_login_def continue_handoff_after_line_def Let_def
      split: option.splits prod.splits)

lemma complete_frame:
  assumes "complete_handoff lib t1 t2 code emps grants r w = (w', out)"
  shows "lw_states w' = lw_states w" "lw_waits w' = lw_waits w" "lw_handoff w' = lw_handoff w"
  using assms by (auto simp: complete_handoff_def split: option.splits prod.splits)

lemma callback_cases:
  assumes "line_callback lib env q c w = (w', out)"
  obtains (refused) "w' = w" "\<forall>s. out \<noteq> LnOidc s" "out \<noteq> LnSignedIn"
    | (spent) st r where "validate_state (cb_now c) (cb_now' c) (or_else (cq_state q) []) (lw_states w) = (st, r)"
        "w' = w\<lparr>lw_states := st\<rparr>" "\<forall>s. out \<noteq> LnOidc s" "out \<noteq> LnSignedIn"
    | (passed) st stored p redirect qr where
        "validate_state (cb_now c) (cb_now' c) (or_else (cq_state q) []) (lw_states w) = (st, True, stored)"
        "truthy (cq_state q)" "callback_target stored (cq_redirect q) = (redirect, qr)" "cb_profile c = Some p"
        "continue_login lib env redirect qr p c (w\<lparr>lw_states := st\<rparr>) = (w', out)"
proof (cases "truthy (cq_error q) \<or> \<not> truthy (cq_code q) \<or> \<not> truthy (cq_state q)")
  case True
  then show ?thesis using assms that(1) by (auto simp: line_callback_def split: if_splits)
next
  case False
  obtain st ok stored where v:
    "validate_state (cb_now c) (cb_now' c) (or_else (cq_state q) []) (lw_states w) = (st, ok, stored)"
    by (metis prod.exhaust)
  obtain redirect qr where t: "callback_target stored (cq_redirect q) = (redirect, qr)" by fastforce
  show ?thesis
  proof (cases "ok \<and> cb_profile c \<noteq> None")
    case True
    then show ?thesis using assms False v t that(3) by (auto simp: line_callback_def Let_def)
  next
    case bad: False
    then show ?thesis using assms False v t that(2) [OF v]
      by (auto simp: line_callback_def Let_def split: if_splits option.splits)
  qed
qed

lemma callback_waits:
  assumes "waits_ok w" "line_callback lib env q c w = (w', out)"
  shows "waits_ok w'"
  using assms(2)
proof (cases rule: callback_cases)
  case (passed st stored p redirect qr)
  note F = continue_login_waits [OF passed(5)]
  have "handoff_inv (lw_handoff w') \<and> waiters (lw_handoff w') = waiters (lw_handoff w)"
    using F(3) assms(1) resolve_ticket_inv by (fastforce simp: waits_ok_def)
  then show ?thesis using F(2) by (intro waits_ok_cong [OF assms(1)]) simp_all
qed (use assms(1) in \<open>auto simp: waits_ok_def\<close>)

lemma poll_waits:
  assumes ok: "waits_ok w" and p: "handoff_poll lib rid now clk t1 t2 code emps grants w = (w', out)"
  shows "waits_ok w'"
proof (cases "map_of (lw_waits w) rid")
  case None
  then show ?thesis using ok p by (simp add: handoff_poll_def)
next
  case (Some v)
  obtain cookie deadline where v: "v = (cookie, deadline)" by fastforce
  obtain hs r where t: "take_resolved cookie now (lw_handoff w) = (hs, r)" by fastforce
  let ?w = "w\<lparr>lw_handoff := hs\<rparr>"
  have w1: "waits_ok ?w" using take_resolved_inv [OF _ t] ok by (auto simp: waits_ok_def active_waiters_def)
  have w2: "waits_ok (end_wait rid ?w)" using end_wait_ok [OF w1, of rid v] Some by simp
  have "waits_ok w'" if "complete_handoff lib t1 t2 code emps grants x (end_wait rid ?w) = (w', out)" for x
    using complete_frame [OF that] w2 by (simp add: waits_ok_def)
  then show ?thesis using p Some v t w1 w2
    by (auto simp: handoff_poll_def split: sum.splits option.splits if_splits)
qed

lemma wait_waits:
  assumes ok: "waits_ok w" and s: "handoff_wait env rid cookie now deadline w = (w', out)"
  shows "waits_ok w'"
proof (cases "w' = w")
  case False
  then have new: "map_of (lw_waits w) rid = None"
    using s by (cases "map_of (lw_waits w) rid") (auto simp: handoff_wait_def)
  have acq: "try_acquire_waiter (lw_handoff w) = (lw_handoff w', True)"
    and upd: "lw_waits w' = AList.update rid (cookie, deadline) (lw_waits w)"
    using s False by (auto simp: handoff_wait_def split: if_splits sum.splits option.splits prod.splits bool.splits)
  have "waiters (lw_handoff w') = Suc (waiters (lw_handoff w))"
    using acq by (auto simp: try_acquire_waiter_def dest: arg_cong [where f = waiters] split: if_splits)
  moreover have "handoff_inv (lw_handoff w')"
    using acq ok handoff_step_inv [of "lw_handoff w" TryAcquireWaiter] by (simp add: waits_ok_def)
  moreover have "length (lw_waits w') = Suc (length (lw_waits w))"
    unfolding upd using new by (rule length_update_absent)
  ultimately show ?thesis using ok upd by (simp add: waits_ok_def active_waiters_def dict_simps)
qed (use ok in simp)

lemma line_step_waits: "waits_ok w \<Longrightarrow> waits_ok (fst (line_step lib template w ev))"
proof (cases ev)
  case (Login env req redirect qr d)
  assume ok: "waits_ok w"
  obtain w' out where s: "line_login lib env template req redirect qr d w = (w', out)" by fastforce
  note F = login_frame [OF s]
  have "handoff_inv (lw_handoff w') \<and> waiters (lw_handoff w') = waiters (lw_handoff w)"
    using F(3) ok create_ticket_inv by (fastforce simp: waits_ok_def)
  then show ?thesis using waits_ok_cong [OF ok] F(2) Login s by simp
next
  case (Callback env q c)
  assume "waits_ok w"
  then show ?thesis using Callback callback_waits
    by (cases "line_callback lib env q c w") auto
next
  case (HandoffWait env rid cookie now deadline)
  assume "waits_ok w"
  then show ?thesis using HandoffWait wait_waits
    by (cases "handoff_wait env rid cookie now deadline w") auto
next
  case (HandoffPoll rid now clk t1 t2 code emps grants)
  assume "waits_ok w"
  then show ?thesis using HandoffPoll poll_waits
    by (cases "handoff_poll lib rid now clk t1 t2 code emps grants w") auto
qed (auto simp: verify_token_def waits_ok_def split: prod.splits)

interpretation line_waits: machine "line_step lib template" waits_ok for lib template
  by unfold_locales (rule line_step_waits)

lemma new_waits_ok: "waits_ok new_line_world"
  by (simp add: waits_ok_def new_line_world_def empty_store_inv) (simp add: empty_store_def active_waiters_def)

text \<open>
  Whatever requests arrive, the hand-off keeps at most 500 tickets and 32 waiting tabs, and the
  counter of waiting tabs is the number of tabs that really wait: no way through the endpoints
  leaks a place.
\<close>

theorem waiting_tabs_counted:
  assumes "run (line_step lib template) new_line_world es = (w, h)"
  shows "length (tickets (lw_handoff w)) \<le> 500 \<and> active_waiters (lw_handoff w) = length (lw_waits w)
    \<and> length (lw_waits w) \<le> 32"
  using line_waits.inv_run [OF new_waits_ok assms]
  by (simp add: waits_ok_def handoff_inv_def MAX_TICKETS_def MAX_CONCURRENT_WAITERS_def active_waiters_def)

section \<open>What stands behind a login\<close>

type_synonym line_history = "(line_event \<times> line_response) list"

definition line_configured :: "oidc_lib \<Rightarrow> bool" where
  "line_configured lib \<longleftrightarrow> channel_id (ol_line lib) \<noteq> [] \<and> channel_id (ol_line lib) \<noteq> ''your_channel_id''"

text \<open>
  The state of a callback was handed out by a \<open>/login\<close> at most ten minutes before; LINE then
  named a user in this callback.
\<close>

definition state_fresh :: "line_history \<Rightarrow> callback_query \<Rightarrow> callback_context \<Rightarrow> bool" where
  "state_fresh h q c \<longleftrightarrow> (\<exists>env req redirect qr d out. (Login env req redirect qr d, out) \<in> set h
     \<and> cq_state q = Some (ld_state d) \<and> cb_now c - ld_state_time d \<le> 600 \<and> out \<noteq> LnBadRequest \<and> out \<noteq> LnServerError)"

definition line_named :: "line_history \<Rightarrow> str \<Rightarrow> callback_query \<Rightarrow> callback_context \<Rightarrow> bool" where
  "line_named h user q c \<longleftrightarrow> state_fresh h q c \<and> (\<exists>p. cb_profile c = Some p \<and> lp_user p = user)"

definition vouched :: "line_history \<Rightarrow> str \<Rightarrow> bool" where
  "vouched h user \<longleftrightarrow> (\<exists>env q c out. (Callback env q c, out) \<in> set h \<and> line_named h user q c
     \<and> (out = LnSignedIn \<or> (\<exists>url. out = LnOidc (RedirectTo url))))"

definition states_backed :: "oidc_lib \<Rightarrow> line_history \<Rightarrow> state_store \<Rightarrow> bool" where
  "states_backed lib h d \<longleftrightarrow> dict_ok d \<and> (\<forall>st ts hint. map_of d st = Some (ts, hint) \<longrightarrow> line_configured lib
     \<and> (\<exists>env req redirect qr dr out. (Login env req redirect qr dr, out) \<in> set h \<and> st = ld_state dr
          \<and> ts = ld_state_time dr \<and> out \<noteq> LnBadRequest \<and> out \<noteq> LnServerError))"

text \<open>A history of the hand-off store, and of the provider, each step of which \<open>h\<close> explains.\<close>

definition page_served :: "oidc_lib \<Rightarrow> line_history \<Rightarrow> str \<Rightarrow> str option \<Rightarrow> str \<Rightarrow> str \<Rightarrow> bool" where
  "page_served lib h hint ip tid secret \<longleftrightarrow> (line_configured lib \<longrightarrow>
     (\<exists>env req redirect qr d url sec. (Login env req redirect qr d, LnHandoffPage url (tid @ ''.'' @ secret) sec) \<in> set h
        \<and> ip = Some (request_ip env req) \<and> hint = or_else (combined_hint redirect qr) []))"

definition resolved_for :: "oidc_lib \<Rightarrow> line_history \<Rightarrow> str \<Rightarrow> str option \<Rightarrow> bool" where
  "resolved_for lib h user ip \<longleftrightarrow> line_configured lib \<and> (\<exists>env q c. (Callback env q c, LnSignedIn) \<in> set h
     \<and> line_named h user q c \<and> ip = Some (request_ip env (cb_request c)))"

definition handoff_backed :: "oidc_lib \<Rightarrow> line_history \<Rightarrow> handoff_store \<Rightarrow> bool" where
  "handoff_backed lib h s \<longleftrightarrow> (\<exists>hs. delivery_inv hs s
     \<and> (\<forall>hint ip now ttl tid secret nt. (CreateTicket hint ip now ttl tid secret, Created (Some nt)) \<in> set hs
          \<longrightarrow> page_served lib h hint ip tid secret)
     \<and> (\<forall>tid user n p ip now. (ResolveTicket tid user n p ip now, ResolvedAs (Inr RESOLVE_OK)) \<in> set hs
          \<longrightarrow> resolved_for lib h user ip))"

definition provider_backed :: "line_history \<Rightarrow> oidc_state \<Rightarrow> bool" where
  "provider_backed h s \<longleftrightarrow> (\<exists>hp. provenance hp s
     \<and> (\<forall>t t' code tid user name picture emps grants url.
          (LineReturn t t' code tid user name picture emps grants, RedirectTo url) \<in> set hp \<longrightarrow> vouched h user)
     \<and> (\<forall>ev out. provider_endpoint ev \<longrightarrow> (ev, out) \<in> set hp \<longrightarrow> (AtProvider ev, LnOidc out) \<in> set h))"

definition waits_backed :: "line_history \<Rightarrow> (nat, str option \<times> real) dict \<Rightarrow> bool" where
  "waits_backed h d \<longleftrightarrow> dict_ok d \<and> (\<forall>rid cookie deadline. map_of d rid = Some (cookie, deadline)
     \<longrightarrow> (\<exists>env now. (HandoffWait env rid cookie now deadline, LnParked) \<in> set h))"

definition line_backed :: "oidc_lib \<Rightarrow> line_history \<Rightarrow> line_world \<Rightarrow> bool" where
  "line_backed lib h w \<longleftrightarrow> states_backed lib h (lw_states w) \<and> handoff_backed lib h (lw_handoff w)
     \<and> provider_backed h (lw_oidc w) \<and> waits_backed h (lw_waits w)"

named_theorems later

lemma state_fresh_mono [later]: "state_fresh h q c \<Longrightarrow> state_fresh (h @ h') q c"
  unfolding state_fresh_def by fastforce

lemma line_named_mono [later]: "line_named h u q c \<Longrightarrow> line_named (h @ h') u q c"
  unfolding line_named_def using state_fresh_mono by blast

lemma vouched_mono [later]: "vouched h u \<Longrightarrow> vouched (h @ h') u"
  unfolding vouched_def using line_named_mono by fastforce

lemma page_served_mono [later]: "page_served lib h hint ip tid secret \<Longrightarrow> page_served lib (h @ h') hint ip tid secret"
  unfolding page_served_def by fastforce

lemma resolved_for_mono [later]: "resolved_for lib h u ip \<Longrightarrow> resolved_for lib (h @ h') u ip"
  unfolding resolved_for_def using line_named_mono by fastforce

lemma states_backed_mono [later]: "states_backed lib h d \<Longrightarrow> states_backed lib (h @ h') d"
  unfolding states_backed_def by fastforce

lemma handoff_backed_mono [later]: "handoff_backed lib h s \<Longrightarrow> handoff_backed lib (h @ h') s"
  unfolding handoff_backed_def using page_served_mono resolved_for_mono by metis

lemma provider_backed_mono [later]: "provider_backed h s \<Longrightarrow> provider_backed (h @ h') s"
  unfolding provider_backed_def using vouched_mono by (metis Un_iff set_append)

lemma waits_backed_mono [later]: "waits_backed h d \<Longrightarrow> waits_backed (h @ h') d"
  unfolding waits_backed_def by fastforce

section \<open>Every step keeps the account\<close>

lemma states_backed_validate:
  assumes "states_backed lib h d" "validate_state t t' st d = (d', r)"
  shows "states_backed lib h d'"
proof -
  have "dict_ok d'" using assms by (auto simp: states_backed_def intro: validate_state_ok)
  moreover have "map_of d k = Some v" if "map_of d' k = Some v" for k v
    using assms that by (auto simp: states_backed_def validate_state_def cleanup_expired_states_def Let_def
        dict_simps split: option.splits prod.splits if_splits)
  ultimately show ?thesis using assms(1) unfolding states_backed_def by blast
qed

lemma validated_fresh:
  assumes "states_backed lib h d" "truthy (cq_state q)"
    and "validate_state (cb_now c) t' (or_else (cq_state q) []) d = (d', True, hint)"
  shows "state_fresh h q c \<and> line_configured lib"
proof -
  obtain st where st: "cq_state q = Some st" "or_else (cq_state q) [] = st"
    using assms(2) by (cases "cq_state q") (auto simp: or_else_def)
  have "dict_ok d" using assms(1) by (simp add: states_backed_def)
  from validate_state_True [OF this assms(3)] obtain ts where
    ts: "map_of d st = Some (ts, hint)" "cb_now c - ts \<le> 600" by (auto simp: st(2) STATE_TTL_def)
  then obtain env req redirect qr dr out where dr: "(Login env req redirect qr dr, out) \<in> set h" "st = ld_state dr"
      "ts = ld_state_time dr" "out \<noteq> LnBadRequest" "out \<noteq> LnServerError" "line_configured lib"
    using assms(1) unfolding states_backed_def by blast
  then show ?thesis using st(1) ts(2) unfolding state_fresh_def by blast
qed

lemma login_states:
  assumes b: "states_backed lib h (lw_states w)" and s: "line_login lib env template req redirect qr d w = (w', out)"
  shows "states_backed lib (h @ [(Login env req redirect qr d, out)]) (lw_states w')"
proof (cases "lw_states w' = lw_states w")
  case True
  then show ?thesis using b by (simp add: later)
next
  case False
  then obtain hint mobile url where g: "generate_authorization_url (ol_line lib) None (ld_state d) hint mobile
      (Some (user_agent req)) (ld_state_time d) (ld_sweep_time d) (lw_states w) = (lw_states w', Some (url, ld_state d))"
      and out: "out \<noteq> LnBadRequest" "out \<noteq> LnServerError"
    using s by (fastforce simp: line_login_def generate_authorization_url_def Let_def
        split: if_splits prod.splits option.splits)
  have ok: "dict_ok (lw_states w)" using b by (simp add: states_backed_def)
  have conf: "line_configured lib" using g by (auto simp: generate_authorization_url_def line_configured_def split: if_splits)
  have st: "lw_states w' = cleanup_expired_states (ld_sweep_time d) (AList.update (ld_state d) (ld_state_time d, hint) (lw_states w))"
    using g by (auto simp: generate_authorization_url_def Let_def split: if_splits)
  have "dict_ok (lw_states w')" using ok by (simp add: st cleanup_expired_states_def dict_simps)
  moreover have "k = ld_state d \<and> v = (ld_state_time d, hint) \<or> map_of (lw_states w) k = Some v"
    if "map_of (lw_states w') k = Some v" for k v
    using that ok by (auto simp: st cleanup_expired_states_def dict_simps split: option.splits if_splits)
  ultimately show ?thesis using b conf out unfolding states_backed_def by fastforce
qed

lemma create_ticket_Some:
  "create_ticket hint ip now ttl tid secret s = (s', Some nt) \<Longrightarrow> nt = \<lparr>ticket_id = tid, cookie_value = tid @ ''.'' @ secret\<rparr>"
  by (auto simp: create_ticket_def Let_def split: if_splits)

lemma generate_configured:
  "line_configured lib \<Longrightarrow> \<exists>url. snd (generate_authorization_url (ol_line lib) None fresh hint qr ua t t' d) = Some (url, fresh)"
  by (simp add: generate_authorization_url_def line_configured_def Let_def)

lemma login_created:
  assumes s: "line_login lib env template req redirect qr d w = (w', out)"
  shows "lw_handoff w' = lw_handoff w \<or>
    (\<exists>r. create_ticket (or_else (combined_hint redirect qr) []) (Some (request_ip env req)) (ld_ticket_time d)
        (ld_ttl d) (ld_ticket d) (ld_secret d) (lw_handoff w) = (lw_handoff w', r)
      \<and> (r \<noteq> None \<longrightarrow> line_configured lib
           \<longrightarrow> (\<exists>url sec. out = LnHandoffPage url (ld_ticket d @ ''.'' @ ld_secret d) sec)))"
proof (cases "lw_handoff w' = lw_handoff w")
  case False
  obtain r where r: "create_ticket (or_else (combined_hint redirect qr) []) (Some (request_ip env req))
      (ld_ticket_time d) (ld_ttl d) (ld_ticket d) (ld_secret d) (lw_handoff w) = (lw_handoff w', r)"
    and app: "handoff_applies env template (combined_hint redirect qr) (is_mobile (user_agent req)) (user_agent req)"
      "\<not> startswith (or_else (combined_hint redirect qr) []) ''handoff:''"
    using s False by (auto simp: line_login_def Let_def split: if_splits prod.splits option.splits)
  have "\<exists>url sec. out = LnHandoffPage url (ld_ticket d @ ''.'' @ ld_secret d) sec"
    if nt: "r = Some nt" and conf: "line_configured lib" for nt
  proof -
    obtain url where "snd (generate_authorization_url (ol_line lib) None (ld_state d) (Some (''handoff:'' @ ld_ticket d))
        (\<not> is_mobile (user_agent req)) (Some (user_agent req)) (ld_state_time d) (ld_sweep_time d) (lw_states w))
        = Some (url, ld_state d)"
      using generate_configured [OF conf] by blast
    then show ?thesis using s r app create_ticket_Some [OF r [unfolded nt]] nt
      by (auto simp: line_login_def Let_def split: prod.splits)
  qed
  then show ?thesis using r by (cases r) auto
qed simp

lemma handoff_backed_snoc:
  assumes b: "handoff_backed lib h s" and step: "handoff_step s e = (s', out)"
    and created: "\<And>hint ip now ttl tid secret nt. e = CreateTicket hint ip now ttl tid secret
      \<Longrightarrow> out = Created (Some nt) \<Longrightarrow> page_served lib (h @ h') hint ip tid secret"
    and resolved: "\<And>tid user n p ip now. e = ResolveTicket tid user n p ip now
      \<Longrightarrow> out = ResolvedAs (Inr RESOLVE_OK) \<Longrightarrow> resolved_for lib (h @ h') user ip"
  shows "handoff_backed lib (h @ h') s'"
proof -
  obtain hs where hs: "delivery_inv hs s"
      "\<And>hint ip now ttl tid secret nt. (CreateTicket hint ip now ttl tid secret, Created (Some nt)) \<in> set hs
        \<Longrightarrow> page_served lib (h @ h') hint ip tid secret"
      "\<And>tid user n p ip now. (ResolveTicket tid user n p ip now, ResolvedAs (Inr RESOLVE_OK)) \<in> set hs
        \<Longrightarrow> resolved_for lib (h @ h') user ip"
    using b page_served_mono resolved_for_mono unfolding handoff_backed_def by metis
  have "delivery_inv (hs @ [(e, out)]) s'" using hs(1) step by (rule delivery_step)
  then show ?thesis unfolding handoff_backed_def
    by (rule exI [where x = "hs @ [(e, out)]", OF conjI])
       (auto dest: hs(2,3) simp: created resolved)
qed

lemma login_handoff:
  assumes b: "handoff_backed lib h (lw_handoff w)" and s: "line_login lib env template req redirect qr d w = (w', out)"
  shows "handoff_backed lib (h @ [(Login env req redirect qr d, out)]) (lw_handoff w')"
    (is "handoff_backed lib ?h _")
proof (cases "lw_handoff w' = lw_handoff w")
  case True
  then show ?thesis using b by (simp add: later)
next
  case False
  obtain r where r: "create_ticket (or_else (combined_hint redirect qr) []) (Some (request_ip env req))
      (ld_ticket_time d) (ld_ttl d) (ld_ticket d) (ld_secret d) (lw_handoff w) = (lw_handoff w', r)"
      "r \<noteq> None \<longrightarrow> line_configured lib \<longrightarrow> (\<exists>url sec. out = LnHandoffPage url (ld_ticket d @ ''.'' @ ld_secret d) sec)"
    using login_created [OF s] False by auto
  have served: "page_served lib ?h (or_else (combined_hint redirect qr) []) (Some (request_ip env req)) (ld_ticket d) (ld_secret d)"
    if "r \<noteq> None"
    using r(2) that unfolding page_served_def by fastforce
  have step: "handoff_step (lw_handoff w) (CreateTicket (or_else (combined_hint redirect qr) [])
      (Some (request_ip env req)) (ld_ticket_time d) (ld_ttl d) (ld_ticket d) (ld_secret d)) = (lw_handoff w', Created r)"
    using r(1) by simp
  show ?thesis by (rule handoff_backed_snoc [OF b step]) (auto simp: served)
qed

lemma login_backed:
  assumes "line_backed lib h w" "line_login lib env template req redirect qr d w = (w', out)"
  shows "line_backed lib (h @ [(Login env req redirect qr d, out)]) w'"
  using assms(1) login_frame(1,2) [OF assms(2)] login_states [OF _ assms(2)] login_handoff [OF _ assms(2)]
  by (simp add: line_backed_def later)

text \<open>The provider: a step of its own, or one that leaves its stores alone.\<close>

lemma provider_snoc:
  assumes b: "provider_backed h s" and step: "oidc_step lib s e = (s', out)"
    and returned: "\<And>t t' code tid user name picture emps grants url.
      e = LineReturn t t' code tid user name picture emps grants \<Longrightarrow> out = RedirectTo url \<Longrightarrow> vouched (h @ h') user"
    and asked: "provider_endpoint e \<Longrightarrow> (AtProvider e, LnOidc out) \<in> set (h @ h')"
  shows "provider_backed (h @ h') s'"
proof -
  obtain hp where hp: "provenance hp s"
      "\<And>t t' code tid user name picture emps grants url.
         (LineReturn t t' code tid user name picture emps grants, RedirectTo url) \<in> set hp \<Longrightarrow> vouched (h @ h') user"
      "\<And>ev out. provider_endpoint ev \<Longrightarrow> (ev, out) \<in> set hp \<Longrightarrow> (AtProvider ev, LnOidc out) \<in> set (h @ h')"
    using b vouched_mono unfolding provider_backed_def by (metis Un_iff set_append)
  have "provenance (hp @ [(e, out)]) s'" using hp(1) step by (rule oidc_provenance)
  then show ?thesis unfolding provider_backed_def
    by (rule exI [where x = "hp @ [(e, out)]", OF conjI]) (use hp(2,3) returned asked in auto)
qed

lemma provider_same:
  assumes "provider_backed h s" "os_tickets s' = os_tickets s" "os_codes s' = os_codes s" "os_tokens s' = os_tokens s"
  shows "provider_backed (h @ h') s'"
proof -
  have "provider_backed (h @ h') s" using assms(1) by (rule provider_backed_mono)
  then show ?thesis using provenance_mono [OF _ assms(2-4), of _ "[]"] unfolding provider_backed_def by fastforce
qed

lemma mint_assertion_stores:
  assumes "mint_assertion lib env t i app w = (w', a)"
  shows "os_tickets (rw_oidc w') = os_tickets (rw_oidc w) \<and> os_codes (rw_oidc w') = os_codes (rw_oidc w)
    \<and> os_tokens (rw_oidc w') = os_tokens (rw_oidc w)"
  using assms mint_stores by (fastforce simp: mint_assertion_def split: prod.splits)

definition same_stores :: "reader_world \<Rightarrow> reader_world \<Rightarrow> bool" where
  "same_stores w w' \<longleftrightarrow> os_tickets (rw_oidc w') = os_tickets (rw_oidc w) \<and> os_codes (rw_oidc w') = os_codes (rw_oidc w)
     \<and> os_tokens (rw_oidc w') = os_tokens (rw_oidc w)"

lemma same_stores_refl [simp]: "rw_oidc w' = rw_oidc w \<Longrightarrow> same_stores w w'"
  by (simp add: same_stores_def)

lemma answer_tap_same: "answer_tap lib env t app r w = (w', out) \<Longrightarrow> same_stores w w'"
  using mint_assertion_stores by (fastforce simp: answer_tap_def same_stores_def split: if_splits prod.splits option.splits)

lemma admit_same: "admit_elevation lib env ticket t2 t3 r e grants w = (w', out) \<Longrightarrow> same_stores w w'"
  using mint_assertion_stores
  by (fastforce simp: admit_elevation_def same_stores_def split: if_splits prod.splits option.splits bool.splits)

lemma elevate_same:
  "continue_elevate_after_line lib env ticket user name picture t1 t2 t3 emps grants w = (w', out) \<Longrightarrow> same_stores w w'"
  by (auto simp: continue_elevate_after_line_def dest: admit_same split: option.splits if_splits)

lemma no_answer_same: "no_answer_yet rid clk deadline w = (w', out) \<Longrightarrow> same_stores w w'"
  by (auto simp: no_answer_yet_def unpark_def split: if_splits)

lemma poll_same: "poll lib env rid now clk t emps w = (w', out) \<Longrightarrow> same_stores w w'"
  by (auto simp: poll_def poll_tap_def poll_self_def poll_elevate_def unpark_def
      dest!: answer_tap_same no_answer_same simp: same_stores_def
      split: option.splits prod.splits parked.splits)

lemma guarded_same:
  "guarded header expected f w = (w', out) \<Longrightarrow> (\<And>w' out. f w = (w', out) \<Longrightarrow> same_stores w w') \<Longrightarrow> same_stores w w'"
  by (auto simp: guarded_def split: option.splits)

lemma reader_same: "reader_step lib w ev = (w', out) \<Longrightarrow> same_stores w w'"
  by (cases ev)
     (auto dest!: guarded_same poll_same elevate_same simp: resolve_card_def resolve_badge_def scan_card_def
        claim_reader_def wait_for_tap_def elevate_start_def elevate_wait_def self_login_start_def
        self_login_wait_def elevate_confirm_page_def park_def Let_def same_stores_def
        split: option.splits if_splits)

lemma reader_provider:
  "provider_backed h (rw_oidc w) \<Longrightarrow> same_stores w w' \<Longrightarrow> provider_backed (h @ h') (rw_oidc w')"
  by (rule provider_same) (auto simp: same_stores_def)

lemma continue_login_cases:
  assumes "continue_login lib env redirect qr p c w = (w', out)"
  obtains (handoff) tid hs r where "resolve_ticket tid (lp_user p) (Some (lp_name p)) (Some (lp_picture p))
        (Some (request_ip env (cb_request c))) (cb_t1 c) (lw_handoff w) = (hs, r)" "w' = w\<lparr>lw_handoff := hs\<rparr>"
        "r = Inr RESOLVE_OK \<longrightarrow> out = LnSignedIn"
    | (oidc) tid s out' where "continue_oidc_after_line lib (cb_t1 c) (cb_t2 c) (cb_code c) tid (lp_user p)
        (Some (lp_name p)) (Some (lp_picture p)) (cb_employees c) (cb_grants c) (lw_oidc w) = (s, out')"
        "w' = set_oidc s w" "out = LnOidc out'"
    | (elevate) tid rw out' where "continue_elevate_after_line lib env tid (lp_user p) (Some (lp_name p))
        (Some (lp_picture p)) (cb_t1 c) (cb_t2 c) (cb_t3 c) (cb_employees c) (cb_grants c) (lw_reader w) = (rw, out')"
        "w' = w\<lparr>lw_reader := rw\<rparr>"
    | (landing) "w' = w"
proof (cases "after_prefix ''handoff:'' redirect")
  case (Some tid)
  then show ?thesis using assms that(1)
    by (auto simp: continue_login_def continue_handoff_after_line_def Let_def split: prod.splits)
next
  case h: None
  show ?thesis
  proof (cases "after_prefix ''oidc:'' redirect")
    case (Some tid)
    then show ?thesis using assms h that(2) by (auto simp: continue_login_def Let_def split: prod.splits)
  next
    case o: None
    show ?thesis
    proof (cases "after_prefix ''elevate:'' redirect")
      case (Some tid)
      then show ?thesis using assms h o that(3) by (auto simp: continue_login_def Let_def split: prod.splits)
    next
      case None
      then show ?thesis using assms h o that(4) by (simp add: continue_login_def Let_def)
    qed
  qed
qed

lemma line_backed_parts:
  assumes "line_backed lib h w"
  shows "states_backed lib (h @ h') (lw_states w)" "handoff_backed lib (h @ h') (lw_handoff w)"
    "provider_backed (h @ h') (lw_oidc w)" "waits_backed (h @ h') (lw_waits w)"
  using assms by (simp_all add: line_backed_def later)

lemma callback_backed:
  assumes b: "line_backed lib h w" and s: "line_callback lib env q c w = (w', out)"
  shows "line_backed lib (h @ [(Callback env q c, out)]) w'" (is "line_backed lib ?h w'")
  using s
proof (cases rule: callback_cases)
  case refused
  then show ?thesis using b by (simp add: line_backed_def later)
next
  case (spent st r)
  then show ?thesis using b states_backed_validate [OF _ spent(1)] by (simp add: line_backed_def later)
next
  case (passed st stored p redirect qr)
  note parts = line_backed_parts [OF b, of "[(Callback env q c, out)]"]
  have st: "states_backed lib ?h st" using states_backed_validate [OF parts(1) passed(1)] .
  have named: "line_named ?h (lp_user p) q c" "line_configured lib"
    using validated_fresh [OF parts(1) passed(2,1)] passed(4) by (auto simp: line_named_def)
  show ?thesis using passed(5)
  proof (cases rule: continue_login_cases)
    case (handoff tid hs r)
    have step: "handoff_step (lw_handoff w) (ResolveTicket tid (lp_user p) (Some (lp_name p)) (Some (lp_picture p))
        (Some (request_ip env (cb_request c))) (cb_t1 c)) = (hs, ResolvedAs r)" using handoff(1) by simp
    have "handoff_backed lib ?h hs"
    proof (rule handoff_backed_snoc [OF _ step])
      show "handoff_backed lib h (lw_handoff w)" using b by (simp add: line_backed_def)
      fix tid' user n pc ip now
      assume "ResolveTicket tid (lp_user p) (Some (lp_name p)) (Some (lp_picture p))
          (Some (request_ip env (cb_request c))) (cb_t1 c) = ResolveTicket tid' user n pc ip now"
        "ResolvedAs r = ResolvedAs (Inr RESOLVE_OK)"
      then show "resolved_for lib ?h user ip" using handoff(3) named unfolding resolved_for_def by auto
    qed simp
    then show ?thesis using handoff(2) st parts(3,4) by (simp add: line_backed_def)
  next
    case (oidc tid s out')
    have step: "oidc_step lib (lw_oidc w) (LineReturn (cb_t1 c) (cb_t2 c) (cb_code c) tid (lp_user p)
        (Some (lp_name p)) (Some (lp_picture p)) (cb_employees c) (cb_grants c)) = (s, out')"
      using oidc(1) by simp
    have v: "vouched ?h (lp_user p)" if "out' = RedirectTo url" for url
      unfolding vouched_def using that oidc(3) named(1)
      by (intro exI [of _ env] exI [of _ q] exI [of _ c] exI [of _ out]) simp
    have "provider_backed ?h s"
    proof (rule provider_snoc [OF _ step])
      show "provider_backed h (lw_oidc w)" using b by (simp add: line_backed_def)
    qed (use v in \<open>auto simp: provider_endpoint_def\<close>)
    then show ?thesis using oidc(2) st parts(2,4) by (simp add: line_backed_def)
  next
    case (elevate tid rw out')
    have "same_stores (lw_reader w) rw" using elevate_same [OF elevate(1)] by simp
    moreover have "provider_backed h (lw_oidc w)" using b by (simp add: line_backed_def)
    ultimately have "provider_backed ?h (rw_oidc rw)" by (rule reader_provider [rotated])
    then show ?thesis using elevate(2) st parts(2,4) by (simp add: line_backed_def)
  next
    case landing
    then show ?thesis using st parts by (simp add: line_backed_def)
  qed
qed

lemma wait_backed:
  assumes b: "line_backed lib h w" and s: "handoff_wait env rid cookie now deadline w = (w', out)"
  shows "line_backed lib (h @ [(HandoffWait env rid cookie now deadline, out)]) w'"
proof (cases "w' = w")
  case True
  then show ?thesis using line_backed_parts [OF b] by (simp add: line_backed_def)
next
  case False
  note parts = line_backed_parts [OF b, of "[(HandoffWait env rid cookie now deadline, out)]"]
  have w': "try_acquire_waiter (lw_handoff w) = (lw_handoff w', True)" "lw_states w' = lw_states w"
      "lw_reader w' = lw_reader w" "lw_waits w' = AList.update rid (cookie, deadline) (lw_waits w)" "out = LnParked"
    using s False by (auto simp: handoff_wait_def split: if_splits sum.splits option.splits prod.splits bool.splits)
  have step: "handoff_step (lw_handoff w) TryAcquireWaiter = (lw_handoff w', Acquired True)" using w'(1) by simp
  have "handoff_backed lib (h @ [(HandoffWait env rid cookie now deadline, out)]) (lw_handoff w')"
    by (rule handoff_backed_snoc [OF _ step]) (use b in \<open>simp_all add: line_backed_def\<close>)
  moreover have "waits_backed (h @ [(HandoffWait env rid cookie now deadline, out)]) (lw_waits w')"
    unfolding waits_backed_def
  proof (intro conjI allI impI)
    show "dict_ok (lw_waits w')" using parts(4) by (simp add: w'(4) waits_backed_def dict_simps)
    fix rid' cookie' deadline'
    assume "map_of (lw_waits w') rid' = Some (cookie', deadline')"
    then consider "rid' = rid" "cookie' = cookie" "deadline' = deadline"
        | "map_of (lw_waits w) rid' = Some (cookie', deadline')"
      unfolding w'(4) map_of_update by (cases "rid' = rid") simp_all
    then show "\<exists>env' now'. (HandoffWait env' rid' cookie' now' deadline', LnParked)
        \<in> set (h @ [(HandoffWait env rid cookie now deadline, out)])"
    proof cases
      case 1
      then show ?thesis using w'(5) by auto
    next
      case 2
      then show ?thesis using parts(4) unfolding waits_backed_def by blast
    qed
  qed
  ultimately show ?thesis using parts(1,3) w'(2,3) by (simp add: line_backed_def)
qed

text \<open>What a resolved ticket tells: the page it was made for and the callback that resolved it.\<close>

definition handed_over :: "line_history \<Rightarrow> str \<Rightarrow> str \<Rightarrow> str \<Rightarrow> bool" where
  "handed_over h hint cookie user \<longleftrightarrow> (\<exists>env req redirect qr d url sec env' q c.
     (Login env req redirect qr d, LnHandoffPage url cookie sec) \<in> set h \<and> hint = or_else (combined_hint redirect qr) []
     \<and> (Callback env' q c, LnSignedIn) \<in> set h \<and> line_named h user q c
     \<and> request_ip env req = request_ip env' (cb_request c))"

lemma or_else_Some [simp]: "or_else (Some x) [] = x"
  by (simp add: or_else_def)

lemma ticket_story:
  assumes b: "handoff_backed lib h s" and t: "map_of (tickets s) tid = Some r" "t_status r = Resolved"
  shows "\<exists>user. t_line_user_id r = Some user \<and> handed_over h (t_inner_hint r) (tid @ ''.'' @ t_holder_secret r) user"
proof -
  obtain hs where hs: "delivery_inv hs s"
      "\<And>hint ip now ttl tid secret nt. (CreateTicket hint ip now ttl tid secret, Created (Some nt)) \<in> set hs
        \<Longrightarrow> page_served lib h hint ip tid secret"
      "\<And>tid user n p ip now. (ResolveTicket tid user n p ip now, ResolvedAs (Inr RESOLVE_OK)) \<in> set hs
        \<Longrightarrow> resolved_for lib h user ip"
    using b unfolding handoff_backed_def by blast
  from hs(1) t have c: "was_created hs tid r" "was_resolved hs tid r" by (auto simp: delivery_inv_def)
  obtain ip where ip: "page_served lib h (t_inner_hint r) ip tid (t_holder_secret r)" "t_client_ip r = or_else ip []"
    using c(1) hs(2) unfolding was_created_def by blast
  obtain user ip' where u: "resolved_for lib h user ip'" "t_line_user_id r = Some user" "or_else ip' [] = t_client_ip r"
    using c(2) hs(3) unfolding was_resolved_def by blast
  have "line_configured lib" using u(1) by (simp add: resolved_for_def)
  then obtain env req redirect qr d url sec where login:
      "(Login env req redirect qr d, LnHandoffPage url (tid @ ''.'' @ t_holder_secret r) sec) \<in> set h"
      "ip = Some (request_ip env req)" "t_inner_hint r = or_else (combined_hint redirect qr) []"
    using ip(1) unfolding page_served_def by blast
  obtain env' q c where ret: "(Callback env' q c, LnSignedIn) \<in> set h" "line_named h user q c"
      "ip' = Some (request_ip env' (cb_request c))"
    using u(1) unfolding resolved_for_def by blast
  have "request_ip env req = request_ip env' (cb_request c)" using ip(2) u(3) login(2) ret(3) by simp
  then show ?thesis using u(2) login(1,3) ret(1,2) unfolding handed_over_def by blast
qed

lemma handed_over_vouched: "handed_over h hint cookie user \<Longrightarrow> vouched h user"
  unfolding handed_over_def vouched_def by blast

lemma end_wait_backed:
  assumes "line_backed lib h w"
  shows "line_backed lib h (end_wait rid w)"
proof -
  have step: "handoff_step (lw_handoff w) ReleaseWaiter = (release_waiter (lw_handoff w), Released)" by simp
  have "handoff_backed lib (h @ []) (release_waiter (lw_handoff w))"
    by (rule handoff_backed_snoc [OF _ step]) (use assms in \<open>simp_all add: line_backed_def\<close>)
  moreover have "waits_backed h (AList.delete rid (lw_waits w))"
    using assms unfolding line_backed_def waits_backed_def by (auto simp: dict_simps split: if_splits)
  ultimately show ?thesis using assms by (simp add: line_backed_def end_wait_def)
qed

lemma take_backed:
  assumes "line_backed lib h w" "take_resolved cookie now (lw_handoff w) = (hs, r)"
  shows "line_backed lib h (w\<lparr>lw_handoff := hs\<rparr>)"
proof -
  have step: "handoff_step (lw_handoff w) (TakeResolved cookie now) = (hs, Taken r)" using assms(2) by simp
  have "handoff_backed lib (h @ []) hs"
    by (rule handoff_backed_snoc [OF _ step]) (use assms(1) in \<open>simp_all add: line_backed_def\<close>)
  then show ?thesis using assms(1) by (simp add: line_backed_def)
qed

lemma line_backed_mono: "line_backed lib h w \<Longrightarrow> line_backed lib (h @ h') w"
  by (simp add: line_backed_def later)

lemma complete_backed:
  assumes b: "line_backed lib h w" and v: "vouched h (or_else (t_line_user_id r) [])"
    and s: "complete_handoff lib t1 t2 code emps grants r w = (w', out)"
  shows "line_backed lib (h @ h') w'"
proof (cases "after_prefix ''oidc:'' (Some (t_inner_hint r))")
  case None
  then show ?thesis using s line_backed_mono [OF b] by (simp add: complete_handoff_def)
next
  case (Some tid)
  obtain os a where c: "oidc_step lib (lw_oidc w) (LineReturn t1 t2 code tid (or_else (t_line_user_id r) [])
      (t_display_name r) (t_picture_url r) emps grants) = (os, a)" by fastforce
  have "provider_backed (h @ h') os"
    by (rule provider_snoc [OF _ c])
       (use b vouched_mono [OF v] in \<open>auto simp: line_backed_def provider_endpoint_def\<close>)
  moreover have "w' = set_oidc os w" using s Some c by (auto simp: complete_handoff_def split: prod.splits)
  ultimately show ?thesis using line_backed_parts [OF b] by (simp add: line_backed_def)
qed

lemma poll_cases:
  assumes "handoff_poll lib rid now clk t1 t2 code emps grants w = (w', out)"
  obtains (gone) "w' = w" "out = LnGone"
    | (other) cookie deadline hs r where "map_of (lw_waits w) rid = Some (cookie, deadline)"
        "take_resolved cookie now (lw_handoff w) = (hs, r)" "\<forall>url. out \<noteq> LnReady url"
        "w' = w\<lparr>lw_handoff := hs\<rparr> \<or> w' = end_wait rid (w\<lparr>lw_handoff := hs\<rparr>)"
    | (taken) cookie deadline hs r where "map_of (lw_waits w) rid = Some (cookie, deadline)"
        "take_resolved cookie now (lw_handoff w) = (hs, Inr (Some r))"
        "complete_handoff lib t1 t2 code emps grants r (end_wait rid (w\<lparr>lw_handoff := hs\<rparr>)) = (w', out)"
proof (cases "map_of (lw_waits w) rid")
  case None
  then show ?thesis using assms that(1) by (simp add: handoff_poll_def)
next
  case (Some v)
  obtain cookie deadline where v: "v = (cookie, deadline)" by fastforce
  obtain hs r where t: "take_resolved cookie now (lw_handoff w) = (hs, r)" by fastforce
  show ?thesis
  proof (cases "\<exists>x. r = Inr (Some x)")
    case True
    then show ?thesis using assms Some v t that(3) by (auto simp: handoff_poll_def)
  next
    case False
    then have "r = Inr None \<or> (\<exists>e. r = Inl e)" by (cases r) (auto split: option.splits)
    then show ?thesis using assms v that(2) [OF Some [unfolded v] t] Some t
      by (auto simp: handoff_poll_def split: if_splits)
  qed
qed

lemma taken_story:
  assumes b: "line_backed lib h w" and t: "take_resolved cookie now (lw_handoff w) = (hs, Inr (Some r))"
  shows "\<exists>c user. cookie = Some c \<and> t_line_user_id r = Some user \<and> handed_over h (t_inner_hint r) c user"
proof -
  obtain tid where tid: "cookie = Some (tid @ ''.'' @ t_holder_secret r)"
      "map_of (tickets (lw_handoff w)) tid = Some r" "t_status r = Resolved"
    using take_resolved_Some [OF t] by blast
  have "handoff_backed lib h (lw_handoff w)" using b by (simp add: line_backed_def)
  from ticket_story [OF this tid(2,3)] tid(1) show ?thesis by blast
qed

lemma poll_backed:
  assumes b: "line_backed lib h w" and s: "handoff_poll lib rid now clk t1 t2 code emps grants w = (w', out)"
  shows "line_backed lib (h @ h') w'"
  using s
proof (cases rule: poll_cases)
  case gone
  then show ?thesis using line_backed_mono [OF b] by simp
next
  case (other cookie deadline hs r)
  then show ?thesis using take_backed [OF b other(2)] end_wait_backed line_backed_mono by blast
next
  case (taken cookie deadline hs r)
  have "line_backed lib h (end_wait rid (w\<lparr>lw_handoff := hs\<rparr>))"
    by (rule end_wait_backed [OF take_backed [OF b taken(2)]])
  moreover have "vouched h (or_else (t_line_user_id r) [])"
    using taken_story [OF b taken(2)] handed_over_vouched by auto
  ultimately show ?thesis using taken(3) by (rule complete_backed)
qed

lemma line_step_backed:
  assumes b: "line_backed lib h w" and s: "line_step lib template w ev = (w', out)"
  shows "line_backed lib (h @ [(ev, out)]) w'"
proof (cases ev)
  case (AtProvider e)
  show ?thesis
  proof (cases "provider_endpoint e")
    case True
    then obtain os a where c: "oidc_step lib (lw_oidc w) e = (os, a)" "w' = set_oidc os w" "out = LnOidc a"
      using s AtProvider by (auto split: prod.splits)
    have "provider_backed (h @ [(ev, out)]) os"
      by (rule provider_snoc [OF _ c(1)])
         (use b True AtProvider c(3) in \<open>auto simp: line_backed_def provider_endpoint_def\<close>)
    then show ?thesis using c(2) line_backed_parts [OF b] by (simp add: line_backed_def)
  qed (use s AtProvider line_backed_mono [OF b] in auto)
next
  case (AtReader e)
  show ?thesis
  proof (cases "reader_endpoint e")
    case True
    then obtain rw a where c: "reader_step lib (lw_reader w) e = (rw, a)" "w' = w\<lparr>lw_reader := rw\<rparr>"
      using s AtReader by (auto split: prod.splits)
    have "provider_backed h (lw_oidc w)" using b by (simp add: line_backed_def)
    from reader_provider [OF this reader_same [OF c(1)]] show ?thesis
      using c(2) line_backed_parts [OF b] by (simp add: line_backed_def)
  qed (use s AtReader line_backed_mono [OF b] in auto)
next
  case (VerifyToken token now)
  then show ?thesis using s line_backed_mono [OF b] by (simp add: verify_token_def)
qed (use s b login_backed callback_backed wait_backed poll_backed in auto)

interpretation line_logins: traced_machine "line_step lib template" "line_backed lib" for lib template
  by unfold_locales (rule line_step_backed)

lemma new_line_backed: "line_backed lib [] new_line_world"
  unfolding line_backed_def new_line_world_def
  by (auto simp: states_backed_def handoff_backed_def provider_backed_def waits_backed_def new_reader_world_def
      intro!: exI [of _ "[]"] delivery_empty provenance_empty)

section \<open>The guarantees\<close>


text \<open>
  C13. A hand-off stays in its browser: when a waiting tab is answered with an address to go to, it waits
  with the cookie that one page of \<open>/login\<close> set, LINE named a user in a callback from the client
  address that page was served to, and the address is the code redirect of the approved
  employee with that LINE account, or the onboarding page when nobody has it.
\<close>

theorem handoff_stays_in_its_browser:
  assumes run: "run (line_step lib template) new_line_world es = (w, h)"
    and poll: "line_step lib template w (HandoffPoll rid now clk t1 t2 code emps grants) = (w', LnReady url)"
  shows "\<exists>env0 now0 deadline cookie hint user.
     (HandoffWait env0 rid (Some cookie) now0 deadline, LnParked) \<in> set h \<and> handed_over h hint cookie user
     \<and> ((\<exists>e rq. first (\<lambda>e. line_user_id e = Some user) emps = Some e \<and> admissible e \<and> url = code_redirect rq code)
        \<or> (first (\<lambda>e. line_user_id e = Some user) emps = None \<and> startswith url ONBOARD_PATH))"
proof -
  have b: "line_backed lib h w" using line_logins.hinv_run [OF new_line_backed run] by simp
  have p: "handoff_poll lib rid now clk t1 t2 code emps grants w = (w', LnReady url)" using poll by simp
  then obtain cookie deadline hs r where t: "map_of (lw_waits w) rid = Some (cookie, deadline)"
      "take_resolved cookie now (lw_handoff w) = (hs, Inr (Some r))"
      "complete_handoff lib t1 t2 code emps grants r (end_wait rid (w\<lparr>lw_handoff := hs\<rparr>)) = (w', LnReady url)"
    by (cases rule: poll_cases) auto
  obtain ck user where c: "cookie = Some ck" "t_line_user_id r = Some user" "handed_over h (t_inner_hint r) ck user"
    using taken_story [OF b t(2)] by blast
  obtain env0 now0 where w: "(HandoffWait env0 rid (Some ck) now0 deadline, LnParked) \<in> set h"
    using b t(1) c(1) unfolding line_backed_def waits_backed_def by blast
  obtain tid os where "continue_oidc_after_line lib t1 t2 code tid user (t_display_name r) (t_picture_url r) emps grants
      (lw_oidc w) = (os, RedirectTo url)"
    using t(3) c(2) by (auto simp: complete_handoff_def split: option.splits prod.splits oidc_response.splits)
  then have "(\<exists>e rq. first (\<lambda>e. line_user_id e = Some user) emps = Some e \<and> admissible e \<and> url = code_redirect rq code)
        \<or> (first (\<lambda>e. line_user_id e = Some user) emps = None \<and> startswith url ONBOARD_PATH)"
    by (auto simp: continue_oidc_after_line_def admissible_def startswith_def split: prod.splits option.splits if_splits)
  then show ?thesis using w c(3) by blast
qed

text \<open>
  The hint that \<open>/login\<close> refuses is accepted by \<open>/callback\<close>: with a state that was handed out without a
  hint, the \<open>redirect\<close> parameter of the callback's own query is followed, and names any open hand-off
  ticket of the same client address; the LINE user of this callback is parked on it.
\<close>

theorem callback_follows_forged_hint:
  assumes query: "\<not> truthy (cq_error q)" "truthy (cq_code q)" "truthy (cq_state q)"
      "cq_redirect q = Some (''handoff:'' @ tid)"
    and state: "validate_state (cb_now c) (cb_now' c) (or_else (cq_state q) []) (lw_states w) = (d, True, None)"
    and profile: "cb_profile c = Some p"
    and ticket: "map_of (tickets (lw_handoff w)) tid = Some r" "t_status r = Pending" "cb_t1 c < t_expires_at r"
      "t_client_ip r = request_ip env (cb_request c)" "ascii (t_client_ip r)"
  shows "snd (line_login lib env template req (cq_redirect q) None dr w) = LnBadRequest
    \<and> (\<exists>w' r'. line_callback lib env q c w = (w', LnSignedIn) \<and> map_of (tickets (lw_handoff w')) tid = Some r'
         \<and> t_status r' = Resolved \<and> t_line_user_id r' = Some (lp_user p) \<and> t_inner_hint r' = t_inner_hint r)"
proof
  define u where "u = ''handoff:'' @ tid"
  have r: "cq_redirect q = Some u" using query(4) by (simp add: u_def)
  have st: "startswith u ''handoff:''" by (simp add: u_def startswith_def)
  show "snd (line_login lib env template req (cq_redirect q) None dr w) = LnBadRequest"
    unfolding line_login_def Let_def combined_hint_def r using st by simp
  have t: "callback_target None (Some u) = (Some u, None)" by (simp add: callback_target_def)
  have a: "after_prefix ''handoff:'' (Some u) = Some tid"
    using st by (simp add: after_prefix_def) (simp add: u_def)
  have c: "line_callback lib env q c w
      = continue_handoff_after_line tid p (request_ip env (cb_request c)) (cb_t1 c) (w\<lparr>lw_states := d\<rparr>)"
    using query(1-3) state profile unfolding line_callback_def r continue_login_def
    by (simp add: t a Let_def)
  show "\<exists>w' r'. line_callback lib env q c w = (w', LnSignedIn) \<and> map_of (tickets (lw_handoff w')) tid = Some r'
         \<and> t_status r' = Resolved \<and> t_line_user_id r' = Some (lp_user p) \<and> t_inner_hint r' = t_inner_hint r"
    unfolding c using ticket
    by (simp add: continue_handoff_after_line_def resolve_ticket_def compare_digest_def dict_simps)
qed

section \<open>The hand-off completes\<close>

text \<open>A phone outside the LINE app, on a server with the hand-off switched on.\<close>

definition on_a_phone :: "oidc_lib \<Rightarrow> env \<Rightarrow> http_request \<Rightarrow> bool" where
  "on_a_phone lib env req \<longleftrightarrow> line_configured lib \<and> handoff_is_enabled env \<and> is_mobile (user_agent req)
     \<and> \<not> is_line_in_app_browser (Some (user_agent req)) \<and> ascii (request_ip env req)"

definition sound_draws :: "login_draws \<Rightarrow> bool" where
  "sound_draws d \<longleftrightarrow> ld_ticket d \<noteq> [] \<and> CHR ''.'' \<notin> set (ld_ticket d) \<and> CHR ''|'' \<notin> set (ld_ticket d)
     \<and> ld_secret d \<noteq> [] \<and> ascii (ld_secret d) \<and> ld_state d \<noteq> []"

definition fresh_ticket :: "env \<Rightarrow> http_request \<Rightarrow> str \<Rightarrow> login_draws \<Rightarrow> ticket" where
  "fresh_ticket env req hint d = \<lparr>t_holder_secret = ld_secret d, t_inner_hint = hint, t_client_ip = request_ip env req,
     t_status = Pending, t_line_user_id = None, t_display_name = None, t_picture_url = None,
     t_expires_at = ld_ticket_time d + ld_ttl d\<rparr>"

lemma login_starts_handoff:
  assumes ph: "on_a_phone lib env req" and d: "sound_draws d" and ok: "dict_ok (lw_states w)"
    and room: "length (sweep (ticket_expired (ld_ticket_time d)) (tickets (lw_handoff w))) < MAX_TICKETS"
    and sw: "ld_sweep_time d - ld_state_time d \<le> 600"
  shows "\<exists>w1 url sec. line_login lib env True req (Some (''oidc:'' @ tid)) None d w
      = (w1, LnHandoffPage url (ld_ticket d @ ''.'' @ ld_secret d) sec)
    \<and> dict_ok (lw_states w1) \<and> map_of (lw_states w1) (ld_state d) = Some (ld_state_time d, Some (''handoff:'' @ ld_ticket d))
    \<and> map_of (tickets (lw_handoff w1)) (ld_ticket d) = Some (fresh_ticket env req (''oidc:'' @ tid) d)
    \<and> waiters (lw_handoff w1) = waiters (lw_handoff w) \<and> lw_reader w1 = lw_reader w \<and> lw_waits w1 = lw_waits w"
proof -
  define hint where "hint = ''oidc:'' @ tid"
  define ua where "ua = user_agent req"
  have st: "startswith hint ''oidc:''" "\<not> startswith hint ''handoff:''" by (simp_all add: hint_def startswith_def)
  have app: "handoff_applies env True (Some hint) True ua"
    using ph st by (simp add: handoff_applies_def on_a_phone_def ua_def)
  have mob: "is_mobile ua" using ph by (simp add: on_a_phone_def ua_def)
  have cr: "create_ticket hint (Some (request_ip env req)) (ld_ticket_time d) (ld_ttl d) (ld_ticket d) (ld_secret d)
      (lw_handoff w) = ((lw_handoff w)\<lparr>tickets := AList.update (ld_ticket d) (fresh_ticket env req hint d)
          (sweep (ticket_expired (ld_ticket_time d)) (tickets (lw_handoff w)))\<rparr>,
        Some \<lparr>ticket_id = ld_ticket d, cookie_value = ld_ticket d @ ''.'' @ ld_secret d\<rparr>)" (is "_ = (?hs, _)")
    using room by (simp add: create_ticket_def prune_locked_def fresh_ticket_def Let_def)
  define eff where "eff = Some (''handoff:'' @ ld_ticket d)"
  obtain url where g: "generate_authorization_url (ol_line lib) None (ld_state d) eff False (Some ua)
      (ld_state_time d) (ld_sweep_time d) (lw_states w)
      = (cleanup_expired_states (ld_sweep_time d) (AList.update (ld_state d) (ld_state_time d, eff) (lw_states w)),
         Some (url, ld_state d))" (is "_ = (?st, _)")
    using ph by (simp add: generate_authorization_url_def on_a_phone_def line_configured_def Let_def)
  have m: "map_of ?st (ld_state d) = Some (ld_state_time d, eff)" "dict_ok ?st"
    using ok sw by (simp_all add: cleanup_expired_states_def dict_simps state_dead_def STATE_TTL_def)
  have "line_login lib env True req (Some hint) None d w = (w\<lparr>lw_states := ?st, lw_handoff := ?hs\<rparr>,
      LnHandoffPage url (ld_ticket d @ ''.'' @ ld_secret d) (is_behind_proxy env))"
    unfolding line_login_def combined_hint_def eff_def using st app mob cr g [unfolded eff_def]
    by (simp add: Let_def ua_def [symmetric])
  then show ?thesis unfolding hint_def [symmetric] eff_def [symmetric]
    using m by (intro exI conjI) (assumption, simp_all add: map_of_update)
qed

lemma handoff_flow:
  assumes ph: "on_a_phone lib env req" and d: "sound_draws d" and ok: "dict_ok (lw_states w)"
    and room: "length (sweep (ticket_expired (ld_ticket_time d)) (tickets (lw_handoff w))) < MAX_TICKETS"
      "waiters (lw_handoff w) < MAX_CONCURRENT_WAITERS" "map_of (lw_waits w) rid = None"
    and states: "ld_sweep_time d - ld_state_time d \<le> 600" "cb_now c - ld_state_time d \<le> 600" "cb_now' c - ld_state_time d \<le> 600"
    and tab: "cb_t1 c < ld_ticket_time d + ld_ttl d" "t0 < ld_ticket_time d + ld_ttl d" "now < ld_ticket_time d + ld_ttl d"
    and query: "\<not> truthy (cq_error q)" "truthy (cq_code q)" "cq_state q = Some (ld_state d)"
    and ret: "cb_profile c = Some p" "request_ip env (cb_request c) = request_ip env req"
    and req: "map_of (os_tickets (lw_oidc w)) tid = Some (rq, x)" "t1 < x"
    and e: "first (\<lambda>e. line_user_id e = Some (lp_user p)) emps = Some e" "admissible e"
  shows "\<exists>w1 w2 w3 w4 url sec.
     line_step lib True w (Login env req (Some (''oidc:'' @ tid)) None d)
       = (w1, LnHandoffPage url (ld_ticket d @ ''.'' @ ld_secret d) sec)
     \<and> line_step lib True w1 (Callback env q c) = (w2, LnSignedIn)
     \<and> line_step lib True w2 (HandoffWait env rid (Some (ld_ticket d @ ''.'' @ ld_secret d)) t0 deadline) = (w3, LnParked)
     \<and> line_step lib True w3 (HandoffPoll rid now clk t1 t2 code emps grants) = (w4, LnReady (code_redirect rq code))"
proof -
  define hint where "hint = ''oidc:'' @ tid"
  define ck where "ck = ld_ticket d @ ''.'' @ ld_secret d"
  let ?t = "fresh_ticket env req hint d"
  obtain w1 url sec where l: "line_login lib env True req (Some hint) None d w = (w1, LnHandoffPage url ck sec)" "dict_ok (lw_states w1)"
    "map_of (lw_states w1) (ld_state d) = Some (ld_state_time d, Some (''handoff:'' @ ld_ticket d))"
    "map_of (tickets (lw_handoff w1)) (ld_ticket d) = Some ?t"
    "waiters (lw_handoff w1) = waiters (lw_handoff w)" "lw_reader w1 = lw_reader w" "lw_waits w1 = lw_waits w"
    using login_starts_handoff [OF ph d ok room(1) states(1)] unfolding hint_def ck_def by blast
  define h where "h = ''handoff:'' @ ld_ticket d"
  have hp: "CHR ''|'' \<notin> set h" "truthy (Some h)" "after_prefix ''handoff:'' (Some h) = Some (ld_ticket d)"
    using d by (simp_all add: h_def sound_draws_def truthy_iff after_prefix_def startswith_def)
  have st: "or_else (cq_state q) [] = ld_state d" "truthy (cq_state q)"
    using query(3) d by (auto simp: sound_draws_def truthy_iff neq_Nil_conv)
  obtain ds where v: "validate_state (cb_now c) (cb_now' c) (ld_state d) (lw_states w1) = (ds, True, Some h)"
    using l(2,3) states(2,3) by (auto simp: validate_state_def cleanup_expired_states_def dict_simps
        state_dead_def STATE_TTL_def h_def)
  let ?r = "?t\<lparr>t_status := Resolved, t_line_user_id := Some (lp_user p), t_display_name := Some (lp_name p),
      t_picture_url := Some (lp_picture p)\<rparr>"
  define w2 where "w2 = w1\<lparr>lw_states := ds, lw_handoff := (lw_handoff w1)\<lparr>tickets := AList.update (ld_ticket d) ?r (tickets (lw_handoff w1))\<rparr>\<rparr>"
  have cb: "line_callback lib env q c w1 = (w2, LnSignedIn)"
    using query(1,2) st v hp ret ph l(4) tab(1) unfolding line_callback_def continue_login_def
    by (simp add: callback_target_def continue_handoff_after_line_def resolve_ticket_def compare_digest_def
        fresh_ticket_def on_a_phone_def Let_def w2_def)
  have tk: "map_of (tickets (lw_handoff w2)) (ld_ticket d) = Some ?r" by (simp add: w2_def map_of_update)
  have split: "split_cookie (Some ck) = Some (ld_ticket d, ld_secret d)"
    using d partition_at_found [of "CHR ''.''" "ld_ticket d" "ld_secret d"]
    by (auto simp: sound_draws_def ck_def split_cookie_def or_else_def neq_Nil_conv)
  have auth: "authenticated_record_locked (Some ck) t s = Inr (Some (ld_ticket d, ?r))"
    if "map_of (tickets s) (ld_ticket d) = Some ?r" "t < ld_ticket_time d + ld_ttl d" for t s
    using that d unfolding authenticated_record_locked_def split
    by (simp add: fresh_ticket_def compare_digest_def sound_draws_def)
  have pk: "peek (Some ck) t0 (lw_handoff w2) = Inr (Some Resolved)" using auth [OF tk tab(2)] by (simp add: peek_def)
  define w3 where "w3 = w2\<lparr>lw_handoff := (lw_handoff w2)\<lparr>waiters := waiters (lw_handoff w) + 1\<rparr>,
      lw_waits := AList.update rid ((Some ck), deadline) (lw_waits w)\<rparr>"
  have wt: "handoff_wait env rid (Some ck) t0 deadline w2 = (w3, LnParked)"
    using ph room(2,3) l(5,7) pk by (simp add: handoff_wait_def on_a_phone_def try_acquire_waiter_def w3_def) (simp add: w2_def)
  have tk3: "map_of (tickets (lw_handoff w3)) (ld_ticket d) = Some ?r" using tk by (simp add: w3_def)
  obtain hs where tr3: "take_resolved (Some ck) now (lw_handoff w3) = (hs, Inr (Some ?r))"
    using auth [OF tk3 tab(3)] by (simp add: take_resolved_def)
  have ap: "after_prefix ''oidc:'' (Some hint) = Some tid"
    by (simp add: hint_def after_prefix_def startswith_def)
  have "\<exists>w4. complete_handoff lib t1 t2 code emps grants ?r w5 = (w4, LnReady (code_redirect rq code))"
    if "lw_reader w5 = lw_reader w" for w5
    using that req e ap by (auto simp: complete_handoff_def fresh_ticket_def continue_oidc_after_line_def
        consume_login_ticket_def admissible_def split: prod.splits)
  then obtain w4 where pl: "handoff_poll lib rid now clk t1 t2 code emps grants w3 = (w4, LnReady (code_redirect rq code))"
    using tr3 l(6) by (fastforce simp: handoff_poll_def map_of_update w3_def w2_def)
  show ?thesis unfolding hint_def [symmetric] ck_def [symmetric]
    by (rule exI [of _ w1], rule exI [of _ w2], rule exI [of _ w3], rule exI [of _ w4],
        rule exI [of _ url], rule exI [of _ sec]) (simp only: line_step.simps l(1) cb wt pl simp_thms)
qed

text \<open>
  The honest hand-off completes: an employee who starts on a phone with a live request of the
  provider, logs in with LINE from the same address within ten minutes and the life of the
  ticket, and has a tab waiting with the cookie, is sent to the client with a fresh code, provided
  a place for the tab is free.
\<close>

theorem handoff_completes:
  assumes ph: "on_a_phone lib env req" and d: "sound_draws d" and ok: "dict_ok (lw_states w)"
    and room: "length (sweep (ticket_expired (ld_ticket_time d)) (tickets (lw_handoff w))) < MAX_TICKETS"
      "waiters (lw_handoff w) < MAX_CONCURRENT_WAITERS" "map_of (lw_waits w) rid = None"
    and states: "ld_sweep_time d - ld_state_time d \<le> 600" "cb_now c - ld_state_time d \<le> 600" "cb_now' c - ld_state_time d \<le> 600"
    and tab: "cb_t1 c < ld_ticket_time d + ld_ttl d" "t0 < ld_ticket_time d + ld_ttl d" "now < ld_ticket_time d + ld_ttl d"
    and query: "\<not> truthy (cq_error q)" "truthy (cq_code q)" "cq_state q = Some (ld_state d)"
    and ret: "cb_profile c = Some p" "request_ip env (cb_request c) = request_ip env req"
    and req: "map_of (os_tickets (lw_oidc w)) tid = Some (rq, x)" "t1 < x"
    and e: "first (\<lambda>e. line_user_id e = Some (lp_user p)) emps = Some e" "admissible e"
    and run: "run (line_step lib True) w [Login env req (Some (''oidc:'' @ tid)) None d, Callback env q c,
        HandoffWait env rid (Some (ld_ticket d @ ''.'' @ ld_secret d)) t0 deadline,
        HandoffPoll rid now clk t1 t2 code emps grants] = (w', tr)"
  shows "map snd (tl tr) = [LnSignedIn, LnParked, LnReady (code_redirect rq code)]
    \<and> (\<exists>url sec. snd (hd tr) = LnHandoffPage url (ld_ticket d @ ''.'' @ ld_secret d) sec)"
proof -
  note flow = handoff_flow [OF ph d ok room states tab query ret req e]
  show ?thesis using flow [where clk = clk and ?t2.0 = t2 and code = code and grants = grants and deadline = deadline] run by (auto simp del: line_step.simps)
qed

section \<open>A small server\<close>

definition demo_phone :: http_request where
  "demo_phone = \<lparr>hr_headers = (\<lambda>h. if h = ''user-agent'' then Some ''iPhone'' else None), hr_peer = Some ''10.0.0.7''\<rparr>"

definition demo_desktop :: http_request where
  "demo_desktop = \<lparr>hr_headers = (\<lambda>h. None), hr_peer = Some ''10.0.0.7''\<rparr>"

definition demo_phone_env :: env where
  "demo_phone_env = (\<lambda>n. if n = ''LINE_SAME_BROWSER_HANDOFF'' then Some ''1'' else None)"

definition demo_draws :: login_draws where
  "demo_draws = \<lparr>ld_ticket = ''k'', ld_secret = ''s'', ld_state = ''z'', ld_ttl = 300, ld_ticket_time = 0,
     ld_state_time = 0, ld_sweep_time = 0\<rparr>"

definition demo_query :: callback_query where
  "demo_query = \<lparr>cq_code = Some ''x'', cq_state = Some ''z'', cq_error = None, cq_error_description = None,
     cq_redirect = None\<rparr>"

definition demo_context :: callback_context where
  "demo_context = \<lparr>cb_request = demo_phone, cb_now = 4, cb_now' = 4,
     cb_profile = Some \<lparr>lp_user = ''U1'', lp_name = ''Mali'', lp_picture = []\<rparr>, cb_t1 = 5, cb_t2 = 6, cb_t3 = 6,
     cb_code = ''c'', cb_employees = [demo_maid], cb_grants = []\<rparr>"

abbreviation demo_ask :: line_event where
  "demo_ask \<equiv> AtProvider (Authorize demo_oidc_env 0 ''t'' demo_params)"

definition demo_asked :: line_world where
  "demo_asked = fst (line_step demo_lib True new_line_world demo_ask)"

lemma demo_asked_facts:
  "\<exists>out. line_step demo_lib True new_line_world demo_ask = (demo_asked, LnOidc out)"
  "lw_states demo_asked = []" "lw_handoff demo_asked = empty_store" "lw_waits demo_asked = []"
  "map_of (os_tickets (lw_oidc demo_asked)) ''t'' = Some (demo_request, 600)"
  "lw_oidc demo_asked = fst (oidc_step demo_lib empty_oidc (Authorize demo_oidc_env 0 ''t'' demo_params))"
proof -
  obtain s url where a: "authorize demo_lib demo_oidc_env 0 ''t'' demo_params empty_oidc = (s, RedirectTo url)"
      "map_of (os_tickets s) ''t'' = Some (demo_request, 600)"
    using authorize_completes [OF demo_key demo_stores demo_valid, of 0 "''t''"] by auto
  have o: "lw_oidc new_line_world = empty_oidc" by (simp add: new_line_world_def new_reader_world_def)
  have w: "demo_asked = set_oidc s new_line_world"
    using a(1) o by (simp add: demo_asked_def provider_endpoint_def)
  show "\<exists>out. line_step demo_lib True new_line_world demo_ask = (demo_asked, LnOidc out)"
    using a(1) o by (simp add: w provider_endpoint_def)
  show "lw_states demo_asked = []" "lw_handoff demo_asked = empty_store" "lw_waits demo_asked = []"
    by (simp_all add: w) (simp_all add: new_line_world_def)
  show "map_of (os_tickets (lw_oidc demo_asked)) ''t'' = Some (demo_request, 600)" by (simp add: w a(2))
  show "lw_oidc demo_asked = fst (oidc_step demo_lib empty_oidc (Authorize demo_oidc_env 0 ''t'' demo_params))"
    by (simp add: w a(1))
qed

lemma demo_ips: "request_ip demo_phone_env demo_phone = ''10.0.0.7''"
  by (simp add: request_ip_def client_ip_def demo_phone_def demo_phone_env_def getenv_def lower_def)

lemma demo_on_phone: "on_a_phone demo_lib demo_phone_env demo_phone"
proof -
  have "is_mobile ''iPhone''" "\<not> is_line_in_app_browser (Some ''iPhone'')" by code_simp+
  moreover have "handoff_is_enabled demo_phone_env"
    by (simp add: handoff_is_enabled_def getenv_def demo_phone_env_def) code_simp
  moreover have "user_agent demo_phone = ''iPhone''" by (simp add: user_agent_def demo_phone_def)
  moreover have "ascii ''10.0.0.7''" by code_simp
  ultimately show ?thesis
    by (simp add: on_a_phone_def demo_ips line_configured_def demo_lib_def)
qed

lemma demo_draws_sound: "sound_draws demo_draws"
  by (simp add: sound_draws_def demo_draws_def ascii_def)

abbreviation demo_flow :: "line_event list" where
  "demo_flow \<equiv> [Login demo_phone_env demo_phone (Some ''oidc:t'') None demo_draws,
     Callback demo_phone_env demo_query demo_context, HandoffWait demo_phone_env 1 (Some ''k.s'') 5 30,
     HandoffPoll 1 6 7 6 6 ''c'' [demo_maid] []]"

text \<open>Every hypothesis of the honest flow holds for it.\<close>

lemma demo_flow_ready:
  "dict_ok (lw_states demo_asked)"
  "length (sweep (ticket_expired (ld_ticket_time demo_draws)) (tickets (lw_handoff demo_asked))) < MAX_TICKETS"
  "waiters (lw_handoff demo_asked) < MAX_CONCURRENT_WAITERS" "map_of (lw_waits demo_asked) 1 = None"
  "ld_sweep_time demo_draws - ld_state_time demo_draws \<le> 600"
  "cb_now demo_context - ld_state_time demo_draws \<le> 600" "cb_now' demo_context - ld_state_time demo_draws \<le> 600"
  "cb_t1 demo_context < ld_ticket_time demo_draws + ld_ttl demo_draws" "5 < ld_ticket_time demo_draws + ld_ttl demo_draws"
  "6 < ld_ticket_time demo_draws + ld_ttl demo_draws"
  "\<not> truthy (cq_error demo_query)" "truthy (cq_code demo_query)" "cq_state demo_query = Some (ld_state demo_draws)"
  "cb_profile demo_context = Some \<lparr>lp_user = ''U1'', lp_name = ''Mali'', lp_picture = []\<rparr>"
  "request_ip demo_phone_env (cb_request demo_context) = request_ip demo_phone_env demo_phone"
  "first (\<lambda>e. line_user_id e = Some (lp_user \<lparr>lp_user = ''U1'', lp_name = ''Mali'', lp_picture = []\<rparr>)) [demo_maid] = Some demo_maid"
  "admissible demo_maid" "(6 :: real) < 600"
  by (simp_all add: demo_asked_facts empty_store_def MAX_TICKETS_def MAX_CONCURRENT_WAITERS_def sweep_def dead_keys_def
      demo_draws_def demo_context_def demo_query_def demo_maid_def admissible_def truthy_iff)

lemmas demo_flow_facts = demo_on_phone demo_draws_sound demo_flow_ready(1-4) demo_flow_ready(5-15)
  demo_asked_facts(5) demo_flow_ready(18) demo_flow_ready(16,17)

theorem handoff_completes_witness:
  "map snd (tl (snd (run (line_step demo_lib True) demo_asked demo_flow)))
    = [LnSignedIn, LnParked, LnReady (code_redirect demo_request ''c'')]"
proof -
  have hint: "''oidc:t'' = ''oidc:'' @ ''t''" "''k.s'' = ld_ticket demo_draws @ ''.'' @ ld_secret demo_draws"
    by (simp_all add: demo_draws_def)
  show ?thesis unfolding hint using handoff_completes [OF demo_flow_facts prod.collapse [symmetric]] by blast
qed

theorem handoff_stays_in_its_browser_witness:
  "\<exists>w h w'. run (line_step demo_lib True) new_line_world (demo_ask # take 3 demo_flow) = (w, h)
     \<and> line_step demo_lib True w (last demo_flow) = (w', LnReady (code_redirect demo_request ''c''))
     \<and> (\<exists>hint user. handed_over h hint ''k.s'' user)"
proof -
  have hint: "''oidc:t'' = ''oidc:'' @ ''t''" "''k.s'' = ld_ticket demo_draws @ ''.'' @ ld_secret demo_draws"
    by (simp_all add: demo_draws_def)
  obtain w1 w2 w3 w4 url sec where f:
    "line_step demo_lib True demo_asked (Login demo_phone_env demo_phone (Some ''oidc:t'') None demo_draws)
       = (w1, LnHandoffPage url ''k.s'' sec)"
    "line_step demo_lib True w1 (Callback demo_phone_env demo_query demo_context) = (w2, LnSignedIn)"
    "line_step demo_lib True w2 (HandoffWait demo_phone_env 1 (Some ''k.s'') 5 30) = (w3, LnParked)"
    "line_step demo_lib True w3 (HandoffPoll 1 6 7 6 6 ''c'' [demo_maid] []) = (w4, LnReady (code_redirect demo_request ''c''))"
    using handoff_flow [OF demo_flow_facts, where deadline = 30 and clk = 7 and ?t2.0 = 6 and code = "''c''" and grants = "[]"]
    unfolding hint by blast
  obtain out where a: "line_step demo_lib True new_line_world demo_ask = (demo_asked, LnOidc out)"
    using demo_asked_facts(1) by blast
  define h where "h = [(demo_ask, LnOidc out),
      (Login demo_phone_env demo_phone (Some ''oidc:t'') None demo_draws, LnHandoffPage url ''k.s'' sec),
      (Callback demo_phone_env demo_query demo_context, LnSignedIn),
      (HandoffWait demo_phone_env 1 (Some ''k.s'') 5 30, LnParked)]"
  have run: "run (line_step demo_lib True) new_line_world (demo_ask # take 3 demo_flow) = (w3, h)"
    by (simp add: f a h_def numeral_3_eq_3 del: line_step.simps One_nat_def)
  from handoff_stays_in_its_browser [OF run f(4)] have "\<exists>hint user. handed_over h hint ''k.s'' user"
    by (auto simp: h_def)
  then show ?thesis using run f(4) by (auto simp del: line_step.simps run.simps One_nat_def)
qed

theorem waiting_tabs_counted_witness:
  "length (lw_waits (fst (run (line_step demo_lib True) new_line_world (demo_ask # demo_flow)))) \<le> 32"
  using waiting_tabs_counted [OF prod.collapse [symmetric]] by blast

text \<open>The same login from a desktop, followed by the redemption of its code.\<close>

lemma name_irrelevant:
  "first (\<lambda>e. line_user_id e = Some user) emps \<noteq> None \<Longrightarrow>
   continue_oidc_after_line lib t t' code tid user name picture emps grants s
     = continue_oidc_after_line lib t t' code tid user None None emps grants s"
  by (auto simp: continue_oidc_after_line_def split: option.splits prod.splits)

lemma demo_desktop_login:
  "\<exists>w1 url. line_login demo_lib demo_phone_env True demo_desktop (Some ''oidc:t'') None demo_draws demo_asked
     = (w1, LnAutoRedirect url) \<and> lw_states w1 = [(''z'', (0, Some ''oidc:t''))] \<and> lw_reader w1 = lw_reader demo_asked"
proof -
  have "user_agent demo_desktop = []" by (simp add: user_agent_def demo_desktop_def)
  moreover have "\<not> is_mobile []" "\<not> is_line_in_app_browser (Some [])" by code_simp+
  moreover have "line_configured demo_lib" using demo_on_phone by (simp add: on_a_phone_def)
  ultimately show ?thesis
    by (simp add: line_login_def combined_hint_def handoff_applies_def generate_authorization_url_def
        line_configured_def startswith_def demo_draws_def demo_asked_facts cleanup_expired_states_def sweep_def
        dead_keys_def state_dead_def STATE_TTL_def Let_def)
qed

lemma demo_code_issued:
  "\<exists>w h w' idt. run (line_step demo_lib True) new_line_world
       [demo_ask, Login demo_phone_env demo_desktop (Some ''oidc:t'') None demo_draws,
        Callback demo_phone_env demo_query demo_context] = (w, h)
     \<and> line_step demo_lib True w (AtProvider (Token demo_oidc_env 7 7 8 ''a'' demo_token_form))
       = (w', LnOidc (TokensIssued idt ''a''))"
proof -
  obtain out where a: "line_step demo_lib True new_line_world demo_ask = (demo_asked, LnOidc out)"
    using demo_asked_facts(1) by blast
  obtain w1 url where l: "line_login demo_lib demo_phone_env True demo_desktop (Some ''oidc:t'') None demo_draws demo_asked
      = (w1, LnAutoRedirect url)" "lw_states w1 = [(''z'', (0, Some ''oidc:t''))]" "lw_reader w1 = lw_reader demo_asked"
    using demo_desktop_login by blast
  obtain s h s' idt where r: "run (oidc_step demo_lib) empty_oidc (take 2 demo_login) = (s, h)"
    and t: "oidc_step demo_lib s (Token demo_oidc_env 7 7 8 ''a'' demo_token_form) = (s', TokensIssued idt ''a'')"
    by (rule demo_prefix)
  obtain o2 where c: "continue_oidc_after_line demo_lib 5 6 ''c'' ''t'' ''U1'' None None [demo_maid] [] (lw_oidc demo_asked) = (s, o2)"
    using r by (auto simp: demo_login_def demo_asked_facts numeral_2_eq_2 split: prod.splits)
  have v: "validate_state 4 4 ''z'' (lw_states w1) = ([], True, Some ''oidc:t'')"
    by (simp add: l(2) validate_state_def cleanup_expired_states_def sweep_def dead_keys_def state_dead_def STATE_TTL_def)
  have n: "continue_oidc_after_line demo_lib 5 6 ''c'' ''t'' ''U1'' (Some ''Mali'') (Some []) [demo_maid] [] (lw_oidc demo_asked) = (s, o2)"
  proof -
    have "first (\<lambda>e. line_user_id e = Some ''U1'') [demo_maid] \<noteq> None" by (simp add: demo_maid_def)
    from name_irrelevant [OF this] c show ?thesis by metis
  qed
  have cb: "line_callback demo_lib demo_phone_env demo_query demo_context w1
      = (set_oidc s (w1\<lparr>lw_states := []\<rparr>), LnOidc o2)"
    using v n l(3) by (simp add: line_callback_def demo_query_def demo_context_def callback_target_def
        continue_login_def after_prefix_def startswith_def Let_def truthy_iff)
  show ?thesis using a l(1) cb t by (simp add: provider_endpoint_def)
qed


definition demo_open :: line_world where
  "demo_open = new_line_world\<lparr>lw_states := [(''z'', (0, None))],
     lw_handoff := empty_store\<lparr>tickets := [(''k'', fresh_ticket demo_phone_env demo_phone ''oidc:t'' demo_draws)]\<rparr>\<rparr>"

theorem callback_follows_forged_hint_witness:
  "\<exists>w' r'. line_callback demo_lib demo_phone_env (demo_query\<lparr>cq_redirect := Some ''handoff:k''\<rparr>) demo_context demo_open
      = (w', LnSignedIn) \<and> map_of (tickets (lw_handoff w')) ''k'' = Some r' \<and> t_line_user_id r' = Some ''U1''"
proof -
  let ?r = "fresh_ticket demo_phone_env demo_phone ''oidc:t'' demo_draws"
  let ?q = "demo_query\<lparr>cq_redirect := Some (''handoff:'' @ ''k'')\<rparr>"
  let ?p = "\<lparr>lp_user = ''U1'', lp_name = ''Mali'', lp_picture = []\<rparr>"
  have q: "\<not> truthy (cq_error ?q)" "truthy (cq_code ?q)" "truthy (cq_state ?q)" "cq_redirect ?q = Some (''handoff:'' @ ''k'')"
    "cb_profile demo_context = Some ?p"
    by (simp_all add: demo_query_def demo_context_def truthy_iff)
  have v: "validate_state (cb_now demo_context) (cb_now' demo_context) (or_else (cq_state ?q) []) (lw_states demo_open)
      = ([], True, None)"
    by (simp add: demo_open_def validate_state_def cleanup_expired_states_def sweep_def dead_keys_def state_dead_def
        STATE_TTL_def demo_query_def demo_context_def)
  have t: "map_of (tickets (lw_handoff demo_open)) ''k'' = Some ?r" "t_status ?r = Pending"
    "cb_t1 demo_context < t_expires_at ?r" "t_client_ip ?r = request_ip demo_phone_env (cb_request demo_context)"
    "ascii (t_client_ip ?r)"
    using demo_on_phone by (simp_all add: demo_open_def fresh_ticket_def demo_draws_def demo_context_def on_a_phone_def)
  from callback_follows_forged_hint [OF q(1-4) v q(5) t, of demo_lib True demo_phone demo_draws]
  show ?thesis by auto
qed

end
