(* ===== verification/AdminAccess.thy ===== *)
theory AdminAccess
  imports WebText Interfaces
begin

text \<open>
  Who is an administrator: the passcode sessions and the lockout of
  \<open>app/services/admin_auth_service.py\<close> and \<open>app/api/admin_auth.py\<close>, Cloudflare Access
  (\<open>cf_access_service.py\<close>, \<open>app/api/deps.py\<close>), the directory of managers
  (\<open>manager_directory.py\<close>) and the page and WebSocket guards of \<open>app/main_unified.py\<close>,
  composed into one machine over their module-level state. \<open>time.time()\<close> is a real number of
  seconds, \<open>datetime.now()\<close> a number of microseconds; each event carries the readings its
  handler makes. bcrypt and the verification of an RS256 token are parameters.
\<close>

section \<open>The passcode\<close>

text \<open>
  \<open>bcrypt.hashpw\<close> with a fresh salt, \<open>bcrypt.checkpw\<close> (None: an exception), and the
  verification of a Cloudflare token at a time, for an issuer and audiences: None when it
  raises, else the \<open>email\<close> claim.
\<close>

record admin_lib =
  bcrypt_hash :: "str \<Rightarrow> str"
  bcrypt_check :: "str \<Rightarrow> str \<Rightarrow> bool option"
  cf_decode :: "real \<Rightarrow> str \<Rightarrow> str list \<Rightarrow> str \<Rightarrow> str option option"

definition DEV_DEFAULT_PASSCODE :: str where
  "DEV_DEFAULT_PASSCODE = ''dev-passcode-CHANGE-ME''"

text \<open>The hash \<open>AdminAuthService.__init__\<close> settles on; None is its RuntimeError.\<close>

definition configured_hash :: "admin_lib \<Rightarrow> env \<Rightarrow> str option" where
  "configured_hash lib env =
     (let hashed = strip (getenv env ''ADMIN_PASSCODE_HASH'' []) in
      if hashed = [] then
        (let name = lower (getenv env ''ENV'' (getenv env ''ENVIRONMENT'' ''production''));
             testing = (lower (getenv env ''TESTING'' []) \<in> {''1'', ''true'', ''yes''}
               \<or> truthy (env ''PYTEST_CURRENT_TEST''))
         in if name \<notin> {''dev'', ''development'', ''local'', ''test''} \<and> \<not> testing then None
            else Some (bcrypt_hash lib (getenv env ''ADMIN_PASSCODE_DEV_DEFAULT'' DEV_DEFAULT_PASSCODE)))
      else Some hashed)"

definition verify_passcode :: "admin_lib \<Rightarrow> str \<Rightarrow> str \<Rightarrow> bool" where
  "verify_passcode lib hashed passcode =
     (if hashed = [] then False
      else case bcrypt_check lib passcode hashed of None \<Rightarrow> False | Some ok \<Rightarrow> ok)"

section \<open>Sessions\<close>

record admin_session =
  ses_expires_at :: dtime
  ses_created_at :: dtime

type_synonym session_store = "(str, admin_session) dict"

definition SESSION_DURATION :: dtime where "SESSION_DURATION = hour_us"

definition create_session :: "dtime \<Rightarrow> dtime \<Rightarrow> str \<Rightarrow> session_store \<Rightarrow> session_store" where
  "create_session now now' token d =
     AList.update token \<lparr>ses_expires_at = now + SESSION_DURATION, ses_created_at = now'\<rparr> d"

definition session_over :: "dtime \<Rightarrow> admin_session \<Rightarrow> bool" where
  "session_over now v = (now > ses_expires_at v)"

definition validate_session :: "dtime \<Rightarrow> str \<Rightarrow> session_store \<Rightarrow> session_store \<times> bool" where
  "validate_session now token d =
     (if token = [] then (d, False)
      else case map_of d token of
        None \<Rightarrow> (d, False)
      | Some v \<Rightarrow> if session_over now v then (AList.delete token d, False) else (d, True))"

definition revoke_session :: "str \<Rightarrow> session_store \<Rightarrow> session_store" where
  "revoke_session token d = AList.delete token d"

definition cleanup_expired_sessions :: "dtime \<Rightarrow> session_store \<Rightarrow> session_store \<times> nat" where
  "cleanup_expired_sessions now d =
     (sweep (session_over now) d, length (dead_keys (session_over now) d))"

text \<open>\<open>int(expires_in)\<close> and \<open>int(expires_in / 60)\<close> round towards zero.\<close>

definition whole_units :: "int \<Rightarrow> int \<Rightarrow> int" where
  "whole_units n d = (if n < 0 then - (- n div d) else n div d)"

record session_info =
  si_created_at :: dtime
  si_expires_at :: dtime
  si_seconds :: int
  si_minutes :: int

definition get_session_info :: "dtime \<Rightarrow> str \<Rightarrow> session_store \<Rightarrow> session_info option" where
  "get_session_info now token d =
     map_option (\<lambda>v. let left = ses_expires_at v - now in
       \<lparr>si_created_at = ses_created_at v, si_expires_at = ses_expires_at v,
        si_seconds = whole_units left second_us, si_minutes = whole_units left minute_us\<rparr>)
       (map_of d token)"

section \<open>The lockout\<close>

type_synonym attempt_store = "(str, real list) dict"

definition FAILED_ATTEMPT_WINDOW :: real where "FAILED_ATTEMPT_WINDOW = 900"
definition FAILED_ATTEMPT_THRESHOLD :: nat where "FAILED_ATTEMPT_THRESHOLD = 5"

text \<open>The loop of \<open>_prune_expired_attempts\<close> visits every key once.\<close>

definition prune_expired_attempts :: "real \<Rightarrow> attempt_store \<Rightarrow> attempt_store" where
  "prune_expired_attempts now d =
     filter (\<lambda>e. snd e \<noteq> [])
       (map (\<lambda>(ip, ts). (ip, filter (\<lambda>t. t \<ge> now - FAILED_ATTEMPT_WINDOW) ts)) d)"

definition attempts_of :: "str \<Rightarrow> attempt_store \<Rightarrow> real list" where
  "attempts_of ip d = (case map_of d ip of None \<Rightarrow> [] | Some ts \<Rightarrow> ts)"

definition seconds_until_reset :: "real \<Rightarrow> real list \<Rightarrow> int" where
  "seconds_until_reset now ts = max \<lfloor>FAILED_ATTEMPT_WINDOW - (now - Min (set ts))\<rfloor> 1"

text \<open>\<open>_check_lockout\<close>: Some is HTTP 429 with the \<open>Retry-After\<close> seconds and the minutes shown.\<close>

definition check_lockout :: "real \<Rightarrow> str \<Rightarrow> attempt_store \<Rightarrow> attempt_store \<times> (int \<times> int) option" where
  "check_lockout now ip d =
     (let d1 = prune_expired_attempts now d;
          ts = attempts_of ip d1
      in (d1, if length ts \<ge> FAILED_ATTEMPT_THRESHOLD
              then Some (let n = seconds_until_reset now ts in (n, max 1 ((n + 59) div 60)))
              else None))"

definition record_failed_attempt :: "real \<Rightarrow> str \<Rightarrow> attempt_store \<Rightarrow> attempt_store" where
  "record_failed_attempt now ip d =
     (let d1 = prune_expired_attempts now d in AList.update ip (attempts_of ip d1 @ [now]) d1)"

definition clear_failed_attempts :: "str \<Rightarrow> attempt_store \<Rightarrow> attempt_store" where
  "clear_failed_attempts ip d = AList.delete ip d"

section \<open>Requests\<close>

record admin_request =
  adq_headers :: "str \<Rightarrow> str option"
  adq_peer :: "str option"
  adq_session_cookie :: "str option"
  adq_cf_cookie :: "str option"

definition behind_proxy :: "env \<Rightarrow> bool" where
  "behind_proxy env = (lower (getenv env ''BEHIND_PROXY'' ''false'') = ''true'')"

definition get_client_ip :: "env \<Rightarrow> admin_request \<Rightarrow> str" where
  "get_client_ip env r =
     (let direct = (case adq_peer r of None \<Rightarrow> ''unknown'' | Some h \<Rightarrow> h);
          cf = strip (getenv (adq_headers r) ''CF-Connecting-IP'' []);
          fwd = strip (getenv (adq_headers r) ''X-Forwarded-For'' []);
          first_ip = strip (hd (split_on (CHR '','') fwd))
      in if \<not> behind_proxy env then direct
         else if cf \<noteq> [] then cf
         else if fwd \<noteq> [] \<and> first_ip \<noteq> [] then first_ip
         else direct)"

definition extract_bearer_token :: "str option \<Rightarrow> str option" where
  "extract_bearer_token h =
     (if \<not> truthy h then None
      else case words (or_else h []) of
        [scheme, token] \<Rightarrow> if lower scheme = ''bearer'' then Some token else None
      | _ \<Rightarrow> None)"

text \<open>\<open>admin_session_token or _extract_bearer_token(authorization)\<close>; None is HTTP 401 in
  \<open>get_token_from_cookie_or_header\<close>.\<close>

definition session_token :: "admin_request \<Rightarrow> str option" where
  "session_token r =
     (if truthy (adq_session_cookie r) then adq_session_cookie r
      else extract_bearer_token (adq_headers r ''Authorization''))"

section \<open>The directory of managers\<close>

definition normalize :: "str option \<Rightarrow> str" where
  "normalize email = (case email of None \<Rightarrow> [] | Some e \<Rightarrow> lower (strip e))"

definition parse_admin_emails_env :: "str \<Rightarrow> str list" where
  "parse_admin_emails_env raw =
     map (\<lambda>i. lower (strip i)) (filter (\<lambda>i. strip i \<noteq> []) (split_on (CHR '','') raw))"

definition manager_admin_emails :: "env \<Rightarrow> str list" where
  "manager_admin_emails env = parse_admin_emails_env (getenv env ''MANAGER_ADMIN_EMAILS'' [])"

definition protected_admin :: "env \<Rightarrow> str" where
  "protected_admin env = (case manager_admin_emails env of [] \<Rightarrow> [] | e # _ \<Rightarrow> e)"

definition directory_token :: "env \<Rightarrow> str" where
  "directory_token env = strip (getenv env ''PORTAL_DIRECTORY_TOKEN'' [])"

definition normal_set :: "str option list \<Rightarrow> str set" where
  "normal_set items = set (filter (\<lambda>e. e \<noteq> []) (map normalize items))"

definition floor_emails :: "env \<Rightarrow> str set" where
  "floor_emails env =
     (let raw = strip (getenv env ''CF_ADMIN_EMAILS'' []) in
      normal_set (map Some (if raw \<noteq> [] then split_on (CHR '','') raw else manager_admin_emails env)))"

text \<open>
  The portal's answer: no connection, or a status with a body that is no JSON, has no list of
  managers, or has one (None is an entry that is no string).
\<close>

datatype directory_body = NotJson | NoManagers | ManagerList "str option list"
datatype directory_answer = Unreachable | Answered int directory_body
datatype directory_health = DhUnreachable | DhHttp int | DhMalformed | DhEmpty | DhOk

record directory =
  snapshot :: "str set option"
  last_state :: "directory_health option"
  dir_log :: "directory_health list"

text \<open>\<open>_note_state\<close> logs an outcome only when it differs from the last one.\<close>

definition note_state :: "directory_health \<Rightarrow> directory \<Rightarrow> directory" where
  "note_state h d = (if last_state d = Some h then d
     else d\<lparr>last_state := Some h, dir_log := dir_log d @ [h]\<rparr>)"

definition refresh_once :: "env \<Rightarrow> directory_answer \<Rightarrow> directory \<Rightarrow> directory \<times> bool" where
  "refresh_once env a d =
     (if directory_token env = [] then (d, False)
      else case a of
        Unreachable \<Rightarrow> (note_state DhUnreachable d, False)
      | Answered status body \<Rightarrow>
          if status \<noteq> 200 then (note_state (DhHttp status) d, False)
          else (case body of
              NotJson \<Rightarrow> (note_state DhMalformed d, False)
            | NoManagers \<Rightarrow> (note_state DhMalformed d, False)
            | ManagerList items \<Rightarrow>
                if normal_set items = {} then (note_state DhEmpty d, False)
                else (note_state DhOk (d\<lparr>snapshot := Some (normal_set items)\<rparr>), True)))"

definition is_admin_email :: "env \<Rightarrow> directory \<Rightarrow> str option \<Rightarrow> bool" where
  "is_admin_email env d email =
     (let n = normalize email in
      if n = [] then False
      else case snapshot d of
        Some s \<Rightarrow> n = protected_admin env \<or> n \<in> s
      | None \<Rightarrow> n \<in> floor_emails env)"

section \<open>Cloudflare Access\<close>

definition CF_ACCESS_TEAM_DOMAIN :: str where
  "CF_ACCESS_TEAM_DOMAIN = ''https://laikaexpress.cloudflareaccess.com''"

definition DEFAULT_ACCESS_AUDS :: "str list" where
  "DEFAULT_ACCESS_AUDS = [''3c622b40cc931c7414dcfc583bed1f50afaac316eafb914cc7f153650843ea8b'',
     ''57f843579497b508143412a5980c1c4fc94ca01abadab465b57a88b5a733e487'']"

definition resolve_accepted_auds :: "env \<Rightarrow> str list" where
  "resolve_accepted_auds env =
     (let raw = strip (getenv env ''CF_ACCESS_AUDS'' []) in
      if raw = [] then DEFAULT_ACCESS_AUDS
      else filter (\<lambda>a. a \<noteq> []) (map strip (split_on (CHR '','') raw)))"

definition is_cf_auto_login_enabled :: "env \<Rightarrow> bool" where
  "is_cf_auto_login_enabled env \<longleftrightarrow>
     lower (strip (getenv env ''CF_AUTO_LOGIN'' ''true'')) \<notin> {''false'', ''0'', ''no''}"

definition verify_cf_access :: "admin_lib \<Rightarrow> env \<Rightarrow> real \<Rightarrow> str \<Rightarrow> str option" where
  "verify_cf_access lib env now token =
     (if token = [] then None
      else case cf_decode lib now CF_ACCESS_TEAM_DOMAIN (resolve_accepted_auds env) token of
        None \<Rightarrow> None
      | Some email \<Rightarrow> if truthy email then email else None)"

definition extract_cf_access_token :: "admin_request \<Rightarrow> str option" where
  "extract_cf_access_token r =
     (let h = adq_headers r ''Cf-Access-Jwt-Assertion'' in if truthy h then h else adq_cf_cookie r)"

definition get_cf_access_email ::
  "admin_lib \<Rightarrow> env \<Rightarrow> directory \<Rightarrow> real \<Rightarrow> admin_request \<Rightarrow> str option" where
  "get_cf_access_email lib env dir now r =
     (if \<not> is_cf_auto_login_enabled env then None
      else if \<not> truthy (extract_cf_access_token r) then None
      else case verify_cf_access lib env now (or_else (extract_cf_access_token r) []) of
        None \<Rightarrow> None
      | Some email \<Rightarrow> if is_admin_email env dir (Some email) then Some email else None)"

text \<open>The staff-level guard of the private routers; None is HTTP 401.\<close>

definition require_cf_access :: "admin_lib \<Rightarrow> env \<Rightarrow> real \<Rightarrow> admin_request \<Rightarrow> str option" where
  "require_cf_access lib env now r =
     (let token = extract_cf_access_token r in
      if truthy token then verify_cf_access lib env now (or_else token []) else None)"

section \<open>Endpoints and guards\<close>

record admin_state =
  adm_sessions :: session_store
  adm_attempts :: attempt_store
  adm_directory :: directory

text \<open>The clock readings of one handler, in the order it makes them.\<close>

record readings =
  rd_jwt :: real
  rd_cleanup :: dtime
  rd_check :: dtime
  rd_info :: dtime

record login_try =
  li_passcode :: str
  li_token :: str
  li_now :: real
  li_now' :: real
  li_expires :: dtime
  li_created :: dtime
  li_info :: dtime

datatype admin_answer =
    AdUnprocessable
  | AdTooMany int int
  | AdWrongPasscode
  | AdLoggedIn str session_info bool
  | AdValid "session_info option"
  | AdInvalid
  | AdLoggedOut
  | AdUnauthorized
  | AdSession "session_info option"
  | AdGranted str
  | AdPage str
  | AdToLogin bool
  | AdSocketClosed
  | AdSocketOpen
  | AdRefreshed bool

definition admin_login ::
  "admin_lib \<Rightarrow> env \<Rightarrow> str \<Rightarrow> admin_request \<Rightarrow> login_try \<Rightarrow> admin_state \<Rightarrow> admin_state \<times> admin_answer" where
  "admin_login lib env hashed r l s =
     (let ip = get_client_ip env r in
      if li_passcode l = [] then (s, AdUnprocessable)
      else case check_lockout (li_now l) ip (adm_attempts s) of
        (d, Some (secs, minutes)) \<Rightarrow> (s\<lparr>adm_attempts := d\<rparr>, AdTooMany secs minutes)
      | (d, None) \<Rightarrow>
          if \<not> verify_passcode lib hashed (li_passcode l) then
            (s\<lparr>adm_attempts := record_failed_attempt (li_now' l) ip d\<rparr>, AdWrongPasscode)
          else
            (let ses = create_session (li_expires l) (li_created l) (li_token l) (adm_sessions s) in
             (s\<lparr>adm_attempts := clear_failed_attempts ip d, adm_sessions := ses\<rparr>,
              case get_session_info (li_info l) (li_token l) ses of
                None \<Rightarrow> AdInvalid
              | Some i \<Rightarrow> AdLoggedIn (li_token l) i (behind_proxy env))))"

definition validate_endpoint ::
  "admin_lib \<Rightarrow> env \<Rightarrow> admin_request \<Rightarrow> readings \<Rightarrow> admin_state \<Rightarrow> admin_state \<times> admin_answer" where
  "validate_endpoint lib env r t s =
     (if get_cf_access_email lib env (adm_directory s) (rd_jwt t) r \<noteq> None then (s, AdValid None)
      else case session_token r of
        None \<Rightarrow> (s, AdInvalid)
      | Some token \<Rightarrow>
          (case validate_session (rd_check t) token
               (fst (cleanup_expired_sessions (rd_cleanup t) (adm_sessions s))) of
             (ses, ok) \<Rightarrow> (s\<lparr>adm_sessions := ses\<rparr>,
               if ok then AdValid (get_session_info (rd_info t) token ses) else AdInvalid)))"

definition admin_logout :: "admin_request \<Rightarrow> admin_state \<Rightarrow> admin_state \<times> admin_answer" where
  "admin_logout r s =
     (case session_token r of
        None \<Rightarrow> (s, AdUnauthorized)
      | Some token \<Rightarrow> (s\<lparr>adm_sessions := revoke_session token (adm_sessions s)\<rparr>, AdLoggedOut))"

definition session_info_endpoint ::
  "admin_request \<Rightarrow> readings \<Rightarrow> admin_state \<Rightarrow> admin_state \<times> admin_answer" where
  "session_info_endpoint r t s =
     (case session_token r of
        None \<Rightarrow> (s, AdUnauthorized)
      | Some token \<Rightarrow>
          (case validate_session (rd_check t) token (adm_sessions s) of
             (ses, ok) \<Rightarrow> (s\<lparr>adm_sessions := ses\<rparr>,
               if ok then AdSession (get_session_info (rd_info t) token ses) else AdUnauthorized)))"

definition resolve_admin_identity ::
  "admin_lib \<Rightarrow> env \<Rightarrow> admin_request \<Rightarrow> readings \<Rightarrow> admin_state \<Rightarrow> admin_state \<times> str option" where
  "resolve_admin_identity lib env r t s =
     (case get_cf_access_email lib env (adm_directory s) (rd_jwt t) r of
        Some email \<Rightarrow> (s, Some (''cf-access:'' @ email))
      | None \<Rightarrow>
          (case session_token r of
             None \<Rightarrow> (s, None)
           | Some token \<Rightarrow>
               (case validate_session (rd_check t) token (adm_sessions s) of
                  (ses, ok) \<Rightarrow> (s\<lparr>adm_sessions := ses\<rparr>, if ok then Some token else None))))"

definition require_admin_auth ::
  "admin_lib \<Rightarrow> env \<Rightarrow> admin_request \<Rightarrow> readings \<Rightarrow> admin_state \<Rightarrow> admin_state \<times> admin_answer" where
  "require_admin_auth lib env r t s =
     (case resolve_admin_identity lib env r t s of
        (s', None) \<Rightarrow> (s', AdUnauthorized)
      | (s', Some identity) \<Rightarrow> (s', AdGranted identity))"

definition serve_admin_page ::
  "admin_lib \<Rightarrow> env \<Rightarrow> admin_request \<Rightarrow> str \<Rightarrow> readings \<Rightarrow> admin_state \<Rightarrow> admin_state \<times> admin_answer" where
  "serve_admin_page lib env r file t s =
     (if get_cf_access_email lib env (adm_directory s) (rd_jwt t) r \<noteq> None then (s, AdPage file)
      else if \<not> truthy (adq_session_cookie r) then (s, AdToLogin False)
      else case validate_session (rd_check t) (or_else (adq_session_cookie r) []) (adm_sessions s) of
        (ses, ok) \<Rightarrow> (s\<lparr>adm_sessions := ses\<rparr>, if ok then AdPage file else AdToLogin True))"

definition DEFAULT_CORS_ALLOWED_ORIGINS :: str where
  "DEFAULT_CORS_ALLOWED_ORIGINS = ''https://erp.thehfhotel.org,https://emp.thehfhotel.org''"

definition parse_allowed_origins :: "env \<Rightarrow> str list" where
  "parse_allowed_origins env =
     map strip (filter (\<lambda>o'. strip o' \<noteq> [])
       (split_on (CHR '','') (getenv env ''CORS_ALLOWED_ORIGINS'' DEFAULT_CORS_ALLOWED_ORIGINS)))"

text \<open>The checks of \<open>websocket_endpoint\<close> before the connection is accepted.\<close>

definition websocket_guard ::
  "admin_lib \<Rightarrow> env \<Rightarrow> admin_request \<Rightarrow> readings \<Rightarrow> admin_state \<Rightarrow> admin_state \<times> admin_answer" where
  "websocket_guard lib env r t s =
     (if (case adq_headers r ''origin'' of
           None \<Rightarrow> False | Some orig \<Rightarrow> orig \<notin> set (parse_allowed_origins env))
      then (s, AdSocketClosed)
      else if get_cf_access_email lib env (adm_directory s) (rd_jwt t) r \<noteq> None then (s, AdSocketOpen)
      else if \<not> truthy (adq_session_cookie r) then (s, AdSocketClosed)
      else case validate_session (rd_check t) (or_else (adq_session_cookie r) []) (adm_sessions s) of
        (ses, ok) \<Rightarrow> (s\<lparr>adm_sessions := ses\<rparr>, if ok then AdSocketOpen else AdSocketClosed))"

section \<open>The machine\<close>

datatype admin_event =
    AdmLogin admin_request login_try
  | AdmValidate admin_request readings
  | AdmLogout admin_request
  | AdmSessionInfo admin_request readings
  | AdmRequire admin_request readings
  | AdmPage admin_request str readings
  | AdmSocket admin_request readings
  | AdmDirectory directory_answer

text \<open>The environment is fixed at start-up, and so is the hash of the passcode.\<close>

record admin_world =
  aw_lib :: admin_lib
  aw_env :: env
  aw_hash :: str

fun admin_step :: "admin_world \<Rightarrow> admin_state \<Rightarrow> admin_event \<Rightarrow> admin_state \<times> admin_answer" where
  "admin_step w s (AdmLogin r l) = admin_login (aw_lib w) (aw_env w) (aw_hash w) r l s"
| "admin_step w s (AdmValidate r t) = validate_endpoint (aw_lib w) (aw_env w) r t s"
| "admin_step w s (AdmLogout r) = admin_logout r s"
| "admin_step w s (AdmSessionInfo r t) = session_info_endpoint r t s"
| "admin_step w s (AdmRequire r t) = require_admin_auth (aw_lib w) (aw_env w) r t s"
| "admin_step w s (AdmPage r file t) = serve_admin_page (aw_lib w) (aw_env w) r file t s"
| "admin_step w s (AdmSocket r t) = websocket_guard (aw_lib w) (aw_env w) r t s"
| "admin_step w s (AdmDirectory a) =
     (case refresh_once (aw_env w) a (adm_directory s) of
        (d, ok) \<Rightarrow> (s\<lparr>adm_directory := d\<rparr>, AdRefreshed ok))"

definition admin_start :: admin_state where
  "admin_start = \<lparr>adm_sessions = [], adm_attempts = [],
     adm_directory = \<lparr>snapshot = None, last_state = None, dir_log = []\<rparr>\<rparr>"

end
