(* ===== verification/AdminFacts.thy ===== *)
theory AdminFacts
  imports AdminAccess
begin

text \<open>
  What the administrator machine guarantees: nobody acts as an administrator without a
  passcode session of the last hour or a Cloudflare identity of a manager, guessing the
  passcode is limited to five attempts in any fifteen minutes, a session lasts its hour, and
  the directory of managers fails closed.
\<close>

section \<open>Sessions\<close>

type_synonym admin_trace = "(admin_event \<times> admin_answer) list"

lemma validate_session_True:
  "validate_session n tok d = (d', True) \<Longrightarrow>
     d' = d \<and> tok \<noteq> [] \<and> (\<exists>v. map_of d tok = Some v \<and> n \<le> ses_expires_at v)"
  by (auto simp: validate_session_def session_over_def split: if_splits option.splits)

lemma validate_session_less:
  "validate_session n tok d = (d', ok) \<Longrightarrow> dict_ok d \<Longrightarrow> dict_ok d' \<and> map_of d' \<subseteq>\<^sub>m map_of d"
  by (auto simp: validate_session_def map_le_def dict_simps split: if_splits option.splits)

lemma cleanup_less:
  "dict_ok d \<Longrightarrow> dict_ok (fst (cleanup_expired_sessions n d))
     \<and> map_of (fst (cleanup_expired_sessions n d)) \<subseteq>\<^sub>m map_of d"
  by (auto simp: cleanup_expired_sessions_def map_le_def dict_simps dom_def split: option.splits if_splits)

lemma validate_session_live:
  "map_of d tok = Some v \<Longrightarrow> tok \<noteq> [] \<Longrightarrow> n \<le> ses_expires_at v \<Longrightarrow> validate_session n tok d = (d, True)"
  by (simp add: validate_session_def session_over_def)

lemma validate_session_keeps:
  "dict_ok d \<Longrightarrow> validate_session n tok' d = (d', ok) \<Longrightarrow> map_of d tok = Some v \<Longrightarrow> n \<le> ses_expires_at v
    \<Longrightarrow> map_of d' tok = Some v"
  by (auto simp: validate_session_def session_over_def dict_simps split: if_splits option.splits)

lemma cleanup_keeps:
  "dict_ok d \<Longrightarrow> map_of d tok = Some v \<Longrightarrow> n \<le> ses_expires_at v
    \<Longrightarrow> map_of (fst (cleanup_expired_sessions n d)) tok = Some v"
  by (simp add: cleanup_expired_sessions_def session_over_def dict_simps)

text \<open>The session a login opens, and the logins and logouts of a token in a trace.\<close>

definition opens_session :: "admin_world \<Rightarrow> str \<Rightarrow> dtime \<Rightarrow> admin_event \<times> admin_answer \<Rightarrow> bool" where
  "opens_session w tok until eo \<longleftrightarrow> (\<exists>r l i sec. eo = (AdmLogin r l, AdLoggedIn tok i sec) \<and> li_token l = tok
     \<and> verify_passcode (aw_lib w) (aw_hash w) (li_passcode l) \<and> until = li_expires l + hour_us)"

definition logs_out :: "str \<Rightarrow> admin_event \<times> admin_answer \<Rightarrow> bool" where
  "logs_out tok eo \<longleftrightarrow> (\<exists>r. eo = (AdmLogout r, AdLoggedOut) \<and> session_token r = Some tok)"

definition session_open :: "admin_world \<Rightarrow> admin_trace \<Rightarrow> str \<Rightarrow> dtime \<Rightarrow> bool" where
  "session_open w h tok until \<longleftrightarrow> (\<exists>h1 eo h2. h = h1 @ eo # h2 \<and> opens_session w tok until eo
     \<and> (\<forall>x \<in> set h2. \<not> logs_out tok x))"

lemma session_open_later:
  "session_open w h tok until \<Longrightarrow> \<not> logs_out tok x \<Longrightarrow> session_open w (h @ [x]) tok until"
proof -
  assume "session_open w h tok until" and x: "\<not> logs_out tok x"
  then obtain h1 eo h2 where h: "h = h1 @ eo # h2" "opens_session w tok until eo" "\<forall>x \<in> set h2. \<not> logs_out tok x"
    unfolding session_open_def by blast
  then have "h @ [x] = h1 @ eo # (h2 @ [x])" "\<forall>y \<in> set (h2 @ [x]). \<not> logs_out tok y" using x by auto
  then show ?thesis using h(2) unfolding session_open_def by blast
qed

lemma login_sessions:
  assumes "dict_ok (adm_sessions s)"
    and "admin_login (aw_lib w) (aw_env w) (aw_hash w) r l s = (s', out)"
  shows "dict_ok (adm_sessions s') \<and> (adm_sessions s' = adm_sessions s
    \<or> opens_session w (li_token l) (li_expires l + hour_us) (AdmLogin r l, out)
      \<and> adm_sessions s' = create_session (li_expires l) (li_created l) (li_token l) (adm_sessions s))"
  using assms
  by (auto simp: admin_login_def create_session_def get_session_info_def opens_session_def Let_def
      dict_simps split: if_splits prod.splits option.splits)

definition guard_of :: "admin_event \<Rightarrow> (admin_request \<times> readings) option" where
  "guard_of e = (case e of AdmRequire r t \<Rightarrow> Some (r, t) | AdmPage r f t \<Rightarrow> Some (r, t)
     | AdmSocket r t \<Rightarrow> Some (r, t) | _ \<Rightarrow> None)"

definition admitted :: "admin_answer \<Rightarrow> bool" where
  "admitted out \<longleftrightarrow> (\<exists>x. out = AdGranted x \<or> out = AdPage x) \<or> out = AdSocketOpen"

text \<open>Every operation but a login only takes sessions away.\<close>

definition fewer :: "session_store \<Rightarrow> session_store \<Rightarrow> bool" where
  "fewer d d' \<longleftrightarrow> (dict_ok d \<longrightarrow> dict_ok d' \<and> map_of d' \<subseteq>\<^sub>m map_of d)"

lemma fewer_refl [simp]: "fewer d d"
  by (simp add: fewer_def)

lemma fewer_validate: "validate_session n tok d = (d', ok) \<Longrightarrow> fewer d d'"
  using validate_session_less by (simp add: fewer_def)

lemma fewer_cleanup_validate:
  "validate_session n tok (fst (cleanup_expired_sessions m d)) = (d', ok) \<Longrightarrow> fewer d d'"
  using validate_session_less [of n tok _ d' ok] cleanup_less [of d m]
  by (auto simp: fewer_def intro: map_le_trans)

lemma fewer_revoke: "fewer d (revoke_session tok d)"
  by (auto simp: fewer_def revoke_session_def dict_simps map_le_def)

lemma step_fewer:
  assumes "admin_step w s e = (s', out)" "\<forall>r l. e \<noteq> AdmLogin r l"
  shows "fewer (adm_sessions s) (adm_sessions s')"
  using assms
  by (cases e)
    (auto simp: validate_endpoint_def admin_logout_def session_info_endpoint_def require_admin_auth_def
      resolve_admin_identity_def serve_admin_page_def websocket_guard_def
      split: if_splits option.splits prod.splits
      intro: fewer_validate fewer_cleanup_validate fewer_revoke)

lemma logout_closes:
  assumes "dict_ok (adm_sessions s)" "admin_step w s e = (s', out)" "logs_out tok (e, out)"
  shows "map_of (adm_sessions s') tok = None"
  using assms by (auto simp: logs_out_def admin_logout_def revoke_session_def dict_simps)

definition sessions_known :: "admin_world \<Rightarrow> admin_trace \<Rightarrow> session_store \<Rightarrow> bool" where
  "sessions_known w h d \<longleftrightarrow> dict_ok d
     \<and> (\<forall>tok v. map_of d tok = Some v \<longrightarrow> session_open w h tok (ses_expires_at v))"

lemma sessions_known_step:
  assumes h: "sessions_known w h (adm_sessions s)" and st: "admin_step w s e = (s', out)"
  shows "sessions_known w (h @ [(e, out)]) (adm_sessions s')"
proof (cases "\<exists>r l. e = AdmLogin r l")
  case True
  then obtain r l where e: "e = AdmLogin r l" by blast
  have d: "dict_ok (adm_sessions s)" using h by (simp add: sessions_known_def)
  have n: "\<not> logs_out tok (e, out)" for tok using e by (simp add: logs_out_def)
  have k: "session_open w (h @ [(e, out)]) tok (ses_expires_at v)" if "map_of (adm_sessions s) tok = Some v" for tok v
    using h that n by (auto simp: sessions_known_def intro: session_open_later)
  from login_sessions [OF d] st e
  consider "dict_ok (adm_sessions s')" "adm_sessions s' = adm_sessions s"
    | "dict_ok (adm_sessions s')" "opens_session w (li_token l) (li_expires l + hour_us) (e, out)"
      "adm_sessions s' = create_session (li_expires l) (li_created l) (li_token l) (adm_sessions s)"
    by fastforce
  then show ?thesis
  proof cases
    case 1
    then show ?thesis using k by (simp add: sessions_known_def)
  next
    case 2
    have "session_open w (h @ [(e, out)]) (li_token l) (li_expires l + hour_us)"
      using 2(2) unfolding session_open_def by (intro exI [of _ h] exI [of _ "(e, out)"] exI [of _ "[]"]) simp
    then show ?thesis using 2 k d
      by (auto simp: sessions_known_def create_session_def SESSION_DURATION_def dict_simps)
  qed
next
  case False
  then have f: "fewer (adm_sessions s) (adm_sessions s')" using step_fewer [OF st] by blast
  have d: "dict_ok (adm_sessions s)" using h by (simp add: sessions_known_def)
  have "session_open w (h @ [(e, out)]) tok (ses_expires_at v)" if v: "map_of (adm_sessions s') tok = Some v" for tok v
  proof -
    have "map_of (adm_sessions s) tok = Some v" using f d v by (auto simp: fewer_def map_le_def dom_def)
    then have "session_open w h tok (ses_expires_at v)" using h by (simp add: sessions_known_def)
    then show ?thesis using logout_closes [OF d st] v by (auto intro: session_open_later)
  qed
  then show ?thesis using f d by (simp add: sessions_known_def fewer_def)
qed

section \<open>The managers\<close>

text \<open>The managers the portal named last, of a trace.\<close>

fun managers_after :: "str set option \<Rightarrow> admin_trace \<Rightarrow> str set option" where
  "managers_after m [] = m"
| "managers_after m ((AdmDirectory (Answered st (ManagerList items)), AdRefreshed True) # h) =
     managers_after (Some (normal_set items)) h"
| "managers_after m (_ # h) = managers_after m h"

lemma managers_after_append: "managers_after m (h @ h') = managers_after (managers_after m h) h'"
  by (induction m h rule: managers_after.induct) auto

lemma refresh_True:
  "refresh_once env a d = (d', True) \<Longrightarrow>
     \<exists>items. a = Answered 200 (ManagerList items) \<and> snapshot d' = Some (normal_set items) \<and> normal_set items \<noteq> {}"
  by (auto simp: refresh_once_def note_state_def split: if_splits directory_answer.splits directory_body.splits)

lemma refresh_False: "refresh_once env a d = (d', False) \<Longrightarrow> snapshot d' = snapshot d"
  by (auto simp: refresh_once_def note_state_def split: if_splits directory_answer.splits directory_body.splits)

lemma snapshot_step:
  assumes "admin_step w s e = (s', out)"
  shows "snapshot (adm_directory s') = managers_after (snapshot (adm_directory s)) [(e, out)]"
proof (cases e)
  case (AdmDirectory a)
  then show ?thesis using assms refresh_True refresh_False
    by (cases "refresh_once (aw_env w) a (adm_directory s)"; cases "snd (refresh_once (aw_env w) a (adm_directory s))")
      (fastforce simp: )+
qed (use assms in \<open>auto simp: admin_login_def validate_endpoint_def admin_logout_def session_info_endpoint_def
      require_admin_auth_def resolve_admin_identity_def serve_admin_page_def websocket_guard_def Let_def
      split: if_splits option.splits prod.splits\<close>)

section \<open>Nobody else is an administrator\<close>

text \<open>
  The two ways to be an administrator after a history: a Cloudflare token for our issuer and
  audiences whose address the portal named (or the configured floor, while the portal never
  answered), or a session opened with the passcode at most an hour ago and not logged out.
\<close>

definition manager_by :: "admin_world \<Rightarrow> admin_trace \<Rightarrow> str \<Rightarrow> bool" where
  "manager_by w h email \<longleftrightarrow> normalize (Some email) \<noteq> [] \<and> (case managers_after None h of
       None \<Rightarrow> normalize (Some email) \<in> floor_emails (aw_env w)
     | Some named \<Rightarrow> normalize (Some email) \<in> insert (protected_admin (aw_env w)) named)"

definition by_cloudflare :: "admin_world \<Rightarrow> admin_trace \<Rightarrow> admin_request \<Rightarrow> readings \<Rightarrow> bool" where
  "by_cloudflare w h r t \<longleftrightarrow> (\<exists>token email. extract_cf_access_token r = Some token
     \<and> cf_decode (aw_lib w) (rd_jwt t) CF_ACCESS_TEAM_DOMAIN (resolve_accepted_auds (aw_env w)) token
         = Some (Some email)
     \<and> is_cf_auto_login_enabled (aw_env w) \<and> manager_by w h email)"

definition by_passcode :: "admin_world \<Rightarrow> admin_trace \<Rightarrow> admin_request \<Rightarrow> readings \<Rightarrow> bool" where
  "by_passcode w h r t \<longleftrightarrow> (\<exists>token until. session_token r = Some token
     \<and> session_open w h token until \<and> rd_check t \<le> until)"

definition admin_history :: "admin_world \<Rightarrow> admin_trace \<Rightarrow> admin_state \<Rightarrow> bool" where
  "admin_history w h s \<longleftrightarrow> sessions_known w h (adm_sessions s)
     \<and> snapshot (adm_directory s) = managers_after None h"

interpretation admins: traced_machine "admin_step w" "admin_history w" for w
proof unfold_locales
  fix h s e s' out
  assume h: "admin_history w h s" and st: "admin_step w s e = (s', out)"
  show "admin_history w (h @ [(e, out)]) s'"
    using h sessions_known_step [OF _ st] snapshot_step [OF st]
    by (simp add: admin_history_def managers_after_append)
qed

lemma admin_history_start: "admin_history w [] admin_start"
  by (simp add: admin_history_def admin_start_def sessions_known_def)

lemma cf_email_known:
  assumes "get_cf_access_email (aw_lib w) (aw_env w) (adm_directory s) (rd_jwt t) r = Some email"
    and "admin_history w h s"
  shows "by_cloudflare w h r t"
proof -
  obtain token where token: "extract_cf_access_token r = Some token" "token \<noteq> []"
      "verify_cf_access (aw_lib w) (aw_env w) (rd_jwt t) token = Some email"
      "is_admin_email (aw_env w) (adm_directory s) (Some email)" "is_cf_auto_login_enabled (aw_env w)"
    using assms(1) by (auto simp: get_cf_access_email_def truthy_iff split: if_splits option.splits)
  have "cf_decode (aw_lib w) (rd_jwt t) CF_ACCESS_TEAM_DOMAIN (resolve_accepted_auds (aw_env w)) token
      = Some (Some email)"
    using token(3) by (auto simp: verify_cf_access_def split: if_splits option.splits)
  moreover have "manager_by w h email"
    using token(4) assms(2)
    by (auto simp: is_admin_email_def manager_by_def admin_history_def Let_def split: if_splits option.splits)
  ultimately show ?thesis using token(1,5) unfolding by_cloudflare_def by blast
qed

lemma session_known:
  assumes "validate_session (rd_check t) token (adm_sessions s) = (d, True)" "admin_history w h s"
    and "session_token r = Some token"
  shows "by_passcode w h r t"
  using validate_session_True [OF assms(1)] assms(2,3)
  by (auto simp: by_passcode_def admin_history_def sessions_known_def)

lemma guard_admits:
  assumes h: "admin_history w h s" and g: "guard_of e = Some (r, t)"
    and st: "admin_step w s e = (s', out)" and out: "admitted out"
  shows "by_cloudflare w h r t \<or> by_passcode w h r t"
proof (cases "get_cf_access_email (aw_lib w) (aw_env w) (adm_directory s) (rd_jwt t) r")
  case (Some email)
  then show ?thesis using cf_email_known h by blast
next
  case None
  have "\<exists>token d. session_token r = Some token \<and> validate_session (rd_check t) token (adm_sessions s) = (d, True)"
  proof (cases e)
    case (AdmRequire r' t')
    then show ?thesis using g st out None
      by (auto simp: guard_of_def require_admin_auth_def resolve_admin_identity_def admitted_def
          split: option.splits prod.splits if_splits)
  next
    case (AdmPage r' f t')
    then show ?thesis using g st out None
      by (auto simp: guard_of_def serve_admin_page_def admitted_def session_token_def truthy_iff
          split: prod.splits if_splits)
  next
    case (AdmSocket r' t')
    then show ?thesis using g st out None
      by (auto simp: guard_of_def websocket_guard_def admitted_def session_token_def truthy_iff
          split: option.splits prod.splits if_splits)
  qed (use g in \<open>simp_all add: guard_of_def\<close>)
  then show ?thesis using session_known h by blast
qed

text \<open>
  C8. Whoever is let through an administrator guard - of an endpoint, a page or the dashboard's
  WebSocket - either carries a Cloudflare token that verifies for this deployment and names a
  manager (of the portal's last good answer, or of the configured floor when it never
  answered), or the token of a session that the passcode opened at most an hour before and
  that nobody logged out.
\<close>

theorem administrators_are_known:
  assumes "run (admin_step w) admin_start es = (s, tr)" and "tr = h @ (e, out) # h'"
    and "guard_of e = Some (r, t)" and "admitted out"
  shows "by_cloudflare w h r t \<or> by_passcode w h r t"
proof -
  have es: "es = map fst h @ e # map fst h'" using run_events [OF assms(1)] assms(2) by auto
  obtain s1 tr1 where r1: "run (admin_step w) admin_start (map fst h) = (s1, tr1)" by fastforce
  obtain s2 o2 where r2: "admin_step w s1 e = (s2, o2)" by fastforce
  obtain s3 tr3 where r3: "run (admin_step w) s2 (map fst h') = (s3, tr3)" by fastforce
  have "tr = tr1 @ (e, o2) # tr3" using assms(1) r1 r2 r3 by (simp add: es run_append)
  moreover have "length tr1 = length h" using run_events [OF r1] by (metis length_map)
  ultimately have "tr1 = h" "o2 = out" using assms(2) by auto
  then have "admin_history w h s1" using admins.hinv_run [OF admin_history_start r1] by simp
  then show ?thesis using guard_admits assms(3,4) r2 \<open>o2 = out\<close> by blast
qed

section \<open>Guessing\<close>

text \<open>The times of the wrong passcodes from an address since its last right one.\<close>

definition failure :: "admin_world \<Rightarrow> str \<Rightarrow> admin_event \<times> admin_answer \<Rightarrow> real list \<Rightarrow> real list" where
  "failure w ip eo acc = (case eo of
       (AdmLogin r l, AdWrongPasscode) \<Rightarrow> if get_client_ip (aw_env w) r = ip then acc @ [li_now' l] else acc
     | (AdmLogin r l, AdLoggedIn _ _ _) \<Rightarrow> if get_client_ip (aw_env w) r = ip then [] else acc
     | _ \<Rightarrow> acc)"

definition failures :: "admin_world \<Rightarrow> str \<Rightarrow> admin_trace \<Rightarrow> real list" where
  "failures w ip h = fold (failure w ip) h []"

fun login_times :: "admin_event list \<Rightarrow> real list" where
  "login_times [] = []"
| "login_times (AdmLogin r l # es) = li_now l # li_now' l # login_times es"
| "login_times (_ # es) = login_times es"

definition since :: "real \<Rightarrow> real list \<Rightarrow> real list" where
  "since c ts = filter (\<lambda>t. c \<le> t) ts"

lemma since_since [simp]: "since c (since c' ts) = since (max c c') ts"
  by (induction ts) (auto simp: since_def)

lemma since_append [simp]: "since c (xs @ ys) = since c xs @ since c ys"
  by (simp add: since_def)

lemma since_Nil [simp]: "since c [] = []"
  by (simp add: since_def)

lemma attempts_prune:
  "dict_ok d \<Longrightarrow> dict_ok (prune_expired_attempts now d)
     \<and> attempts_of ip (prune_expired_attempts now d) = since (now - FAILED_ATTEMPT_WINDOW) (attempts_of ip d)"
proof (induction d)
  case Nil
  then show ?case by (simp add: prune_expired_attempts_def attempts_of_def)
next
  case (Cons e d)
  obtain k ts where e: "e = (k, ts)" by fastforce
  have d: "dict_ok d" "map_of d k = None" using Cons.prems e by (auto simp: dict_ok_def map_of_eq_None_iff)
  let ?p = "prune_expired_attempts now d"
  have keys: "fst ` set ?p \<subseteq> fst ` set d" by (force simp: prune_expired_attempts_def)
  then have k: "map_of ?p k = None" using d(2) by (auto simp: map_of_eq_None_iff)
  have p: "prune_expired_attempts now ((k, ts) # d) =
      (if since (now - FAILED_ATTEMPT_WINDOW) ts = [] then ?p
       else (k, since (now - FAILED_ATTEMPT_WINDOW) ts) # ?p)"
    by (simp add: prune_expired_attempts_def e since_def)
  have ok: "dict_ok (prune_expired_attempts now (e # d))"
    using Cons.IH [OF d(1)] k by (auto simp: p e dict_ok_def map_of_eq_None_iff)
  show ?case
  proof (cases "ip = k")
    case True
    then show ?thesis using ok k by (simp add: p e attempts_of_def)
  next
    case False
    then show ?thesis using ok Cons.IH [OF d(1)] by (simp add: p e attempts_of_def)
  qed
qed

lemma attempts_record:
  "dict_ok d \<Longrightarrow> dict_ok (record_failed_attempt now ip d)
     \<and> attempts_of ip' (record_failed_attempt now ip d) =
         since (now - FAILED_ATTEMPT_WINDOW) (attempts_of ip' d) @ (if ip' = ip then [now] else [])"
  using attempts_prune [of d now]
  by (auto simp: record_failed_attempt_def Let_def dict_simps) (auto simp: attempts_of_def dict_simps)

lemma attempts_clear:
  "dict_ok d \<Longrightarrow> dict_ok (clear_failed_attempts ip d)
     \<and> attempts_of ip' (clear_failed_attempts ip d) = (if ip' = ip then [] else attempts_of ip' d)"
  by (simp add: clear_failed_attempts_def attempts_of_def dict_simps)

text \<open>What a login attempt does to the counters, by its outcome.\<close>

lemma locked_iff:
  "dict_ok d \<Longrightarrow> check_lockout now ip d = (d1, lock) \<Longrightarrow>
     dict_ok d1 \<and> attempts_of ip' d1 = since (now - 900) (attempts_of ip' d)
     \<and> (lock \<noteq> None \<longleftrightarrow> 5 \<le> length (since (now - 900) (attempts_of ip d)))"
  using attempts_prune [of d now]
  by (auto simp: check_lockout_def FAILED_ATTEMPT_WINDOW_def FAILED_ATTEMPT_THRESHOLD_def Let_def
      split: if_splits)

lemma login_attempts:
  assumes d: "dict_ok (adm_attempts s)"
    and st: "admin_login lib env hashed r l s = (s', out)" and ip: "ip = get_client_ip env r"
  obtains "adm_attempts s' = adm_attempts s" "out = AdUnprocessable"
  | "dict_ok (adm_attempts s')" "out \<noteq> AdWrongPasscode" "\<forall>tok i sec. out \<noteq> AdLoggedIn tok i sec"
      "\<forall>ip'. attempts_of ip' (adm_attempts s') = since (li_now l - 900) (attempts_of ip' (adm_attempts s))"
  | "dict_ok (adm_attempts s')" "out = AdWrongPasscode"
      "length (since (li_now l - 900) (attempts_of ip (adm_attempts s))) < 5"
      "\<forall>ip'. attempts_of ip' (adm_attempts s') = since (max (li_now l - 900) (li_now' l - 900))
         (attempts_of ip' (adm_attempts s)) @ (if ip' = ip then [li_now' l] else [])"
  | "dict_ok (adm_attempts s')" "\<exists>tok i sec. out = AdLoggedIn tok i sec"
      "\<forall>ip'. attempts_of ip' (adm_attempts s') = (if ip' = ip then []
         else since (li_now l - 900) (attempts_of ip' (adm_attempts s)))"
proof -
  obtain d1 lock where c: "check_lockout (li_now l) ip (adm_attempts s) = (d1, lock)" by fastforce
  note k = locked_iff [OF d c]
  consider "li_passcode l = []" | n m where "li_passcode l \<noteq> []" "lock = Some (n, m)"
    | "li_passcode l \<noteq> []" "lock = None" "\<not> verify_passcode lib hashed (li_passcode l)"
    | "li_passcode l \<noteq> []" "lock = None" "verify_passcode lib hashed (li_passcode l)"
    by fastforce
  then show ?thesis
  proof cases
    case 1
    then show ?thesis using st by (intro that(1)) (auto simp: admin_login_def Let_def)
  next
    case 2
    then show ?thesis using st c k
      by (intro that(2)) (auto simp: admin_login_def Let_def ip)
  next
    case 3
    then have "s' = s\<lparr>adm_attempts := record_failed_attempt (li_now' l) ip d1\<rparr>" "out = AdWrongPasscode"
      using st c by (auto simp: admin_login_def Let_def ip)
    then show ?thesis using 3 k attempts_record [of d1 "li_now' l" ip]
      by (intro that(3)) (auto simp: FAILED_ATTEMPT_WINDOW_def max.commute not_le)
  next
    case 4
    then have "adm_attempts s' = clear_failed_attempts ip d1" "\<exists>tok i sec. out = AdLoggedIn tok i sec"
      using st c
      by (auto simp: admin_login_def Let_def ip get_session_info_def create_session_def dict_simps)
    then show ?thesis using 4 k attempts_clear [of d1 ip]
      by (intro that(4)) auto
  qed
qed

definition few_guesses :: "real list \<Rightarrow> bool" where
  "few_guesses ts \<longleftrightarrow> (\<forall>a. length (filter (\<lambda>u. a \<le> u \<and> u \<le> a + 900) ts) \<le> 5)"

definition counted :: "real list \<Rightarrow> real list \<Rightarrow> real \<Rightarrow> bool" where
  "counted att ts T \<longleftrightarrow> (\<forall>u \<in> set ts. u \<le> T) \<and> few_guesses ts \<and> (\<forall>T' \<ge> T. since (T' - 900) att = since (T' - 900) ts)"

lemma length_filter_mono: "(\<And>x. x \<in> set xs \<Longrightarrow> P x \<Longrightarrow> Q x) \<Longrightarrow> length (filter P xs) \<le> length (filter Q xs)"
  by (induction xs) auto

lemma counted_later: "counted att ts T \<Longrightarrow> T \<le> T' \<Longrightarrow> counted att ts T'"
  by (fastforce simp: counted_def)

lemma counted_since: "counted att ts T \<Longrightarrow> T \<le> T' \<Longrightarrow> c \<le> T' \<Longrightarrow> counted (since (c - 900) att) ts T'"
  by (fastforce simp: counted_def)

lemma counted_fail:
  assumes c: "counted att ts T" and t: "T \<le> now" "now \<le> now'" and few: "length (since (now - 900) att) < 5"
  shows "counted (since (now' - 900) att @ [now']) (ts @ [now']) now'"
proof -
  have eq: "since (now - 900) att = since (now - 900) ts" using c t by (simp add: counted_def)
  have "length (filter (\<lambda>u. a \<le> u \<and> u \<le> a + 900) (ts @ [now'])) \<le> 5" for a
  proof (cases "a \<le> now' \<and> now' \<le> a + 900")
    case True
    then have "length (filter (\<lambda>u. a \<le> u \<and> u \<le> a + 900) ts) \<le> length (since (now - 900) ts)"
      unfolding since_def using t by (intro length_filter_mono) auto
    then show ?thesis using few eq by simp
  next
    case False
    then show ?thesis using c by (auto simp: counted_def few_guesses_def)
  qed
  then show ?thesis using c t unfolding counted_def few_guesses_def by fastforce
qed

definition guess_history :: "admin_world \<Rightarrow> admin_trace \<Rightarrow> admin_state \<Rightarrow> bool" where
  "guess_history w h s \<longleftrightarrow> dict_ok (adm_attempts s)
     \<and> (sorted (login_times (map fst h)) \<longrightarrow>
         (\<forall>T ip. (\<forall>u \<in> set (login_times (map fst h)). u \<le> T) \<longrightarrow>
            counted (attempts_of ip (adm_attempts s)) (failures w ip h) T))"

lemma login_times_append [simp]: "login_times (es @ es') = login_times es @ login_times es'"
  by (induction es rule: login_times.induct) auto

lemma failures_append [simp]: "failures w ip (h @ [x]) = failure w ip x (failures w ip h)"
  by (simp add: failures_def)

lemma step_no_login:
  assumes "admin_step w s e = (s', out)" "\<forall>r l. e \<noteq> AdmLogin r l"
  shows "adm_attempts s' = adm_attempts s \<and> login_times [e] = [] \<and> failure w ip (e, out) acc = acc"
  using assms
  by (cases e)
    (auto simp: validate_endpoint_def admin_logout_def session_info_endpoint_def require_admin_auth_def
      resolve_admin_identity_def serve_admin_page_def websocket_guard_def failure_def
      split: if_splits option.splits prod.splits)

lemma counted_login:
  assumes d: "dict_ok (adm_attempts s)"
    and st: "admin_login (aw_lib w) (aw_env w) (aw_hash w) r l s = (s', out)"
    and c: "counted (attempts_of ip (adm_attempts s)) ts T"
    and T: "T \<le> li_now l" "li_now l \<le> li_now' l" "li_now' l \<le> T'"
  shows "counted (attempts_of ip (adm_attempts s')) (failure w ip (AdmLogin r l, out) ts) T'"
proof -
  let ?ip = "get_client_ip (aw_env w) r"
  have later: "counted (attempts_of ip (adm_attempts s)) ts T'" using c T by (intro counted_later [OF c]) auto
  have since: "counted (since (li_now l - 900) (attempts_of ip (adm_attempts s))) ts T'"
    using T by (intro counted_since [OF c]) auto
  have nil: "counted [] [] T'" by (simp add: counted_def few_guesses_def)
  have max: "max (li_now l - 900) (li_now' l - 900) = li_now' l - 900" using T by simp
  from d st show ?thesis
  proof (rule login_attempts [OF _ _ refl])
    assume "adm_attempts s' = adm_attempts s" "out = AdUnprocessable"
    then show ?thesis using later by (simp add: failure_def)
  next
    assume "out \<noteq> AdWrongPasscode" "\<forall>tok i sec. out \<noteq> AdLoggedIn tok i sec"
      "\<forall>ip'. attempts_of ip' (adm_attempts s') = since (li_now l - 900) (attempts_of ip' (adm_attempts s))"
    then show ?thesis using since by (cases out) (auto simp: failure_def)
  next
    assume out: "out = AdWrongPasscode"
      and few: "length (since (li_now l - 900) (attempts_of ?ip (adm_attempts s))) < 5"
      and att: "\<forall>ip'. attempts_of ip' (adm_attempts s') = since (max (li_now l - 900) (li_now' l - 900))
         (attempts_of ip' (adm_attempts s)) @ (if ip' = ?ip then [li_now' l] else [])"
    show ?thesis
    proof (cases "ip = ?ip")
      case True
      have "counted (since (li_now' l - 900) (attempts_of ip (adm_attempts s)) @ [li_now' l]) (ts @ [li_now' l]) (li_now' l)"
        using few True by (intro counted_fail [OF c T(1,2)]) simp
      then show ?thesis using True out att T(3) by (simp add: failure_def max counted_later)
    next
      case False
      then show ?thesis using out att T counted_since [OF c, of T' "li_now' l"]
        by (simp add: failure_def max)
    qed
  next
    assume "\<exists>tok i sec. out = AdLoggedIn tok i sec"
      "\<forall>ip'. attempts_of ip' (adm_attempts s') = (if ip' = ?ip then []
         else since (li_now l - 900) (attempts_of ip' (adm_attempts s)))"
    then show ?thesis using since nil by (auto simp: failure_def)
  qed
qed

lemma login_attempts_ok:
  assumes "dict_ok (adm_attempts s)" "admin_login lib env hashed r l s = (s', out)"
  shows "dict_ok (adm_attempts s')"
  using assms by (rule login_attempts [OF _ _ refl]) (use assms in simp_all)

interpretation guesses: traced_machine "admin_step w" "guess_history w" for w
proof unfold_locales
  fix h s e s' out
  assume h: "guess_history w h s" and st: "admin_step w s e = (s', out)"
  have d: "dict_ok (adm_attempts s)" using h by (simp add: guess_history_def)
  show "guess_history w (h @ [(e, out)]) s'"
  proof (cases "\<exists>r l. e = AdmLogin r l")
    case True
    then obtain r l where e: "e = AdmLogin r l" by blast
    have st': "admin_login (aw_lib w) (aw_env w) (aw_hash w) r l s = (s', out)" using st e by simp
    have "counted (attempts_of ip (adm_attempts s')) (failures w ip (h @ [(e, out)])) T'"
      if srt: "sorted (login_times (map fst (h @ [(e, out)])))"
        and T': "\<forall>u \<in> set (login_times (map fst (h @ [(e, out)]))). u \<le> T'" for T' ip
    proof -
      have T: "\<forall>u \<in> set (login_times (map fst h)). u \<le> li_now l" "li_now l \<le> li_now' l" "li_now' l \<le> T'"
        and s: "sorted (login_times (map fst h))"
        using srt T' by (auto simp: e sorted_append)
      have "counted (attempts_of ip (adm_attempts s)) (failures w ip h) (li_now l)"
        using h s T(1) by (simp add: guess_history_def)
      from counted_login [OF d st' this order_refl T(2,3)] show ?thesis by (simp add: e)
    qed
    then show ?thesis using login_attempts_ok [OF d st'] by (simp add: guess_history_def)
  next
    case False
    then show ?thesis using h step_no_login [OF st] by (simp add: guess_history_def)
  qed
qed

text \<open>
  C22. Guessing the administrator's passcode is slow: as long as the clock does not run
  backwards, no address enters a wrong passcode more than five times in any fifteen minutes,
  counting from its last right one.
\<close>

theorem guesses_are_limited:
  assumes "run (admin_step w) admin_start es = (s, tr)" and "sorted (login_times es)"
  shows "length (filter (\<lambda>u. a \<le> u \<and> u \<le> a + 900) (failures w ip tr)) \<le> 5"
proof -
  have "guess_history w [] admin_start"
    by (simp add: guess_history_def admin_start_def counted_def few_guesses_def failures_def attempts_of_def)
  from guesses.hinv_run [OF this assms(1)] have h: "guess_history w tr s" by simp
  obtain T where "\<forall>u \<in> set (login_times es). u \<le> T"
    by (metis List.finite_set Max_ge)
  then show ?thesis using h assms(2) run_events [OF assms(1)]
    by (auto simp: guess_history_def counted_def few_guesses_def)
qed

lemma guess_history_start: "guess_history w [] admin_start"
  by (simp add: guess_history_def admin_start_def counted_def few_guesses_def failures_def attempts_of_def)

lemma since_all: "length (since c ts) = length ts \<longleftrightarrow> (\<forall>u \<in> set ts. c \<le> u)"
proof
  assume eq: "length (since c ts) = length ts"
  show "\<forall>u \<in> set ts. c \<le> u"
    using length_filter_less [of _ ts "\<lambda>t. c \<le> t"] eq by (fastforce simp: since_def)
qed (simp add: since_def)

text \<open>
  How long a lockout lasts: an address that is locked out stays so exactly until the oldest
  of the five wrong passcodes that count is more than fifteen minutes old.
\<close>

theorem lockout_lifts:
  assumes "run (admin_step w) admin_start es = (s, tr)" and "sorted (login_times es @ [now])"
    and "check_lockout now ip (adm_attempts s) = (d1, Some (n, m))" and "0 \<le> u"
  shows "snd (check_lockout (now + u) ip d1) \<noteq> None
    \<longleftrightarrow> now + u \<le> Min (set (since (now - 900) (failures w ip tr))) + 900"
proof -
  have h: "guess_history w tr s" using guesses.hinv_run [OF guess_history_start assms(1)] by simp
  then have d: "dict_ok (adm_attempts s)" by (simp add: guess_history_def)
  have c: "counted (attempts_of ip (adm_attempts s)) (failures w ip tr) now"
    using h assms(2) run_events [OF assms(1)] by (auto simp: guess_history_def sorted_append)
  define ts where "ts = since (now - 900) (failures w ip tr)"
  have ts: "attempts_of ip d1 = ts" "dict_ok d1" "5 \<le> length ts"
    using locked_iff [OF d assms(3), of ip] c by (auto simp: ts_def counted_def)
  have "length ts \<le> length (filter (\<lambda>u. (now - 900) \<le> u \<and> u \<le> (now - 900) + 900) (failures w ip tr))"
    using c unfolding ts_def since_def counted_def by (intro length_filter_mono) auto
  moreover have "length (filter (\<lambda>u. (now - 900) \<le> u \<and> u \<le> (now - 900) + 900) (failures w ip tr)) \<le> 5"
    using c unfolding counted_def few_guesses_def by blast
  ultimately have len: "length ts = 5" using ts(3) by linarith
  obtain d2 lock where k: "check_lockout (now + u) ip d1 = (d2, lock)" by fastforce
  have "lock \<noteq> None \<longleftrightarrow> 5 \<le> length (since (now + u - 900) ts)"
    using locked_iff [OF ts(2) k] ts(1) by simp
  also have "\<dots> \<longleftrightarrow> length (since (now + u - 900) ts) = length ts"
    using len length_filter_le [of "\<lambda>t. now + u - 900 \<le> t" ts] by (auto simp: since_def)
  also have "\<dots> \<longleftrightarrow> (\<forall>t \<in> set ts. now + u - 900 \<le> t)" by (rule since_all)
  also have "\<dots> \<longleftrightarrow> now + u \<le> Min (set ts) + 900"
  proof -
    have "finite (set ts)" "set ts \<noteq> {}" using len by auto
    then have "now + u - 900 \<le> Min (set ts) \<longleftrightarrow> (\<forall>t \<in> set ts. now + u - 900 \<le> t)"
      by (rule Min_ge_iff)
    then show ?thesis by linarith
  qed
  finally show ?thesis using k by (simp add: ts_def)
qed

section \<open>A session lasts its hour\<close>

text \<open>The events that leave a session alone: no logout and no login with its token, no late clock.\<close>

definition spares :: "str \<Rightarrow> dtime \<Rightarrow> admin_event \<Rightarrow> bool" where
  "spares tok until e = (case e of
       AdmLogin r l \<Rightarrow> li_token l \<noteq> tok
     | AdmLogout r \<Rightarrow> session_token r \<noteq> Some tok
     | AdmValidate r t \<Rightarrow> rd_cleanup t \<le> until \<and> rd_check t \<le> until
     | AdmSessionInfo r t \<Rightarrow> rd_check t \<le> until
     | AdmRequire r t \<Rightarrow> rd_check t \<le> until
     | AdmPage r f t \<Rightarrow> rd_check t \<le> until
     | AdmSocket r t \<Rightarrow> rd_check t \<le> until
     | AdmDirectory a \<Rightarrow> True)"

definition holds :: "str \<Rightarrow> dtime \<Rightarrow> admin_state \<Rightarrow> bool" where
  "holds tok until s \<longleftrightarrow> dict_ok (adm_sessions s)
     \<and> (\<exists>v. map_of (adm_sessions s) tok = Some v \<and> ses_expires_at v = until)"

lemma holds_validate:
  "holds tok until s \<Longrightarrow> n \<le> until \<Longrightarrow> validate_session n tok' (adm_sessions s) = (d, ok)
     \<Longrightarrow> holds tok until (s\<lparr>adm_sessions := d\<rparr>)"
  using validate_session_keeps validate_session_less by (fastforce simp: holds_def)

lemma holds_cleanup:
  "holds tok until s \<Longrightarrow> n \<le> until
     \<Longrightarrow> holds tok until (s\<lparr>adm_sessions := fst (cleanup_expired_sessions n (adm_sessions s))\<rparr>)"
  using cleanup_keeps cleanup_less by (fastforce simp: holds_def)

lemma holds_step:
  assumes h: "holds tok until s" and e: "spares tok until e" and st: "admin_step w s e = (s', out)"
  shows "holds tok until s'"
proof (cases e)
  case (AdmLogin r l)
  have "dict_ok (adm_sessions s)" using h by (simp add: holds_def)
  from login_sessions [OF this] st AdmLogin show ?thesis using h e
    by (fastforce simp: holds_def spares_def create_session_def dict_simps)
next
  case (AdmValidate r t)
  then have t: "rd_cleanup t \<le> until" "rd_check t \<le> until" using e by (simp_all add: spares_def)
  show ?thesis using AdmValidate st h holds_validate [OF holds_cleanup [OF h t(1)] t(2)]
    by (auto simp: validate_endpoint_def split: if_splits option.splits prod.splits)
next
  case (AdmLogout r)
  then show ?thesis using st h e
    by (auto simp: admin_logout_def holds_def spares_def revoke_session_def dict_simps split: option.splits)
next
  case (AdmDirectory a)
  then show ?thesis using st h by (auto simp: holds_def split: prod.splits)
qed (use st h e in \<open>auto simp: spares_def session_info_endpoint_def require_admin_auth_def
      resolve_admin_identity_def serve_admin_page_def websocket_guard_def
      split: if_splits option.splits prod.splits intro: holds_validate\<close>)

lemma holds_run:
  "holds tok until s \<Longrightarrow> \<forall>e \<in> set es. spares tok until e \<Longrightarrow> run (admin_step w) s es = (s', tr)
     \<Longrightarrow> holds tok until s'"
proof (induction es arbitrary: s tr)
  case (Cons e es)
  obtain s1 out where s1: "admin_step w s e = (s1, out)" by fastforce
  obtain tr' where tr': "run (admin_step w) s1 es = (s', tr')" using Cons.prems(3) s1 by (rule run_ConsE)
  show ?case using Cons.IH [OF holds_step [OF Cons.prems(1) _ s1] _ tr'] Cons.prems(2) by simp
qed simp

text \<open>
  The right passcode from an address that is not locked out opens a session that lets its
  holder through the guard for a full hour, whatever else happens, unless it is logged out.
\<close>

theorem session_lasts_its_hour:
  assumes "dict_ok (adm_sessions s)"
    and "li_passcode l \<noteq> []" "verify_passcode (aw_lib w) (aw_hash w) (li_passcode l)"
    and "snd (check_lockout (li_now l) (get_client_ip (aw_env w) r) (adm_attempts s)) = None"
    and "\<forall>e \<in> set es. spares (li_token l) (li_expires l + hour_us) e"
    and "run (admin_step w) s (AdmLogin r l # es) = (s', tr)"
    and "session_token r' = Some (li_token l)" "li_token l \<noteq> []" "rd_check t \<le> li_expires l + hour_us"
  shows "\<exists>identity. snd (admin_step w s' (AdmRequire r' t)) = AdGranted identity"
proof -
  obtain s1 out where s1: "admin_step w s (AdmLogin r l) = (s1, out)" by fastforce
  obtain d lock where c: "check_lockout (li_now l) (get_client_ip (aw_env w) r) (adm_attempts s) = (d, lock)"
    by fastforce
  then have "adm_sessions s1 = create_session (li_expires l) (li_created l) (li_token l) (adm_sessions s)"
    using s1 assms(2,3,4) by (auto simp: admin_login_def Let_def)
  then have "holds (li_token l) (li_expires l + hour_us) s1"
    using assms(1) by (simp add: holds_def create_session_def SESSION_DURATION_def dict_simps)
  moreover obtain tr' where tr': "run (admin_step w) s1 es = (s', tr')" using assms(6) s1 by (rule run_ConsE)
  ultimately have "holds (li_token l) (li_expires l + hour_us) s'" using holds_run assms(5) by blast
  then obtain v where v: "map_of (adm_sessions s') (li_token l) = Some v" "rd_check t \<le> ses_expires_at v"
    using assms(9) unfolding holds_def by auto
  then have "validate_session (rd_check t) (li_token l) (adm_sessions s') = (adm_sessions s', True)"
    using assms(8) by (simp add: validate_session_live)
  then show ?thesis using assms(7)
    by (simp add: require_admin_auth_def resolve_admin_identity_def split: option.splits)
qed

section \<open>The directory fails closed\<close>

text \<open>
  Who is a manager changes only by an answer 200 of the portal with a list that names
  somebody: then it is that list and the protected owner, and after any other answer, or none,
  it is who it was before.
\<close>

theorem directory_fails_closed:
  "is_admin_email env (fst (refresh_once env a d)) email =
     (case a of
        Answered st (ManagerList items) \<Rightarrow>
          if st = 200 \<and> directory_token env \<noteq> [] \<and> normal_set items \<noteq> {}
          then normalize email \<noteq> [] \<and> normalize email \<in> insert (protected_admin env) (normal_set items)
          else is_admin_email env d email
      | _ \<Rightarrow> is_admin_email env d email)"
  by (auto simp: is_admin_email_def refresh_once_def note_state_def Let_def
      split: directory_answer.splits directory_body.splits)

section \<open>A day at the console\<close>

definition demo_admin_world :: admin_world where
  "demo_admin_world = \<lparr>aw_lib = \<lparr>bcrypt_hash = (\<lambda>p. p), bcrypt_check = (\<lambda>p h. Some (p = h)),
      cf_decode = (\<lambda>now iss auds tok. if tok = ''jwt'' then Some (Some ''Boss@hf'') else None)\<rparr>,
     aw_env = (\<lambda>k. if k = ''MANAGER_ADMIN_EMAILS'' then Some '' boss@HF '' else None), aw_hash = ''pw''\<rparr>"

definition demo_admin_request :: "str option \<Rightarrow> admin_request" where
  "demo_admin_request cookie = \<lparr>adq_headers = (\<lambda>h. None), adq_peer = Some ''10.0.0.9'',
     adq_session_cookie = cookie, adq_cf_cookie = None\<rparr>"

definition demo_login :: "str \<Rightarrow> real \<Rightarrow> admin_event" where
  "demo_login p now = AdmLogin (demo_admin_request None) \<lparr>li_passcode = p, li_token = ''tok'', li_now = now,
     li_now' = now, li_expires = 0, li_created = 0, li_info = 0\<rparr>"

definition demo_readings :: "dtime \<Rightarrow> readings" where
  "demo_readings n = \<lparr>rd_jwt = 0, rd_cleanup = n, rd_check = n, rd_info = n\<rparr>"

definition demo_session :: admin_session where
  "demo_session = \<lparr>ses_expires_at = hour_us, ses_created_at = 0\<rparr>"

lemma demo_ip [simp]: "get_client_ip (aw_env demo_admin_world) (demo_admin_request c) = ''10.0.0.9''"
  by (simp add: get_client_ip_def demo_admin_world_def demo_admin_request_def behind_proxy_def getenv_def
      lower_def lower_char_def Let_def)

lemma demo_token [simp]: "session_token (demo_admin_request (Some ''tok'')) = Some ''tok''"
  by (simp add: session_token_def demo_admin_request_def)

lemma demo_no_cf [simp]:
  "get_cf_access_email (aw_lib demo_admin_world) (aw_env demo_admin_world) d n (demo_admin_request c) = None"
  by (simp add: get_cf_access_email_def extract_cf_access_token_def demo_admin_request_def Let_def)

lemma demo_passcode [simp]: "verify_passcode (aw_lib demo_admin_world) (aw_hash demo_admin_world) p \<longleftrightarrow> p = ''pw''"
  by (simp add: verify_passcode_def demo_admin_world_def)

lemma demo_right:
  assumes "adm_attempts s = []"
  shows "\<exists>i sec. admin_step demo_admin_world s (demo_login ''pw'' now) =
    (s\<lparr>adm_sessions := AList.update ''tok'' demo_session (adm_sessions s)\<rparr>, AdLoggedIn ''tok'' i sec)"
  using assms
  by (simp add: demo_login_def admin_login_def check_lockout_def prune_expired_attempts_def attempts_of_def
      clear_failed_attempts_def create_session_def SESSION_DURATION_def get_session_info_def demo_session_def
      FAILED_ATTEMPT_THRESHOLD_def Let_def dict_simps)

definition demo_wrong :: "real list \<Rightarrow> admin_state" where
  "demo_wrong ts = admin_start\<lparr>adm_attempts := if ts = [] then [] else [(''10.0.0.9'', ts)]\<rparr>"

lemma demo_wrong_step:
  assumes "\<forall>t \<in> set ts. now - 900 \<le> t" "length ts < 5"
  shows "admin_step demo_admin_world (demo_wrong ts) (demo_login ''no'' now) = (demo_wrong (ts @ [now]), AdWrongPasscode)"
proof -
  have "filter (\<lambda>t. now - 900 \<le> t) ts = ts" using assms by (simp add: filter_id_conv)
  then show ?thesis using assms
    by (auto simp: demo_login_def admin_login_def check_lockout_def prune_expired_attempts_def attempts_of_def
        record_failed_attempt_def demo_wrong_def FAILED_ATTEMPT_THRESHOLD_def FAILED_ATTEMPT_WINDOW_def Let_def)
qed

definition demo_guesses :: "admin_event list" where
  "demo_guesses = map (demo_login ''no'') [0, 890, 890, 890, 890]"

lemma demo_guesses_run:
  "run (admin_step demo_admin_world) admin_start demo_guesses =
     (demo_wrong [0, 890, 890, 890, 890], map (\<lambda>t. (demo_login ''no'' t, AdWrongPasscode)) [0, 890, 890, 890, 890])"
proof -
  have s: "admin_start = demo_wrong []" by (simp add: demo_wrong_def admin_start_def)
  show ?thesis unfolding s demo_guesses_def
    by (simp add: demo_wrong_step del: admin_step.simps)
qed

theorem administrators_are_known_witness:
  "\<exists>s tr i sec. run (admin_step demo_admin_world) admin_start
       [demo_login ''pw'' 0, AdmRequire (demo_admin_request (Some ''tok'')) (demo_readings hour_us)] = (s, tr)
     \<and> tr = [(demo_login ''pw'' 0, AdLoggedIn ''tok'' i sec)]
       @ (AdmRequire (demo_admin_request (Some ''tok'')) (demo_readings hour_us), AdGranted ''tok'') # []
     \<and> (by_cloudflare demo_admin_world [(demo_login ''pw'' 0, AdLoggedIn ''tok'' i sec)]
          (demo_admin_request (Some ''tok'')) (demo_readings hour_us)
        \<or> by_passcode demo_admin_world [(demo_login ''pw'' 0, AdLoggedIn ''tok'' i sec)]
          (demo_admin_request (Some ''tok'')) (demo_readings hour_us))"
proof -
  let ?r = "demo_admin_request (Some ''tok'')" and ?t = "demo_readings hour_us"
  have st: "adm_attempts admin_start = []" "adm_sessions admin_start = []" by (simp_all add: admin_start_def)
  have "\<exists>i sec. admin_step demo_admin_world admin_start (demo_login ''pw'' 0) =
      (admin_start\<lparr>adm_sessions := [(''tok'', demo_session)]\<rparr>, AdLoggedIn ''tok'' i sec)"
    using demo_right [OF st(1), of 0] st(2) by simp
  then obtain i sec where
    l: "admin_step demo_admin_world admin_start (demo_login ''pw'' 0) =
      (admin_start\<lparr>adm_sessions := [(''tok'', demo_session)]\<rparr>, AdLoggedIn ''tok'' i sec)" by blast
  have g: "admin_step demo_admin_world (admin_start\<lparr>adm_sessions := [(''tok'', demo_session)]\<rparr>) (AdmRequire ?r ?t)
      = (admin_start\<lparr>adm_sessions := [(''tok'', demo_session)]\<rparr>, AdGranted ''tok'')"
    by (simp add: require_admin_auth_def resolve_admin_identity_def validate_session_def session_over_def
        demo_session_def demo_readings_def)
  have r: "run (admin_step demo_admin_world) admin_start [demo_login ''pw'' 0, AdmRequire ?r ?t] =
      (admin_start\<lparr>adm_sessions := [(''tok'', demo_session)]\<rparr>,
       [(demo_login ''pw'' 0, AdLoggedIn ''tok'' i sec)] @ (AdmRequire ?r ?t, AdGranted ''tok'') # [])"
    using l g by (simp del: admin_step.simps)
  have "guard_of (AdmRequire ?r ?t) = Some (?r, ?t)" "admitted (AdGranted ''tok'')"
    by (simp_all add: guard_of_def admitted_def)
  from administrators_are_known [OF r refl this] r show ?thesis by blast
qed

theorem guesses_are_limited_witness:
  "sorted (login_times demo_guesses)
   \<and> failures demo_admin_world ''10.0.0.9'' (snd (run (admin_step demo_admin_world) admin_start demo_guesses))
       = [0, 890, 890, 890, 890]
   \<and> length (filter (\<lambda>u. 0 \<le> u \<and> u \<le> 0 + 900)
       (failures demo_admin_world ''10.0.0.9'' (snd (run (admin_step demo_admin_world) admin_start demo_guesses)))) \<le> 5"
proof -
  have s: "sorted (login_times demo_guesses)" by (simp add: demo_guesses_def demo_login_def)
  have f: "failures demo_admin_world ''10.0.0.9'' (snd (run (admin_step demo_admin_world) admin_start demo_guesses))
      = [0, 890, 890, 890, 890]"
    unfolding demo_guesses_run by (simp add: failures_def failure_def demo_login_def)
  obtain s' tr where r: "run (admin_step demo_admin_world) admin_start demo_guesses = (s', tr)" by fastforce
  show ?thesis using guesses_are_limited [OF r s, of 0 "''10.0.0.9''"] s f r by simp
qed

text \<open>
  Five wrong passcodes of which the first is old lock an address out for ten seconds, not for
  fifteen minutes, and the \<open>Retry-After\<close> of the answer is too early: after 10.5 seconds it says
  9, but the lock still holds then.
\<close>

theorem lockout_lifts_witness:
  "\<exists>d1 m. sorted (login_times demo_guesses @ [1781 / 2 :: real])
     \<and> check_lockout (1781 / 2) ''10.0.0.9'' (adm_attempts (fst (run (admin_step demo_admin_world) admin_start demo_guesses)))
        = (d1, Some (9, m))
     \<and> snd (check_lockout (1781 / 2 + 9) ''10.0.0.9'' d1) \<noteq> None
     \<and> snd (check_lockout (1781 / 2 + 10) ''10.0.0.9'' d1) = None"
proof -
  define now :: real where "now = 1781 / 2"
  let ?s = "demo_wrong [0, 890, 890, 890, 890]"
  have r: "run (admin_step demo_admin_world) admin_start demo_guesses =
      (?s, map (\<lambda>t. (demo_login ''no'' t, AdWrongPasscode)) [0, 890, 890, 890, 890])" (is "_ = (_, ?tr)")
    by (rule demo_guesses_run)
  have s: "sorted (login_times demo_guesses @ [now])"
    by (simp add: demo_guesses_def demo_login_def now_def)
  have c: "check_lockout now ''10.0.0.9'' (adm_attempts ?s) = ([(''10.0.0.9'', [0, 890, 890, 890, 890])], Some (9, 1))"
    by (simp add: check_lockout_def demo_wrong_def prune_expired_attempts_def attempts_of_def now_def
        FAILED_ATTEMPT_THRESHOLD_def FAILED_ATTEMPT_WINDOW_def seconds_until_reset_def Let_def)
  have f: "failures demo_admin_world ''10.0.0.9'' ?tr = [0, 890, 890, 890, 890]"
    by (simp add: failures_def failure_def demo_login_def)
  have m: "Min (set (since (now - 900) [0, 890, 890, 890, 890 :: real])) = 0"
    by (simp add: since_def now_def)
  let ?d1 = "[(''10.0.0.9'', [0, 890, 890, 890, 890 :: real])]"
  have "snd (check_lockout (now + 9) ''10.0.0.9'' ?d1) \<noteq> None"
    using lockout_lifts [OF r s c, of 9] m f by (simp add: now_def)
  moreover have "snd (check_lockout (now + 10) ''10.0.0.9'' ?d1) = None"
    using lockout_lifts [OF r s c, of 10] unfolding f m by (simp add: now_def del: not_None_eq)
  ultimately show ?thesis using s c r unfolding now_def [symmetric] by auto
qed

theorem session_lasts_its_hour_witness:
  "\<exists>s' tr identity. run (admin_step demo_admin_world) admin_start
       [demo_login ''pw'' 0, AdmRequire (demo_admin_request (Some ''x'')) (demo_readings 7)] = (s', tr)
     \<and> snd (admin_step demo_admin_world s' (AdmRequire (demo_admin_request (Some ''tok'')) (demo_readings hour_us)))
        = AdGranted identity"
proof -
  let ?l = "\<lparr>li_passcode = ''pw'', li_token = ''tok'', li_now = 0, li_now' = 0, li_expires = 0, li_created = 0, li_info = 0\<rparr>"
  let ?es = "[AdmRequire (demo_admin_request (Some ''x'')) (demo_readings 7)]"
  obtain s' tr where r: "run (admin_step demo_admin_world) admin_start (AdmLogin (demo_admin_request None) ?l # ?es) = (s', tr)"
    by fastforce
  have "\<exists>identity. snd (admin_step demo_admin_world s'
      (AdmRequire (demo_admin_request (Some ''tok'')) (demo_readings hour_us))) = AdGranted identity"
    by (rule session_lasts_its_hour [OF _ _ _ _ _ r])
      (simp_all add: admin_start_def check_lockout_def prune_expired_attempts_def attempts_of_def Let_def
        FAILED_ATTEMPT_THRESHOLD_def spares_def demo_readings_def hour_us_def)
  then show ?thesis using r unfolding demo_login_def by blast
qed

end
