(* ===== verification/BotText.thy ===== *)
theory BotText
  imports Interfaces
begin

text \<open>
  The text functions of \<open>app/services/staff_bot.py\<close>: UTF-16 spans, command words, the parser of
  repair reports. Staff write Thai, so a message is the list of its Unicode code points, and
  the words of the source are given by theirs.
\<close>

type_synonym utext = "nat list"

section \<open>Unicode\<close>

text \<open>The white space of \<open>str.strip\<close> and of \<open>\s\<close>, and the first digits of the decimal blocks of \<open>\d\<close>.\<close>

definition uspace :: "nat \<Rightarrow> bool" where
  "uspace c \<longleftrightarrow> (9 \<le> c \<and> c \<le> 13) \<or> (28 \<le> c \<and> c \<le> 32) \<or> c = 0x85 \<or> c = 0xA0 \<or> c = 0x1680
     \<or> (0x2000 \<le> c \<and> c \<le> 0x200A) \<or> c = 0x2028 \<or> c = 0x2029 \<or> c = 0x202F \<or> c = 0x205F \<or> c = 0x3000"

definition decimal_zeros :: "nat list" where
  "decimal_zeros = [0x30, 0x660, 0x6f0, 0x7c0, 0x966, 0x9e6, 0xa66, 0xae6, 0xb66, 0xbe6, 0xc66, 0xce6, 0xd66,
      0xde6, 0xe50, 0xed0, 0xf20, 0x1040, 0x1090, 0x17e0, 0x1810, 0x1946, 0x19d0, 0x1a80, 0x1a90, 0x1b50, 0x1bb0,
      0x1c40, 0x1c50, 0xa620, 0xa8d0, 0xa900, 0xa9d0, 0xa9f0, 0xaa50, 0xabf0, 0xff10, 0x104a0, 0x10d30, 0x11066,
      0x110f0, 0x11136, 0x111d0, 0x112f0, 0x11450, 0x114d0, 0x11650, 0x116c0, 0x11730, 0x118e0, 0x11950, 0x11c50,
      0x11d50, 0x11da0, 0x16a60, 0x16ac0, 0x16b50, 0x1d7ce, 0x1d7d8, 0x1d7e2, 0x1d7ec, 0x1d7f6, 0x1e140, 0x1e2f0,
      0x1e950, 0x1fbf0]"

definition digit_block :: "nat \<Rightarrow> nat option" where
  "digit_block c = find (\<lambda>z. z \<le> c \<and> c \<le> z + 9) decimal_zeros"

definition udigit :: "nat \<Rightarrow> bool" where
  "udigit c = (digit_block c \<noteq> None)"

definition digit_value :: "nat \<Rightarrow> nat" where
  "digit_value c = (case digit_block c of None \<Rightarrow> 0 | Some z \<Rightarrow> c - z)"

text \<open>\<open>int\<close> of a string of decimal digits.\<close>

definition udecimal :: "utext \<Rightarrow> int" where
  "udecimal ds = fold (\<lambda>c n. 10 * n + int (digit_value c)) ds 0"

definition ustrip :: "utext \<Rightarrow> utext" where
  "ustrip s = rev (dropWhile uspace (rev (dropWhile uspace s)))"

definition starts :: "utext \<Rightarrow> utext \<Rightarrow> bool" where
  "starts w s = (take (length w) s = w)"

fun occurs :: "utext \<Rightarrow> utext \<Rightarrow> bool" where
  "occurs w [] = (w = [])"
| "occurs w (c # s) = (starts w (c # s) \<or> occurs w s)"

section \<open>UTF-16 spans\<close>

definition surrogate :: "nat \<Rightarrow> bool" where
  "surrogate c \<longleftrightarrow> 0xD800 \<le> c \<and> c \<le> 0xDFFF"

definition utf16_char :: "nat \<Rightarrow> nat list" where
  "utf16_char c = (if c < 0x10000 then [c]
     else [0xD800 + (c - 0x10000) div 0x400, 0xDC00 + (c - 0x10000) mod 0x400])"

text \<open>\<open>encode("utf-16-le")\<close> as code units; None: it raises on a lone surrogate.\<close>

definition utf16_encode :: "utext \<Rightarrow> nat list option" where
  "utf16_encode s = (if list_ex surrogate s then None else Some (concat (map utf16_char s)))"

fun utf16_decode :: "nat list \<Rightarrow> utext option" where
  "utf16_decode [] = Some []"
| "utf16_decode (u # us) =
     (if \<not> surrogate u then map_option (Cons u) (utf16_decode us)
      else if 0xDC00 \<le> u then None
      else case us of
        [] \<Rightarrow> None
      | v # vs \<Rightarrow> if 0xDC00 \<le> v \<and> v \<le> 0xDFFF
          then map_option (Cons (0x10000 + (u - 0xD800) * 0x400 + (v - 0xDC00))) (utf16_decode vs)
          else None)"

text \<open>\<open>_strip_utf16_span\<close>; None: the encoding raises.\<close>

definition strip_utf16_span :: "utext \<Rightarrow> nat \<Rightarrow> nat \<Rightarrow> utext option" where
  "strip_utf16_span s index len =
     map_option (\<lambda>units.
       if index + len > length units then s
       else case utf16_decode (take index units @ drop (index + len) units) of
         None \<Rightarrow> s
       | Some t \<Rightarrow> t) (utf16_encode s)"

section \<open>Pictographs\<close>

definition pictograph :: "nat \<Rightarrow> bool" where
  "pictograph c \<longleftrightarrow> (0x1F000 \<le> c \<and> c \<le> 0x1FAFF) \<or> (0x1FB00 \<le> c \<and> c \<le> 0x1FBFF) \<or> (0x2300 \<le> c \<and> c \<le> 0x23FF)
     \<or> (0x2460 \<le> c \<and> c \<le> 0x24FF) \<or> (0x25A0 \<le> c \<and> c \<le> 0x27BF) \<or> (0x2B00 \<le> c \<and> c \<le> 0x2BFF)
     \<or> c \<in> {0x2122, 0x2139, 0x3030, 0x303D, 0x3297, 0x3299, 0xA9, 0xAE, 0xFE0F, 0x200D, 0x20E3}"

text \<open>\<open>re.sub(r"\s+", " ", s)\<close>; the flag: the character before was white space.\<close>

fun collapse :: "bool \<Rightarrow> utext \<Rightarrow> utext" where
  "collapse b [] = []"
| "collapse b (c # s) =
     (if uspace c then (if b then collapse True s else 32 # collapse True s) else c # collapse False s)"

definition strip_pictographs :: "utext \<Rightarrow> utext" where
  "strip_pictographs s = ustrip (collapse False (filter (\<lambda>c. \<not> pictograph c) s))"

section \<open>Command words\<close>

datatype command =
    Palette | Digest | Onboarding | Requests | SlotDigest | Report | ReportHelp | Mine
  | Fixcat | Setcat | ToggleUrgent | AddPhoto | Cancel | SwitchProp | Status | PhotoAck

definition TICKET_ORDER_POSTBACKS :: "command set" where
  "TICKET_ORDER_POSTBACKS = {Fixcat, Setcat, ToggleUrgent, AddPhoto, Cancel, SwitchProp, Status}"

definition TICKET_COMMANDS :: "command set" where
  "TICKET_COMMANDS = {Report, ReportHelp, Mine} \<union> TICKET_ORDER_POSTBACKS"

definition DIGEST_WORDS :: "utext list" where
  "DIGEST_WORDS = [[0xe07, 0xe32, 0xe19, 0xe04, 0xe49, 0xe32, 0xe07], [0xe07, 0xe32, 0xe19, 0xe0b, 0xe48, 0xe2d,
      0xe21, 0xe04, 0xe49, 0xe32, 0xe07], [0xe41, 0xe08, 0xe49, 0xe07, 0xe0b, 0xe48, 0xe2d, 0xe21, 0xe04, 0xe49,
      0xe32, 0xe07]]"

definition REQUEST_WORDS :: "utext list" where
  "REQUEST_WORDS = [[0xe04, 0xe33, 0xe02, 0xe2d], [0xe04, 0xe33, 0xe02, 0xe2d, 0xe25, 0xe39, 0xe01, 0xe04, 0xe49,
      0xe32], [0x67, 0x75, 0x65, 0x73, 0x74, 0x20, 0x72, 0x65, 0x71, 0x75, 0x65, 0x73, 0x74, 0x73], [0xe04,
      0xe27, 0xe32, 0xe21, 0xe04, 0xe34, 0xe14, 0xe40, 0xe2b, 0xe47, 0xe19], [0xe1f, 0xe35, 0xe14, 0xe41, 0xe1a,
      0xe04], [0x66, 0x65, 0x65, 0x64, 0x62, 0x61, 0x63, 0x6b]]"

definition REPORT_WORD :: utext where
  "REPORT_WORD = [0xe41, 0xe08, 0xe49, 0xe07, 0xe0b, 0xe48, 0xe2d, 0xe21]"

definition MINE_WORD :: utext where
  "MINE_WORD = [0xe07, 0xe32, 0xe19, 0xe02, 0xe2d, 0xe07, 0xe09, 0xe31, 0xe19]"

text \<open>The number of one to ten digits that is the whole text, and the two patterns that end in one.\<close>

definition order_number :: "utext \<Rightarrow> int option" where
  "order_number s = (if s \<noteq> [] \<and> length s \<le> 10 \<and> list_all udigit s then Some (udecimal s) else None)"

definition after_status_word :: "utext \<Rightarrow> utext option" where
  "after_status_word s =
     (case filter (\<lambda>w. starts w s) [[0xe2a, 0xe16, 0xe32, 0xe19, 0xe30], [0xe07, 0xe32,
      0xe19]] of [] \<Rightarrow> None | w # _ \<Rightarrow> Some (drop (length w) s))"

definition status_match :: "utext \<Rightarrow> int option" where
  "status_match s = (case after_status_word s of
       None \<Rightarrow> None
     | Some r \<Rightarrow> if takeWhile uspace r = [] then None else order_number (dropWhile uspace r))"

definition addphoto_match :: "utext \<Rightarrow> int option" where
  "addphoto_match s = (let w = [0xe40, 0xe1e, 0xe34, 0xe48, 0xe21, 0xe23, 0xe39, 0xe1b] in
     if \<not> starts w s then None
     else let r = dropWhile uspace (drop (length w) s)
          in order_number (if r \<noteq> [] \<and> hd r = 0x23 then tl r else r))"

definition word_command :: "utext \<Rightarrow> command \<times> utext \<times> int option" where
  "word_command ws =
     (let s = ustrip ws in
      if s \<in> set REQUEST_WORDS then (Requests, [], None)
      else if s \<in> set DIGEST_WORDS then (Digest, [], None)
      else if s = MINE_WORD then (Mine, [], None)
      else case status_match s of
        Some n \<Rightarrow> (Status, [], Some n)
      | None \<Rightarrow> (case addphoto_match s of
          Some n \<Rightarrow> (AddPhoto, [], Some n)
        | None \<Rightarrow>
            if starts REPORT_WORD s then (Report, ustrip (drop (length REPORT_WORD) s), None)
            else (Palette, [], None)))"

section \<open>Repair reports\<close>

datatype category = Aircon | Tv | Plumbing | Electric | Furniture | OtherCategory
datatype area = Lobby | Corridor | Pool | Kitchen | Laundry | Outside

definition CATEGORY_KEYWORDS :: "(category \<times> utext list) list" where
  "CATEGORY_KEYWORDS =
    [(Aircon, [[0xe41, 0xe2d, 0xe23, 0xe4c], [0x61, 0x69, 0x72, 0x63, 0x6f, 0x6e], [0xe04, 0xe2d, 0xe21, 0xe40,
      0xe1e, 0xe23, 0xe2a, 0xe40, 0xe0b, 0xe2d, 0xe23, 0xe4c]]),
     (Tv, [[0xe17, 0xe35, 0xe27, 0xe35], [0x74, 0x76], [0xe23, 0xe35, 0xe42, 0xe21, 0xe17]]),
     (Plumbing, [[0xe19, 0xe49, 0xe33], [0xe17, 0xe48, 0xe2d], [0xe1d, 0xe31, 0xe01, 0xe1a, 0xe31,
      0xe27], [0xe0a, 0xe31, 0xe01, 0xe42, 0xe04, 0xe23, 0xe01], [0xe2a, 0xe49, 0xe27, 0xe21], [0xe2d, 0xe48,
      0xe32, 0xe07], [0xe01, 0xe4a, 0xe2d, 0xe01], [0xe23, 0xe31, 0xe48, 0xe27], [0xe15, 0xe31, 0xe19], [0xe1b,
      0xe23, 0xe30, 0xe1b, 0xe32]]),
     (Electric, [[0xe44, 0xe1f], [0xe2b, 0xe25, 0xe2d, 0xe14], [0xe1b, 0xe25, 0xe31, 0xe4a, 0xe01], [0xe2a,
      0xe27, 0xe34, 0xe15, 0xe0a, 0xe4c], [0xe2a, 0xe27, 0xe34, 0xe17, 0xe0a, 0xe4c], [0xe44, 0xe1f, 0xe1f,
      0xe49, 0xe32], [0xe40, 0xe1a, 0xe23, 0xe01, 0xe40, 0xe01, 0xe2d, 0xe23, 0xe4c]]),
     (Furniture, [[0xe40, 0xe15, 0xe35, 0xe22, 0xe07], [0xe15, 0xe39, 0xe49], [0xe40, 0xe01, 0xe49, 0xe32, 0xe2d,
      0xe35, 0xe49], [0xe42, 0xe15, 0xe4a, 0xe30], [0xe1c, 0xe49, 0xe32, 0xe21, 0xe48, 0xe32, 0xe19], [0xe1b,
      0xe23, 0xe30, 0xe15, 0xe39], [0xe25, 0xe34, 0xe49, 0xe19, 0xe0a, 0xe31, 0xe01], [0xe01, 0xe23, 0xe30,
      0xe08, 0xe01], [0xe40, 0xe1f, 0xe2d, 0xe23, 0xe4c, 0xe19, 0xe34, 0xe40, 0xe08, 0xe2d, 0xe23, 0xe4c]])]"

definition AREA_KEYWORDS :: "(area \<times> utext list) list" where
  "AREA_KEYWORDS =
    [(Lobby, [[0xe25, 0xe47, 0xe2d, 0xe1a, 0xe1a, 0xe35, 0xe49], [0xe25, 0xe47, 0xe2d, 0xe1a, 0xe1a,
      0xe35], [0x6c, 0x6f, 0x62, 0x62, 0x79]]),
     (Corridor, [[0xe17, 0xe32, 0xe07, 0xe40, 0xe14, 0xe34, 0xe19], [0xe42, 0xe16, 0xe07]]),
     (Pool, [[0xe2a, 0xe23, 0xe30]]),
     (Kitchen, [[0xe04, 0xe23, 0xe31, 0xe27]]),
     (Laundry, [[0xe0b, 0xe31, 0xe01, 0xe23, 0xe35, 0xe14], [0xe0b, 0xe31, 0xe01, 0xe1c, 0xe49, 0xe32]]),
     (Outside, [[0xe14, 0xe49, 0xe32, 0xe19, 0xe19, 0xe2d, 0xe01], [0xe02, 0xe49, 0xe32, 0xe07, 0xe19, 0xe2d,
      0xe01], [0xe25, 0xe32, 0xe19, 0xe08, 0xe2d, 0xe14], [0xe17, 0xe35, 0xe48, 0xe08, 0xe2d, 0xe14, 0xe23,
      0xe16], [0xe2a, 0xe27, 0xe19]])]"

definition first_hit :: "('a \<times> utext list) list \<Rightarrow> utext \<Rightarrow> 'a option" where
  "first_hit table s = map_option fst (find (\<lambda>(_, ws). list_ex (\<lambda>w. occurs w s) ws) table)"

definition categorize :: "utext \<Rightarrow> category" where
  "categorize s = (case first_hit CATEGORY_KEYWORDS s of None \<Rightarrow> OtherCategory | Some c \<Rightarrow> c)"

definition detect_area :: "utext \<Rightarrow> area option" where
  "detect_area s = first_hit AREA_KEYWORDS s"

definition ROOM_WORD :: utext where
  "ROOM_WORD = [0xe2b, 0xe49, 0xe2d, 0xe07]"

text \<open>
  A match of \<open>_ROOM_TOKEN_PATTERN\<close> at a place whose preceding character is \<open>prev\<close>: the digits and
  what follows them. A run of digits matches as a whole or not at all.
\<close>

definition room_digits :: "nat option \<Rightarrow> utext \<Rightarrow> (utext \<times> utext) option" where
  "room_digits prev s =
     (let d = takeWhile udigit s in
      if (case prev of None \<Rightarrow> True | Some p \<Rightarrow> \<not> udigit p) \<and> length d \<in> {3, 4}
      then Some (d, dropWhile udigit s) else None)"

definition room_match :: "nat option \<Rightarrow> utext \<Rightarrow> (utext \<times> utext) option" where
  "room_match prev s =
     (if starts ROOM_WORD s then room_digits None (dropWhile uspace (drop (length ROOM_WORD) s))
      else room_digits prev s)"

text \<open>\<open>search\<close>: the text before the leftmost match, the digits, and the text after it.\<close>

fun room_search :: "nat option \<Rightarrow> utext \<Rightarrow> (utext \<times> utext \<times> utext) option" where
  "room_search prev s = (case room_match prev s of
       Some (d, r) \<Rightarrow> Some ([], d, r)
     | None \<Rightarrow> (case s of
         [] \<Rightarrow> None
       | c # t \<Rightarrow> map_option (\<lambda>(b, d, r). (c # b, d, r)) (room_search (Some c) t)))"

definition DETAIL_MAX_CHARS :: nat where "DETAIL_MAX_CHARS = 200"

record report_draft =
  dr_room :: "utext option"
  dr_area :: "area option"
  dr_category :: category
  dr_urgent :: bool
  dr_detail :: "utext option"

text \<open>None is \<open>ParseError\<close>, whose message asks for a room.\<close>

definition parse_report :: "utext \<Rightarrow> report_draft option" where
  "parse_report original =
     (let found = room_search None original;
          room = map_option (fst \<circ> snd) found;
          remainder = (case found of None \<Rightarrow> original | Some (b, d, r) \<Rightarrow> b @ r);
          area = (if room = None then detect_area original else None);
          detail = take DETAIL_MAX_CHARS (strip_pictographs remainder)
      in if room = None \<and> area = None then None
         else Some \<lparr>dr_room = room, dr_area = area, dr_category = categorize original,
           dr_urgent = occurs [0xe14, 0xe48, 0xe27,
      0xe19] original, dr_detail = (if detail = [] then None else Some detail)\<rparr>)"

declare room_search.simps [simp del]

end
