(* ===== verification/BotRender.thy ===== *)
theory BotRender
  imports BotText
begin

text \<open>
  The texts the staff bot renders: the digest of open repairs, the section of guest feedback
  and the report of a window, with the cut at the 5000 characters LINE accepts. The formatted
  time stamp of a digest is part of its payload here.
\<close>

definition MAX_MESSAGE_CHARS :: nat where "MAX_MESSAGE_CHARS = 5000"

definition dec :: "int \<Rightarrow> utext" where
  "dec n = map of_char (show_int n)"

fun joined :: "utext \<Rightarrow> utext list \<Rightarrow> utext" where
  "joined sep [] = []"
| "joined sep [p] = p"
| "joined sep (p # q # ps) = p @ sep @ joined sep (q # ps)"

definition nonempty :: "utext list \<Rightarrow> utext list" where
  "nonempty ps = filter (\<lambda>p. p \<noteq> []) ps"

definition age_text :: "int \<Rightarrow> utext" where
  "age_text d = (if d \<le> 0 then [0xe27, 0xe31, 0xe19, 0xe19, 0xe35, 0xe49] else dec d @ [0x20, 0xe27, 0xe31,
      0xe19])"

record digest_order =
  do_location :: utext
  do_category :: utext
  do_detail :: utext
  do_status :: utext
  do_urgent :: bool
  do_age :: int

record digest_property =
  dp_label :: utext
  dp_property :: utext
  dp_open :: int
  dp_truncated :: int
  dp_orders :: "digest_order list"

record digest =
  dg_stamp :: utext
  dg_properties :: "digest_property list"

definition order_line :: "digest_order \<Rightarrow> utext" where
  "order_line o' =
     (let category = strip_pictographs (do_category o');
          cleaned = strip_pictographs (do_detail o');
          detail = (if cleaned = [] then category else cleaned);
          head = joined [0x20] (nonempty [strip_pictographs (do_location o'), category])
      in (if do_urgent o' then [0xe14, 0xe48, 0xe27, 0xe19, 0x20] else [])
         @ joined [0x20, 0xb7,
      0x20] (nonempty [head, detail, age_text (do_age o'), strip_pictographs (do_status o')]))"

text \<open>\<open>_fit\<close>: trailing rows are dropped until the text and the note that it was cut fit.\<close>

definition CUT_NOTE :: utext where
  "CUT_NOTE = 10 # [0xe41, 0xe2a, 0xe14, 0xe07, 0xe44, 0xe21, 0xe48, 0xe04, 0xe23, 0xe1a]"

fun drop_rows :: "utext list \<Rightarrow> utext list" where
  "drop_rows [] = []"
| "drop_rows (r # rows) =
     (if length (joined [10] (r # rows)) + length CUT_NOTE > MAX_MESSAGE_CHARS
      then drop_rows (butlast (r # rows)) else r # rows)"

definition fit :: "utext list \<Rightarrow> utext" where
  "fit rows = (if length (joined [10] rows) \<le> MAX_MESSAGE_CHARS then joined [10] rows
     else joined [10] (drop_rows rows) @ CUT_NOTE)"

definition DIGEST_UNAVAILABLE_TEXT :: utext where
  "DIGEST_UNAVAILABLE_TEXT = [0xe23, 0xe30, 0xe1a, 0xe1a, 0xe07, 0xe32, 0xe19, 0xe0b, 0xe48, 0xe2d, 0xe21, 0xe22,
      0xe31, 0xe07, 0xe44, 0xe21, 0xe48, 0xe40, 0xe0a, 0xe37, 0xe48, 0xe2d, 0xe21, 0xe15, 0xe48, 0xe2d, 0x20,
      0xe25, 0xe2d, 0xe07, 0xe43, 0xe2b, 0xe21, 0xe48, 0xe2d, 0xe35, 0xe01, 0xe04, 0xe23, 0xe31, 0xe49, 0xe07,
      0xe20, 0xe32, 0xe22, 0xe2b, 0xe25, 0xe31, 0xe07]"

definition property_rows :: "digest_property \<Rightarrow> utext list" where
  "property_rows p =
     (if dp_open p \<le> 0 then []
      else let stripped = strip_pictographs (dp_label p) in
        [[], (if stripped = [] then dp_property p else stripped) @ [0x20, 0x28] @ dec (dp_open p) @ [0x29]]
        @ map order_line (dp_orders p)
        @ (if dp_truncated p > 0 then [[0xe41, 0xe25, 0xe30, 0xe2d, 0xe35, 0xe01,
      0x20] @ dec (dp_truncated p) @ [0x20, 0xe07, 0xe32, 0xe19]] else []))"

definition render_digest :: "digest option \<Rightarrow> utext" where
  "render_digest payload =
     (case payload of
        None \<Rightarrow> DIGEST_UNAVAILABLE_TEXT
      | Some g \<Rightarrow>
          (let total = sum_list (map dp_open (dg_properties g)) in
           if total \<le> 0 then [0xe44, 0xe21, 0xe48, 0xe21, 0xe35, 0xe07, 0xe32, 0xe19, 0xe0b, 0xe48, 0xe2d,
      0xe21, 0xe04, 0xe49, 0xe32, 0xe07, 0x20, 0x28] @ dg_stamp g @ [0x29]
           else fit (([0xe07, 0xe32, 0xe19, 0xe0b, 0xe48, 0xe2d, 0xe21, 0xe04, 0xe49, 0xe32, 0xe07,
      0x20] @ dec total @ [0x20, 0xe07, 0xe32, 0xe19, 0x20, 0x28] @ dg_stamp g @ [0x29])
             # concat (map property_rows (dg_properties g)))))"

section \<open>Guest feedback\<close>

datatype feedback_kind = Praise | Issue | Request | OtherKind utext
datatype branch = BranchHF | BranchHFVille | OtherBranch utext

record feedback_item =
  fi_id :: "str option"
  fi_kind :: feedback_kind
  fi_branch :: branch
  fi_location :: utext
  fi_tags :: "utext list"
  fi_comment :: utext
  fi_urgent :: bool

record feedback =
  fb_count :: int
  fb_items :: "feedback_item list"

definition FEEDBACK_SECTION_LINE_CAP :: nat where "FEEDBACK_SECTION_LINE_CAP = 15"
definition FEEDBACK_LINE_TEXT_MAX_CHARS :: nat where "FEEDBACK_LINE_TEXT_MAX_CHARS = 80"

definition feedback_kind_label :: "feedback_kind \<Rightarrow> utext" where
  "feedback_kind_label k = (case k of Praise \<Rightarrow> [0xe04, 0xe33, 0xe0a,
      0xe21] | Issue \<Rightarrow> [0xe1b, 0xe31, 0xe0d, 0xe2b, 0xe32] | Request \<Rightarrow> [0xe04, 0xe33,
      0xe02, 0xe2d] | OtherKind t \<Rightarrow> t)"

definition feedback_branch_label :: "branch \<Rightarrow> utext" where
  "feedback_branch_label b = (case b of BranchHF \<Rightarrow> [0x48, 0x46] | BranchHFVille \<Rightarrow> [0x48,
      0x46, 0x20, 0x56, 0x69, 0x6c, 0x6c, 0x65] | OtherBranch t \<Rightarrow> t)"

definition feedback_short_text :: "feedback_item \<Rightarrow> utext" where
  "feedback_short_text i =
     (let tags = joined [0x2c, 0x20] (fi_tags i); comment = ustrip (fi_comment i);
          combined = (if tags \<noteq> [] \<and> comment \<noteq> [] then tags @ [0x20, 0x2014, 0x20,
      0x22] @ comment @ [0x22]
            else if tags \<noteq> [] then tags else comment)
      in take FEEDBACK_LINE_TEXT_MAX_CHARS (strip_pictographs combined))"

definition feedback_item_line :: "feedback_item \<Rightarrow> utext" where
  "feedback_item_line i =
     (let place = joined [0x20] (nonempty [feedback_branch_label (fi_branch i), fi_location i]);
          line = joined [0x20, 0xb7, 0x20] (nonempty [feedback_kind_label (fi_kind i), place, feedback_short_text i])
      in (if fi_urgent i then [0xe14, 0xe48, 0xe27, 0xe19, 0x20] @ line else line))"

definition render_feedback_section :: "feedback option \<Rightarrow> utext option" where
  "render_feedback_section payload =
     (case payload of
        None \<Rightarrow> None
      | Some f \<Rightarrow>
          if fb_count f \<le> 0 then None
          else (let shown = take FEEDBACK_SECTION_LINE_CAP (fb_items f);
                    remaining = fb_count f - int (length shown)
                in Some (joined [10] (([0xe04, 0xe27, 0xe32, 0xe21, 0xe04, 0xe34, 0xe14, 0xe40, 0xe2b, 0xe47,
      0xe19, 0xe25, 0xe39, 0xe01, 0xe04, 0xe49, 0xe32, 0x20, 0x28] @ dec (fb_count f) @ [0x20, 0xe23, 0xe32,
      0xe22, 0xe01, 0xe32, 0xe23, 0x29])
                  # map feedback_item_line shown
                  @ (if remaining > 0 then [[0xe41, 0xe25, 0xe30, 0xe2d, 0xe35, 0xe01,
      0x20] @ dec remaining @ [0x20, 0xe23, 0xe32, 0xe22, 0xe01, 0xe32, 0xe23]] else [])))))"

definition REQUESTS_UNAVAILABLE_TEXT :: utext where
  "REQUESTS_UNAVAILABLE_TEXT = [0xe22, 0xe31, 0xe07, 0xe2d, 0xe48, 0xe32, 0xe19, 0xe04, 0xe27, 0xe32, 0xe21,
      0xe04, 0xe34, 0xe14, 0xe40, 0xe2b, 0xe47, 0xe19, 0xe25, 0xe39, 0xe01, 0xe04, 0xe49, 0xe32, 0xe44, 0xe21,
      0xe48, 0xe44, 0xe14, 0xe49, 0xe04, 0xe48, 0xe30, 0x20, 0xe25, 0xe2d, 0xe07, 0xe43, 0xe2b, 0xe21, 0xe48,
      0xe2d, 0xe35, 0xe01, 0xe04, 0xe23, 0xe31, 0xe49, 0xe07]"

definition REQUESTS_NONE_TEXT :: utext where
  "REQUESTS_NONE_TEXT = [0xe22, 0xe31, 0xe07, 0xe44, 0xe21, 0xe48, 0xe21, 0xe35, 0xe04, 0xe27, 0xe32, 0xe21,
      0xe04, 0xe34, 0xe14, 0xe40, 0xe2b, 0xe47, 0xe19, 0xe43, 0xe2b, 0xe21, 0xe48, 0xe04, 0xe48, 0xe30]"

definition render_requests :: "feedback option \<Rightarrow> utext" where
  "render_requests payload =
     (case payload of
        None \<Rightarrow> REQUESTS_UNAVAILABLE_TEXT
      | Some f \<Rightarrow> if fb_count f \<le> 0 then REQUESTS_NONE_TEXT
          else (case render_feedback_section payload of None \<Rightarrow> REQUESTS_UNAVAILABLE_TEXT | Some t \<Rightarrow> t))"

definition request_ids :: "feedback option \<Rightarrow> str list" where
  "request_ids payload = (case payload of None \<Rightarrow> [] | Some f \<Rightarrow> List.map_filter fi_id (fb_items f))"

section \<open>The report of a window\<close>

fun lines_of :: "utext \<Rightarrow> utext list" where
  "lines_of [] = [[]]"
| "lines_of (c # s) = (if c = 10 then [] # lines_of s
     else case lines_of s of l # ls \<Rightarrow> (c # l) # ls | [] \<Rightarrow> [[c]])"

text \<open>\<open>render_slot_digest\<close> for a window with this label.\<close>

definition render_slot_digest :: "utext \<Rightarrow> digest option \<Rightarrow> feedback option \<Rightarrow> utext option" where
  "render_slot_digest slot_label payload feedback =
     (let sections = (if payload = None then [] else
            [[0xe2a, 0xe23, 0xe38, 0xe1b, 0xe07, 0xe32, 0xe19, 0xe0b, 0xe48, 0xe2d, 0xe21, 0xe04, 0xe49, 0xe32,
      0xe07, 0xe1b, 0xe23, 0xe30, 0xe08, 0xe33, 0xe23, 0xe2d, 0xe1a] @ slot_label @ [10, 10] @ render_digest payload])
          @ (case render_feedback_section feedback of None \<Rightarrow> [] | Some t \<Rightarrow> [t])
      in if sections = [] then None else Some (fit (lines_of (joined [10, 10] sections))))"

end
