(* ===== verification/BotTextFacts.thy ===== *)
theory BotTextFacts
  imports BotText BotRender
begin

text \<open>
  What the text functions of the staff bot guarantee: the span of a mention is cut out exactly,
  the room of a report is its first run of three or four digits, and a rendered message fits.
\<close>

section \<open>UTF-16\<close>

definition scalar :: "nat \<Rightarrow> bool" where
  "scalar c \<longleftrightarrow> c < 0x110000 \<and> \<not> surrogate c"

lemma utf16_decode_char:
  assumes "scalar c"
  shows "utf16_decode (utf16_char c @ us) = map_option (Cons c) (utf16_decode us)"
proof (cases "c < 0x10000")
  case True
  then show ?thesis using assms by (simp add: utf16_char_def scalar_def)
next
  case False
  define m where "m = c - 0x10000"
  have m: "m < 0x100000" "c = 0x10000 + m" using False assms by (auto simp: m_def scalar_def)
  have q: "m div 0x400 < 0x400" "m mod 0x400 < 0x400" using m(1) by auto
  have "0x10000 + (m div 0x400) * 0x400 + m mod 0x400 = c" using m(2) by simp
  then show ?thesis using False q unfolding utf16_char_def m_def [symmetric] by (auto simp: surrogate_def)
qed

lemma utf16_decode_encode:
  "\<forall>c \<in> set s. scalar c \<Longrightarrow> utf16_decode (concat (map utf16_char s)) = Some s"
  by (induction s) (auto simp: utf16_decode_char)

definition utf16_length :: "utext \<Rightarrow> nat" where
  "utf16_length s = length (concat (map utf16_char s))"

text \<open>
  A mention is cut out of a message exactly: whatever stands before and after it - emoji of
  two code units included - is what is left, and nothing of the mention.
\<close>

theorem mention_cut_out_exactly:
  assumes "\<forall>c \<in> set (before @ mention @ after). scalar c"
  shows "strip_utf16_span (before @ mention @ after) (utf16_length before) (utf16_length mention)
    = Some (before @ after)"
proof -
  have s: "\<not> list_ex surrogate (before @ mention @ after)"
    using assms by (auto simp: list_ex_iff scalar_def)
  have "utf16_decode (concat (map utf16_char before) @ concat (map utf16_char after)) = Some (before @ after)"
    using utf16_decode_encode [of "before @ after"] assms by auto
  then show ?thesis using s
    by (simp add: strip_utf16_span_def utf16_encode_def utf16_length_def)
qed

theorem mention_cut_out_exactly_witness:
  "strip_utf16_span ([0x1F600, 32] @ [0x40, 98] @ [32, 0xE41]) 3 2 = Some ([0x1F600, 32] @ [32, 0xE41])"
proof -
  have "\<forall>c \<in> set ([0x1F600, 32] @ [0x40, 98] @ [32, 0xE41]). scalar c"
    by (simp add: scalar_def surrogate_def)
  moreover have "utf16_length [0x1F600, 32] = 3" "utf16_length [0x40, 98] = 2"
    by (simp_all add: utf16_length_def utf16_char_def)
  ultimately show ?thesis using mention_cut_out_exactly [of "[0x1F600, 32]" "[0x40, 98]" "[32, 0xE41]"] by metis
qed

section \<open>Rooms\<close>

text \<open>The maximal runs of digits of a text, in order.\<close>

function digit_runs :: "utext \<Rightarrow> utext list" where
  "digit_runs [] = []"
| "digit_runs (c # s) = (if udigit c then takeWhile udigit (c # s) # digit_runs (dropWhile udigit (c # s))
     else digit_runs s)"
  by pat_completeness auto
termination by (relation "measure length") (auto simp: le_imp_less_Suc length_dropWhile_le)

definition first_room :: "utext list \<Rightarrow> utext option" where
  "first_room rs = find (\<lambda>d. length d \<in> {3, 4}) rs"

lemma digit_runs_skip: "\<forall>c \<in> set xs. \<not> udigit c \<Longrightarrow> digit_runs (xs @ ys) = digit_runs ys"
  by (induction xs) auto

lemma digit_runs_hd:
  "takeWhile udigit s \<noteq> [] \<Longrightarrow> digit_runs s = takeWhile udigit s # digit_runs (dropWhile udigit s)"
  by (cases s) (auto split: if_splits)

lemma udigit_iff: "udigit c \<longleftrightarrow> (\<exists>z \<in> set decimal_zeros. z \<le> c \<and> c \<le> z + 9)"
  by (auto simp: udigit_def digit_block_def find_None_iff)

lemma room_word_no_digit: "\<forall>c \<in> set ROOM_WORD. \<not> udigit c"
  by (simp add: ROOM_WORD_def udigit_iff decimal_zeros_def)

lemma decimal_zeros_where:
  "z \<in> set decimal_zeros \<Longrightarrow>
     z = 0x30 \<or> (0x660 \<le> z \<and> z \<le> 0x1090) \<or> (0x17E0 \<le> z \<and> z \<le> 0x1C50) \<or> 0xA620 \<le> z"
  by (auto simp: decimal_zeros_def)

lemma space_no_digit: "uspace c \<Longrightarrow> \<not> udigit c"
  using decimal_zeros_where unfolding uspace_def udigit_iff by fastforce

lemma starts_split: "starts w s \<Longrightarrow> s = w @ drop (length w) s"
  by (metis append_take_drop_id starts_def)

lemma room_digits_run:
  assumes "case prev of None \<Rightarrow> True | Some p \<Rightarrow> \<not> udigit p"
  shows "room_digits prev s = (let d = takeWhile udigit s in
    if length d \<in> {3, 4} then Some (d, dropWhile udigit s) else None)"
  using assms by (simp add: room_digits_def Let_def)

lemma room_match_word:
  assumes "starts ROOM_WORD s" "room_match prev s = Some (d, r)"
  shows "first_room (digit_runs s) = Some d"
proof -
  define t where "t = dropWhile uspace (drop (length ROOM_WORD) s)"
  define sp where "sp = takeWhile uspace (drop (length ROOM_WORD) s)"
  have s: "s = (ROOM_WORD @ sp) @ t" using starts_split [OF assms(1)] by (simp add: t_def sp_def)
  have "\<forall>c \<in> set (ROOM_WORD @ sp). \<not> udigit c"
    using room_word_no_digit space_no_digit by (auto simp: sp_def dest: set_takeWhileD)
  then have "digit_runs s = digit_runs t" using digit_runs_skip s by metis
  moreover have "room_digits None t = Some (d, r)" using assms by (simp add: room_match_def t_def)
  then have "length d \<in> {3, 4}" "d = takeWhile udigit t" by (auto simp: room_digits_def Let_def split: if_splits)
  ultimately show ?thesis using digit_runs_hd [of t] by (fastforce simp: first_room_def)
qed

lemma room_word_hd: "starts ROOM_WORD (c # s) \<Longrightarrow> \<not> udigit c"
  using room_word_no_digit by (auto simp: starts_def ROOM_WORD_def)

definition found_room :: "(utext \<times> utext \<times> utext) option \<Rightarrow> utext option" where
  "found_room m = map_option (fst \<circ> snd) m"

lemma room_search_runs:
  "(case prev of None \<Rightarrow> True | Some p \<Rightarrow> \<not> udigit p) \<Longrightarrow>
     found_room (room_search prev s) = first_room (digit_runs s)"
  "\<exists>p. prev = Some p \<and> udigit p \<Longrightarrow>
     found_room (room_search prev s) = first_room (digit_runs (dropWhile udigit s))"
proof (induction s arbitrary: prev)
  case Nil
  { case 1 then show ?case by (subst room_search.simps)
        (simp add: room_match_def room_digits_def starts_def ROOM_WORD_def first_room_def found_room_def)
  next
    case 2 then show ?case by (subst room_search.simps)
        (simp add: room_match_def room_digits_def starts_def ROOM_WORD_def first_room_def found_room_def)
  }
next
  case (Cons c s)
  have step: "found_room (room_search prev (c # s)) = (case room_match prev (c # s) of
      Some (d, r) \<Rightarrow> Some d | None \<Rightarrow> found_room (room_search (Some c) s))" for prev
    by (subst room_search.simps) (auto split: option.splits simp: found_room_def option.map_comp comp_def case_prod_beta)
  have plain: "found_room (room_search prev (c # s)) = first_room (digit_runs (c # s))"
    if c: "\<not> udigit c" for prev
  proof (cases "room_match prev (c # s)")
    case None
    then show ?thesis unfolding step None using Cons.IH(1) [of "Some c"] c by simp
  next
    case (Some dr)
    obtain d r where dr: "dr = (d, r)" by fastforce
    have "starts ROOM_WORD (c # s)" using Some c by (auto simp: room_match_def room_digits_def split: if_splits)
    from room_match_word [OF this] Some dr show ?thesis by (simp add: step del: digit_runs.simps)
  qed
  {
    case 1
    show ?case
    proof (cases "udigit c")
      case True
      then have nw: "\<not> starts ROOM_WORD (c # s)" using room_word_hd by blast
      have m: "room_match prev (c # s) = (let d = takeWhile udigit (c # s) in
          if length d \<in> {3, 4} then Some (d, dropWhile udigit (c # s)) else None)"
        using nw room_digits_run [OF 1] by (simp add: room_match_def)
      show ?thesis
      proof (cases "length (takeWhile udigit (c # s)) \<in> {3, 4}")
        case True
        then show ?thesis using m \<open>udigit c\<close> by (auto simp: step first_room_def Let_def)
      next
        case False
        then have "room_match prev (c # s) = None" using m by (simp add: Let_def)
        then show ?thesis unfolding step using Cons.IH(2) [of "Some c"] \<open>udigit c\<close> False
          by (simp add: first_room_def)
      qed
    next
      case False
      then show ?thesis by (rule plain)
    qed
  next
    case 2
    show ?case
    proof (cases "udigit c")
      case True
      then have nw: "\<not> starts ROOM_WORD (c # s)" using room_word_hd by blast
      have "room_match prev (c # s) = None" using nw 2 by (auto simp: room_match_def room_digits_def)
      then show ?thesis unfolding step using Cons.IH(2) [of "Some c"] True by simp
    next
      case False
      then show ?thesis using plain by simp
    qed
  }
qed

text \<open>
  C37. The room of a repair report is the first of its runs of digits that has three or four of
  them, wherever it stands and whatever Thai text touches it; without such a run the report
  needs a word for an area, and with neither it is refused.
\<close>

theorem report_room_is_first_run:
  "map_option (\<lambda>d. (dr_room d, dr_area d)) (parse_report t) =
     (case first_room (digit_runs t) of
        Some r \<Rightarrow> Some (Some r, None)
      | None \<Rightarrow> map_option (\<lambda>a. (None, Some a)) (detect_area t))"
  using room_search_runs(1) [of None t]
  by (auto simp: parse_report_def found_room_def Let_def comp_def split: option.splits)

section \<open>What a report says\<close>

lemma collapse_no_pictograph:
  "\<forall>c \<in> set s. \<not> pictograph c \<Longrightarrow> \<forall>c \<in> set (collapse b s). \<not> pictograph c"
  by (induction b s rule: collapse.induct) (auto simp: pictograph_def)

lemma set_ustrip: "set (ustrip s) \<subseteq> set s"
  by (auto simp: ustrip_def dest!: set_dropWhileD)

lemma strip_pictographs_clean: "c \<in> set (strip_pictographs s) \<Longrightarrow> \<not> pictograph c"
proof -
  assume c: "c \<in> set (strip_pictographs s)"
  have "\<forall>c \<in> set (collapse False (filter (\<lambda>c. \<not> pictograph c) s)). \<not> pictograph c"
    by (rule collapse_no_pictograph) simp
  then show ?thesis using c set_ustrip unfolding strip_pictographs_def by blast
qed

theorem report_detail_is_clean:
  assumes "parse_report t = Some d" and "dr_detail d = Some txt"
  shows "txt \<noteq> [] \<and> length txt \<le> 200 \<and> (\<forall>c \<in> set txt. \<not> pictograph c)"
proof -
  obtain r where "txt = take DETAIL_MAX_CHARS (strip_pictographs r)" "txt \<noteq> []"
    using assms by (auto simp: parse_report_def Let_def split: if_splits)
  then show ?thesis using strip_pictographs_clean in_set_takeD by (fastforce simp: DETAIL_MAX_CHARS_def)
qed

section \<open>A message fits\<close>

lemma fit_bound: "length (fit rows) \<le> 5000"
proof -
  have "drop_rows rows = [] \<or> length (joined [10] (drop_rows rows)) + length CUT_NOTE \<le> MAX_MESSAGE_CHARS"
    by (induction rows rule: drop_rows.induct) auto
  moreover have "length CUT_NOTE \<le> MAX_MESSAGE_CHARS" by (simp add: CUT_NOTE_def MAX_MESSAGE_CHARS_def)
  ultimately have "length (fit rows) \<le> MAX_MESSAGE_CHARS" by (auto simp: fit_def)
  then show ?thesis by (simp add: MAX_MESSAGE_CHARS_def)
qed

text \<open>
  However many repairs are open and however long their texts, a digest with rows and the
  report of a window stay within the 5000 characters that LINE accepts.
\<close>

theorem reports_fit:
  "length (fit rows) \<le> 5000 \<and> (\<forall>t. render_slot_digest lab payload feedback = Some t \<longrightarrow> length t \<le> 5000)
   \<and> (\<forall>g. length (dg_stamp g) \<le> 4000 \<longrightarrow> length (render_digest (Some g)) \<le> 5000)"
  using fit_bound by (auto simp: render_slot_digest_def render_digest_def Let_def)

section \<open>Feedback that nobody sees\<close>

text \<open>
  The section of guest feedback shows the first fifteen rows and counts the rest, but the
  ids that are confirmed as delivered once the report is accepted are those of all rows.
\<close>

theorem hidden_feedback_confirmed:
  "render_feedback_section (Some f) = render_feedback_section (Some (f\<lparr>fb_items := take 15 (fb_items f)\<rparr>))
   \<and> request_ids (Some f) = request_ids (Some (f\<lparr>fb_items := take 15 (fb_items f)\<rparr>))
        @ List.map_filter fi_id (drop 15 (fb_items f))"
proof -
  have app: "List.map_filter g (xs @ ys) = List.map_filter g xs @ List.map_filter g ys"
    for g :: "feedback_item \<Rightarrow> str option" and xs ys by (simp add: map_filter_def)
  have "List.map_filter fi_id (fb_items f) = List.map_filter fi_id (take 15 (fb_items f)) @ List.map_filter fi_id (drop 15 (fb_items f))"
    unfolding app [symmetric] by simp
  then show ?thesis by (simp add: render_feedback_section_def request_ids_def FEEDBACK_SECTION_LINE_CAP_def)
qed

end
