(* ===== verification/BotRoute.thy ===== *)
theory BotRoute
  imports BotText Tables
begin

text \<open>
  The event-loop half of \<open>app/services/staff_bot.py\<close>: what one webhook event of the staff group
  or of a private chat does. Routing, the four daily report windows and their marks in the
  database, the debouncer, the photo buffer and the attach windows, and
  \<open>handle_event_detail\<close>, which composes them. A JSON field is its value when it has the type the
  code looks for, and absent otherwise; the clock is read once per event.
\<close>

section \<open>Events\<close>

record mentionee =
  mt_is_self :: bool
  mt_index :: "int option"
  mt_length :: "int option"

record bot_message =
  bm_type :: str
  bm_id :: str
  bm_text :: utext
  bm_mentionees :: "mentionee list"
  bm_quoted :: str

record bot_source =
  bs_type :: str
  bs_group :: str
  bs_room :: str
  bs_user :: str

record bot_event =
  be_type :: str
  be_redelivery :: bool
  be_source :: "bot_source option"
  be_token :: str
  be_timestamp :: "int option"
  be_message :: "bot_message option"
  be_postback :: "utext option"

definition chat_key :: "bot_source \<Rightarrow> str" where
  "chat_key s = (if bs_type s = ''group'' then bs_group s
     else if bs_type s = ''room'' then bs_room s else bs_user s)"

definition is_group :: "str \<Rightarrow> bool" where
  "is_group t \<longleftrightarrow> t \<in> {''group'', ''room''}"

section \<open>Report windows\<close>

datatype slot = Morning | Noon | Afternoon | Night

definition hm :: "int \<Rightarrow> int \<Rightarrow> int" where
  "hm h m = h * 3600 + m * 60"

definition LATE_TRIGGER_SECONDS :: int where "LATE_TRIGGER_SECONDS = 1800"

fun slot_start :: "slot \<Rightarrow> int" where
  "slot_start Morning = hm 6 0" | "slot_start Noon = hm 12 0"
| "slot_start Afternoon = hm 14 30" | "slot_start Night = hm 19 30"

fun slot_end :: "slot \<Rightarrow> int" where
  "slot_end Morning = hm 10 0" | "slot_end Noon = hm 14 0"
| "slot_end Afternoon = hm 16 30" | "slot_end Night = hm 21 30"

definition late_second :: "slot \<Rightarrow> int" where
  "late_second s = slot_end s - LATE_TRIGGER_SECONDS"

definition SLOTS :: "slot list" where
  "SLOTS = [Morning, Noon, Afternoon, Night]"

text \<open>LINE's epoch milliseconds as Bangkok time; None outside the years of \<open>datetime\<close>.\<close>

definition EPOCH_DATE :: date where "EPOCH_DATE = 719163"

definition bangkok_moment :: "int option \<Rightarrow> dtime option" where
  "bangkok_moment ts = (case ts of
       None \<Rightarrow> None
     | Some ms \<Rightarrow>
         (let utc = midnight EPOCH_DATE + 1000 * ms; bkk = utc + 7 * hour_us in
          if 1 \<le> date_of utc \<and> date_of bkk \<le> 3652059 then Some bkk else None))"

definition second_of_day :: "dtime \<Rightarrow> int" where
  "second_of_day t = (t mod day_us) div second_us"

definition slot_for_moment :: "dtime option \<Rightarrow> slot option" where
  "slot_for_moment m = (case m of
       None \<Rightarrow> None
     | Some t \<Rightarrow> first (\<lambda>s. slot_start s \<le> second_of_day t \<and> second_of_day t < slot_end s) SLOTS)"

type_synonym slot_ref = "str \<times> date \<times> slot"

definition slot_ref_for_event :: "str \<Rightarrow> int option \<Rightarrow> slot_ref option" where
  "slot_ref_for_event gid ts =
     (if gid = [] then None
      else case bangkok_moment ts of
        None \<Rightarrow> None
      | Some t \<Rightarrow> map_option (\<lambda>s. (gid, date_of t, s)) (slot_for_moment (Some t)))"

section \<open>Routing\<close>

record routed_command =
  rc_chat :: str
  rc_command :: command
  rc_token :: str
  rc_quiet :: real
  rc_event :: str
  rc_source :: str
  rc_slot_ref :: "slot_ref option"
  rc_user :: str
  rc_report_text :: utext
  rc_order :: "int option"
  rc_category :: "category option"
  rc_quoted :: str
  rc_known :: bool
  rc_badge :: str
  rc_name :: str
  rc_property :: str
  rc_reception :: bool

datatype routed = RCommand routed_command | RMessage str str

definition COMMAND_QUIET_SECONDS :: real where "COMMAND_QUIET_SECONDS = 0"

text \<open>The fields \<open>RoutedCommand\<close> leaves at their defaults.\<close>

definition bare_command :: "str \<Rightarrow> command \<Rightarrow> str \<Rightarrow> str \<Rightarrow> str \<Rightarrow> routed_command" where
  "bare_command chat c token ev src = \<lparr>rc_chat = chat, rc_command = c, rc_token = token,
     rc_quiet = COMMAND_QUIET_SECONDS, rc_event = ev, rc_source = src, rc_slot_ref = None, rc_user = [],
     rc_report_text = [], rc_order = None, rc_category = None, rc_quoted = [], rc_known = True,
     rc_badge = [], rc_name = [], rc_property = [], rc_reception = False\<rparr>"

definition self_mention_span :: "bot_message \<Rightarrow> (nat \<times> nat) option" where
  "self_mention_span m =
     (case filter (\<lambda>x. mt_is_self x \<and> (\<exists>i \<in> set_option (mt_index x). 0 \<le> i)
         \<and> (\<exists>n \<in> set_option (mt_length x). 0 \<le> n)) (bm_mentionees m) of
        [] \<Rightarrow> None
      | x # _ \<Rightarrow> Some (nat (the (mt_index x)), nat (the (mt_length x))))"

text \<open>
  \<open>parse_qs\<close>: the pairs of a form, percent-decoded as UTF-8 with U+FFFD for what does not
  decode; pairs without a value are dropped.
\<close>

fun split_at :: "nat \<Rightarrow> utext \<Rightarrow> utext list" where
  "split_at c [] = [[]]"
| "split_at c (x # s) = (if x = c then [] # split_at c s
     else case split_at c s of p # ps \<Rightarrow> (x # p) # ps | [] \<Rightarrow> [[x]])"

definition hex_value :: "nat \<Rightarrow> nat option" where
  "hex_value c = (if 48 \<le> c \<and> c \<le> 57 then Some (c - 48)
     else if 65 \<le> c \<and> c \<le> 70 then Some (c - 55)
     else if 97 \<le> c \<and> c \<le> 102 then Some (c - 87) else None)"

datatype octet = Octet nat | Raw nat

fun percent_octets :: "utext \<Rightarrow> octet list" where
  "percent_octets (c # a # b # s) =
     (case (c = 0x25, hex_value a, hex_value b) of
        (True, Some x, Some y) \<Rightarrow> Octet (16 * x + y) # percent_octets s
      | _ \<Rightarrow> Raw c # percent_octets (a # b # s))"
| "percent_octets s = map Raw s"

fun continuation :: "octet list \<Rightarrow> nat list \<times> octet list" where
  "continuation (Octet b # s) =
     (if 0x80 \<le> b \<and> b \<le> 0xBF then (case continuation s of (bs, r) \<Rightarrow> (b # bs, r)) else ([], Octet b # s))"
| "continuation s = ([], s)"

definition utf8_value :: "nat \<Rightarrow> nat list \<Rightarrow> nat option" where
  "utf8_value b bs = (case (b, bs) of
       (_, [x]) \<Rightarrow> if 0xC2 \<le> b \<and> b \<le> 0xDF then Some ((b - 0xC0) * 64 + (x - 0x80)) else None
     | (_, [x, y]) \<Rightarrow>
         (let v = ((b - 0xE0) * 64 + (x - 0x80)) * 64 + (y - 0x80) in
          if 0xE0 \<le> b \<and> b \<le> 0xEF \<and> 0x800 \<le> v \<and> \<not> surrogate v then Some v else None)
     | (_, [x, y, z]) \<Rightarrow>
         (let v = (((b - 0xF0) * 64 + (x - 0x80)) * 64 + (y - 0x80)) * 64 + (z - 0x80) in
          if 0xF0 \<le> b \<and> b \<le> 0xF4 \<and> 0x10000 \<le> v \<and> v < 0x110000 then Some v else None)
     | _ \<Rightarrow> None)"

definition utf8_length :: "nat \<Rightarrow> nat" where
  "utf8_length b = (if b < 0xC0 then 0 else if b < 0xE0 then 1 else if b < 0xF0 then 2 else 3)"

function decode_octets :: "octet list \<Rightarrow> utext" where
  "decode_octets [] = []"
| "decode_octets (Raw c # s) = c # decode_octets s"
| "decode_octets (Octet b # s) =
     (if b < 0x80 then b # decode_octets s
      else let k = utf8_length b; bs = take k (fst (continuation s)) in
        case utf8_value b bs of
          Some v \<Rightarrow> v # decode_octets (drop (length bs) s)
        | None \<Rightarrow> 0xFFFD # decode_octets s)"
  by pat_completeness auto
termination by (relation "measure length") auto

definition unquote_plus :: "utext \<Rightarrow> utext" where
  "unquote_plus s = decode_octets (percent_octets (map (\<lambda>c. if c = 0x2B then 32 else c) s))"

definition form_pair :: "utext \<Rightarrow> (utext \<times> utext) option" where
  "form_pair s = (case dropWhile (\<lambda>c. c \<noteq> 0x3D) s of
       [] \<Rightarrow> None
     | _ # v \<Rightarrow> if v = [] then None
         else Some (unquote_plus (takeWhile (\<lambda>c. c \<noteq> 0x3D) s), unquote_plus v))"

definition parse_form :: "utext \<Rightarrow> (utext \<times> utext) list" where
  "parse_form s = List.map_filter form_pair (split_at 0x26 s)"

text \<open>\<open>int(raw_id)\<close>: white space, a sign, digits in groups joined by single underscores.\<close>

definition parse_int :: "utext \<Rightarrow> int option" where
  "parse_int raw =
     (let s = ustrip raw;
          neg = (s \<noteq> [] \<and> hd s = 0x2D);
          body = (if s \<noteq> [] \<and> hd s \<in> {0x2B, 0x2D} then tl s else s);
          groups = split_at 0x5F body
      in if list_all (\<lambda>g. g \<noteq> [] \<and> list_all udigit g) groups
         then Some ((if neg then - 1 else 1) * udecimal (concat groups)) else None)"

definition POSTBACK_COMMANDS :: "(utext \<times> command) list" where
  "POSTBACK_COMMANDS = [([0x70, 0x61, 0x6c, 0x65, 0x74, 0x74, 0x65], Palette), ([0x64, 0x69, 0x67, 0x65, 0x73,
      0x74], Digest), ([0x72, 0x65, 0x71, 0x75, 0x65, 0x73, 0x74, 0x73], Requests),
     ([0x72, 0x65, 0x70, 0x6f, 0x72, 0x74], Report), ([0x72, 0x65, 0x70, 0x6f, 0x72, 0x74, 0x5f, 0x68, 0x65,
      0x6c, 0x70], ReportHelp), ([0x6d, 0x69, 0x6e, 0x65], Mine), ([0x66, 0x69, 0x78, 0x63, 0x61, 0x74], Fixcat),
     ([0x73, 0x65, 0x74, 0x63, 0x61, 0x74], Setcat), ([0x74, 0x6f, 0x67, 0x67, 0x6c, 0x65, 0x75, 0x72, 0x67,
      0x65, 0x6e, 0x74], ToggleUrgent), ([0x61, 0x64, 0x64, 0x70, 0x68, 0x6f, 0x74, 0x6f], AddPhoto), ([0x63,
      0x61, 0x6e, 0x63, 0x65, 0x6c], Cancel),
     ([0x73, 0x77, 0x69, 0x74, 0x63, 0x68, 0x70, 0x72, 0x6f, 0x70], SwitchProp), ([0x73, 0x74, 0x61, 0x74, 0x75,
      0x73], Status)]"

definition CATEGORY_NAMES :: "(utext \<times> category) list" where
  "CATEGORY_NAMES = [([0x61, 0x69, 0x72, 0x63, 0x6f, 0x6e], Aircon), ([0x74, 0x76], Tv), ([0x70, 0x6c, 0x75,
      0x6d, 0x62, 0x69, 0x6e, 0x67], Plumbing), ([0x65, 0x6c, 0x65, 0x63, 0x74, 0x72, 0x69, 0x63], Electric),
     ([0x66, 0x75, 0x72, 0x6e, 0x69, 0x74, 0x75, 0x72, 0x65], Furniture), ([0x6f, 0x74, 0x68, 0x65,
      0x72], OtherCategory)]"

definition parse_postback :: "utext option \<Rightarrow> (command \<times> int option \<times> category option) option" where
  "parse_postback data =
     (let values = parse_form (case data of None \<Rightarrow> [] | Some d \<Rightarrow> d) in
      case Option.bind (map_of values [0x63, 0x6d, 0x64]) (map_of POSTBACK_COMMANDS) of
        None \<Rightarrow> None
      | Some c \<Rightarrow>
          (let raw = map_of values [0x69, 0x64]; oid = Option.bind raw parse_int;
               rawcat = map_of values [0x63, 0x61, 0x74]; cat = Option.bind rawcat (map_of CATEGORY_NAMES)
           in if raw \<noteq> None \<and> oid = None then None
              else if c \<in> TICKET_ORDER_POSTBACKS \<and> oid = None then None
              else if rawcat \<noteq> None \<and> cat = None then None
              else if c = Setcat \<and> cat = None then None
              else Some (c, oid, cat)))"

text \<open>\<open>route_event\<close>; \<open>Inl\<close> is the exception of a text that cannot be encoded.\<close>

definition mention_command :: "bot_message \<Rightarrow> str \<Rightarrow> str \<Rightarrow> bot_source \<Rightarrow> exn + routed_command option" where
  "mention_command m chat token src =
     (if bm_type m \<noteq> ''text'' then Inr None
      else case self_mention_span m of
        None \<Rightarrow> Inr None
      | Some (i, n) \<Rightarrow>
          (case strip_utf16_span (bm_text m) i n of
             None \<Rightarrow> Inl ValueError
           | Some rest \<Rightarrow>
               (let r = ustrip rest in
                Inr (if starts REPORT_WORD r
                     then Some ((bare_command chat Report token ''message'' (bs_type src))
                       \<lparr>rc_user := bs_user src, rc_report_text := ustrip (drop (length REPORT_WORD) r),
                        rc_quoted := bm_quoted m\<rparr>)
                     else None))))"

definition direct_command :: "(str \<Rightarrow> bool) \<Rightarrow> bot_message \<Rightarrow> str \<Rightarrow> str \<Rightarrow> str \<Rightarrow> routed_command" where
  "direct_command known m chat token src =
     (if \<not> known chat then bare_command chat Onboarding token ''message'' src
      else case word_command (bm_text m) of
        (c, report_text, oid) \<Rightarrow> (bare_command chat c token ''message'' src)
          \<lparr>rc_user := chat, rc_report_text := report_text, rc_order := oid, rc_quoted := bm_quoted m\<rparr>)"

definition route_event :: "(str \<Rightarrow> bool) \<Rightarrow> bot_event \<Rightarrow> exn + routed option" where
  "route_event known e =
     (case be_source e of
        None \<Rightarrow> Inr None
      | Some src \<Rightarrow>
          (let chat = chat_key src; token = be_token e in
           if be_type e = ''postback'' then
             (if chat = [] \<or> token = [] \<or> is_group (bs_type src) then Inr None
              else case parse_postback (be_postback e) of
                None \<Rightarrow> Inr None
              | Some (c, oid, cat) \<Rightarrow>
                  Inr (Some (RCommand ((bare_command chat c token ''postback'' (bs_type src))
                    \<lparr>rc_user := bs_user src, rc_order := oid, rc_category := cat\<rparr>))))
           else if be_type e \<noteq> ''message'' \<or> chat = [] \<or> token = [] then Inr None
           else if is_group (bs_type src) then
             (case be_message e of
                None \<Rightarrow> Inr (Some (RMessage chat token))
              | Some m \<Rightarrow>
                  (case mention_command m chat token src of
                     Inl x \<Rightarrow> Inl x
                   | Inr (Some c) \<Rightarrow> Inr (Some (RCommand c))
                   | Inr None \<Rightarrow> Inr (Some (RMessage chat token))))
           else case be_message e of
             None \<Rightarrow> Inr (Some (RMessage chat token))
           | Some m \<Rightarrow>
               if bm_type m \<noteq> ''text'' then Inr (Some (RMessage chat token))
               else Inr (Some (RCommand (direct_command known m chat token (bs_type src))))))"

end
