(* ===== verification/BotState.thy ===== *)
theory BotState
  imports BotRoute
begin

text \<open>
  The state of the staff bot and what one webhook event does to it: the report marks in the
  database, the debouncer, the photo buffer, the attach windows and \<open>handle_event_detail\<close>.
  Monotonic time is a real number of seconds, \<open>_utcnow\<close> a number of microseconds.
\<close>

section \<open>The database\<close>

datatype mark_state = MarkPending | MarkSent
datatype trigger = TriggerReception | TriggerLate | TriggerCommand

record slot_mark =
  sm_group :: str
  sm_date :: date
  sm_slot :: slot
  sm_state :: mark_state
  sm_filed_at :: dtime
  sm_sent_at :: "dtime option"
  sm_trigger :: trigger

definition sm_key :: "slot_mark \<Rightarrow> slot_ref" where
  "sm_key m = (sm_group m, sm_date m, sm_slot m)"

record bot_db =
  bd_employees :: "employee list"
  bd_grants :: "employee_app_grant list"
  bd_marks :: "slot_mark list"

definition linked_employee :: "bot_db \<Rightarrow> str \<Rightarrow> employee option" where
  "linked_employee db user =
     (if user = [] then None
      else first (\<lambda>e. line_user_id e = Some user \<and> is_active e) (bd_employees db))"

definition is_linked_employee :: "bot_db \<Rightarrow> str \<Rightarrow> bool" where
  "is_linked_employee db user = (linked_employee db user \<noteq> None)"

record employee_identity =
  id_badge :: str
  id_name :: str
  id_property :: str

definition property_for :: "str option \<Rightarrow> str" where
  "property_for loc = (if or_else loc [] = ''HF_VILLE'' then ''hfville'' else ''hf'')"

definition resolve_employee_identity :: "bot_db \<Rightarrow> str \<Rightarrow> employee_identity option" where
  "resolve_employee_identity db user =
     map_option (\<lambda>e. \<lparr>id_badge = badge_number e, id_name = display_name e,
        id_property = property_for (emp_location e)\<rparr>) (linked_employee db user)"

definition has_reception_grant :: "bot_db \<Rightarrow> str \<Rightarrow> bool" where
  "has_reception_grant db user \<longleftrightarrow> user \<noteq> []
     \<and> list_ex (\<lambda>g. eg_app_id g = ''reception''
         \<and> list_ex (\<lambda>e. badge_number e = eg_badge g \<and> line_user_id e = Some user \<and> is_active e) (bd_employees db))
       (bd_grants db)"

section \<open>Report marks\<close>

definition STALE_PENDING :: dtime where "STALE_PENDING = 120 * second_us"

definition find_slot_mark :: "bot_db \<Rightarrow> slot_ref \<Rightarrow> slot_mark option" where
  "find_slot_mark db ref = first (\<lambda>m. sm_key m = ref) (bd_marks db)"

definition delete_mark :: "slot_mark \<Rightarrow> bot_db \<Rightarrow> bot_db" where
  "delete_mark m db = db\<lparr>bd_marks := delete_where (\<lambda>x. sm_key x = sm_key m) (bd_marks db)\<rparr>"

definition is_stale :: "dtime \<Rightarrow> slot_mark \<Rightarrow> bool" where
  "is_stale now m = (now - sm_filed_at m > STALE_PENDING)"

definition slot_due :: "bot_db \<Rightarrow> slot_ref \<Rightarrow> int option \<Rightarrow> str \<Rightarrow> trigger option" where
  "slot_due db ref ts user =
     (if has_reception_grant db user then Some TriggerReception
      else case bangkok_moment ts of
        None \<Rightarrow> None
      | Some t \<Rightarrow> if second_of_day t \<ge> late_second (snd (snd ref)) then Some TriggerLate else None)"

definition evaluate_slot_trigger ::
  "dtime \<Rightarrow> str \<Rightarrow> int option \<Rightarrow> str \<Rightarrow> bot_db \<Rightarrow> bot_db \<times> (slot_ref \<times> trigger) option" where
  "evaluate_slot_trigger now gid ts user db =
     (case slot_ref_for_event gid ts of
        None \<Rightarrow> (db, None)
      | Some ref \<Rightarrow>
          (case find_slot_mark db ref of
             None \<Rightarrow> (db, map_option (Pair ref) (slot_due db ref ts user))
           | Some m \<Rightarrow>
               if sm_state m = MarkPending \<and> is_stale now m
               then (let db1 = delete_mark m db in (db1, map_option (Pair ref) (slot_due db1 ref ts user)))
               else (db, None)))"

text \<open>The UNIQUE index refuses a second mark for the same window.\<close>

definition file_slot_mark :: "dtime \<Rightarrow> slot_ref \<Rightarrow> trigger \<Rightarrow> bot_db \<Rightarrow> bot_db \<times> bool" where
  "file_slot_mark now ref trig db =
     (case insert_unique sm_key
        \<lparr>sm_group = fst ref, sm_date = fst (snd ref), sm_slot = snd (snd ref), sm_state = MarkPending,
         sm_filed_at = now, sm_sent_at = None, sm_trigger = trig\<rparr> (bd_marks db) of
        None \<Rightarrow> (db, False)
      | Some ms \<Rightarrow> (db\<lparr>bd_marks := ms\<rparr>, True))"

definition mark_slot_sent :: "dtime \<Rightarrow> slot_ref \<Rightarrow> trigger \<Rightarrow> bot_db \<Rightarrow> bot_db" where
  "mark_slot_sent now ref trig db =
     (case find_slot_mark db ref of
        None \<Rightarrow> db\<lparr>bd_marks := bd_marks db @ [\<lparr>sm_group = fst ref, sm_date = fst (snd ref),
           sm_slot = snd (snd ref), sm_state = MarkSent, sm_filed_at = now, sm_sent_at = Some now,
           sm_trigger = trig\<rparr>]\<rparr>
      | Some m \<Rightarrow> db\<lparr>bd_marks := update_where (\<lambda>x. sm_key x = ref)
           (\<lambda>x. x\<lparr>sm_state := MarkSent, sm_sent_at := Some now\<rparr>) (bd_marks db)\<rparr>)"

definition drop_slot_mark :: "slot_ref \<Rightarrow> bot_db \<Rightarrow> bot_db" where
  "drop_slot_mark ref db = (case find_slot_mark db ref of None \<Rightarrow> db | Some m \<Rightarrow> delete_mark m db)"

section \<open>The debouncer\<close>

datatype media = Image | Video | Quoted
datatype media_note = TranscodeFailed | OversizeNote | Processing

record photo_ack =
  pa_attached :: int
  pa_failed :: int
  pa_total :: "int option"
  pa_vattached :: int
  pa_vfailed :: int
  pa_notes :: "media_note list"

record pending_reply =
  pr_chat :: str
  pr_commands :: "command set"
  pr_token :: str
  pr_first_at :: real
  pr_last_at :: real
  pr_quiet :: real
  pr_slot_ref :: "slot_ref option"
  pr_trigger :: trigger
  pr_source :: str
  pr_actions :: "routed_command list"
  pr_acks :: "(int, photo_ack) dict"

type_synonym debouncer = "(str, pending_reply) dict"

definition SLOT_QUIET_SECONDS :: real where "SLOT_QUIET_SECONDS = 15"
definition MAX_WAIT_SECONDS :: real where "MAX_WAIT_SECONDS = 45"
definition PHOTO_ACK_QUIET_SECONDS :: real where "PHOTO_ACK_QUIET_SECONDS = 3"

definition deadline :: "pending_reply \<Rightarrow> real" where
  "deadline p = min (pr_last_at p + pr_quiet p) (pr_first_at p + MAX_WAIT_SECONDS)"

definition fresh_pending :: "str \<Rightarrow> real \<Rightarrow> real \<Rightarrow> pending_reply" where
  "fresh_pending chat now quiet = \<lparr>pr_chat = chat, pr_commands = {}, pr_token = [], pr_first_at = now,
     pr_last_at = 0, pr_quiet = quiet, pr_slot_ref = None, pr_trigger = TriggerCommand, pr_source = [],
     pr_actions = [], pr_acks = []\<rparr>"

text \<open>What \<open>note_command\<close> and \<open>note_photo_ack\<close> share: create or refresh the chat's entry.\<close>

definition touch :: "real \<Rightarrow> str \<Rightarrow> command \<Rightarrow> str \<Rightarrow> real \<Rightarrow> debouncer \<Rightarrow> pending_reply" where
  "touch now chat c token quiet d =
     (let p = (case map_of d chat of None \<Rightarrow> fresh_pending chat now quiet | Some p \<Rightarrow> p) in
      p\<lparr>pr_commands := insert c (pr_commands p), pr_token := token, pr_last_at := now,
        pr_quiet := min (pr_quiet p) quiet\<rparr>)"

definition note_command ::
  "real \<Rightarrow> str \<Rightarrow> command \<Rightarrow> str \<Rightarrow> real \<Rightarrow> slot_ref option \<Rightarrow> str \<Rightarrow> routed_command option
   \<Rightarrow> debouncer \<Rightarrow> debouncer" where
  "note_command now chat c token quiet ref src action d =
     (let p = touch now chat c token quiet d;
          p1 = (if ref \<noteq> None then p\<lparr>pr_slot_ref := ref\<rparr> else p);
          p2 = (if src \<noteq> [] then p1\<lparr>pr_source := src\<rparr> else p1);
          p3 = (case action of None \<Rightarrow> p2 | Some a \<Rightarrow> p2\<lparr>pr_actions := pr_actions p2 @ [a]\<rparr>)
      in AList.update chat p3 d)"

definition no_acks :: photo_ack where
  "no_acks = \<lparr>pa_attached = 0, pa_failed = 0, pa_total = None, pa_vattached = 0, pa_vfailed = 0, pa_notes = []\<rparr>"

definition add_ack :: "media \<Rightarrow> int \<Rightarrow> int \<Rightarrow> int option \<Rightarrow> media_note option \<Rightarrow> photo_ack \<Rightarrow> photo_ack" where
  "add_ack kind attached failed tot n a =
     (let a1 = (if kind = Video
                then a\<lparr>pa_vattached := pa_vattached a + attached, pa_vfailed := pa_vfailed a + failed\<rparr>
                else a\<lparr>pa_attached := pa_attached a + attached, pa_failed := pa_failed a + failed\<rparr>);
          a2 = (if tot \<noteq> None then a1\<lparr>pa_total := tot\<rparr> else a1)
      in case n of None \<Rightarrow> a2 | Some x \<Rightarrow> a2\<lparr>pa_notes := pa_notes a2 @ [x]\<rparr>)"

definition note_photo_ack ::
  "real \<Rightarrow> str \<Rightarrow> str \<Rightarrow> int \<Rightarrow> media \<Rightarrow> int \<Rightarrow> int \<Rightarrow> int option \<Rightarrow> media_note option
   \<Rightarrow> debouncer \<Rightarrow> debouncer" where
  "note_photo_ack now chat token oid kind attached failed tot n d =
     (let p = touch now chat PhotoAck token PHOTO_ACK_QUIET_SECONDS d;
          a = (case map_of (pr_acks p) oid of None \<Rightarrow> no_acks | Some a \<Rightarrow> a)
      in AList.update chat
           (p\<lparr>pr_acks := AList.update oid (add_ack kind attached failed tot n a) (pr_acks p)\<rparr>) d)"

definition note_message :: "real \<Rightarrow> str \<Rightarrow> str \<Rightarrow> debouncer \<Rightarrow> debouncer \<times> bool" where
  "note_message now chat token d =
     (case map_of d chat of
        None \<Rightarrow> (d, False)
      | Some p \<Rightarrow> (AList.update chat
          (p\<lparr>pr_token := (if token \<noteq> [] then token else pr_token p), pr_last_at := now\<rparr>) d, True))"

definition next_delay :: "real \<Rightarrow> debouncer \<Rightarrow> real option" where
  "next_delay now d = (if d = [] then None
     else Some (max 0 (Min (set (map (deadline \<circ> snd) d)) - now)))"

definition due :: "real \<Rightarrow> pending_reply \<Rightarrow> bool" where
  "due now p = (deadline p \<le> now)"

definition pop_due :: "real \<Rightarrow> debouncer \<Rightarrow> debouncer \<times> pending_reply list" where
  "pop_due now d =
     (let ps = filter (due now) (map snd d) in (fold AList.delete (map pr_chat ps) d, ps))"

section \<open>Photos\<close>

record buffered_photo =
  bp_id :: str
  bp_at :: real
  bp_kind :: media

type_synonym photo_buffer = "(str \<times> str, buffered_photo list) dict"

definition PHOTO_BUFFER_TTL :: real where "PHOTO_BUFFER_TTL = 90"
definition PHOTO_BUFFER_MAX_CLAIM :: nat where "PHOTO_BUFFER_MAX_CLAIM = 6"

definition fresh_photos :: "real \<Rightarrow> str \<times> str \<Rightarrow> photo_buffer \<Rightarrow> buffered_photo list" where
  "fresh_photos now key b = filter (\<lambda>p. now - bp_at p \<le> PHOTO_BUFFER_TTL)
     (case map_of b key of None \<Rightarrow> [] | Some ps \<Rightarrow> ps)"

definition buffer_add :: "real \<Rightarrow> str \<Rightarrow> str \<Rightarrow> str \<Rightarrow> media \<Rightarrow> photo_buffer \<Rightarrow> photo_buffer" where
  "buffer_add now chat user mid kind b =
     AList.update (chat, user)
       (fresh_photos now (chat, user) b @ [\<lparr>bp_id = mid, bp_at = now, bp_kind = kind\<rparr>]) b"

definition buffer_claim :: "real \<Rightarrow> str \<Rightarrow> str \<Rightarrow> photo_buffer \<Rightarrow> photo_buffer \<times> (str \<times> media) list" where
  "buffer_claim now chat user b =
     (AList.delete (chat, user) b,
      map (\<lambda>p. (bp_id p, bp_kind p)) (take PHOTO_BUFFER_MAX_CLAIM (fresh_photos now (chat, user) b)))"

record attach_window =
  win_order :: int
  win_expires_at :: real
  win_hard_cap_at :: real

type_synonym window_store = "(str \<times> str, attach_window) dict"

definition ATTACH_WINDOW_SECONDS :: real where "ATTACH_WINDOW_SECONDS = 120"
definition ATTACH_WINDOW_HARD_CAP_SECONDS :: real where "ATTACH_WINDOW_HARD_CAP_SECONDS = 300"

definition window_open :: "real \<Rightarrow> str \<Rightarrow> str \<Rightarrow> int \<Rightarrow> window_store \<Rightarrow> window_store" where
  "window_open now chat user oid w =
     (let cap = (case map_of w (chat, user) of
            None \<Rightarrow> now + ATTACH_WINDOW_HARD_CAP_SECONDS
          | Some x \<Rightarrow> if win_order x = oid then win_hard_cap_at x else now + ATTACH_WINDOW_HARD_CAP_SECONDS)
      in AList.update (chat, user) \<lparr>win_order = oid, win_expires_at = min (now + ATTACH_WINDOW_SECONDS) cap,
           win_hard_cap_at = cap\<rparr> w)"

definition window_over :: "real \<Rightarrow> attach_window \<Rightarrow> bool" where
  "window_over now x \<longleftrightarrow> now \<ge> win_expires_at x \<or> now \<ge> win_hard_cap_at x"

definition active_order :: "real \<Rightarrow> str \<Rightarrow> str \<Rightarrow> window_store \<Rightarrow> window_store \<times> int option" where
  "active_order now chat user w =
     (case map_of w (chat, user) of
        None \<Rightarrow> (w, None)
      | Some x \<Rightarrow> if window_over now x then (AList.delete (chat, user) w, None) else (w, Some (win_order x)))"

definition window_refresh :: "real \<Rightarrow> str \<Rightarrow> str \<Rightarrow> window_store \<Rightarrow> window_store \<times> int option" where
  "window_refresh now chat user w =
     (case map_of w (chat, user) of
        None \<Rightarrow> (w, None)
      | Some x \<Rightarrow>
          if window_over now x then (AList.delete (chat, user) w, None)
          else (window_open now chat user (win_order x) w, Some (win_order x)))"

section \<open>One webhook event\<close>

text \<open>A photo whose download and upload run in the background.\<close>

record photo_upload =
  up_order :: int
  up_message :: str
  up_badge :: str
  up_chat :: str
  up_token :: str
  up_kind :: media

record bot_state =
  bt_db :: bot_db
  bt_pending :: debouncer
  bt_photos :: photo_buffer
  bt_windows :: window_store
  bt_uploads :: "photo_upload list"
  bt_flight :: "pending_reply list"

record bot_clock =
  bc_mono :: real
  bc_utc :: dtime

datatype handled = Handled bool bool | HandlerRaised

definition submit_command :: "bot_clock \<Rightarrow> routed_command \<Rightarrow> bot_state \<Rightarrow> bot_state" where
  "submit_command k c s = s\<lparr>bt_pending := note_command (bc_mono k) (rc_chat c) (rc_command c) (rc_token c)
     (rc_quiet c) (rc_slot_ref c) (rc_source c)
     (if rc_command c \<in> TICKET_COMMANDS then Some c else None) (bt_pending s)\<rparr>"

text \<open>\<open>submit_slot_digest\<close>; the trigger is written into the entry afterwards.\<close>

definition submit_slot_digest :: "bot_clock \<Rightarrow> slot_ref \<Rightarrow> str \<Rightarrow> trigger \<Rightarrow> bot_state \<Rightarrow> bot_state" where
  "submit_slot_digest k ref token trig s =
     (let d = note_command (bc_mono k) (fst ref) SlotDigest token SLOT_QUIET_SECONDS (Some ref) ''group'' None
            (bt_pending s)
      in s\<lparr>bt_pending := (case map_of d (fst ref) of
             None \<Rightarrow> d | Some p \<Rightarrow> AList.update (fst ref) (p\<lparr>pr_trigger := trig\<rparr>) d)\<rparr>)"

definition maybe_file_slot_digest ::
  "bot_clock \<Rightarrow> bot_event \<Rightarrow> str \<Rightarrow> str \<Rightarrow> bot_state \<Rightarrow> bot_state \<times> bool" where
  "maybe_file_slot_digest k e chat token s =
     (case be_source e of
        None \<Rightarrow> (s, False)
      | Some src \<Rightarrow>
          if bs_type src \<noteq> ''group'' \<or> be_type e \<noteq> ''message'' \<or> be_message e = None \<or> token = [] then (s, False)
          else (case evaluate_slot_trigger (bc_utc k) chat (be_timestamp e) (bs_user src) (bt_db s) of
              (db, None) \<Rightarrow> (s\<lparr>bt_db := db\<rparr>, False)
            | (db, Some (ref, trig)) \<Rightarrow>
                (case file_slot_mark (bc_utc k) ref trig db of
                   (db', False) \<Rightarrow> (s\<lparr>bt_db := db'\<rparr>, False)
                 | (db', True) \<Rightarrow> (submit_slot_digest k ref token trig (s\<lparr>bt_db := db'\<rparr>), True))))"

definition maybe_handle_photo :: "bot_clock \<Rightarrow> bot_event \<Rightarrow> str \<Rightarrow> str \<Rightarrow> bot_state \<Rightarrow> bot_state" where
  "maybe_handle_photo k e chat token s =
     (case (be_message e, be_source e) of
        (Some m, Some src) \<Rightarrow>
          if bm_type m \<notin> {''image'', ''video''} then s
          else case resolve_employee_identity (bt_db s) (bs_user src) of
            None \<Rightarrow> s
          | Some i \<Rightarrow>
              if bm_id m = [] then s
              else (let kind = (if bm_type m = ''video'' then Video else Image) in
                case window_refresh (bc_mono k) chat (bs_user src) (bt_windows s) of
                  (w, Some oid) \<Rightarrow> s\<lparr>bt_windows := w, bt_uploads := bt_uploads s @
                     [\<lparr>up_order = oid, up_message = bm_id m, up_badge = id_badge i, up_chat = chat,
                       up_token = token, up_kind = kind\<rparr>]\<rparr>
                | (w, None) \<Rightarrow> s\<lparr>bt_windows := w,
                     bt_photos := buffer_add (bc_mono k) chat (bs_user src) (bm_id m) kind (bt_photos s)\<rparr>)
      | _ \<Rightarrow> s)"

definition enrich_ticket_command :: "bot_db \<Rightarrow> routed_command \<Rightarrow> routed_command" where
  "enrich_ticket_command db c =
     (let rec = has_reception_grant db (rc_user c) in
      case resolve_employee_identity db (rc_user c) of
        None \<Rightarrow> c\<lparr>rc_known := False, rc_reception := rec\<rparr>
      | Some i \<Rightarrow> c\<lparr>rc_known := True, rc_badge := id_badge i, rc_name := id_name i,
          rc_property := id_property i, rc_reception := rec\<rparr>)"

definition handle_event_detail :: "bot_clock \<Rightarrow> bot_event \<Rightarrow> bot_state \<Rightarrow> bot_state \<times> handled" where
  "handle_event_detail k e s =
     (if be_redelivery e \<or> be_type e = ''join'' then (s, Handled False False)
      else case route_event (is_linked_employee (bt_db s)) e of
        Inl _ \<Rightarrow> (s, HandlerRaised)
      | Inr None \<Rightarrow> (s, Handled False False)
      | Inr (Some (RMessage chat token)) \<Rightarrow>
          (case maybe_file_slot_digest k e chat token s of
             (s1, filed) \<Rightarrow>
               (let s2 = maybe_handle_photo k e chat token s1;
                    (d, refreshed) = note_message (bc_mono k) chat token (bt_pending s2)
                in (s2\<lparr>bt_pending := d\<rparr>, Handled False (refreshed \<or> filed))))
      | Inr (Some (RCommand c)) \<Rightarrow>
          (let c1 = (if rc_command c \<in> TICKET_COMMANDS then enrich_ticket_command (bt_db s) c else c)
           in (submit_command k c1 s, Handled True True)))"

end
