(* ===== verification/BotReply.thy ===== *)
theory BotReply
  imports BotState BotRender
begin

text \<open>
  The answering half of \<open>app/services/staff_bot.py\<close>: ticket commands against the housekeeping
  service, \<open>build_reply\<close>, the drain loop, \<open>_reply\<close> with the fate of a report mark, and the uploads
  in the background. What housekeeping, the feedback service and LINE answer is an argument.
  Flex layouts and fixed lines are constructors. The machine \<open>bot_step\<close> interleaves webhook
  events, ticks of the drain loop, replies and uploads that finish, and restarts.
\<close>

section \<open>Housekeeping\<close>

record order_view =
  ov_id :: "int option"
  ov_urgent :: bool
  ov_property :: str
  ov_reporter :: "str option"
  ov_photos :: int
  ov_videos :: int

definition no_order :: order_view where
  "no_order = \<lparr>ov_id = None, ov_urgent = False, ov_property = [], ov_reporter = None, ov_photos = 0, ov_videos = 0\<rparr>"

record work_order =
  wo_property :: str
  wo_draft :: report_draft
  wo_badge :: str
  wo_name :: str

datatype patch = PatchCategory "category option" | PatchUrgent bool | PatchProperty str

datatype hk_call =
    CreateOrder work_order
  | GetOrder "int option"
  | CancelOrder "int option" str str
  | PatchOrder "int option" patch str str
  | ListOrders str

datatype hk_answer = HkDark | HkError utext | HkOrder order_view | HkOrders "order_view list"

definition order_of :: "hk_answer \<Rightarrow> order_view" where
  "order_of a = (case a of HkOrder o' \<Rightarrow> o' | _ \<Rightarrow> no_order)"

section \<open>Messages\<close>

datatype fixed_line = TicketUnavailable | NotLinked | EditForbidden | HelpGroup | HelpDirect
  | MineEmpty | StatusForbidden | AskRoom | OnboardingLine

record media_counts =
  mc_photos :: int
  mc_photos_failed :: int
  mc_photos_running :: int
  mc_videos :: int
  mc_videos_failed :: int
  mc_videos_running :: int

datatype media_line = Claiming nat nat | Stored int int | Settled media_counts

datatype message =
    MText utext
  | MFixed fixed_line
  | MPalette
  | MBubble order_view media_line
  | MGroupLine order_view int int
  | MChips "int option"
  | MAddPrompt "int option"
  | MCancelled "int option"
  | MNotFound "int option"
  | MMine "order_view list"
  | MOrder "int option" order_view
  | MAck int photo_ack

definition refusal :: "hk_answer \<Rightarrow> message option" where
  "refusal a = (case a of HkDark \<Rightarrow> Some (MFixed TicketUnavailable) | HkError t \<Rightarrow> Some (MText t) | _ \<Rightarrow> None)"

section \<open>Tickets\<close>

datatype patch_kind = PatchBubble | PatchAddPhotoAck | PatchGroupLine

record pending_upload =
  pu_order :: int
  pu_messages :: "str list"
  pu_badge :: str
  pu_index :: "nat option"
  pu_kinds :: "(str, media) dict"
  pu_patch :: patch_kind
  pu_group_order :: "order_view option"

record ticket_state =
  tk_photos :: photo_buffer
  tk_windows :: window_store
  tk_calls :: "hk_call list"

type_synonym ticket_result = "ticket_state \<times> message list \<times> pending_upload option"

definition authorized_for_order :: "routed_command \<Rightarrow> order_view \<Rightarrow> bool" where
  "authorized_for_order a o' \<longleftrightarrow> rc_reception a \<or> (rc_badge a \<noteq> [] \<and> ov_reporter o' = Some (rc_badge a))"

definition ask :: "(hk_call \<Rightarrow> hk_answer) \<Rightarrow> hk_call \<Rightarrow> ticket_state \<Rightarrow> ticket_state \<times> hk_answer" where
  "ask hk c s = (s\<lparr>tk_calls := tk_calls s @ [c]\<rparr>, hk c)"

definition count_kind :: "bool \<Rightarrow> (str \<times> media) list \<Rightarrow> nat" where
  "count_kind video ms = length (filter (\<lambda>(_, k). (k = Video) = video) ms)"

text \<open>The photos a new ticket claims: the sender's buffer, then the message the report replies to.\<close>

definition claimed_media :: "routed_command \<Rightarrow> (str \<times> media) list \<Rightarrow> (str \<times> media) list" where
  "claimed_media a buffered = buffered @ (if rc_quoted a \<noteq> [] then [(rc_quoted a, Quoted)] else [])"

definition create_ticket_bot ::
  "real \<Rightarrow> (hk_call \<Rightarrow> hk_answer) \<Rightarrow> routed_command \<Rightarrow> ticket_state \<Rightarrow> ticket_result" where
  "create_ticket_bot now hk a s =
     (case parse_report (rc_report_text a) of
        None \<Rightarrow> (s, [MFixed AskRoom], None)
      | Some draft \<Rightarrow>
          (case ask hk (CreateOrder \<lparr>wo_property = (if rc_property a = [] then ''hf'' else rc_property a),
               wo_draft = draft, wo_badge = rc_badge a, wo_name = rc_name a\<rparr>) s of
             (s1, ans) \<Rightarrow>
               (case refusal ans of
                  Some m \<Rightarrow> (s1, [m], None)
                | None \<Rightarrow>
                    (let ord = order_of ans in
                     case ov_id ord of
                       None \<Rightarrow> (s1, [if is_group (rc_source a) then MGroupLine ord 0 0 else MBubble ord (Claiming 0 0)], None)
                     | Some oid \<Rightarrow>
                         (let (b, buffered) = buffer_claim now (rc_chat a) (rc_user a) (tk_photos s1);
                              ms = claimed_media a buffered;
                              photos = count_kind False ms; videos = count_kind True ms;
                              w = window_open now (rc_chat a) (rc_user a) oid (tk_windows s1);
                              upload = (if ms = [] then None else Some
                                \<lparr>pu_order = oid, pu_messages = map fst ms, pu_badge = rc_badge a, pu_index = None,
                                 pu_kinds = fold (\<lambda>(i, k). AList.update i k) ms [],
                                 pu_patch = (if is_group (rc_source a) then PatchGroupLine else PatchBubble),
                                 pu_group_order = (if is_group (rc_source a) then Some ord else None)\<rparr>)
                          in (s1\<lparr>tk_photos := b, tk_windows := w\<rparr>,
                              [if is_group (rc_source a) then MGroupLine ord (int photos) (int videos)
                               else MBubble ord (Claiming photos videos)], upload))))))"

definition cancel_ticket :: "(hk_call \<Rightarrow> hk_answer) \<Rightarrow> routed_command \<Rightarrow> ticket_state \<Rightarrow> ticket_result" where
  "cancel_ticket hk a s =
     (case ask hk (CancelOrder (rc_order a) (rc_badge a) (rc_name a)) s of
        (s1, ans) \<Rightarrow> (case refusal ans of Some m \<Rightarrow> (s1, [m], None)
          | None \<Rightarrow> (s1, [MCancelled (rc_order a)], None)))"

definition patch_for :: "routed_command \<Rightarrow> order_view \<Rightarrow> patch" where
  "patch_for a o' = (if rc_command a = Setcat then PatchCategory (rc_category a)
     else if rc_command a = ToggleUrgent then PatchUrgent (\<not> ov_urgent o')
     else PatchProperty (if ov_property o' = ''hf'' then ''hfville'' else ''hf''))"

definition patch_ticket ::
  "(hk_call \<Rightarrow> hk_answer) \<Rightarrow> routed_command \<Rightarrow> order_view \<Rightarrow> ticket_state \<Rightarrow> ticket_result" where
  "patch_ticket hk a o' s =
     (case ask hk (PatchOrder (rc_order a) (patch_for a o') (rc_badge a) (rc_name a)) s of
        (s1, ans) \<Rightarrow> (case refusal ans of Some m \<Rightarrow> (s1, [m], None)
          | None \<Rightarrow> (let n = order_of ans in (s1, [MBubble n (Stored (ov_photos n) (ov_videos n))], None))))"

definition list_mine :: "(hk_call \<Rightarrow> hk_answer) \<Rightarrow> routed_command \<Rightarrow> ticket_state \<Rightarrow> ticket_result" where
  "list_mine hk a s =
     (case ask hk (ListOrders (rc_badge a)) s of
        (s1, ans) \<Rightarrow> (case refusal ans of Some m \<Rightarrow> (s1, [m], None)
          | None \<Rightarrow> (let os = take 10 (case ans of HkOrders xs \<Rightarrow> xs | _ \<Rightarrow> []) in
              (s1, [if os = [] then MFixed MineEmpty else MMine os], None))))"

definition status_lookup :: "(hk_call \<Rightarrow> hk_answer) \<Rightarrow> routed_command \<Rightarrow> ticket_state \<Rightarrow> ticket_result" where
  "status_lookup hk a s =
     (case ask hk (GetOrder (rc_order a)) s of
        (s1, ans) \<Rightarrow> (case ans of
            HkDark \<Rightarrow> (s1, [MFixed TicketUnavailable], None)
          | HkError _ \<Rightarrow> (s1, [MNotFound (rc_order a)], None)
          | _ \<Rightarrow> if \<not> authorized_for_order a (order_of ans) then (s1, [MFixed StatusForbidden], None)
              else (s1, [MOrder (rc_order a) (order_of ans)], None)))"

definition addphoto_with_quote :: "routed_command \<Rightarrow> ticket_state \<Rightarrow> ticket_result" where
  "addphoto_with_quote a s =
     (s, [MAddPrompt (rc_order a)], Some \<lparr>pu_order = the (rc_order a), pu_messages = [rc_quoted a],
        pu_badge = rc_badge a, pu_index = Some 0, pu_kinds = [(rc_quoted a, Quoted)],
        pu_patch = PatchAddPhotoAck, pu_group_order = None\<rparr>)"

definition build_ticket_messages ::
  "real \<Rightarrow> (hk_call \<Rightarrow> hk_answer) \<Rightarrow> routed_command \<Rightarrow> ticket_state \<Rightarrow> ticket_result" where
  "build_ticket_messages now hk a s =
     (if rc_command a = ReportHelp then
        (s, [MFixed (if is_group (rc_source a) then HelpGroup else HelpDirect)], None)
      else if \<not> rc_known a then (s, [MFixed NotLinked], None)
      else if rc_command a = Report then create_ticket_bot now hk a s
      else if rc_command a = Mine then list_mine hk a s
      else if rc_command a = Status then status_lookup hk a s
      else case ask hk (GetOrder (rc_order a)) s of
        (s1, ans) \<Rightarrow> (case refusal ans of
            Some m \<Rightarrow> (s1, [m], None)
          | None \<Rightarrow>
              if \<not> authorized_for_order a (order_of ans) then (s1, [MFixed EditForbidden], None)
              else if rc_command a = Fixcat then (s1, [MChips (rc_order a)], None)
              else if rc_command a = AddPhoto then
                (if rc_quoted a \<noteq> [] then addphoto_with_quote a s1
                 else (s1\<lparr>tk_windows := window_open now (rc_chat a) (rc_user a) (the (rc_order a)) (tk_windows s1)\<rparr>,
                       [MAddPrompt (rc_order a)], None))
              else if rc_command a = Cancel then cancel_ticket hk a s1
              else patch_ticket hk a (order_of ans) s1))"

section \<open>One reply\<close>

definition slot_label :: "slot \<Rightarrow> utext" where
  "slot_label s = (case s of Morning \<Rightarrow> [0xe40, 0xe0a, 0xe49, 0xe32] | Noon \<Rightarrow> [0xe40,
      0xe17, 0xe35, 0xe48, 0xe22, 0xe07] | Afternoon \<Rightarrow> [0xe1a, 0xe48, 0xe32,
      0xe22] | Night \<Rightarrow> [0xe04, 0xe48, 0xe33])"

definition COMMAND_ORDER :: "command list" where
  "COMMAND_ORDER = [Onboarding, Palette, Digest, Requests]"

definition MAX_REPLY_MESSAGES :: nat where "MAX_REPLY_MESSAGES = 5"

record built_reply =
  br_messages :: "message list"
  br_slot_included :: bool
  br_digest_available :: bool
  br_uploads :: "pending_upload list"
  br_request_ids :: "str list"

text \<open>The services during one reply: the two reads, the ticket calls, and LINE.\<close>

record reply_env =
  re_enabled :: bool
  re_digest :: "digest option"
  re_feedback :: "feedback option"
  re_tickets :: "hk_call \<Rightarrow> hk_answer"
  re_builds :: bool
  re_settled :: "pending_upload \<Rightarrow> media_counts"
  re_accepts :: bool
  re_mark_ok :: bool
  re_mono :: real
  re_utc :: dtime

text \<open>The messages of one command of \<open>COMMAND_ORDER\<close>, whether they hold the report, and the ids shown.\<close>

definition digest_position ::
  "command set \<Rightarrow> slot option \<Rightarrow> reply_env \<Rightarrow> message list \<times> bool \<times> bool \<times> str list" where
  "digest_position wanted sl env =
     (if SlotDigest \<notin> wanted \<and> Digest \<notin> wanted then ([], False, False, [])
      else
        let plain = (if Digest \<in> wanted \<or> SlotDigest \<notin> wanted then [MText (render_digest (re_digest env))] else []);
            avail = (re_digest env \<noteq> None)
        in if SlotDigest \<notin> wanted then (plain, False, avail, [])
           else case Option.bind sl (\<lambda>x. render_slot_digest (slot_label x) (re_digest env) (re_feedback env)) of
               Some t \<Rightarrow> ([MText t], True, avail, request_ids (re_feedback env))
             | None \<Rightarrow> (plain, False, avail, []))"

definition ack_text :: "int \<times> photo_ack \<Rightarrow> message option" where
  "ack_text x = (case x of (oid, a) \<Rightarrow>
     if pa_attached a > 0 \<or> pa_vattached a > 0 \<or> pa_failed a > 0 \<or> pa_vfailed a > 0 \<or> pa_notes a \<noteq> []
     then Some (MAck oid a) else None)"

fun run_actions ::
  "real \<Rightarrow> (hk_call \<Rightarrow> hk_answer) \<Rightarrow> routed_command list \<Rightarrow> message list \<Rightarrow> pending_upload list \<Rightarrow> ticket_state
   \<Rightarrow> ticket_state \<times> message list \<times> pending_upload list" where
  "run_actions now hk [] ms us s = (s, ms, us)"
| "run_actions now hk (a # as) ms us s =
     (case build_ticket_messages now hk a s of
        (s1, ams, up) \<Rightarrow>
          run_actions now hk as (ms @ ams)
            (case up of None \<Rightarrow> us
             | Some u \<Rightarrow> us @ [u\<lparr>pu_index := (if ams = [] then None else Some (length ms))\<rparr>]) s1)"

definition build_reply ::
  "pending_reply \<Rightarrow> reply_env \<Rightarrow> ticket_state \<Rightarrow> ticket_state \<times> built_reply" where
  "build_reply p env s =
     (let wanted = pr_commands p;
          (dms, included, avail, dids) =
            digest_position wanted (map_option (snd \<circ> snd) (pr_slot_ref p)) env;
          head = (if Onboarding \<in> wanted then [MFixed OnboardingLine] else [])
            @ (if Palette \<in> wanted then [MPalette] else []) @ dms
            @ (if Requests \<in> wanted then [MText (render_requests (re_feedback env))] else [])
            @ List.map_filter ack_text (pr_acks p);
          ids = dids @ (if Requests \<in> wanted then request_ids (re_feedback env) else []);
          (s1, ms, us) = run_actions (re_mono env) (re_tickets env) (pr_actions p) head [] s
      in (s1, \<lparr>br_messages = take MAX_REPLY_MESSAGES ms, br_slot_included = included,
               br_digest_available = avail, br_uploads = us, br_request_ids = ids\<rparr>))"

text \<open>The rewriting of the message of an upload once its media have settled.\<close>

definition patch_message :: "pending_upload \<Rightarrow> media_counts \<Rightarrow> message \<Rightarrow> message" where
  "patch_message u c m =
     (case (pu_patch u, m) of
        (PatchBubble, MBubble o' _) \<Rightarrow> MBubble o' (Settled c)
      | (PatchGroupLine, MGroupLine o' _ _) \<Rightarrow> MGroupLine o' (mc_photos c) (mc_videos c)
      | (PatchAddPhotoAck, MAddPrompt oid) \<Rightarrow>
          if mc_photos c > 0 \<or> mc_videos c > 0 \<or> mc_photos_failed c > 0 \<or> mc_videos_failed c > 0
          then MAck (pu_order u) \<lparr>pa_attached = mc_photos c, pa_failed = mc_photos_failed c, pa_total = None,
             pa_vattached = mc_videos c, pa_vfailed = mc_videos_failed c, pa_notes = []\<rparr>
          else m
      | _ \<Rightarrow> m)"

definition patch_all :: "reply_env \<Rightarrow> pending_upload list \<Rightarrow> message list \<Rightarrow> message list" where
  "patch_all env us ms = fold (\<lambda>u xs. case pu_index u of
       None \<Rightarrow> xs
     | Some i \<Rightarrow> if i < length xs then xs[i := patch_message u (re_settled env u) (xs ! i)] else xs) us ms"

text \<open>What came of a reply: its token, the window it reported and the feedback confirmed as delivered.\<close>

datatype reply_outcome = NothingSent | Sent str "message list" "slot_ref option" "str list"

definition owns_mark :: "pending_reply \<Rightarrow> slot_ref option" where
  "owns_mark p = (if SlotDigest \<in> pr_commands p then pr_slot_ref p else None)"

definition drop_owned :: "reply_env \<Rightarrow> slot_ref option \<Rightarrow> bot_state \<Rightarrow> bot_state" where
  "drop_owned env ref s = (case ref of
       None \<Rightarrow> s
     | Some r \<Rightarrow> if re_mark_ok env then s\<lparr>bt_db := drop_slot_mark r (bt_db s)\<rparr> else s)"

definition sent_marks :: "reply_env \<Rightarrow> slot_ref option \<Rightarrow> trigger \<Rightarrow> bot_state \<Rightarrow> bot_state" where
  "sent_marks env ref trig s = (case ref of
       None \<Rightarrow> s
     | Some r \<Rightarrow> if re_mark_ok env then s\<lparr>bt_db := mark_slot_sent (re_utc env) r trig (bt_db s)\<rparr> else s)"

definition bot_reply :: "pending_reply \<Rightarrow> reply_env \<Rightarrow> bot_state \<Rightarrow> bot_state \<times> reply_outcome" where
  "bot_reply p env s =
     (let own = owns_mark p in
      if \<not> re_enabled env \<or> \<not> re_builds env then (drop_owned env own s, NothingSent)
      else
        let (tk, built) = build_reply p env
              \<lparr>tk_photos = bt_photos s, tk_windows = bt_windows s, tk_calls = []\<rparr>;
            s1 = s\<lparr>bt_photos := tk_photos tk, bt_windows := tk_windows tk\<rparr>;
            ms = patch_all env (br_uploads built) (br_messages built);
            lost = (if br_slot_included built then None else own);
            s2 = drop_owned env lost s1;
            kept = (if br_slot_included built then own else None)
        in if ms = [] \<or> pr_token p = [] \<or> \<not> re_accepts env then (drop_owned env kept s2, NothingSent)
           else
             (let s3 = (if kept \<noteq> None then sent_marks env kept (pr_trigger p) s2
                   else if Digest \<in> pr_commands p \<and> br_digest_available built
                   then sent_marks env (pr_slot_ref p) TriggerCommand s2
                   else s2)
              in (s3, Sent (pr_token p) ms kept
                    (if br_request_ids built \<noteq> [] \<and> is_group (pr_source p) then br_request_ids built else []))))"

section \<open>Uploads in the background\<close>

text \<open>
  How an upload ended: stored with the new number of files, refused, a video that LINE did not
  transcode or that is too large, or one still running when its token is about to expire.
\<close>

datatype upload_outcome = UpStored int | UpFailed | UpNotTranscoded | UpOversize | UpStillRunning

definition upload_ack :: "bot_clock \<Rightarrow> photo_upload \<Rightarrow> upload_outcome \<Rightarrow> debouncer \<Rightarrow> debouncer" where
  "upload_ack k u out d =
     (let file = (\<lambda>a f t n. note_photo_ack (bc_mono k) (up_chat u) (up_token u) (up_order u) (up_kind u) a f t n d) in
      if up_chat u = [] \<or> up_token u = [] then d
      else case out of
        UpStored n \<Rightarrow> file 1 0 (Some n) None
      | UpFailed \<Rightarrow> file 0 1 None None
      | UpNotTranscoded \<Rightarrow> if up_kind u = Video then file 0 0 None (Some TranscodeFailed) else file 0 1 None None
      | UpOversize \<Rightarrow> if up_kind u = Video then file 0 0 None (Some OversizeNote) else file 0 1 None None
      | UpStillRunning \<Rightarrow> if up_kind u = Video then file 0 0 None (Some Processing) else d)"

section \<open>The machine\<close>

datatype bot_input =
    BWebhook bot_clock bot_event
  | BTick bot_clock
  | BFinish nat reply_env
  | BUpload bot_clock nat upload_outcome
  | BRestart

datatype bot_output = BoHandled handled | BoPopped "pending_reply list" | BoReply reply_outcome | BoNone

definition remove_nth :: "nat \<Rightarrow> 'a list \<Rightarrow> 'a list" where
  "remove_nth i xs = take i xs @ drop (Suc i) xs"

text \<open>
  The drain loop pops the entries that are due and waits for all of their replies before it
  looks again; the replies finish in any order.
\<close>

fun bot_step :: "bot_state \<Rightarrow> bot_input \<Rightarrow> bot_state \<times> bot_output" where
  "bot_step s (BWebhook k e) = (case handle_event_detail k e s of (s', h) \<Rightarrow> (s', BoHandled h))"
| "bot_step s (BTick k) =
     (if bt_flight s \<noteq> [] then (s, BoNone)
      else case pop_due (bc_mono k) (bt_pending s) of
        (d, ps) \<Rightarrow> (s\<lparr>bt_pending := d, bt_flight := ps\<rparr>, BoPopped ps))"
| "bot_step s (BFinish i env) =
     (if i < length (bt_flight s) then
        (case bot_reply (bt_flight s ! i) env s of
           (s', out) \<Rightarrow> (s'\<lparr>bt_flight := remove_nth i (bt_flight s')\<rparr>, BoReply out))
      else (s, BoNone))"
| "bot_step s (BUpload k i out) =
     (if i < length (bt_uploads s) then
        (s\<lparr>bt_pending := upload_ack k (bt_uploads s ! i) out (bt_pending s),
           bt_uploads := remove_nth i (bt_uploads s)\<rparr>, BoNone)
      else (s, BoNone))"
| "bot_step s BRestart =
     (s\<lparr>bt_pending := [], bt_photos := [], bt_windows := [], bt_uploads := [], bt_flight := []\<rparr>, BoNone)"

definition bot_start :: "bot_db \<Rightarrow> bot_state" where
  "bot_start db = \<lparr>bt_db = db, bt_pending = [], bt_photos = [], bt_windows = [], bt_uploads = [], bt_flight = []\<rparr>"

declare bot_step.simps [simp del]

end
