(* ===== verification/BotFacts.thy ===== *)
theory BotFacts
  imports BotReply BotTextFacts
begin

text \<open>
  What the staff bot guarantees: a chat it owes an answer gets one within 45 seconds, a group
  can only file a repair report, and each report window is posted at most once per group.
\<close>

section \<open>The debouncer\<close>

definition pending_ok :: "debouncer \<Rightarrow> bool" where
  "pending_ok d \<longleftrightarrow> dict_ok d \<and> (\<forall>c p. map_of d c = Some p \<longrightarrow> pr_chat p = c)"

text \<open>An entry grows: it keeps its chat, its first trigger and all it owes.\<close>

definition grows :: "pending_reply \<Rightarrow> pending_reply \<Rightarrow> bool" where
  "grows p q \<longleftrightarrow> pr_chat q = pr_chat p \<and> pr_first_at q = pr_first_at p \<and> pr_commands p \<subseteq> pr_commands q
     \<and> (\<exists>as. pr_actions q = pr_actions p @ as)"

lemma grows_refl [simp]: "grows p p"
  by (simp add: grows_def)

lemma grows_trans: "grows p q \<Longrightarrow> grows q r \<Longrightarrow> grows p r"
  by (fastforce simp: grows_def)

definition extends :: "debouncer \<Rightarrow> debouncer \<Rightarrow> bool" where
  "extends d d' \<longleftrightarrow> (pending_ok d \<longrightarrow> pending_ok d')
     \<and> (\<forall>c p. map_of d c = Some p \<longrightarrow> (\<exists>q. map_of d' c = Some q \<and> grows p q))"

lemma extends_refl [simp]: "extends d d"
  by (auto simp: extends_def)

lemma extends_trans: "extends d d' \<Longrightarrow> extends d' d'' \<Longrightarrow> extends d d''"
  unfolding extends_def by (meson grows_trans)

lemma extends_update:
  assumes "pr_chat q = c" "\<forall>p. map_of d c = Some p \<longrightarrow> grows p q"
  shows "extends d (AList.update c q d)"
  using assms by (auto simp: extends_def pending_ok_def dict_simps)

lemma touch_grows:
  assumes "pending_ok d"
  shows "pr_chat (touch now c cmd token quiet d) = c \<and> cmd \<in> pr_commands (touch now c cmd token quiet d)
    \<and> (\<forall>p. map_of d c = Some p \<longrightarrow> grows p (touch now c cmd token quiet d))"
  using assms by (auto simp: touch_def pending_ok_def fresh_pending_def grows_def Let_def split: option.splits)

lemma extends_note_command: "pending_ok d \<Longrightarrow> extends d (note_command now c cmd token quiet ref src act d)"
  unfolding note_command_def Let_def
  by (rule extends_update)
    (use touch_grows [of d now c cmd token quiet] in \<open>auto simp: grows_def split: option.splits\<close>)

lemma extends_note_photo_ack: "pending_ok d \<Longrightarrow> extends d (note_photo_ack now c token oid kind a f t n d)"
  unfolding note_photo_ack_def Let_def
  by (rule extends_update)
    (use touch_grows [of d now c PhotoAck token PHOTO_ACK_QUIET_SECONDS] in \<open>auto simp: grows_def\<close>)

lemma extends_note_message: "pending_ok d \<Longrightarrow> extends d (fst (note_message now c token d))"
  by (auto simp: note_message_def split: option.splits intro!: extends_update)
    (auto simp: pending_ok_def grows_def)

lemma extends_upload_ack: "pending_ok d \<Longrightarrow> extends d (upload_ack k u out d)"
  by (auto simp: upload_ack_def Let_def extends_note_photo_ack split: upload_outcome.splits)

lemma extends_submit_command: "pending_ok (bt_pending s) \<Longrightarrow> extends (bt_pending s) (bt_pending (submit_command k c s))"
  by (simp add: submit_command_def extends_note_command)

lemma extends_slot_digest:
  assumes "pending_ok (bt_pending s)"
  shows "extends (bt_pending s) (bt_pending (submit_slot_digest k ref token trig s))"
proof -
  define d where "d = note_command (bc_mono k) (fst ref) SlotDigest token SLOT_QUIET_SECONDS (Some ref) ''group'' None (bt_pending s)"
  have e: "extends (bt_pending s) d" unfolding d_def using assms by (rule extends_note_command)
  then have ok: "pending_ok d" using assms by (simp add: extends_def)
  have "extends d (case map_of d (fst ref) of None \<Rightarrow> d | Some p \<Rightarrow> AList.update (fst ref) (p\<lparr>pr_trigger := trig\<rparr>) d)"
    using ok by (auto split: option.splits intro!: extends_update) (auto simp: pending_ok_def grows_def)
  with e show ?thesis by (simp add: submit_slot_digest_def Let_def d_def [symmetric]) (rule extends_trans)
qed

lemma extends_file_slot:
  assumes "pending_ok (bt_pending s)"
  shows "extends (bt_pending s) (bt_pending (fst (maybe_file_slot_digest k e c token s)))"
proof -
  have x: "extends (bt_pending s) (bt_pending (submit_slot_digest k ref token trig (s\<lparr>bt_db := db\<rparr>)))" for ref trig db
    using extends_slot_digest [of "s\<lparr>bt_db := db\<rparr>" k ref token trig] assms by simp
  show ?thesis by (auto simp: maybe_file_slot_digest_def x split: option.splits prod.splits if_splits bool.splits)
qed

lemma photo_keeps_pending [simp]: "bt_pending (maybe_handle_photo k e c token s) = bt_pending s"
  by (auto simp: maybe_handle_photo_def Let_def split: option.splits prod.splits if_splits)

lemma extends_handle:
  assumes "pending_ok (bt_pending s)"
  shows "extends (bt_pending s) (bt_pending (fst (handle_event_detail k e s)))"
proof -
  have m: "extends (bt_pending s) (fst (note_message t c token (bt_pending (fst (maybe_file_slot_digest k e c token s)))))"
    for t c token
    using extends_file_slot [OF assms] extends_note_message assms by (meson extends_def extends_trans)
  show ?thesis
    using extends_submit_command [OF assms]
    by (auto simp: handle_event_detail_def Let_def case_prod_beta intro: m
        split: sum.splits option.splits routed.splits)
qed

lemma reply_keeps_pending [simp]:
  "bt_pending (fst (bot_reply p env s)) = bt_pending s" "bt_flight (fst (bot_reply p env s)) = bt_flight s"
  by (auto simp: bot_reply_def drop_owned_def sent_marks_def Let_def split: option.splits prod.splits if_splits)

lemma reply_keeps:
  "bot_reply p env s = (s', out) \<Longrightarrow> bt_pending s' = bt_pending s \<and> bt_flight s' = bt_flight s"
  using reply_keeps_pending [of p env s] by simp

lemma pop_due_facts:
  assumes "pending_ok d" "pop_due now d = (d', ps)"
  shows "pending_ok d' \<and> (\<forall>c. map_of d' c = (case map_of d c of Some p \<Rightarrow> if due now p then None else Some p | None \<Rightarrow> None))
    \<and> (\<forall>p. p \<in> set ps \<longleftrightarrow> map_of d (pr_chat p) = Some p \<and> due now p)"
proof -
  have ok: "dict_ok d" "\<And>c p. map_of d c = Some p \<Longrightarrow> pr_chat p = c" using assms(1) by (auto simp: pending_ok_def)
  have ps: "p \<in> set ps \<longleftrightarrow> map_of d (pr_chat p) = Some p \<and> due now p" for p
  proof -
    have "p \<in> set ps \<longleftrightarrow> (\<exists>c. (c, p) \<in> set d) \<and> due now p" using assms(2) by (force simp: pop_due_def Let_def)
    also have "(\<exists>c. (c, p) \<in> set d) \<longleftrightarrow> map_of d (pr_chat p) = Some p"
      using ok map_of_is_SomeI [of d _ p] map_of_SomeD by (metis dict_ok_def)
    finally show ?thesis .
  qed
  have d': "d' = fold AList.delete (map pr_chat ps) d" using assms(2) by (auto simp: pop_due_def Let_def)
  have m: "map_of d' c = (if c \<in> pr_chat ` set ps then None else map_of d c)" for c
    unfolding d' using map_of_fold_delete [of "map pr_chat ps" d] by auto
  have g: "map_of d' c = (case map_of d c of Some p \<Rightarrow> if due now p then None else Some p | None \<Rightarrow> None)" for c
  proof (cases "map_of d c")
    case None
    then show ?thesis by (simp add: m)
  next
    case (Some p)
    have "c \<in> pr_chat ` set ps \<longleftrightarrow> due now p"
    proof
      assume "c \<in> pr_chat ` set ps"
      then obtain q where "q \<in> set ps" "pr_chat q = c" by blast
      then show "due now p" using ps [of q] Some by simp
    next
      assume "due now p"
      then have "p \<in> set ps" using ps [of p] Some ok(2) [OF Some] by simp
      then show "c \<in> pr_chat ` set ps" using ok(2) [OF Some] by force
    qed
    then show ?thesis using Some by (simp add: m)
  qed
  then have "pending_ok d'" using ok dict_ok_fold_delete [OF ok(1)]
    by (auto simp: pending_ok_def d' split: option.splits if_splits)
  then show ?thesis using g ps by blast
qed

section \<open>A chat is answered\<close>

definition popped :: "str \<Rightarrow> (bot_input \<times> bot_output) list \<Rightarrow> bool" where
  "popped c tr \<longleftrightarrow> (\<exists>x \<in> set tr. \<exists>ps. snd x = BoPopped ps \<and> c \<in> pr_chat ` set ps)"

lemma step_extends:
  assumes ok: "pending_ok (bt_pending s)" and st: "bot_step s e = (s', out)"
    and p: "map_of (bt_pending s) c = Some p" and e: "e \<noteq> BRestart"
    and n: "\<forall>ps. out = BoPopped ps \<longrightarrow> c \<notin> pr_chat ` set ps"
  shows "pending_ok (bt_pending s') \<and> (\<exists>q. map_of (bt_pending s') c = Some q \<and> grows p q)"
proof (cases e)
  case (BWebhook k ev)
  then show ?thesis using st ok p extends_handle [OF ok, of k ev]
    by (auto simp: bot_step.simps extends_def split: prod.splits)
next
  case (BTick k)
  show ?thesis
  proof (cases "bt_flight s = []")
    case True
    obtain d ps where d: "pop_due (bc_mono k) (bt_pending s) = (d, ps)" by fastforce
    have s': "bt_pending s' = d" "out = BoPopped ps" using BTick st True d by (auto simp: bot_step.simps)
    have c: "pr_chat p = c" using ok p by (simp add: pending_ok_def)
    have "p \<notin> set ps" using n s'(2) c by auto
    then have "\<not> due (bc_mono k) p" using pop_due_facts [OF ok d] p c by auto
    then show ?thesis using pop_due_facts [OF ok d] p s'(1) by auto
  qed (use BTick st ok p in \<open>auto simp: bot_step.simps\<close>)
next
  case (BFinish i env)
  then show ?thesis using st ok p
    by (auto simp: bot_step.simps split: if_splits prod.splits dest!: reply_keeps)
next
  case (BUpload k i o')
  then show ?thesis using st ok p extends_upload_ack [OF ok, of k "bt_uploads s ! i" o']
    by (auto simp: bot_step.simps extends_def split: if_splits)
qed (use e in simp)

lemma run_extends:
  assumes "pending_ok (bt_pending s)" "map_of (bt_pending s) c = Some p" "BRestart \<notin> set es"
    and "run bot_step s es = (s', tr)" "\<not> popped c tr"
  shows "pending_ok (bt_pending s') \<and> (\<exists>q. map_of (bt_pending s') c = Some q \<and> grows p q)"
  using assms
proof (induction es arbitrary: s p tr)
  case (Cons e es)
  obtain s1 out where s1: "bot_step s e = (s1, out)" by fastforce
  obtain tr' where tr': "run bot_step s1 es = (s', tr')" "tr = (e, out) # tr'"
    using Cons.prems(4) s1 by (rule run_ConsE)
  have n: "\<forall>ps. out = BoPopped ps \<longrightarrow> c \<notin> pr_chat ` set ps" "\<not> popped c tr'"
    using Cons.prems(5) tr'(2) by (auto simp: popped_def)
  obtain q where q: "pending_ok (bt_pending s1)" "map_of (bt_pending s1) c = Some q" "grows p q"
    using step_extends [OF Cons.prems(1) s1 Cons.prems(2) _ n(1)] Cons.prems(3) by auto
  from Cons.IH [OF q(1,2) _ tr'(1) n(2)] Cons.prems(3) q(3) show ?case by (auto intro: grows_trans)
qed auto


section \<open>Groups only report\<close>

definition owed :: "debouncer \<Rightarrow> str \<Rightarrow> command set" where
  "owed d c = (case map_of d c of None \<Rightarrow> {} | Some p \<Rightarrow> pr_commands p)"

definition asks_report :: "bot_event \<Rightarrow> bool" where
  "asks_report e \<longleftrightarrow> (\<exists>m i n rest. be_message e = Some m \<and> self_mention_span m = Some (i, n)
     \<and> strip_utf16_span (bm_text m) i n = Some rest \<and> starts REPORT_WORD (ustrip rest))"

lemma owed_note_command:
  "owed (note_command now c cmd token quiet ref src act d) c' = (if c' = c then insert cmd (owed d c) else owed d c')"
  by (auto simp: owed_def note_command_def touch_def fresh_pending_def Let_def map_of_update split: option.splits)

lemma owed_note_message: "owed (fst (note_message now c token d)) c' = owed d c'"
  by (auto simp: owed_def note_message_def map_of_update split: option.splits)

lemma owed_slot_digest:
  "owed (bt_pending (submit_slot_digest k ref token trig s)) c \<subseteq> insert SlotDigest (owed (bt_pending s) c)"
proof -
  define d where "d = note_command (bc_mono k) (fst ref) SlotDigest token SLOT_QUIET_SECONDS (Some ref) ''group'' None (bt_pending s)"
  have "owed (case map_of d (fst ref) of None \<Rightarrow> d | Some p \<Rightarrow> AList.update (fst ref) (p\<lparr>pr_trigger := trig\<rparr>) d) c = owed d c"
    by (auto simp: owed_def map_of_update split: option.splits)
  moreover have "owed d c \<subseteq> insert SlotDigest (owed (bt_pending s) c)" by (auto simp: d_def owed_note_command)
  ultimately show ?thesis by (simp add: submit_slot_digest_def Let_def d_def [symmetric])
qed

lemma owed_file_slot:
  "owed (bt_pending (fst (maybe_file_slot_digest k e c token s))) c' \<subseteq> insert SlotDigest (owed (bt_pending s) c')"
proof -
  have x: "owed (bt_pending (submit_slot_digest k ref token trig (s\<lparr>bt_db := db\<rparr>))) c' \<subseteq> insert SlotDigest (owed (bt_pending s) c')"
    for ref trig db using owed_slot_digest [of k ref token trig "s\<lparr>bt_db := db\<rparr>" c'] by simp
  have y: "a \<in> owed (bt_pending (submit_slot_digest k ref token trig (s\<lparr>bt_db := db\<rparr>))) c'
      \<Longrightarrow> a \<noteq> SlotDigest \<Longrightarrow> a \<in> owed (bt_pending s) c'" for a ref trig db
    using x by blast
  show ?thesis by (auto simp: maybe_file_slot_digest_def dest: y split: option.splits prod.splits if_splits bool.splits)
qed


section \<open>One report per window\<close>

text \<open>The entry of a chat owns the report of a window: it will post it, or give the window back.\<close>

definition pending_owner :: "slot_ref \<Rightarrow> debouncer \<Rightarrow> nat" where
  "pending_owner ref d = (case map_of d (fst ref) of
     None \<Rightarrow> 0 | Some p \<Rightarrow> if owns_mark p = Some ref then 1 else 0)"

definition flying :: "slot_ref \<Rightarrow> pending_reply list \<Rightarrow> nat" where
  "flying ref ps = length (filter (\<lambda>p. owns_mark p = Some ref) ps)"

definition owners :: "slot_ref \<Rightarrow> bot_state \<Rightarrow> nat" where
  "owners ref s = pending_owner ref (bt_pending s) + flying ref (bt_flight s)"

definition own_chat :: "debouncer \<Rightarrow> bool" where
  "own_chat d \<longleftrightarrow> pending_ok d \<and> (\<forall>c p r. map_of d c = Some p \<longrightarrow> owns_mark p = Some r \<longrightarrow> fst r = c)"

text \<open>What an operation of the debouncer does to the owners: at most one window gets a new one.\<close>

definition owns_same :: "debouncer \<Rightarrow> debouncer \<Rightarrow> bool" where
  "owns_same d d' \<longleftrightarrow> (own_chat d \<longrightarrow> own_chat d' \<and> (\<forall>ref. pending_owner ref d' = pending_owner ref d))"

lemma owns_same_refl [simp]: "owns_same d d"
  by (simp add: owns_same_def)

lemma owns_same_trans: "owns_same d d' \<Longrightarrow> owns_same d' d'' \<Longrightarrow> owns_same d d''"
  by (simp add: owns_same_def)

lemma owns_same_update:
  assumes "pr_chat q = c" "owns_mark q = (case map_of d c of None \<Rightarrow> None | Some p \<Rightarrow> owns_mark p)"
  shows "owns_same d (AList.update c q d)"
  using assms by (auto simp: owns_same_def own_chat_def pending_ok_def pending_owner_def dict_simps split: option.splits)

lemma touch_owner:
  assumes "cmd \<noteq> SlotDigest"
  shows "owns_mark (touch now c cmd token quiet d) = (case map_of d c of None \<Rightarrow> None | Some p \<Rightarrow> owns_mark p)"
  using assms by (auto simp: touch_def fresh_pending_def owns_mark_def Let_def split: option.splits)

lemma owns_same_touched:
  assumes "own_chat d" "cmd \<noteq> SlotDigest" "pr_chat q = pr_chat (touch now c cmd token quiet d)"
    "owns_mark q = owns_mark (touch now c cmd token quiet d)"
  shows "owns_same d (AList.update c q d)"
  using assms touch_owner [OF assms(2)] touch_grows [of d now c cmd token quiet]
  by (intro owns_same_update) (auto simp: own_chat_def)

lemma owns_same_note_command:
  assumes "own_chat d" "cmd \<noteq> SlotDigest"
  shows "owns_same d (note_command now c cmd token quiet None src act d)"
  unfolding note_command_def Let_def
  by (rule owns_same_touched [OF assms]) (auto simp: owns_mark_def split: option.splits)

lemma owns_same_note_photo_ack:
  "own_chat d \<Longrightarrow> owns_same d (note_photo_ack now c token oid kind a f t n d)"
  unfolding note_photo_ack_def Let_def
  by (rule owns_same_touched [of _ PhotoAck _ now _ token PHOTO_ACK_QUIET_SECONDS]) (auto simp: owns_mark_def)

lemma owns_same_note_message: "own_chat d \<Longrightarrow> owns_same d (fst (note_message now c token d))"
  by (auto simp: note_message_def split: option.splits intro!: owns_same_update)
    (auto simp: own_chat_def pending_ok_def owns_mark_def)

lemma owns_same_upload_ack: "own_chat d \<Longrightarrow> owns_same d (upload_ack k u out d)"
  by (auto simp: upload_ack_def Let_def owns_same_note_photo_ack split: upload_outcome.splits)

lemma slot_digest_owners:
  assumes "own_chat (bt_pending s)"
  shows "own_chat (bt_pending (submit_slot_digest k ref token trig s))
    \<and> pending_owner ref (bt_pending (submit_slot_digest k ref token trig s)) = 1
    \<and> (\<forall>r. r \<noteq> ref \<longrightarrow> pending_owner r (bt_pending (submit_slot_digest k ref token trig s)) \<le> pending_owner r (bt_pending s))"
proof -
  define t where "t = touch (bc_mono k) (fst ref) SlotDigest token SLOT_QUIET_SECONDS (bt_pending s)"
  define q where "q = t\<lparr>pr_slot_ref := Some ref, pr_source := ''group'', pr_trigger := trig\<rparr>"
  have t: "pr_chat t = fst ref" "SlotDigest \<in> pr_commands t"
    using touch_grows [of "bt_pending s"] assms by (auto simp: t_def own_chat_def)
  have e: "bt_pending (submit_slot_digest k ref token trig s) = AList.update (fst ref) q
      (AList.update (fst ref) (t\<lparr>pr_slot_ref := Some ref, pr_source := ''group''\<rparr>) (bt_pending s))"
    by (simp add: submit_slot_digest_def note_command_def Let_def t_def [symmetric] q_def map_of_update)
  have q: "owns_mark q = Some ref" "pr_chat q = fst ref" using t by (auto simp: q_def owns_mark_def)
  have m: "map_of (bt_pending (submit_slot_digest k ref token trig s)) c
      = (if c = fst ref then Some q else map_of (bt_pending s) c)" for c
    by (simp add: e map_of_update)
  have "dict_ok (bt_pending (submit_slot_digest k ref token trig s))"
    unfolding e using assms by (simp add: own_chat_def pending_ok_def dict_simps)
  then have "own_chat (bt_pending (submit_slot_digest k ref token trig s))"
    using assms q by (auto simp: own_chat_def pending_ok_def m split: if_splits)
  moreover have "pending_owner r (bt_pending (submit_slot_digest k ref token trig s)) \<le> pending_owner r (bt_pending s)"
    if "r \<noteq> ref" for r using q that by (auto simp: pending_owner_def m)
  ultimately show ?thesis using q by (simp add: pending_owner_def m)
qed

lemma flying_append [simp]: "flying ref (xs @ ys) = flying ref xs + flying ref ys"
  by (simp add: flying_def)

lemma flying_remove:
  assumes "i < length ps"
  shows "flying ref ps = flying ref (remove_nth i ps) + (if owns_mark (ps ! i) = Some ref then 1 else 0)"
proof -
  have "ps = take i ps @ ps ! i # drop (Suc i) ps" using assms by (rule id_take_nth_drop)
  then have "flying ref ps = flying ref (take i ps) + flying ref [ps ! i] + flying ref (drop (Suc i) ps)"
    by (metis add.assoc append_Cons append_Nil flying_append)
  then show ?thesis by (simp add: remove_nth_def flying_def)
qed

lemma flying_due:
  assumes "own_chat d" "pop_due now d = (d', ps)"
  shows "own_chat d' \<and> pending_owner ref d' + flying ref ps \<le> pending_owner ref d"
proof -
  have ok: "pending_ok d" using assms(1) by (simp add: own_chat_def)
  note facts = pop_due_facts [OF ok assms(2)]
  have keys: "distinct (map fst d)" "\<And>p. p \<in> set ps \<Longrightarrow> map_of d (pr_chat p) = Some p"
    using ok facts by (auto simp: pending_ok_def dict_ok_def)
  have ps: "ps = filter (due now) (map snd d)" using assms(2) by (auto simp: pop_due_def Let_def)
  have chats: "map pr_chat (map snd d) = map fst d"
    using ok by (auto simp: pending_ok_def dict_ok_def intro!: nth_equalityI dest: map_of_is_SomeI)
  then have dp: "distinct (map pr_chat ps)"
    unfolding ps using keys(1) by (metis distinct_map_filter)
  have own: "owns_mark p = Some ref \<Longrightarrow> pr_chat p = fst ref" if "p \<in> set ps" for p
    using assms(1) keys(2) [OF that] unfolding own_chat_def by metis
  have f: "flying ref ps = (if \<exists>p \<in> set ps. owns_mark p = Some ref then 1 else 0)"
  proof (cases "\<exists>p \<in> set ps. owns_mark p = Some ref")
    case True
    then obtain p where p: "p \<in> set ps" "owns_mark p = Some ref" by blast
    have "distinct ps" using dp by (simp add: distinct_map)
    then have "flying ref ps = card ({q. owns_mark q = Some ref} \<inter> set ps)"
      unfolding flying_def by (rule distinct_length_filter)
    also have "{q. owns_mark q = Some ref} \<inter> set ps = {p}"
      using own p dp by (auto simp: distinct_map inj_on_def)
    finally show ?thesis using True by simp
  qed (auto simp: flying_def)
  have c: "own_chat d'" using assms(1) facts by (auto simp: own_chat_def split: option.splits if_splits)
  have "pending_owner ref d' + flying ref ps \<le> pending_owner ref d"
  proof (cases "\<exists>p \<in> set ps. owns_mark p = Some ref")
    case True
    then obtain p where p: "p \<in> set ps" "owns_mark p = Some ref" by blast
    have m: "map_of d (fst ref) = Some p" "due now p" using own p facts by auto
    then have "map_of d' (fst ref) = None" using facts by simp
    then show ?thesis using f True m p by (simp add: pending_owner_def)
  next
    case False
    then have "flying ref ps = 0" using f by simp
    then show ?thesis using facts by (auto simp: pending_owner_def split: option.splits if_splits)
  qed
  with c show ?thesis by simp
qed

subsection \<open>Marks\<close>

definition marked :: "slot_ref \<Rightarrow> bot_db \<Rightarrow> bool" where
  "marked ref db \<longleftrightarrow> (\<exists>m \<in> set (bd_marks db). sm_key m = ref)"

definition sent_mark :: "slot_ref \<Rightarrow> bot_db \<Rightarrow> bool" where
  "sent_mark ref db \<longleftrightarrow> (\<exists>m \<in> set (bd_marks db). sm_key m = ref \<and> sm_state m = MarkSent)"

lemma marked_key: "marked ref db \<longleftrightarrow> ref \<in> set (map sm_key (bd_marks db))"
  by (auto simp: marked_def)

definition marks_ok :: "bot_db \<Rightarrow> bool" where
  "marks_ok db \<longleftrightarrow> distinct (map sm_key (bd_marks db))"

lemma find_mark: "marks_ok db \<Longrightarrow> find_slot_mark db ref = Some m \<longleftrightarrow> m \<in> set (bd_marks db) \<and> sm_key m = ref"
  unfolding find_slot_mark_def marks_ok_def by (rule first_key_iff)

lemma find_mark_None: "find_slot_mark db ref = None \<longleftrightarrow> \<not> marked ref db"
  by (auto simp: find_slot_mark_def marked_def first_None)

lemma sent_is_marked: "sent_mark ref db \<Longrightarrow> marked ref db"
  by (auto simp: sent_mark_def marked_def)

lemma delete_mark_facts:
  "marks_ok db \<Longrightarrow> marks_ok (delete_mark m db)
    \<and> (marked r (delete_mark m db) \<longleftrightarrow> marked r db \<and> r \<noteq> sm_key m)
    \<and> (sent_mark r (delete_mark m db) \<longleftrightarrow> sent_mark r db \<and> r \<noteq> sm_key m)"
  by (auto simp: delete_mark_def marks_ok_def marked_def sent_mark_def distinct_delete_where)

lemma drop_mark_facts:
  assumes "marks_ok db"
  shows "marks_ok (drop_slot_mark ref db) \<and> (marked r (drop_slot_mark ref db) \<longleftrightarrow> marked r db \<and> r \<noteq> ref)
    \<and> (sent_mark r (drop_slot_mark ref db) \<longleftrightarrow> sent_mark r db \<and> r \<noteq> ref)"
proof (cases "find_slot_mark db ref")
  case None
  have "\<not> marked ref db" using None find_mark_None [of db ref] by blast
  moreover have "drop_slot_mark ref db = db" using None by (simp add: drop_slot_mark_def)
  ultimately show ?thesis using assms sent_is_marked [of ref db] by auto
next
  case (Some m)
  then have "sm_key m = ref" using find_mark [OF assms] by simp
  then show ?thesis using Some delete_mark_facts [OF assms, of m r] by (simp add: drop_slot_mark_def)
qed

lemma mark_sent_facts:
  assumes "marks_ok db"
  shows "marks_ok (mark_slot_sent now ref trig db) \<and> sent_mark ref (mark_slot_sent now ref trig db)
    \<and> (r \<noteq> ref \<longrightarrow> (marked r (mark_slot_sent now ref trig db) \<longleftrightarrow> marked r db)
        \<and> (sent_mark r (mark_slot_sent now ref trig db) \<longleftrightarrow> sent_mark r db))"
proof (cases "find_slot_mark db ref")
  case None
  then have n: "\<not> marked ref db" by (simp add: find_mark_None)
  then show ?thesis using None assms
    by (auto simp: mark_slot_sent_def marks_ok_def marked_def sent_mark_def sm_key_def)
next
  case (Some m)
  then have m: "m \<in> set (bd_marks db)" "sm_key m = ref" using find_mark [OF assms] by simp_all
  have k: "map sm_key (update_where (\<lambda>x. sm_key x = ref) (\<lambda>x. x\<lparr>sm_state := MarkSent, sm_sent_at := Some now\<rparr>) (bd_marks db))
      = map sm_key (bd_marks db)"
    by (rule keys_update_where) (simp add: sm_key_def)
  have key: "sm_key (x\<lparr>sm_state := a, sm_sent_at := b\<rparr>) = sm_key x" for x :: slot_mark and a b
    by (simp add: sm_key_def)
  have "m\<lparr>sm_state := MarkSent, sm_sent_at := Some now\<rparr> \<in> set (update_where (\<lambda>x. sm_key x = ref)
      (\<lambda>x. x\<lparr>sm_state := MarkSent, sm_sent_at := Some now\<rparr>) (bd_marks db))" using m by auto
  then have "sent_mark ref (mark_slot_sent now ref trig db)"
    unfolding sent_mark_def mark_slot_sent_def Some
    by (intro bexI [of _ "m\<lparr>sm_state := MarkSent, sm_sent_at := Some now\<rparr>"]) (use m in \<open>simp_all add: key\<close>)
  moreover have "marks_ok (mark_slot_sent now ref trig db)" using assms k by (simp add: mark_slot_sent_def Some marks_ok_def)
  moreover have "marked r (mark_slot_sent now ref trig db) \<longleftrightarrow> marked r db"
    using arg_cong [OF k, of set] by (simp add: mark_slot_sent_def Some marked_key)
  moreover have "sent_mark r (mark_slot_sent now ref trig db) \<longleftrightarrow> sent_mark r db" if "r \<noteq> ref"
    unfolding sent_mark_def mark_slot_sent_def Some
    using that by (simp add: Bex_def image_iff) (metis key)
  ultimately show ?thesis by blast
qed

lemma evaluate_facts:
  assumes "marks_ok db" "evaluate_slot_trigger now gid ts user db = (db', r)"
  shows "marks_ok db'
    \<and> (db' = db \<or> (\<exists>m. m \<in> set (bd_marks db) \<and> sm_state m = MarkPending \<and> is_stale now m \<and> db' = delete_mark m db))
    \<and> (\<forall>ref trig. r = Some (ref, trig) \<longrightarrow> \<not> marked ref db')"
proof (cases "slot_ref_for_event gid ts")
  case None
  then show ?thesis using assms by (auto simp: evaluate_slot_trigger_def)
next
  case (Some ref)
  show ?thesis
  proof (cases "find_slot_mark db ref")
    case None
    then have "\<not> marked ref db" by (simp add: find_mark_None)
    then show ?thesis using None Some assms by (auto simp: evaluate_slot_trigger_def)
  next
    case m: (Some m)
    then have k: "m \<in> set (bd_marks db)" "sm_key m = ref" using find_mark [OF assms(1)] by simp_all
    show ?thesis using Some m k assms delete_mark_facts [OF assms(1), of m]
      by (auto simp: evaluate_slot_trigger_def Let_def split: if_splits)
  qed
qed

lemma file_facts:
  assumes "marks_ok db" "file_slot_mark now ref trig db = (db', ok)"
  shows "marks_ok db' \<and> (ok \<longrightarrow> \<not> marked ref db \<and> marked ref db')
    \<and> (\<forall>r. (marked r db \<longrightarrow> marked r db') \<and> (sent_mark r db' \<longleftrightarrow> sent_mark r db))"
  using assms
  by (auto simp: file_slot_mark_def insert_unique_def marks_ok_def marked_def sent_mark_def sm_key_def
      split: if_splits)


subsection \<open>The invariant\<close>

text \<open>\<open>n\<close> counts the posts of the window so far, and its report of before the run.\<close>

definition slot_inv :: "slot_ref \<Rightarrow> nat \<Rightarrow> bot_db \<Rightarrow> debouncer \<Rightarrow> pending_reply list \<Rightarrow> bool" where
  "slot_inv ref n db d f \<longleftrightarrow> marks_ok db \<and> own_chat d
     \<and> pending_owner ref d + flying ref f + n \<le> 1
     \<and> (pending_owner ref d + flying ref f \<noteq> 0 \<longrightarrow> marked ref db)
     \<and> (n \<noteq> 0 \<longrightarrow> sent_mark ref db)"

abbreviation slot_ok :: "slot_ref \<Rightarrow> nat \<Rightarrow> bot_state \<Rightarrow> bool" where
  "slot_ok ref n s \<equiv> slot_inv ref n (bt_db s) (bt_pending s) (bt_flight s)"

text \<open>No webhook finds a mark that is older than two minutes while its report is still owed.\<close>

definition prompt :: "bot_state \<Rightarrow> bot_input \<Rightarrow> bool" where
  "prompt s e = (case e of
     BWebhook k _ \<Rightarrow> list_all (\<lambda>m. sm_state m = MarkPending \<and> is_stale (bc_utc k) m \<longrightarrow> owners (sm_key m) s = 0)
       (bd_marks (bt_db s))
   | BFinish _ env \<Rightarrow> re_mark_ok env
   | _ \<Rightarrow> True)"

fun prompt_run :: "bot_state \<Rightarrow> bot_input list \<Rightarrow> bool" where
  "prompt_run s [] = True"
| "prompt_run s (e # es) = (prompt s e \<and> prompt_run (fst (bot_step s e)) es)"

definition posted :: "slot_ref \<Rightarrow> bot_output \<Rightarrow> nat" where
  "posted ref out = (case out of BoReply (Sent _ _ (Some r) _) \<Rightarrow> if r = ref then 1 else 0 | _ \<Rightarrow> 0)"

definition posts :: "slot_ref \<Rightarrow> (bot_input \<times> bot_output) list \<Rightarrow> nat" where
  "posts ref tr = sum_list (map (posted ref \<circ> snd) tr)"

lemma sent_unique:
  assumes "marks_ok db" "sent_mark ref db" "m \<in> set (bd_marks db)" "sm_state m = MarkPending"
  shows "sm_key m \<noteq> ref"
proof
  assume k: "sm_key m = ref"
  obtain x where x: "x \<in> set (bd_marks db)" "sm_key x = ref" "sm_state x = MarkSent"
    using assms(2) by (auto simp: sent_mark_def)
  have "x = m" using assms(1,3) x k unfolding marks_ok_def by (metis (no_types) distinct_map inj_on_def)
  then show False using x assms(4) by simp
qed

lemma slot_inv_owns_same:
  assumes "slot_inv ref n db d f" "owns_same d d'"
  shows "slot_inv ref n db d' f"
proof -
  have "own_chat d" using assms(1) by (simp add: slot_inv_def)
  then have "own_chat d'" "pending_owner ref d' = pending_owner ref d" using assms(2) unfolding owns_same_def by blast+
  with assms(1) show ?thesis by (simp add: slot_inv_def)
qed

lemma word_command_plain: "fst (word_command s) \<noteq> SlotDigest"
  by (auto simp: word_command_def Let_def split: option.splits)

lemma postback_plain: "parse_postback data = Some (c, x) \<Longrightarrow> c \<noteq> SlotDigest"
proof -
  assume "parse_postback data = Some (c, x)"
  then have "\<exists>v. map_of POSTBACK_COMMANDS v = Some c"
    by (auto simp: parse_postback_def Let_def bind_eq_Some_conv split: option.splits if_splits)
  then have "c \<in> snd ` set POSTBACK_COMMANDS" by (force dest: map_of_SomeD)
  then show ?thesis by (auto simp: POSTBACK_COMMANDS_def)
qed

lemma route_plain:
  assumes "route_event known e = Inr (Some (RCommand c))"
  shows "rc_command c \<noteq> SlotDigest \<and> rc_slot_ref c = None"
  using assms word_command_plain
  by (auto simp: route_event_def mention_command_def direct_command_def bare_command_def Let_def
      dest: postback_plain split: if_splits option.splits sum.splits prod.splits)
    (metis fst_conv)+


definition drop_opt :: "slot_ref option \<Rightarrow> bot_db \<Rightarrow> bot_db" where
  "drop_opt ref db = (case ref of None \<Rightarrow> db | Some r \<Rightarrow> drop_slot_mark r db)"

lemma reply_db:
  assumes "bot_reply p env s = (s', out)" "re_mark_ok env"
  shows "out = NothingSent \<and> bt_db s' = drop_opt (owns_mark p) (bt_db s)
    \<or> (\<exists>r t ms ids. owns_mark p = Some r \<and> out = Sent t ms (Some r) ids
         \<and> bt_db s' = mark_slot_sent (re_utc env) r (pr_trigger p) (bt_db s))
    \<or> (\<exists>t ms ids. out = Sent t ms None ids \<and> (bt_db s' = drop_opt (owns_mark p) (bt_db s)
         \<or> (\<exists>r. bt_db s' = mark_slot_sent (re_utc env) r TriggerCommand (drop_opt (owns_mark p) (bt_db s)))))"
proof (cases "re_enabled env \<and> re_builds env")
  case False
  then show ?thesis using assms
    by (auto simp: bot_reply_def Let_def drop_owned_def drop_opt_def simp del: split_paired_Ex split: option.splits)
next
  case True
  obtain tk built where b: "build_reply p env \<lparr>tk_photos = bt_photos s, tk_windows = bt_windows s, tk_calls = []\<rparr> = (tk, built)"
    by fastforce
  define ms where "ms = patch_all env (br_uploads built) (br_messages built)"
  define s1 where "s1 = s\<lparr>bt_photos := tk_photos tk, bt_windows := tk_windows tk\<rparr>"
  have db: "bt_db (drop_owned env r x) = drop_opt r (bt_db x)"
    "bt_db (sent_marks env (Some q) trig x) = mark_slot_sent (re_utc env) q trig (bt_db x)"
    "bt_db (sent_marks env None trig x) = bt_db x" "bt_db s1 = bt_db s" for r q trig x
    using assms(2) by (auto simp: drop_owned_def drop_opt_def sent_marks_def s1_def split: option.splits)
  have none: "drop_owned env None x = x" "drop_opt None y = y" for x y by (simp_all add: drop_owned_def drop_opt_def)
  have e: "(s', out) = (let kept = (if br_slot_included built then owns_mark p else None);
       s2 = drop_owned env (if br_slot_included built then None else owns_mark p) s1
     in if ms = [] \<or> pr_token p = [] \<or> \<not> re_accepts env then (drop_owned env kept s2, NothingSent)
        else (if kept \<noteq> None then sent_marks env kept (pr_trigger p) s2
              else if Digest \<in> pr_commands p \<and> br_digest_available built
              then sent_marks env (pr_slot_ref p) TriggerCommand s2 else s2,
              Sent (pr_token p) ms kept
                (if br_request_ids built \<noteq> [] \<and> is_group (pr_source p) then br_request_ids built else [])))"
    using assms(1) True b by (simp add: bot_reply_def Let_def ms_def s1_def cong: if_cong)
  show ?thesis
  proof (cases "ms = [] \<or> pr_token p = [] \<or> \<not> re_accepts env")
    case True
    then show ?thesis using e by (auto simp: Let_def none db simp del: split_paired_Ex)
  next
    case False
    show ?thesis
    proof (cases "br_slot_included built \<and> owns_mark p \<noteq> None")
      case True
      then obtain r where "owns_mark p = Some r" by blast
      then show ?thesis using e False True by (auto simp: Let_def none db simp del: split_paired_Ex)
    next
      case kept: False
      then have k: "(if br_slot_included built then owns_mark p else None) = None"
        "drop_owned env (if br_slot_included built then None else owns_mark p) s1 = drop_owned env (owns_mark p) s1"
        using kept by (cases "owns_mark p"; simp add: none)+
      show ?thesis using e False unfolding k Let_def
        by (cases "pr_slot_ref p") (auto simp: db simp del: split_paired_Ex split: if_splits)
    qed
  qed
qed

lemma slot_inv_drop:
  assumes "slot_inv ref n db d f" "flying ref f = flying ref f' + (if own = Some ref then 1 else 0)"
  shows "slot_inv ref n (drop_opt own db) d f'"
proof (cases own)
  case None
  then show ?thesis using assms by (simp add: slot_inv_def drop_opt_def)
next
  case (Some r)
  have "marks_ok db" using assms(1) by (simp add: slot_inv_def)
  note f = drop_mark_facts [OF this, of r ref]
  show ?thesis using assms Some f by (cases "r = ref") (simp_all add: slot_inv_def drop_opt_def)
qed

lemma slot_inv_mark:
  assumes "slot_inv ref n db d f"
  shows "slot_inv ref n (mark_slot_sent now r trig db) d f"
proof -
  have "marks_ok db" using assms by (simp add: slot_inv_def)
  note f = mark_sent_facts [OF this, of now r trig ref]
  show ?thesis
    using assms f sent_is_marked [of ref "mark_slot_sent now r trig db"]
    by (cases "r = ref") (auto simp: slot_inv_def)
qed

lemma slot_inv_post:
  assumes "slot_inv ref n db d f" "flying ref f = flying ref f' + (if r = ref then 1 else 0)"
  shows "slot_inv ref (n + (if r = ref then 1 else 0)) (mark_slot_sent now r trig db) d f'"
proof (cases "r = ref")
  case True
  have "marks_ok db" using assms by (simp add: slot_inv_def)
  note f = mark_sent_facts [OF this, of now r trig ref]
  show ?thesis
    using assms f True sent_is_marked [of ref "mark_slot_sent now r trig db"] by (simp add: slot_inv_def)
next
  case False
  then show ?thesis using slot_inv_mark [OF assms(1), of now r trig] assms(2) by (simp add: slot_inv_def)
qed

lemma slot_inv_reply:
  assumes "slot_inv ref n (bt_db s) d f" "flying ref f = flying ref f' + (if owns_mark p = Some ref then 1 else 0)"
    and "bot_reply p env s = (s', out)" "re_mark_ok env"
  shows "slot_inv ref (n + posted ref (BoReply out)) (bt_db s') d f'"
proof -
  note dropped = slot_inv_drop [OF assms(1,2)]
  consider "out = NothingSent" "bt_db s' = drop_opt (owns_mark p) (bt_db s)"
    | r t ms ids where "owns_mark p = Some r" "out = Sent t ms (Some r) ids"
        "bt_db s' = mark_slot_sent (re_utc env) r (pr_trigger p) (bt_db s)"
    | t ms ids where "out = Sent t ms None ids" "bt_db s' = drop_opt (owns_mark p) (bt_db s)"
    | t ms ids r where "out = Sent t ms None ids"
        "bt_db s' = mark_slot_sent (re_utc env) r TriggerCommand (drop_opt (owns_mark p) (bt_db s))"
    using reply_db [OF assms(3,4)] by blast
  then show ?thesis
  proof cases
    case (2 r t ms ids)
    have "flying ref f = flying ref f' + (if r = ref then 1 else 0)" using assms(2) 2(1) by simp
    note x = slot_inv_post [OF assms(1) this, of "re_utc env" "pr_trigger p"]
    then show ?thesis using 2 by (simp add: posted_def)
  next
    case (4 t ms ids r)
    then show ?thesis using slot_inv_mark [OF dropped] by (simp add: posted_def)
  qed (use dropped in \<open>simp_all add: posted_def\<close>)
qed

lemma slot_inv_filed:
  assumes "slot_inv ref n db d f" "\<not> marked r db" "marks_ok db'" "marked r db'"
    and "\<forall>x. (marked x db \<longrightarrow> marked x db') \<and> (sent_mark x db' \<longleftrightarrow> sent_mark x db)"
    and "own_chat d'" "pending_owner r d' = 1" "\<forall>x. x \<noteq> r \<longrightarrow> pending_owner x d' \<le> pending_owner x d"
  shows "slot_inv ref n db' d' f"
proof (cases "r = ref")
  case True
  then have "pending_owner ref d + flying ref f = 0" "n = 0"
    using assms(1,2) sent_is_marked [of ref db] by (auto simp: slot_inv_def)
  then show ?thesis using assms True by (simp add: slot_inv_def)
next
  case False
  then have "pending_owner ref d' \<le> pending_owner ref d" using assms(8) by metis
  moreover have "marked ref db \<longrightarrow> marked ref db'" "sent_mark ref db' \<longleftrightarrow> sent_mark ref db" using assms(5) by blast+
  ultimately show ?thesis using assms(1,3,6) by (auto simp: slot_inv_def)
qed


lemma slot_inv_evaluate:
  assumes "slot_inv ref n db d f" "evaluate_slot_trigger now gid ts user db = (db', r)"
    and stale: "\<And>m. m \<in> set (bd_marks db) \<Longrightarrow> sm_state m = MarkPending \<Longrightarrow> is_stale now m
      \<Longrightarrow> pending_owner (sm_key m) d + flying (sm_key m) f = 0"
  shows "slot_inv ref n db' d f \<and> (\<forall>x trig. r = Some (x, trig) \<longrightarrow> \<not> marked x db')"
proof -
  have ok: "marks_ok db" using assms(1) by (simp add: slot_inv_def)
  note ev = evaluate_facts [OF ok assms(2)]
  have "slot_inv ref n db' d f"
  proof (cases "db' = db")
    case False
    then obtain m where m: "m \<in> set (bd_marks db)" "sm_state m = MarkPending" "is_stale now m" "db' = delete_mark m db"
      using ev by blast
    note dl = delete_mark_facts [OF ok, of m ref]
    show ?thesis using assms(1) dl m(4) stale [OF m(1-3)] sent_unique [OF ok _ m(1,2), of ref]
      by (cases "sm_key m = ref") (auto simp: slot_inv_def)
  qed (use assms(1) in simp)
  then show ?thesis using ev by blast
qed

lemma slot_inv_file:
  assumes "slot_inv ref n (bt_db s) (bt_pending s) f" "maybe_file_slot_digest k e c token s = (s', filed)"
    and stale: "\<And>m. m \<in> set (bd_marks (bt_db s)) \<Longrightarrow> sm_state m = MarkPending \<Longrightarrow> is_stale (bc_utc k) m
      \<Longrightarrow> pending_owner (sm_key m) (bt_pending s) + flying (sm_key m) f = 0"
  shows "slot_inv ref n (bt_db s') (bt_pending s') f \<and> bt_flight s' = bt_flight s"
proof (cases "\<exists>src. be_source e = Some src \<and> bs_type src = ''group'' \<and> be_type e = ''message''
    \<and> be_message e \<noteq> None \<and> token \<noteq> []")
  case True
  then obtain src where src: "be_source e = Some src" "bs_type src = ''group''" "be_type e = ''message''"
    "be_message e \<noteq> None" "token \<noteq> []" by blast
  obtain db r where db: "evaluate_slot_trigger (bc_utc k) c (be_timestamp e) (bs_user src) (bt_db s) = (db, r)" by fastforce
  note ev = slot_inv_evaluate [OF assms(1) db stale]
  show ?thesis
  proof (cases r)
    case None
    then show ?thesis using assms(2) src db ev by (auto simp: maybe_file_slot_digest_def split: if_splits)
  next
    case (Some x)
    obtain r' trig where x: "r = Some (r', trig)" using Some by (metis prod.collapse)
    obtain db' new where fl: "file_slot_mark (bc_utc k) r' trig db = (db', new)" by fastforce
    have ok: "marks_ok db" "own_chat (bt_pending s)" using ev by (auto simp: slot_inv_def)
    note ff = file_facts [OF ok(1) fl]
    show ?thesis
    proof (cases new)
      case True
      define s2 where "s2 = submit_slot_digest k r' token trig (s\<lparr>bt_db := db'\<rparr>)"
      have s': "s' = s2" using assms(2) src db x fl True
        by (auto simp: maybe_file_slot_digest_def s2_def split: if_splits)
      have "own_chat (bt_pending (s\<lparr>bt_db := db'\<rparr>))" using ok by simp
      note o = slot_digest_owners [OF this, of k r' token trig, folded s2_def]
      have "bt_db s2 = db'" "bt_flight s2 = bt_flight s" by (simp_all add: s2_def submit_slot_digest_def Let_def)
      moreover have "slot_inv ref n db' (bt_pending s2) f"
        by (rule slot_inv_filed [of _ _ db "bt_pending s" f r']) (use ev x ff True o in \<open>simp_all del: split_paired_All\<close>)
      ultimately show ?thesis using s' by simp
    next
      case no: False
      then have "db' = db" using fl by (auto simp: file_slot_mark_def split: option.splits)
      then show ?thesis using assms(2) src db x fl no ev
        by (auto simp: maybe_file_slot_digest_def split: if_splits)
    qed
  qed
next
  case False
  then have "s' = s" using assms(2)
    by (auto simp: maybe_file_slot_digest_def simp del: not_None_eq split: option.splits if_splits)
  then show ?thesis using assms(1) by simp
qed

lemma slot_inv_handle:
  assumes "slot_inv ref n (bt_db s) (bt_pending s) f" "handle_event_detail k e s = (s', h)"
    and stale: "\<And>m. m \<in> set (bd_marks (bt_db s)) \<Longrightarrow> sm_state m = MarkPending \<Longrightarrow> is_stale (bc_utc k) m
      \<Longrightarrow> pending_owner (sm_key m) (bt_pending s) + flying (sm_key m) f = 0"
  shows "slot_inv ref n (bt_db s') (bt_pending s') f \<and> bt_flight s' = bt_flight s"
proof -
  have own: "own_chat (bt_pending s)" and ok: "marks_ok (bt_db s)" using assms(1) by (auto simp: slot_inv_def)
  consider x where "route_event (is_linked_employee (bt_db s)) e = Inl x"
    | "route_event (is_linked_employee (bt_db s)) e = Inr None"
    | c token where "route_event (is_linked_employee (bt_db s)) e = Inr (Some (RMessage c token))"
    | c where "route_event (is_linked_employee (bt_db s)) e = Inr (Some (RCommand c))"
    by (metis not_None_eq old.sum.exhaust routed.exhaust)
  then show ?thesis
  proof cases
    case (3 c token)
    show ?thesis
    proof (cases "be_redelivery e \<or> be_type e = ''join''")
      case True
      then show ?thesis using assms by (simp add: handle_event_detail_def)
    next
      case False
      obtain s1 filed where s1: "maybe_file_slot_digest k e c token s = (s1, filed)" by fastforce
      have i: "slot_inv ref n (bt_db s1) (bt_pending s1) f \<and> bt_flight s1 = bt_flight s"
        by (rule slot_inv_file [OF assms(1) s1 stale])
      define s2 where "s2 = maybe_handle_photo k e c token s1"
      have p: "bt_db s2 = bt_db s1" "bt_flight s2 = bt_flight s1" "bt_pending s2 = bt_pending s1"
        by (auto simp: s2_def maybe_handle_photo_def Let_def split: option.splits prod.splits if_splits)
      have "s' = s2\<lparr>bt_pending := fst (note_message (bc_mono k) c token (bt_pending s2))\<rparr>"
        using assms(2) False 3 s1 by (auto simp: handle_event_detail_def Let_def s2_def split: prod.splits)
      moreover have "owns_same (bt_pending s1) (fst (note_message (bc_mono k) c token (bt_pending s1)))"
        using i by (intro owns_same_note_message) (simp add: slot_inv_def)
      then have "slot_inv ref n (bt_db s1) (fst (note_message (bc_mono k) c token (bt_pending s1))) f"
        using i slot_inv_owns_same by blast
      ultimately show ?thesis using i p by simp
    qed
  next
    case (4 c)
    note r = route_plain [OF 4]
    define c1 where "c1 = (if rc_command c \<in> TICKET_COMMANDS then enrich_ticket_command (bt_db s) c else c)"
    have c1: "rc_command c1 \<noteq> SlotDigest" "rc_slot_ref c1 = None"
      using r by (auto simp: c1_def enrich_ticket_command_def Let_def split: option.splits)
    have "owns_same (bt_pending s) (bt_pending (submit_command k c1 s))"
      using owns_same_note_command [OF own c1(1)] c1(2) by (simp add: submit_command_def)
    then have "slot_inv ref n (bt_db s) (bt_pending (submit_command k c1 s)) f"
      using slot_inv_owns_same assms(1) by blast
    then show ?thesis using assms 4
      by (auto simp: handle_event_detail_def c1_def [symmetric] Let_def submit_command_def split: if_splits)
  qed (use assms in \<open>auto simp: handle_event_detail_def split: if_splits\<close>)
qed

lemma slot_inv_step:
  assumes i: "slot_ok ref n s" and st: "bot_step s e = (s', out)" and p: "prompt s e"
  shows "slot_ok ref (n + posted ref out) s'"
proof (cases e)
  case (BWebhook k ev)
  obtain s1 h where h: "handle_event_detail k ev s = (s1, h)" by fastforce
  have "slot_inv ref n (bt_db s1) (bt_pending s1) (bt_flight s) \<and> bt_flight s1 = bt_flight s"
    by (rule slot_inv_handle [OF i h]) (use p BWebhook in \<open>auto simp: prompt_def list_all_iff owners_def\<close>)
  then show ?thesis using st BWebhook h by (auto simp: bot_step.simps posted_def)
next
  case (BTick k)
  show ?thesis
  proof (cases "bt_flight s = []")
    case True
    obtain d ps where d: "pop_due (bc_mono k) (bt_pending s) = (d, ps)" by fastforce
    have "own_chat (bt_pending s)" using i by (simp add: slot_inv_def)
    note f = flying_due [OF this d, of ref]
    have "s' = s\<lparr>bt_pending := d, bt_flight := ps\<rparr>" "posted ref out = 0"
      using st BTick True d by (auto simp: bot_step.simps posted_def)
    then show ?thesis using i f True by (auto simp: slot_inv_def flying_def)
  qed (use BTick st i in \<open>auto simp: bot_step.simps posted_def\<close>)
next
  case (BFinish j env)
  show ?thesis
  proof (cases "j < length (bt_flight s)")
    case True
    obtain s1 o1 where r: "bot_reply (bt_flight s ! j) env s = (s1, o1)" by fastforce
    note k = reply_keeps [OF r]
    have "slot_inv ref (n + posted ref (BoReply o1)) (bt_db s1) (bt_pending s) (remove_nth j (bt_flight s))"
      by (rule slot_inv_reply [OF i flying_remove [OF True] r]) (use p BFinish in \<open>simp add: prompt_def\<close>)
    then show ?thesis using st BFinish True r k by (auto simp: bot_step.simps)
  qed (use BFinish st i in \<open>auto simp: bot_step.simps posted_def\<close>)
next
  case (BUpload k j o1)
  have "own_chat (bt_pending s)" using i by (simp add: slot_inv_def)
  note u = slot_inv_owns_same [OF i owns_same_upload_ack [OF this, of k "bt_uploads s ! j" o1]]
  show ?thesis using st BUpload i u by (auto simp: bot_step.simps posted_def split: if_splits)
next
  case BRestart
  then show ?thesis using st i by (auto simp: bot_step.simps posted_def slot_inv_def own_chat_def pending_ok_def
        pending_owner_def flying_def)
qed

lemma slot_inv_run:
  assumes "slot_ok ref n s" "run bot_step s es = (s', tr)" "prompt_run s es"
  shows "slot_ok ref (n + posts ref tr) s'"
  using assms
proof (induction es arbitrary: s n tr)
  case (Cons e es)
  obtain s1 out where s1: "bot_step s e = (s1, out)" by fastforce
  obtain tr' where tr': "run bot_step s1 es = (s', tr')" "tr = (e, out) # tr'"
    using Cons.prems(2) s1 by (rule run_ConsE)
  have "slot_ok ref (n + posted ref out) s1" using Cons.prems(1,3) s1 by (intro slot_inv_step) auto
  from Cons.IH [OF this tr'(1)] Cons.prems(3) s1 tr'(2) show ?case by (simp add: posts_def add.assoc)
qed (simp add: posts_def)



subsection \<open>A morning in a group\<close>

definition demo_event :: "int \<Rightarrow> bot_event" where
  "demo_event ms = \<lparr>be_type = ''message'', be_redelivery = False,
     be_source = Some \<lparr>bs_type = ''group'', bs_group = ''G'', bs_room = [], bs_user = ''U''\<rparr>,
     be_token = ''t'', be_timestamp = Some ms,
     be_message = Some \<lparr>bm_type = ''text'', bm_id = ''m'', bm_text = [0x68, 0x69], bm_mentionees = [], bm_quoted = []\<rparr>,
     be_postback = None\<rparr>"

definition demo_env :: reply_env where
  "demo_env = \<lparr>re_enabled = True, re_digest = Some \<lparr>dg_stamp = [], dg_properties = []\<rparr>, re_feedback = None,
     re_tickets = (\<lambda>_. HkDark), re_builds = True, re_settled = (\<lambda>_. \<lparr>mc_photos = 0, mc_photos_failed = 0,
       mc_photos_running = 0, mc_videos = 0, mc_videos_failed = 0, mc_videos_running = 0\<rparr>),
     re_accepts = True, re_mark_ok = True, re_mono = 16, re_utc = 16\<rparr>"

definition no_rows :: bot_db where
  "no_rows = \<lparr>bd_employees = [], bd_grants = [], bd_marks = []\<rparr>"

definition quarter_to_ten :: int where "quarter_to_ten = 9900000"

definition demo_day :: "bot_input list" where
  "demo_day = [BWebhook \<lparr>bc_mono = 0, bc_utc = 0\<rparr> (demo_event quarter_to_ten), BTick \<lparr>bc_mono = 15, bc_utc = 15\<rparr>,
     BFinish 0 demo_env, BWebhook \<lparr>bc_mono = 20, bc_utc = 20\<rparr> (demo_event (quarter_to_ten + 20000))]"

definition demo_ref :: slot_ref where
  "demo_ref = (''G'', EPOCH_DATE, Morning)"

definition demo_mark :: "mark_state \<Rightarrow> dtime option \<Rightarrow> slot_mark" where
  "demo_mark st sent = \<lparr>sm_group = ''G'', sm_date = EPOCH_DATE, sm_slot = Morning, sm_state = st, sm_filed_at = 0,
     sm_sent_at = sent, sm_trigger = TriggerLate\<rparr>"

definition demo_pending :: pending_reply where
  "demo_pending = \<lparr>pr_chat = ''G'', pr_commands = {SlotDigest}, pr_token = ''t'', pr_first_at = 0, pr_last_at = 0,
     pr_quiet = 15, pr_slot_ref = Some demo_ref, pr_trigger = TriggerLate, pr_source = ''group'',
     pr_actions = [], pr_acks = []\<rparr>"

lemma demo_slot:
  "slot_ref_for_event ''G'' (Some quarter_to_ten) = Some demo_ref"
  "slot_ref_for_event ''G'' (Some (quarter_to_ten + 20000)) = Some demo_ref"
  "slot_due no_rows demo_ref (Some quarter_to_ten) ''U'' = Some TriggerLate"
  by code_simp+

lemma demo_route: "route_event known (demo_event ms) = Inr (Some (RMessage ''G'' ''t''))"
  by (simp add: route_event_def demo_event_def chat_key_def is_group_def mention_command_def self_mention_span_def)

lemma demo_photo: "maybe_handle_photo k (demo_event ms) c t s = s"
  by (simp add: maybe_handle_photo_def demo_event_def)

lemma demo_mark_key: "sm_key (demo_mark st sent) = demo_ref"
  by (simp add: sm_key_def demo_mark_def demo_ref_def)

definition demo_state :: "slot_mark \<Rightarrow> debouncer \<Rightarrow> pending_reply list \<Rightarrow> bot_state" where
  "demo_state m d f = \<lparr>bt_db = no_rows\<lparr>bd_marks := [m]\<rparr>, bt_pending = d, bt_photos = [], bt_windows = [],
     bt_uploads = [], bt_flight = f\<rparr>"

lemma demo_filed:
  "bot_step (bot_start no_rows) (BWebhook \<lparr>bc_mono = 0, bc_utc = 0\<rparr> (demo_event quarter_to_ten))
   = (demo_state (demo_mark MarkPending None) [(''G'', demo_pending)] [], BoHandled (Handled False True))"
proof -
  have e: "evaluate_slot_trigger 0 ''G'' (Some quarter_to_ten) ''U'' no_rows = (no_rows, Some (demo_ref, TriggerLate))"
    by (simp add: evaluate_slot_trigger_def demo_slot find_slot_mark_def) (simp add: no_rows_def demo_slot [unfolded no_rows_def])
  have f: "file_slot_mark 0 demo_ref TriggerLate no_rows = (no_rows\<lparr>bd_marks := [demo_mark MarkPending None]\<rparr>, True)"
    by (simp add: file_slot_mark_def insert_unique_def no_rows_def demo_mark_def demo_ref_def)
  have r: "fst demo_ref = ''G''" by (simp add: demo_ref_def)
  have "maybe_file_slot_digest \<lparr>bc_mono = 0, bc_utc = 0\<rparr> (demo_event quarter_to_ten) ''G'' ''t'' (bot_start no_rows)
      = (demo_state (demo_mark MarkPending None) [(''G'', demo_pending)] [], True)"
    by (simp add: maybe_file_slot_digest_def demo_event_def bot_start_def e f r submit_slot_digest_def note_command_def
        touch_def fresh_pending_def SLOT_QUIET_SECONDS_def Let_def demo_state_def demo_pending_def)
  then show ?thesis
    by (simp add: bot_step.simps handle_event_detail_def demo_route demo_photo note_message_def Let_def
        demo_state_def demo_pending_def) (simp add: demo_event_def)
qed

lemma demo_reply:
  "bot_step (demo_state (demo_mark MarkPending None) [] [demo_pending]) (BFinish 0 demo_env)
   = (demo_state (demo_mark MarkSent (Some 16)) [] [], BoReply (Sent ''t''
       [MText (the (render_slot_digest (slot_label Morning) (re_digest demo_env) None))] (Some demo_ref) []))"
proof -
  obtain t where t: "render_slot_digest (slot_label Morning) (re_digest demo_env) None = Some t"
    by (auto simp: render_slot_digest_def demo_env_def Let_def)
  have b: "build_reply demo_pending demo_env x = (x, \<lparr>br_messages = [MText t], br_slot_included = True,
      br_digest_available = True, br_uploads = [], br_request_ids = []\<rparr>)" for x
    using t by (simp add: build_reply_def digest_position_def demo_pending_def demo_ref_def Let_def
        MAX_REPLY_MESSAGES_def request_ids_def map_filter_def) (simp add: demo_env_def request_ids_def)
  have m: "mark_slot_sent 16 demo_ref TriggerLate (no_rows\<lparr>bd_marks := [demo_mark MarkPending None]\<rparr>)
      = no_rows\<lparr>bd_marks := [demo_mark MarkSent (Some 16)]\<rparr>"
    by (simp add: mark_slot_sent_def find_slot_mark_def demo_mark_key update_where_def) (simp add: demo_mark_def)
  show ?thesis
    using t by (simp add: bot_step.simps bot_reply_def b demo_state_def owns_mark_def patch_all_def drop_owned_def Let_def
        remove_nth_def del: not_None_eq split_paired_Ex)
      (simp add: demo_pending_def demo_env_def sent_marks_def m del: not_None_eq split_paired_Ex)
qed

lemma demo_due:
  "bot_step (demo_state m [(''G'', demo_pending)] []) (BTick \<lparr>bc_mono = 15, bc_utc = 15\<rparr>)
   = (demo_state m [] [demo_pending], BoPopped [demo_pending])"
  by (simp add: bot_step.simps demo_state_def pop_due_def due_def deadline_def demo_pending_def MAX_WAIT_SECONDS_def Let_def)

lemma demo_again:
  "bot_step (demo_state (demo_mark MarkSent (Some 16)) [] [])
     (BWebhook \<lparr>bc_mono = 20, bc_utc = 20\<rparr> (demo_event (quarter_to_ten + 20000)))
   = (demo_state (demo_mark MarkSent (Some 16)) [] [], BoHandled (Handled False False))"
proof -
  define s where "s = demo_state (demo_mark MarkSent (Some 16)) [] []"
  have s: "bt_pending s = []" "s\<lparr>bt_pending := []\<rparr> = s" "s\<lparr>bt_db := bt_db s\<rparr> = s" "be_redelivery (demo_event ms) = False" "be_type (demo_event ms) = ''message''" for ms
    by (simp_all add: s_def demo_state_def demo_event_def)
  have "sm_state (demo_mark MarkSent (Some 16)) = MarkSent" by (simp add: demo_mark_def)
  then have e: "evaluate_slot_trigger 20 ''G'' (Some (quarter_to_ten + 20000)) ''U'' (bt_db s) = (bt_db s, None)"
    by (simp add: evaluate_slot_trigger_def demo_slot find_slot_mark_def s_def demo_state_def demo_mark_key)
  have "maybe_file_slot_digest \<lparr>bc_mono = 20, bc_utc = 20\<rparr> (demo_event (quarter_to_ten + 20000)) ''G'' ''t'' s = (s, False)"
    by (simp add: maybe_file_slot_digest_def demo_event_def e s)
  then show ?thesis unfolding s_def [symmetric]
    by (simp add: bot_step.simps handle_event_detail_def demo_route demo_photo note_message_def Let_def s)
qed

lemma demo_day_facts:
  "prompt_run (bot_start no_rows) demo_day" "posts demo_ref (snd (run bot_step (bot_start no_rows) demo_day)) = 1"
proof -
  have "sm_state (demo_mark MarkSent (Some 16)) = MarkSent" by (simp add: demo_mark_def)
  then show "prompt_run (bot_start no_rows) demo_day"
    by (simp add: demo_day_def demo_filed demo_due demo_reply demo_again prompt_def)
      (simp add: no_rows_def bot_start_def demo_state_def demo_env_def)
  show "posts demo_ref (snd (run bot_step (bot_start no_rows) demo_day)) = 1"
    using demo_filed demo_due demo_reply demo_again
    by (simp add: demo_day_def posts_def posted_def demo_ref_def)
qed



definition demo_mention :: bot_event where
  "demo_mention = \<lparr>be_type = ''message'', be_redelivery = False,
     be_source = Some \<lparr>bs_type = ''group'', bs_group = ''G'', bs_room = [], bs_user = ''U''\<rparr>,
     be_token = ''t'', be_timestamp = None,
     be_message = Some \<lparr>bm_type = ''text'', bm_id = ''m'', bm_text = [0x40, 0x62] @ REPORT_WORD @ [0x32, 0x30, 0x34],
       bm_mentionees = [\<lparr>mt_is_self = True, mt_index = Some 0, mt_length = Some 2\<rparr>], bm_quoted = []\<rparr>,
     be_postback = None\<rparr>"

lemma demo_mention_handled:
  "handle_event_detail k demo_mention (bot_start no_rows)
   = (fst (handle_event_detail k demo_mention (bot_start no_rows)), Handled True True)"
proof -
  have "\<forall>c \<in> set ([] @ [0x40, 0x62] @ REPORT_WORD @ [0x32, 0x30, 0x34]). scalar c"
    by (simp add: scalar_def surrogate_def REPORT_WORD_def)
  from mention_cut_out_exactly [OF this]
  have "strip_utf16_span ([0x40, 0x62] @ REPORT_WORD @ [0x32, 0x30, 0x34]) 0 2 = Some (REPORT_WORD @ [0x32, 0x30, 0x34])"
    by (simp add: utf16_length_def utf16_char_def numeral_2_eq_2)
  moreover have "ustrip (REPORT_WORD @ [0x32, 0x30, 0x34]) = REPORT_WORD @ [0x32, 0x30, 0x34]"
    by (simp add: ustrip_def uspace_def REPORT_WORD_def)
  ultimately have "\<exists>c. route_event known demo_mention = Inr (Some (RCommand c))" for known
    by (auto simp: route_event_def demo_mention_def chat_key_def is_group_def mention_command_def self_mention_span_def
        starts_def Let_def)
  then obtain c where "route_event (is_linked_employee (bt_db (bot_start no_rows))) demo_mention = Inr (Some (RCommand c))"
    by blast
  moreover have "\<not> be_redelivery demo_mention" "be_type demo_mention \<noteq> ''join''" by (simp_all add: demo_mention_def)
  ultimately show ?thesis by (simp add: handle_event_detail_def Let_def)
qed


end
