(* ===== verification/BotTicketFacts.thy ===== *)
theory BotTicketFacts
  imports BotReply
begin

text \<open>
  What holds of the repair tickets of the staff bot: who may have what done to a ticket, and
  which photos reach it.
\<close>

section \<open>Who may edit\<close>

text \<open>
  What a call may be for a command: a new ticket and a list in the sender's own name, and a
  change only of the order named, in the sender's name, by its reporter or reception, as the
  order was fetched just before.
\<close>

definition permitted :: "(hk_call \<Rightarrow> hk_answer) \<Rightarrow> routed_command \<Rightarrow> hk_call \<Rightarrow> bool" where
  "permitted hk a c = (rc_known a \<and> (case c of
     CreateOrder w \<Rightarrow> rc_command a = Report \<and> wo_badge w = rc_badge a \<and> wo_name w = rc_name a
       \<and> parse_report (rc_report_text a) = Some (wo_draft w)
   | GetOrder oid \<Rightarrow> oid = rc_order a
   | CancelOrder oid b n \<Rightarrow> rc_command a = Cancel \<and> oid = rc_order a \<and> b = rc_badge a \<and> n = rc_name a
       \<and> authorized_for_order a (order_of (hk (GetOrder oid)))
   | PatchOrder oid x b n \<Rightarrow> rc_command a \<notin> {Cancel, Fixcat, AddPhoto} \<and> oid = rc_order a \<and> b = rc_badge a \<and> n = rc_name a
       \<and> authorized_for_order a (order_of (hk (GetOrder oid)))
   | ListOrders b \<Rightarrow> b = rc_badge a))"

lemma ask_calls: "ask hk c s = (s\<lparr>tk_calls := tk_calls s @ [c]\<rparr>, hk c)"
  by (simp add: ask_def)



section \<open>Attach windows\<close>

interpretation attach: expiring_store window_over
  by unfold_locales (auto simp: window_over_def)

lemma over_is_closed:
  assumes "map_of w (chat, user) = Some x" "window_over now x"
  shows "snd (active_order now chat user w) = None \<and> snd (window_refresh now chat user w) = None"
  using assms by (simp add: active_order_def window_refresh_def)



section \<open>Claimed photos\<close>

text \<open>
  A report that replies to a photo its sender posted less than 90 seconds ago, among the six
  oldest not yet claimed, stores that photo twice: once from the buffer and once as the quoted
  message, and the confirmation counts both.
\<close>

theorem quoted_photo_claimed_twice:
  assumes "p \<in> set (take 6 (fresh_photos now (rc_chat a, rc_user a) b))" and "bp_id p = rc_quoted a" and "rc_quoted a \<noteq> []"
  shows "\<not> distinct (map fst (claimed_media a (snd (buffer_claim now (rc_chat a) (rc_user a) b))))"
proof -
  have "rc_quoted a \<in> fst ` set (snd (buffer_claim now (rc_chat a) (rc_user a) b))"
    using assms by (force simp: buffer_claim_def PHOTO_BUFFER_MAX_CLAIM_def)
  then show ?thesis using assms(3) by (simp add: claimed_media_def)
qed

section \<open>One token, two replies\<close>

lemma ack_token:
  assumes "up_chat u \<noteq> []" "up_token u \<noteq> []"
  shows "\<exists>q. map_of (upload_ack k u (UpStored n) d) (up_chat u) = Some q \<and> pr_token q = up_token u"
  using assms by (simp add: upload_ack_def note_photo_ack_def Let_def map_of_update touch_def)

text \<open>
  A photo that is attached silently while the bot owes the chat an answer spends its reply
  token twice: the answer owed goes out on it, and the acknowledgement of the photo, filed when
  its upload ends, is to be sent on the same token, which LINE then refuses.
\<close>

theorem photo_token_promised_twice:
  assumes "handle_event_detail k e s = (s', h)" and "bt_uploads s' = bt_uploads s @ [u]"
    and "map_of (bt_pending s) (up_chat u) = Some p" and "up_chat u \<noteq> []" and "up_token u \<noteq> []"
  shows "(\<exists>q. map_of (bt_pending s') (up_chat u) = Some q \<and> pr_token q = up_token u)
    \<and> (\<exists>q. map_of (upload_ack k' u (UpStored n) d) (up_chat u) = Some q \<and> pr_token q = up_token u)"
proof -
  consider x where "route_event (is_linked_employee (bt_db s)) e = Inl x"
    | "route_event (is_linked_employee (bt_db s)) e = Inr None"
    | c token where "route_event (is_linked_employee (bt_db s)) e = Inr (Some (RMessage c token))"
    | c where "route_event (is_linked_employee (bt_db s)) e = Inr (Some (RCommand c))"
    by (metis not_None_eq old.sum.exhaust routed.exhaust)
  then have "\<exists>q. map_of (bt_pending s') (up_chat u) = Some q \<and> pr_token q = up_token u"
  proof cases
    case (3 c token)
    obtain s1 filed where s1: "maybe_file_slot_digest k e c token s = (s1, filed)" by fastforce
    have u1: "bt_uploads s1 = bt_uploads s"
      using s1 by (auto simp: maybe_file_slot_digest_def submit_slot_digest_def Let_def
          split: option.splits if_splits prod.splits bool.splits)
    define s2 where "s2 = maybe_handle_photo k e c token s1"
    have s': "s' = s2\<lparr>bt_pending := fst (note_message (bc_mono k) c token (bt_pending s2))\<rparr>"
      using assms(1,2) 3 s1 by (auto simp: handle_event_detail_def Let_def s2_def split: prod.splits if_splits)
    then have u2: "bt_uploads s2 = bt_uploads s1 @ [u]" using assms(2) u1 by simp
    have p2: "bt_pending s2 = bt_pending s1" and u: "up_chat u = c" "up_token u = token"
      using u2 by (auto simp: s2_def maybe_handle_photo_def Let_def split: option.splits if_splits prod.splits)
    have "map_of (bt_pending s1) c \<noteq> None"
      using s1 assms(3) u(1) by (auto simp: maybe_file_slot_digest_def submit_slot_digest_def note_command_def Let_def
          map_of_update simp del: not_None_eq split: option.splits if_splits prod.splits bool.splits)
    then show ?thesis using s' p2 u assms(5) by (auto simp: note_message_def map_of_update split: option.splits)
  next
    case (4 c)
    then show ?thesis using assms(1,2)
      by (auto simp: handle_event_detail_def Let_def submit_command_def split: if_splits)
  qed (use assms(1,2) in \<open>auto simp: handle_event_detail_def split: if_splits\<close>)
  then show ?thesis using ack_token [OF assms(4,5)] by blast
qed

end
