(* ===== verification/QrCheckin.thy ===== *)
theory QrCheckin
  imports BotRoute LineAuth Attendance Complex_Main
begin

text \<open>
  Check-in by QR code: \<open>app/services/qr_service.py\<close>, \<open>location_service.py\<close>,
  \<open>attendance_service.py\<close> and \<open>app/api/qr_checkin.py\<close>. A coordinate or a distance is a real
  number, the metadata column of a device is what \<open>json.loads\<close> makes of it, names are lists of
  code points. The JWT library and the clocks are arguments; drawing the code is not modelled.
\<close>

section \<open>Codes\<close>

record qr_claims =
  qc_terminal :: "int option"
  qc_timestamp :: "int option"
  qc_nonce :: "str option"
  qc_iat :: "int option"
  qc_exp :: "int option"

text \<open>
  \<open>jwt.encode\<close>, \<open>jwt.decode\<close> and \<open>jwt.decode\<close> with \<open>verify_exp\<close> off, for HS256: the secret, the
  time in seconds since the epoch, the token. A claim of another type does not arise.
\<close>

record qr_lib =
  qr_encode :: "str \<Rightarrow> qr_claims \<Rightarrow> utext"
  qr_decode :: "str \<Rightarrow> real \<Rightarrow> utext \<Rightarrow> jwt_failure + qr_claims"
  qr_decode_any :: "str \<Rightarrow> real \<Rightarrow> utext \<Rightarrow> jwt_failure + qr_claims"

definition QR_EXPIRY_SECONDS :: int where "QR_EXPIRY_SECONDS = 60"
definition QR_GRACE_SECONDS :: int where "QR_GRACE_SECONDS = 15"

definition qr_payload :: "real \<Rightarrow> int \<Rightarrow> str \<Rightarrow> qr_claims" where
  "qr_payload now terminal nonce = \<lparr>qc_terminal = Some terminal, qc_timestamp = Some \<lfloor>now\<rfloor>, qc_nonce = Some nonce,
     qc_iat = Some \<lfloor>now\<rfloor>, qc_exp = Some \<lfloor>now + of_int QR_EXPIRY_SECONDS\<rfloor>\<rparr>"

record qr_code =
  qk_token :: utext
  qk_nonce :: str
  qk_expires_at :: real
  qk_expires_in :: int

definition generate_qr_token :: "qr_lib \<Rightarrow> str \<Rightarrow> real \<Rightarrow> str \<Rightarrow> int \<Rightarrow> qr_code" where
  "generate_qr_token lib secret now nonce terminal =
     \<lparr>qk_token = qr_encode lib secret (qr_payload now terminal nonce), qk_nonce = nonce,
      qk_expires_at = now + of_int QR_EXPIRY_SECONDS, qk_expires_in = QR_EXPIRY_SECONDS\<rparr>"

datatype qr_error = QrWithoutNonce | QrExpired | QrInvalid

text \<open>\<open>validate_qr_token\<close>; \<open>now\<close> is the clock of the library, \<open>later\<close> that of the grace period.\<close>

definition validate_qr_token :: "qr_lib \<Rightarrow> str \<Rightarrow> real \<Rightarrow> real \<Rightarrow> utext \<Rightarrow> qr_error + qr_claims" where
  "validate_qr_token lib secret now later token =
     (case qr_decode lib secret now token of
        Inr c \<Rightarrow> if truthy (qc_nonce c) then Inr c else Inl QrWithoutNonce
      | Inl JwtInvalid \<Rightarrow> Inl QrInvalid
      | Inl JwtExpired \<Rightarrow>
          (case qr_decode_any lib secret now token of
             Inl _ \<Rightarrow> Inl QrExpired
           | Inr c \<Rightarrow>
               (case qc_exp c of
                  None \<Rightarrow> Inl QrExpired
                | Some e \<Rightarrow> if e \<noteq> 0 \<and> later - of_int e \<le> of_int QR_GRACE_SECONDS then Inr c else Inl QrExpired)))"

definition qr_url :: "str option \<Rightarrow> utext \<Rightarrow> int \<Rightarrow> utext" where
  "qr_url base token terminal =
     map of_char ((case base of None \<Rightarrow> ''https://erp.thehfhotel.org'' | Some b \<Rightarrow> b) @ ''/qr-checkin/scan?token='')
     @ token @ map of_char (''&terminal='' @ show_int terminal)"

section \<open>Places\<close>

definition safe_location_name :: "utext option \<Rightarrow> utext" where
  "safe_location_name name = take 100 (filter (\<lambda>c. c \<notin> {0x3C, 0x3E, 0x22, 0x27, 0x26})
     (case name of None \<Rightarrow> [] | Some s \<Rightarrow> s))"

definition EARTH_RADIUS_METERS :: real where "EARTH_RADIUS_METERS = 6371000"

definition radians :: "real \<Rightarrow> real" where
  "radians x = x * pi / 180"

definition haversine_distance :: "real \<Rightarrow> real \<Rightarrow> real \<Rightarrow> real \<Rightarrow> real" where
  "haversine_distance lat1 lon1 lat2 lon2 =
     (let dlat = radians lat2 - radians lat1; dlon = radians lon2 - radians lon1;
          a = (sin (dlat / 2))\<^sup>2 + cos (radians lat1) * cos (radians lat2) * (sin (dlon / 2))\<^sup>2
      in EARTH_RADIUS_METERS * (2 * arcsin (sqrt a)))"

text \<open>\<open>round(x, 2)\<close>: to the nearest hundredth, a tie to the even one.\<close>

definition round2 :: "real \<Rightarrow> real" where
  "round2 x = (let y = 100 * x; n = \<lfloor>y\<rfloor>; d = y - of_int n in
     of_int (if d < 1 / 2 \<or> (d = 1 / 2 \<and> even n) then n else n + 1) / 100)"

record gps_config =
  gps_latitude :: "real option"
  gps_longitude :: "real option"
  gps_radius :: "real option"
  gps_location :: "utext option"

text \<open>
  The metadata of a terminal: none, not JSON, JSON that is no object, an object whose GPS entry
  is no object, or the GPS settings - and the numbers of the list of linked devices.
\<close>

datatype terminal_metadata =
    NoMetadata | NotJson | NotObject | OddGps "real list" | Metadata gps_config "real list"

record terminal =
  tm_id :: int
  tm_name :: utext
  tm_type :: str
  tm_active :: bool
  tm_metadata :: terminal_metadata

definition no_gps :: gps_config where
  "no_gps = \<lparr>gps_latitude = None, gps_longitude = None, gps_radius = None, gps_location = None\<rparr>"

definition find_terminal :: "terminal list \<Rightarrow> int option \<Rightarrow> terminal option" where
  "find_terminal ts tid = first (\<lambda>t. Some (tm_id t) = tid \<and> tm_type t = ''qr_terminal'') ts"

definition terminal_label :: "int \<Rightarrow> utext" where
  "terminal_label tid = map of_char (''Terminal '' @ show_int tid)"

datatype place_error =
    InaccurateGps | NoSuchTerminal | BadGpsData | NoGpsData | NoTerminals | Crash

record place =
  pl_latitude :: real
  pl_longitude :: real
  pl_radius :: real
  pl_name :: utext

definition DEFAULT_RADIUS :: real where "DEFAULT_RADIUS = 200"

definition get_terminal_location :: "terminal list \<Rightarrow> int option \<Rightarrow> place_error + place" where
  "get_terminal_location ts tid =
     (case find_terminal ts tid of
        None \<Rightarrow> Inl NoSuchTerminal
      | Some t \<Rightarrow>
          (let at_gps = (\<lambda>g. case (gps_latitude g, gps_longitude g) of
               (Some lat, Some lon) \<Rightarrow> Inr \<lparr>pl_latitude = lat, pl_longitude = lon,
                   pl_radius = (case gps_radius g of None \<Rightarrow> DEFAULT_RADIUS | Some r \<Rightarrow> r),
                   pl_name = safe_location_name (case gps_location g of
                       Some (c # n) \<Rightarrow> Some (c # n) | _ \<Rightarrow> Some (terminal_label (tm_id t)))\<rparr>
             | _ \<Rightarrow> Inl NoGpsData)
           in case tm_metadata t of
             NoMetadata \<Rightarrow> at_gps no_gps
           | NotJson \<Rightarrow> Inl BadGpsData
           | NotObject \<Rightarrow> Inl Crash
           | OddGps _ \<Rightarrow> Inl Crash
           | Metadata g _ \<Rightarrow> at_gps g))"

definition MAX_ACCURACY :: real where "MAX_ACCURACY = 50"

definition inaccurate :: "real option \<Rightarrow> bool" where
  "inaccurate acc = (case acc of None \<Rightarrow> False | Some a \<Rightarrow> a \<noteq> 0 \<and> a > MAX_ACCURACY)"

record location_check =
  lc_valid :: bool
  lc_distance :: real
  lc_place :: place

definition distance_to :: "real \<Rightarrow> real \<Rightarrow> place \<Rightarrow> real" where
  "distance_to lat lon p = haversine_distance lat lon (pl_latitude p) (pl_longitude p)"

definition validate_gps_location ::
  "terminal list \<Rightarrow> real \<Rightarrow> real \<Rightarrow> real option \<Rightarrow> int option \<Rightarrow> place_error + location_check" where
  "validate_gps_location ts lat lon acc tid =
     (if inaccurate acc then Inl InaccurateGps
      else case get_terminal_location ts tid of
        Inl e \<Rightarrow> Inl e
      | Inr p \<Rightarrow> Inr \<lparr>lc_valid = (distance_to lat lon p \<le> pl_radius p),
          lc_distance = round2 (distance_to lat lon p), lc_place = p\<rparr>)"

record terminal_distance =
  td_terminal :: int
  td_name :: utext
  td_distance :: real
  td_radius :: real
  td_valid :: bool

text \<open>The loop over all terminals: the rows, and the nearest valid one with its exact distance.\<close>

fun scan_terminals ::
  "terminal list \<Rightarrow> real \<Rightarrow> real \<Rightarrow> terminal list \<Rightarrow> terminal_distance list
   \<Rightarrow> (terminal_distance \<times> real) option \<Rightarrow> (terminal_distance list \<times> (terminal_distance \<times> real) option) option" where
  "scan_terminals ts lat lon [] rows best = Some (rows, best)"
| "scan_terminals ts lat lon (t # rest) rows best =
     (case get_terminal_location ts (Some (tm_id t)) of
        Inl Crash \<Rightarrow> None
      | Inl _ \<Rightarrow> scan_terminals ts lat lon rest rows best
      | Inr p \<Rightarrow>
          (let d = distance_to lat lon p;
               row = \<lparr>td_terminal = tm_id t, td_name = pl_name p, td_distance = round2 d,
                      td_radius = pl_radius p, td_valid = (d \<le> pl_radius p)\<rparr>
           in scan_terminals ts lat lon rest (rows @ [row])
                (if td_valid row \<and> (case best of None \<Rightarrow> True | Some (_, m) \<Rightarrow> d < m) then Some (row, d) else best)))"

record nearby =
  nb_valid :: bool
  nb_nearest :: "terminal_distance option"
  nb_all :: "terminal_distance list"

definition validate_multiple_locations ::
  "terminal list \<Rightarrow> real \<Rightarrow> real \<Rightarrow> real option \<Rightarrow> place_error + nearby" where
  "validate_multiple_locations ts lat lon acc =
     (if inaccurate acc then Inl InaccurateGps
      else let qr = filter (\<lambda>t. tm_type t = ''qr_terminal'') ts in
        if qr = [] then Inl NoTerminals
        else case scan_terminals ts lat lon qr [] None of
          None \<Rightarrow> Inl Crash
        | Some (rows, best) \<Rightarrow>
            (let sorted_rows = sort_key td_distance rows in
             Inr \<lparr>nb_valid = (best \<noteq> None),
                  nb_nearest = (if sorted_rows = [] then None else
                    case best of Some (row, _) \<Rightarrow> Some row | None \<Rightarrow> Some (hd sorted_rows)),
                  nb_all = sorted_rows\<rparr>))"

section \<open>Check-in\<close>

record scan_request =
  sq_qr_token :: utext
  sq_jwt_token :: str
  sq_latitude :: real
  sq_longitude :: real
  sq_accuracy :: "real option"
  sq_punch_type :: int

text \<open>The bounds of \<open>QRScanRequest\<close>; FastAPI answers 422 outside them.\<close>

definition well_formed_scan :: "scan_request \<Rightarrow> bool" where
  "well_formed_scan r \<longleftrightarrow> - 90 \<le> sq_latitude r \<and> sq_latitude r \<le> 90 \<and> - 180 \<le> sq_longitude r \<and> sq_longitude r \<le> 180
     \<and> (case sq_accuracy r of None \<Rightarrow> True | Some a \<Rightarrow> 0 \<le> a) \<and> 0 \<le> sq_punch_type r \<and> sq_punch_type r \<le> 1"

text \<open>The text of \<open>validation_message\<close> by its parts.\<close>

record qr_attendance = attendance_record +
  ar_place :: utext
  ar_gps :: "real \<times> real"
  ar_distance :: real

record checkin_db =
  cd_terminals :: "terminal list"
  cd_employees :: "employee list"
  cd_records :: "qr_attendance list"

definition qr_key :: "qr_attendance \<Rightarrow> str \<times> dtime \<times> int" where
  "qr_key r = (ar_badge r, ar_timestamp r, ar_punch_type r)"

datatype scan_refusal =
    Malformed | LoginAgain | BadCode qr_error | BadPlace place_error | OutOfArea real | NotLinkedScan | ScanCrash

datatype scan_answer = Refused scan_refusal | Recorded qr_attendance | AlreadyRecorded qr_attendance

record scan_world =
  sw_qr :: qr_lib
  sw_jwt :: jwt_lib
  sw_cfg :: line_config

text \<open>\<open>unquote\<close>: percent-decoding as UTF-8, \<open>+\<close> left alone.\<close>

definition unquote :: "utext \<Rightarrow> utext" where
  "unquote s = decode_octets (percent_octets s)"

definition linked_holder :: "employee list \<Rightarrow> session_claims \<Rightarrow> employee option" where
  "linked_holder es c = first (\<lambda>e. line_user_id e = sc_line_user_id c \<and> Some (badge_number e) = sc_employee_badge c
     \<and> is_active e) es"

text \<open>The readings of the clock during one scan: for the two JWT checks, the grace period and the record.\<close>

record scan_clock =
  sk_login :: real
  sk_code :: real
  sk_grace :: real
  sk_stamp :: dtime

definition punch_row :: "scan_clock \<Rightarrow> scan_request \<Rightarrow> int \<Rightarrow> location_check \<Rightarrow> employee \<Rightarrow> qr_attendance" where
  "punch_row k r tid l e = \<lparr>ar_badge = badge_number e, ar_device_id = tid, ar_timestamp = sk_stamp k,
     ar_punch_type = sq_punch_type r, ar_status = 0, ar_sync_status = ''synced'', ar_validation_status = ''unvalidated'',
     ar_place = pl_name (lc_place l), ar_gps = (sq_latitude r, sq_longitude r), ar_distance = lc_distance l\<rparr>"

definition scan_qr_code :: "scan_world \<Rightarrow> scan_clock \<Rightarrow> scan_request \<Rightarrow> checkin_db \<Rightarrow> checkin_db \<times> scan_answer" where
  "scan_qr_code w k r db =
     (if \<not> well_formed_scan r then (db, Refused Malformed)
      else case verify_jwt_token (sw_jwt w) (sw_cfg w) (sk_login k) (sq_jwt_token r) of
        Inl _ \<Rightarrow> (db, Refused LoginAgain)
      | Inr who \<Rightarrow>
          (case validate_qr_token (sw_qr w) (jwt_secret (sw_cfg w)) (sk_code k) (sk_grace k) (unquote (sq_qr_token r)) of
             Inl x \<Rightarrow> (db, Refused (BadCode x))
           | Inr c \<Rightarrow>
               (case validate_gps_location (cd_terminals db) (sq_latitude r) (sq_longitude r) (sq_accuracy r) (qc_terminal c) of
                  Inl Crash \<Rightarrow> (db, Refused ScanCrash)
                | Inl x \<Rightarrow> (db, Refused (BadPlace x))
                | Inr l \<Rightarrow>
                    if \<not> lc_valid l then (db, Refused (OutOfArea (lc_distance l)))
                    else case linked_holder (cd_employees db) who of
                      None \<Rightarrow> (db, Refused NotLinkedScan)
                    | Some e \<Rightarrow>
                        (let row = punch_row k r (the (qc_terminal c)) l e in
                         case insert_unique qr_key row (cd_records db) of
                           Some rs \<Rightarrow> (db\<lparr>cd_records := rs\<rparr>, Recorded row)
                         | None \<Rightarrow> (db, AlreadyRecorded
                             (case first (\<lambda>x. qr_key x = qr_key row) (cd_records db) of None \<Rightarrow> row | Some x \<Rightarrow> x))))))"

section \<open>The kiosk\<close>

record terminal_info =
  ti_id :: int
  ti_name :: utext
  ti_location :: utext
  ti_active :: bool

definition terminal_info_of :: "terminal \<Rightarrow> terminal_info" where
  "terminal_info_of t = \<lparr>ti_id = tm_id t, ti_name = tm_name t,
     ti_location = safe_location_name (case tm_metadata t of
         Metadata g _ \<Rightarrow> (case gps_location g of None \<Rightarrow> Some (tm_name t) | x \<Rightarrow> x)
       | _ \<Rightarrow> Some (tm_name t)),
     ti_active = tm_active t\<rparr>"

definition list_qr_terminals :: "terminal list \<Rightarrow> terminal_info list" where
  "list_qr_terminals ts = map terminal_info_of (filter (\<lambda>t. tm_type t = ''qr_terminal'') ts)"

text \<open>None: the \<open>get\<close> raises.\<close>

definition linked_fingerprint_device_ids :: "terminal \<Rightarrow> int list option" where
  "linked_fingerprint_device_ids t =
     (let ints = map (\<lambda>x. if 0 \<le> x then \<lfloor>x\<rfloor> else \<lceil>x\<rceil>) in
      case tm_metadata t of
        NotObject \<Rightarrow> None
      | OddGps xs \<Rightarrow> Some (ints xs)
      | Metadata _ xs \<Rightarrow> Some (ints xs)
      | _ \<Rightarrow> Some [])"

record kiosk_code =
  kc_token :: utext
  kc_url :: utext
  kc_terminal :: int
  kc_name :: utext
  kc_expires_at :: real
  kc_expires_in :: int
  kc_linked :: "int list"

datatype kiosk_error = KioskNotFound | KioskCrash

definition get_qr_code_for_kiosk ::
  "scan_world \<Rightarrow> str option \<Rightarrow> real \<Rightarrow> str \<Rightarrow> terminal list \<Rightarrow> int \<Rightarrow> kiosk_error + kiosk_code" where
  "get_qr_code_for_kiosk w base now nonce ts tid =
     (case find_terminal ts (Some tid) of
        None \<Rightarrow> Inl KioskNotFound
      | Some t \<Rightarrow>
          (case (tm_metadata t, linked_fingerprint_device_ids t) of
             (OddGps _, _) \<Rightarrow> Inl KioskCrash
           | (_, None) \<Rightarrow> Inl KioskCrash
           | (_, Some linked) \<Rightarrow>
              (let named = safe_location_name (case tm_metadata t of
                      Metadata g _ \<Rightarrow> (case gps_location g of None \<Rightarrow> Some (terminal_label tid) | x \<Rightarrow> x)
                    | _ \<Rightarrow> Some (terminal_label tid));
                    code = generate_qr_token (sw_qr w) (jwt_secret (sw_cfg w)) now nonce tid
                in Inr \<lparr>kc_token = qk_token code, kc_url = qr_url base (qk_token code) tid, kc_terminal = tid,
                     kc_name = (if named = [] then terminal_label tid else named),
                     kc_expires_at = qk_expires_at code, kc_expires_in = qk_expires_in code,
                     kc_linked = linked\<rparr>)))"

datatype location_answer = ForOne location_check | ForAll nearby

definition validate_user_location ::
  "terminal list \<Rightarrow> real \<Rightarrow> real \<Rightarrow> real option \<Rightarrow> int option \<Rightarrow> place_error + location_answer" where
  "validate_user_location ts lat lon acc tid =
     (case tid of
        Some i \<Rightarrow> if i \<noteq> 0 then map_sum id ForOne (validate_gps_location ts lat lon acc tid)
                  else map_sum id ForAll (validate_multiple_locations ts lat lon acc)
      | None \<Rightarrow> map_sum id ForAll (validate_multiple_locations ts lat lon acc))"

section \<open>Attendance lists\<close>

text \<open>
  \<open>get_attendance_records\<close>: \<open>year\<close> is the current one. Rows of equal time keep the order of the
  table; SQLite takes a negative limit for none.
\<close>

definition sql_limit :: "int \<Rightarrow> 'a list \<Rightarrow> 'a list" where
  "sql_limit n xs = (if n < 0 then xs else take (nat n) xs)"

definition bangkok_start :: "date \<Rightarrow> dtime" where
  "bangkok_start d = midnight d - 7 * hour_us"

definition bangkok_end :: "date \<Rightarrow> dtime" where
  "bangkok_end d = midnight (d + 1) - 1 - 7 * hour_us"

definition far_future :: "int \<Rightarrow> dtime" where
  "far_future year = midnight (ordinal (year + 5) 1 1)"

definition get_attendance_records ::
  "int \<Rightarrow> date option \<Rightarrow> date option \<Rightarrow> str option \<Rightarrow> int list \<Rightarrow> int option \<Rightarrow> int
   \<Rightarrow> 'a attendance_record_scheme list \<Rightarrow> 'a attendance_record_scheme list" where
  "get_attendance_records year start stop badge devices device n rows =
     sql_limit n (sort_key (\<lambda>r. - ar_timestamp r) (filter (\<lambda>r.
         (case start of None \<Rightarrow> True | Some d \<Rightarrow> bangkok_start d \<le> ar_timestamp r)
       \<and> (case stop of None \<Rightarrow> True | Some d \<Rightarrow> ar_timestamp r \<le> bangkok_end d)
       \<and> (truthy badge \<longrightarrow> badge = Some (ar_badge r))
       \<and> (if devices \<noteq> [] then ar_device_id r \<in> set devices
          else case device of None \<Rightarrow> True | Some i \<Rightarrow> ar_device_id r = i)
       \<and> ar_timestamp r < far_future year) rows))"

datatype feed_error = FeedNotFound | FeedCrash

definition get_recent_for_terminal ::
  "int \<Rightarrow> date \<Rightarrow> int \<Rightarrow> checkin_db \<Rightarrow> int \<Rightarrow> feed_error + (qr_attendance \<times> shown_name) list" where
  "get_recent_for_terminal year today n db tid =
     (case find_terminal (cd_terminals db) (Some tid) of
        None \<Rightarrow> Inl FeedNotFound
      | Some t \<Rightarrow> (case linked_fingerprint_device_ids t of None \<Rightarrow> Inl FeedCrash | Some linked \<Rightarrow>
          Inr (map (\<lambda>r. (r, case first (\<lambda>e. badge_number e = ar_badge r) (cd_employees db) of
            Some e \<Rightarrow> Named (display_name e) | None \<Rightarrow> Unnamed (ar_badge r)))
          (get_attendance_records year (Some today) (Some today) None (tid # linked) None
             (max 1 (min n 50)) (cd_records db)))))"

definition get_employee_attendance_for_mobile ::
  "int \<Rightarrow> int \<Rightarrow> checkin_db \<Rightarrow> str \<Rightarrow> feed_error + qr_attendance list" where
  "get_employee_attendance_for_mobile year n db badge =
     (if first (\<lambda>e. badge_number e = badge) (cd_employees db) = None then Inl FeedNotFound
      else Inr (get_attendance_records year None None (Some badge) [] None n (cd_records db)))"

text \<open>\<open>get_attendance_summary\<close>: the last hundred punches by employee; \<open>True\<close> is shown as a check-in.\<close>

definition get_attendance_summary ::
  "int \<Rightarrow> 'a attendance_record_scheme list \<Rightarrow> (str, (dtime \<times> bool) list) dict" where
  "get_attendance_summary year rows =
     fold (\<lambda>r d. AList.update (ar_badge r)
         ((case map_of d (ar_badge r) of None \<Rightarrow> [] | Some xs \<Rightarrow> xs) @ [(ar_timestamp r, ar_punch_type r = 0)]) d)
       (get_attendance_records year None None None [] None 100 rows) []"

definition get_employee_list :: "employee list \<Rightarrow> employee list" where
  "get_employee_list es = sort_key badge_number (filter is_active es)"

end
