(* ===== verification/QrFacts.thy ===== *)
theory QrFacts
  imports QrCheckin
begin

text \<open>
  What check-in by QR code guarantees: the distance is the one on the sphere, a code lives 75
  seconds, and a punch is only recorded for a linked employee at the place he claims to be.
\<close>

section \<open>Distances\<close>

text \<open>The scalar product of two places as unit vectors.\<close>

definition place_dot :: "real \<Rightarrow> real \<Rightarrow> real \<Rightarrow> real \<Rightarrow> real" where
  "place_dot lat1 lon1 lat2 lon2 =
     (cos (radians lat1) * cos (radians lon1)) * (cos (radians lat2) * cos (radians lon2))
   + (cos (radians lat1) * sin (radians lon1)) * (cos (radians lat2) * sin (radians lon2))
   + sin (radians lat1) * sin (radians lat2)"

lemma half_angle: "(sin (x / 2))\<^sup>2 = (1 - cos x) / (2 :: real)"
  using cos_double_sin [of "x / 2"] by simp

lemma haversine_term:
  "(sin ((radians lat2 - radians lat1) / 2))\<^sup>2
     + cos (radians lat1) * cos (radians lat2) * (sin ((radians lon2 - radians lon1) / 2))\<^sup>2
   = (1 - place_dot lat1 lon1 lat2 lon2) / 2"
  unfolding half_angle place_dot_def cos_diff by (simp add: field_simps)

lemma place_dot_bound: "\<bar>place_dot lat1 lon1 lat2 lon2\<bar> \<le> 1"
proof -
  define c1 s1 c2 s2 d where "c1 = cos (radians lat1)" "s1 = sin (radians lat1)" "c2 = cos (radians lat2)"
    "s2 = sin (radians lat2)" "d = cos (radians lon1 - radians lon2)"
  have one: "c1\<^sup>2 + s1\<^sup>2 = 1" "c2\<^sup>2 + s2\<^sup>2 = 1" by (simp_all add: c1_s1_c2_s2_d_def)
  have d: "d\<^sup>2 \<le> 1" by (simp add: c1_s1_c2_s2_d_def abs_square_le_1)
  have e: "place_dot lat1 lon1 lat2 lon2 = c1 * (c2 * d) + s1 * s2"
    by (simp add: place_dot_def c1_s1_c2_s2_d_def cos_diff algebra_simps)
  have "(c1 * (c2 * d) + s1 * s2)\<^sup>2 \<le> (c1\<^sup>2 + s1\<^sup>2) * ((c2 * d)\<^sup>2 + s2\<^sup>2)"
  proof -
    have "0 \<le> (c1 * s2 - s1 * (c2 * d))\<^sup>2" by simp
    then show ?thesis by (simp add: power2_eq_square algebra_simps)
  qed
  also have "\<dots> \<le> 1 * (c2\<^sup>2 + s2\<^sup>2)"
    unfolding one(1) using d by (simp add: power_mult_distrib mult_left_le)
  finally have "(place_dot lat1 lon1 lat2 lon2)\<^sup>2 \<le> 1" using e one(2) by simp
  then show ?thesis by (simp add: abs_square_le_1)
qed

lemma arccos_half:
  assumes "\<bar>x\<bar> \<le> 1"
  shows "2 * arcsin (sqrt ((1 - x) / 2)) = arccos x"
proof -
  define t where "t = arccos x"
  have t: "0 \<le> t" "t \<le> pi" "cos t = x" using assms arccos_bounded [of x] cos_arccos_abs [of x] by (auto simp: t_def)
  have "sin (t / 2) \<ge> 0" using t by (intro sin_ge_zero) auto
  then have "sqrt ((1 - x) / 2) = sin (t / 2)"
    using half_angle [of t] t(3) by (metis abs_of_nonneg real_sqrt_abs)
  then have "arcsin (sqrt ((1 - x) / 2)) = t / 2" using t by (simp add: arcsin_sin)
  then show ?thesis by (simp add: t_def)
qed


section \<open>The life of a code\<close>

text \<open>What PyJWT documents of one token: it verifies, from its \<open>iat\<close> on, before its \<open>exp\<close>.\<close>

definition verifies :: "qr_lib \<Rightarrow> str \<Rightarrow> qr_claims \<Rightarrow> bool" where
  "verifies lib secret c \<longleftrightarrow> (\<forall>t. (case qc_iat c of None \<Rightarrow> True | Some i \<Rightarrow> of_int i \<le> t) \<longrightarrow>
     qr_decode lib secret t (qr_encode lib secret c)
       = (if (case qc_exp c of None \<Rightarrow> False | Some e \<Rightarrow> of_int e \<le> t) then Inl JwtExpired else Inr c)
     \<and> qr_decode_any lib secret t (qr_encode lib secret c) = Inr c)"

lemma code_lives:
  assumes "verifies lib secret (qr_payload t0 terminal nonce)" and "nonce \<noteq> []" and "0 \<le> t0" and "t0 \<le> now" and "now \<le> later"
  shows "validate_qr_token lib secret now later (qk_token (generate_qr_token lib secret t0 nonce terminal))
    = (if now < of_int (\<lfloor>t0\<rfloor> + 60) \<or> later \<le> of_int (\<lfloor>t0\<rfloor> + 75) then Inr (qr_payload t0 terminal nonce) else Inl QrExpired)"
proof -
  define c where "c = qr_payload t0 terminal nonce"
  have c: "qc_iat c = Some \<lfloor>t0\<rfloor>" "qc_exp c = Some (\<lfloor>t0\<rfloor> + 60)" "truthy (qc_nonce c)"
    using assms(2) by (auto simp: c_def qr_payload_def QR_EXPIRY_SECONDS_def truthy_iff neq_Nil_conv)
  have i: "of_int \<lfloor>t0\<rfloor> \<le> now" using assms(4) by linarith
  have v: "qr_decode lib secret now (qr_encode lib secret c) = (if of_int (\<lfloor>t0\<rfloor> + 60) \<le> now then Inl JwtExpired else Inr c)"
    "qr_decode_any lib secret now (qr_encode lib secret c) = Inr c"
    using assms(1) i c unfolding verifies_def c_def [symmetric] by auto
  have "0 \<le> \<lfloor>t0\<rfloor>" using assms(3) by simp
  then have "\<lfloor>t0\<rfloor> + 60 \<noteq> 0" by linarith
  then show ?thesis unfolding generate_qr_token_def c_def [symmetric]
    using v c by (auto simp: validate_qr_token_def QR_GRACE_SECONDS_def)
qed

text \<open>
  C36. A code is accepted for its full minute and fifteen seconds more, counted from the whole
  second it was drawn in, by any number of people, and never again after that.
\<close>

theorem code_lives_75_seconds:
  assumes "verifies lib secret (qr_payload t0 terminal nonce)" and "nonce \<noteq> []" and "0 \<le> t0" and "t0 \<le> now" and "now \<le> later"
  shows "validate_qr_token lib secret now later (qk_token (generate_qr_token lib secret t0 nonce terminal))
    = (if now < of_int (\<lfloor>t0\<rfloor> + 60) \<or> later \<le> of_int (\<lfloor>t0\<rfloor> + 75) then Inr (qr_payload t0 terminal nonce) else Inl QrExpired)"
  using assms by (rule code_lives)

section \<open>Who is checked in\<close>

datatype qr_event = QKiosk real str int | QScan scan_clock scan_request | QEdit "terminal list" "employee list"

datatype qr_output = QkCode "kiosk_error + kiosk_code" | QkScan scan_answer | QkNone

fun qr_step :: "scan_world \<Rightarrow> checkin_db \<Rightarrow> qr_event \<Rightarrow> checkin_db \<times> qr_output" where
  "qr_step w db (QKiosk now nonce tid) = (db, QkCode (get_qr_code_for_kiosk w None now nonce (cd_terminals db) tid))"
| "qr_step w db (QScan k r) = (case scan_qr_code w k r db of (db', a) \<Rightarrow> (db', QkScan a))"
| "qr_step w db (QEdit ts es) = (db\<lparr>cd_terminals := ts, cd_employees := es\<rparr>, QkNone)"

text \<open>The claims of the codes that kiosks were given.\<close>

definition issued :: "(qr_event \<times> qr_output) list \<Rightarrow> qr_claims set" where
  "issued tr = {qr_payload now tid nonce | now nonce tid code. (QKiosk now nonce tid, QkCode (Inr code)) \<in> set tr}"

lemma issued_code:
  "c \<in> issued tr \<Longrightarrow> \<exists>t0 nonce tid code. (QKiosk t0 nonce tid, QkCode (Inr code)) \<in> set tr \<and> c = qr_payload t0 tid nonce"
  by (auto simp: issued_def)

text \<open>PyJWT refuses a token from its \<open>exp\<close> on.\<close>

definition refuses_expired :: "qr_lib \<Rightarrow> bool" where
  "refuses_expired lib \<longleftrightarrow> (\<forall>secret t token c. qr_decode lib secret t token = Inr c \<longrightarrow>
     (case qc_exp c of None \<Rightarrow> True | Some e \<Rightarrow> t < of_int e))"

lemma validated_age:
  assumes "refuses_expired lib" "validate_qr_token lib secret now later token = Inr (qr_payload t0 tid nonce)"
  shows "now < t0 + 60 \<or> later \<le> t0 + 75"
proof -
  define c where "c = qr_payload t0 tid nonce"
  have e: "qc_exp c = Some (\<lfloor>t0\<rfloor> + 60)" by (simp add: c_def qr_payload_def QR_EXPIRY_SECONDS_def)
  have v: "validate_qr_token lib secret now later token = Inr c" using assms(2) by (simp add: c_def)
  consider "qr_decode lib secret now token = Inr c" | "later - of_int (\<lfloor>t0\<rfloor> + 60) \<le> 15"
  proof (cases "qr_decode lib secret now token")
    case (Inl x)
    then show ?thesis using v e that(2)
      by (cases x) (auto simp: validate_qr_token_def QR_GRACE_SECONDS_def split: sum.splits option.splits if_splits)
  next
    case (Inr d)
    then show ?thesis using v that(1) by (auto simp: validate_qr_token_def split: if_splits)
  qed
  then show ?thesis
  proof cases
    case 1
    then have "now < of_int (\<lfloor>t0\<rfloor> + 60)" using assms(1) e unfolding refuses_expired_def by (metis option.simps(5))
    then have "now < t0 + 60" by linarith
    then show ?thesis ..
  next
    case 2
    then have "later \<le> t0 + 75" by linarith
    then show ?thesis ..
  qed
qed

lemma scan_recorded:
  assumes "scan_qr_code w k r db = (db', Recorded row)"
  shows "\<exists>who c e l. well_formed_scan r \<and> verify_jwt_token (sw_jwt w) (sw_cfg w) (sk_login k) (sq_jwt_token r) = Inr who
    \<and> validate_qr_token (sw_qr w) (jwt_secret (sw_cfg w)) (sk_code k) (sk_grace k) (unquote (sq_qr_token r)) = Inr c
    \<and> validate_gps_location (cd_terminals db) (sq_latitude r) (sq_longitude r) (sq_accuracy r) (qc_terminal c) = Inr l
    \<and> lc_valid l \<and> linked_holder (cd_employees db) who = Some e \<and> row = punch_row k r (the (qc_terminal c)) l e
    \<and> insert_unique qr_key row (cd_records db) = Some (cd_records db') \<and> db' = db\<lparr>cd_records := cd_records db'\<rparr>"
  using assms
  by (auto simp: scan_qr_code_def Let_def split: if_splits sum.splits place_error.splits option.splits)


section \<open>The feed of a kiosk\<close>

text \<open>
  The feed of a kiosk shows at most fifty punches, those of the current Bangkok day on the
  terminal or a device linked to it, newest first.
\<close>

theorem feed_is_local:
  assumes "get_recent_for_terminal year today n db tid = Inr rows"
  shows "length rows \<le> 50 \<and> sorted_wrt (\<lambda>a b. ar_timestamp (fst a) \<ge> ar_timestamp (fst b)) rows
    \<and> (\<exists>t linked. find_terminal (cd_terminals db) (Some tid) = Some t \<and> linked_fingerprint_device_ids t = Some linked
        \<and> set (map fst rows) \<subseteq> {r \<in> set (cd_records db). ar_device_id r \<in> insert tid (set linked)
            \<and> date_of (ar_timestamp r + 7 * hour_us) = today})"
proof -
  obtain t linked where t: "find_terminal (cd_terminals db) (Some tid) = Some t" "linked_fingerprint_device_ids t = Some linked"
    using assms by (auto simp: get_recent_for_terminal_def split: option.splits)
  define rs where "rs = get_attendance_records year (Some today) (Some today) None (tid # linked) None (max 1 (min n 50)) (cd_records db)"
  have rows: "map fst rows = rs"
    using assms t by (auto simp: get_recent_for_terminal_def rs_def comp_def)
  define m where "m = max 1 (min n 50)"
  have m: "0 \<le> m" "m \<le> 50" by (auto simp: m_def)
  define all where "all = sort_key (\<lambda>r. - ar_timestamp r) (filter (\<lambda>r. bangkok_start today \<le> ar_timestamp r
      \<and> ar_timestamp r \<le> bangkok_end today \<and> ar_device_id r \<in> set (tid # linked) \<and> ar_timestamp r < far_future year) (cd_records db))"
  have rs: "rs = take (nat m) all"
    using m by (simp add: rs_def get_attendance_records_def sql_limit_def m_def [symmetric] all_def)
  have "length rows = length rs" using rows by (metis length_map)
  then have "length rows \<le> 50" using rs m by simp
  moreover have "sorted_wrt (\<lambda>a b. ar_timestamp a \<ge> ar_timestamp b) all"
    using sorted_sort_key [of "\<lambda>r. - ar_timestamp r"] unfolding all_def sorted_map by simp
  then have "sorted_wrt (\<lambda>a b. ar_timestamp a \<ge> ar_timestamp b) (map fst rows)"
    unfolding rows rs by (rule sorted_wrt_take)
  then have "sorted_wrt (\<lambda>a b. ar_timestamp (fst a) \<ge> ar_timestamp (fst b)) rows" by (simp add: sorted_wrt_map)
  moreover have "set rs \<subseteq> set all" unfolding rs by (rule set_take_subset)
  then have "set (map fst rows) \<subseteq> {r \<in> set (cd_records db). ar_device_id r \<in> insert tid (set linked)
            \<and> date_of (ar_timestamp r + 7 * hour_us) = today}"
    unfolding rows by (auto simp: all_def date_of_iff bangkok_start_def bangkok_end_def)
  ultimately show ?thesis using t by blast
qed

section \<open>The honest check-in\<close>

lemma honest_checkin:
  assumes "verifies (sw_qr w) (jwt_secret (sw_cfg w)) (qr_payload t0 tid nonce)" and "nonce \<noteq> []" and "0 \<le> t0"
    and "t0 \<le> sk_code k" and "sk_code k \<le> sk_grace k" and "sk_grace k \<le> of_int (\<lfloor>t0\<rfloor> + 75)"
    and "unquote (sq_qr_token r) = qk_token (generate_qr_token (sw_qr w) (jwt_secret (sw_cfg w)) t0 nonce tid)"
    and "verify_jwt_token (sw_jwt w) (sw_cfg w) (sk_login k) (sq_jwt_token r) = Inr who"
    and "linked_holder (cd_employees db) who = Some e" and "well_formed_scan r" and "\<not> inaccurate (sq_accuracy r)"
    and "get_terminal_location (cd_terminals db) (Some tid) = Inr p"
    and "distance_to (sq_latitude r) (sq_longitude r) p \<le> pl_radius p"
  shows "\<exists>db' row row'. scan_qr_code w k r db = (db', if db' = db then AlreadyRecorded row' else Recorded row)
    \<and> ar_badge row = badge_number e \<and> ar_device_id row = tid \<and> ar_timestamp row = sk_stamp k
    \<and> (if db' = db then row' \<in> set (cd_records db) \<and> qr_key row' = qr_key row
        else db' = db\<lparr>cd_records := cd_records db @ [row]\<rparr>)
    \<and> fst (scan_qr_code w k r db') = db'"
proof -
  define l where "l = \<lparr>lc_valid = True, lc_distance = round2 (distance_to (sq_latitude r) (sq_longitude r) p), lc_place = p\<rparr>"
  define row where "row = punch_row k r tid l e"
  have lv: "lc_valid l" by (simp add: l_def)
  have v: "validate_qr_token (sw_qr w) (jwt_secret (sw_cfg w)) (sk_code k) (sk_grace k) (unquote (sq_qr_token r))
      = Inr (qr_payload t0 tid nonce)"
    unfolding assms(7) using code_lives [OF assms(1-5)] assms(6) by simp
  have g: "validate_gps_location (cd_terminals db) (sq_latitude r) (sq_longitude r) (sq_accuracy r) (Some tid) = Inr l"
    using assms(11-13) by (simp add: validate_gps_location_def l_def)
  have t: "qc_terminal (qr_payload t0 tid nonce) = Some tid" by (simp add: qr_payload_def)
  have scan: "scan_qr_code w k r d = (case insert_unique qr_key row (cd_records d) of
        Some rs \<Rightarrow> (d\<lparr>cd_records := rs\<rparr>, Recorded row)
      | None \<Rightarrow> (d, AlreadyRecorded (case first (\<lambda>x. qr_key x = qr_key row) (cd_records d) of None \<Rightarrow> row | Some x \<Rightarrow> x)))"
    if "cd_terminals d = cd_terminals db" "cd_employees d = cd_employees db" for d
    using assms(8-10) v g that lv by (auto simp: scan_qr_code_def t row_def Let_def split: option.splits)
  have f: "ar_badge row = badge_number e" "ar_device_id row = tid" "ar_timestamp row = sk_stamp k"
    by (simp_all add: row_def punch_row_def)
  show ?thesis
  proof (cases "insert_unique qr_key row (cd_records db)")
    case None
    then obtain x where "x \<in> set (cd_records db)" "qr_key x = qr_key row" by (auto simp: insert_unique_def split: if_splits)
    then obtain y where y: "first (\<lambda>x. qr_key x = qr_key row) (cd_records db) = Some y"
      by (cases "first (\<lambda>x. qr_key x = qr_key row) (cd_records db)") (auto simp: first_None)
    have "scan_qr_code w k r db = (db, AlreadyRecorded y)" using scan [of db] None y by simp
    then show ?thesis using first_Some [OF y] f by (intro exI [of _ db] exI [of _ row] exI [of _ y]) simp
  next
    case (Some rs)
    then have rs: "rs = cd_records db @ [row]" by (auto simp: insert_unique_def split: if_splits)
    define db' where "db' = db\<lparr>cd_records := cd_records db @ [row]\<rparr>"
    have ne: "db' \<noteq> db" unfolding db'_def by (metis append_self_conv checkin_db.select_convs(3) checkin_db.surjective checkin_db.update_convs(3) not_Cons_self2)
    have "insert_unique qr_key row (cd_records db') = None" by (simp add: db'_def insert_unique_def)
    then have "fst (scan_qr_code w k r db') = db'" using scan [of db'] by (simp add: db'_def)
    moreover have "scan_qr_code w k r db = (db', Recorded row)" using scan [of db] Some rs by (simp add: db'_def)
    ultimately show ?thesis using f ne by (intro exI [of _ db'] exI [of _ row]) (simp add: db'_def)
  qed
qed

text \<open>
  A linked active employee who scans the code on the kiosk within its 75 seconds, with a
  live LINE session and within the radius, is recorded at that terminal; submitting again with
  the same time stamp reports the punch already there and adds nothing.
\<close>

theorem honest_checkin_succeeds:
  assumes "verifies (sw_qr w) (jwt_secret (sw_cfg w)) (qr_payload t0 tid nonce)" and "nonce \<noteq> []" and "0 \<le> t0"
    and "t0 \<le> sk_code k" and "sk_code k \<le> sk_grace k" and "sk_grace k \<le> of_int (\<lfloor>t0\<rfloor> + 75)"
    and "unquote (sq_qr_token r) = qk_token (generate_qr_token (sw_qr w) (jwt_secret (sw_cfg w)) t0 nonce tid)"
    and "verify_jwt_token (sw_jwt w) (sw_cfg w) (sk_login k) (sq_jwt_token r) = Inr who"
    and "linked_holder (cd_employees db) who = Some e" and "well_formed_scan r" and "\<not> inaccurate (sq_accuracy r)"
    and "get_terminal_location (cd_terminals db) (Some tid) = Inr p"
    and "distance_to (sq_latitude r) (sq_longitude r) p \<le> pl_radius p"
  shows "\<exists>db' row row'. scan_qr_code w k r db = (db', if db' = db then AlreadyRecorded row' else Recorded row)
    \<and> ar_badge row = badge_number e \<and> ar_device_id row = tid \<and> ar_timestamp row = sk_stamp k
    \<and> (if db' = db then row' \<in> set (cd_records db) \<and> qr_key row' = qr_key row
        else db' = db\<lparr>cd_records := cd_records db @ [row]\<rparr>)
    \<and> fst (scan_qr_code w k r db') = db'"
  using assms by (rule honest_checkin)

section \<open>What is not checked\<close>

text \<open>
  A scan that leaves out the accuracy of its position, or says zero, passes the check of
  accuracy, and a terminal that was switched off still has codes and takes scans.
\<close>

theorem accuracy_and_activity_unchecked:
  "\<not> inaccurate None \<and> \<not> inaccurate (Some 0)
   \<and> validate_gps_location (map (tm_active_update (\<lambda>_. False)) ts) lat lon acc tid = validate_gps_location ts lat lon acc tid
   \<and> get_qr_code_for_kiosk w base now nonce (map (tm_active_update (\<lambda>_. False)) ts) i = get_qr_code_for_kiosk w base now nonce ts i"
proof -
  have f: "find_terminal (map (tm_active_update (\<lambda>_. False)) ts) j = map_option (tm_active_update (\<lambda>_. False)) (find_terminal ts j)"
    for j by (induction ts) (auto simp: find_terminal_def)
  have "get_terminal_location (map (tm_active_update (\<lambda>_. False)) ts) j = get_terminal_location ts j" for j
    by (cases "find_terminal ts j") (auto simp: get_terminal_location_def f split: terminal_metadata.splits option.splits list.splits)
  then show ?thesis
    by (cases "find_terminal ts (Some i)")
      (auto simp: inaccurate_def validate_gps_location_def get_qr_code_for_kiosk_def f linked_fingerprint_device_ids_def
        split: terminal_metadata.splits)
qed

section \<open>An example\<close>

definition demo_code :: qr_claims where
  "demo_code = qr_payload 0 1 ''n''"

definition demo_qr :: qr_lib where
  "demo_qr = \<lparr>qr_encode = (\<lambda>_ _. [0x61]), qr_decode = (\<lambda>_ t _. if t < 60 then Inr demo_code else Inl JwtExpired),
     qr_decode_any = (\<lambda>_ _ _. Inr demo_code)\<rparr>"

definition demo_holder :: session_claims where
  "demo_holder = \<lparr>sc_line_user_id = Some ''U'', sc_employee_badge = Some ''7'', sc_display_name = None,
     sc_picture_url = None, sc_iat = 0, sc_exp = 86400\<rparr>"

definition demo_scan_world :: scan_world where
  "demo_scan_world = \<lparr>sw_qr = demo_qr, sw_jwt = \<lparr>jwt_encode = (\<lambda>_ _. ''j''), jwt_decode = (\<lambda>_ _ _. Inr demo_holder)\<rparr>,
     sw_cfg = \<lparr>channel_id = [], channel_secret = [], callback_url = [], jwt_secret = ''k''\<rparr>\<rparr>"

definition demo_terminal :: terminal where
  "demo_terminal = \<lparr>tm_id = 1, tm_name = [0x48], tm_type = ''qr_terminal'', tm_active = True,
     tm_metadata = Metadata \<lparr>gps_latitude = Some 0, gps_longitude = Some 0, gps_radius = None, gps_location = Some [0x48]\<rparr> []\<rparr>"

definition demo_scanner :: employee where
  "demo_scanner = \<lparr>badge_number = ''7'', english_name = None, thai_name = None, display_name = ''A'', department = None,
     position = None, is_active = True, is_hidden = False, line_user_id = Some ''U'', line_display_name = None,
     line_picture_url = None, line_linking_code = None, line_linking_code_generated_at = None, emp_role = None,
     default_shift_id = None, emp_location = None, email = None, pending_approval = False, join_source = [],
     nfc_card_uid = None\<rparr>"

definition demo_checkins :: checkin_db where
  "demo_checkins = \<lparr>cd_terminals = [demo_terminal], cd_employees = [demo_scanner], cd_records = []\<rparr>"

definition demo_scan :: scan_request where
  "demo_scan = \<lparr>sq_qr_token = [0x61], sq_jwt_token = ''j'', sq_latitude = 0, sq_longitude = 0, sq_accuracy = Some 5,
     sq_punch_type = 0\<rparr>"

definition demo_clock :: scan_clock where
  "demo_clock = \<lparr>sk_login = 20, sk_code = 20, sk_grace = 20, sk_stamp = 1000\<rparr>"

lemma demo_code_facts:
  "qc_terminal demo_code = Some 1" "qc_iat demo_code = Some 0" "qc_exp demo_code = Some 60" "qc_nonce demo_code = Some ''n''"
  by (simp_all add: demo_code_def qr_payload_def QR_EXPIRY_SECONDS_def)

lemma demo_verifies: "verifies demo_qr secret (qr_payload 0 1 ''n'')"
  unfolding demo_code_def [symmetric] by (auto simp: verifies_def demo_qr_def demo_code_facts)

lemma demo_place:
  "get_terminal_location [demo_terminal] (Some 1) = Inr \<lparr>pl_latitude = 0, pl_longitude = 0, pl_radius = 200, pl_name = [0x48]\<rparr>"
  by (simp add: get_terminal_location_def find_terminal_def demo_terminal_def DEFAULT_RADIUS_def safe_location_name_def)

lemma demo_distance: "haversine_distance 0 0 0 0 = 0"
  by (simp add: haversine_distance_def radians_def Let_def)

lemma demo_unquote: "unquote [0x61] = [0x61]"
  by (simp add: unquote_def)

lemma demo_linked: "linked_holder [demo_scanner] demo_holder = Some demo_scanner"
  by (simp add: linked_holder_def demo_scanner_def demo_holder_def)

theorem code_lives_75_seconds_witness:
  "validate_qr_token demo_qr ''k'' 70 75 (qk_token (generate_qr_token demo_qr ''k'' 0 ''n'' 1)) = Inr (qr_payload 0 1 ''n'')
   \<and> validate_qr_token demo_qr ''k'' 76 76 (qk_token (generate_qr_token demo_qr ''k'' 0 ''n'' 1)) = Inl QrExpired"
  using code_lives_75_seconds [OF demo_verifies, of 70 75 "''k''"] code_lives_75_seconds [OF demo_verifies, of 76 76 "''k''"] by simp

lemma demo_recorded:
  "\<exists>db' row. scan_qr_code demo_scan_world demo_clock demo_scan demo_checkins = (db', Recorded row)
    \<and> ar_badge row = ''7'' \<and> ar_device_id row = 1 \<and> fst (scan_qr_code demo_scan_world demo_clock demo_scan db') = db'"
proof -
  have "\<exists>db' row row'. scan_qr_code demo_scan_world demo_clock demo_scan demo_checkins
        = (db', if db' = demo_checkins then AlreadyRecorded row' else Recorded row)
      \<and> ar_badge row = badge_number demo_scanner \<and> ar_device_id row = 1 \<and> ar_timestamp row = sk_stamp demo_clock
      \<and> (if db' = demo_checkins then row' \<in> set (cd_records demo_checkins) \<and> qr_key row' = qr_key row
          else db' = demo_checkins\<lparr>cd_records := cd_records demo_checkins @ [row]\<rparr>)
      \<and> fst (scan_qr_code demo_scan_world demo_clock demo_scan db') = db'"
  proof (rule honest_checkin [where ?t0.0 = 0 and nonce = "''n''" and who = demo_holder
        and p = "\<lparr>pl_latitude = 0, pl_longitude = 0, pl_radius = 200, pl_name = [0x48]\<rparr>"])
    show "verifies (sw_qr demo_scan_world) (jwt_secret (sw_cfg demo_scan_world)) (qr_payload 0 1 ''n'')"
      using demo_verifies by (simp add: demo_scan_world_def)
    show "unquote (sq_qr_token demo_scan)
        = qk_token (generate_qr_token (sw_qr demo_scan_world) (jwt_secret (sw_cfg demo_scan_world)) 0 ''n'' 1)"
      using demo_unquote by (simp add: demo_scan_def demo_scan_world_def demo_qr_def generate_qr_token_def)
    show "linked_holder (cd_employees demo_checkins) demo_holder = Some demo_scanner"
      using demo_linked by (simp add: demo_checkins_def)
    show "get_terminal_location (cd_terminals demo_checkins) (Some 1)
        = Inr \<lparr>pl_latitude = 0, pl_longitude = 0, pl_radius = 200, pl_name = [0x48]\<rparr>"
      using demo_place by (simp add: demo_checkins_def)
  qed (simp_all add: demo_clock_def demo_scan_def demo_scan_world_def verify_jwt_token_def well_formed_scan_def
      inaccurate_def MAX_ACCURACY_def distance_to_def demo_distance)
  moreover have "cd_records demo_checkins = []" "badge_number demo_scanner = ''7''"
    by (simp_all add: demo_checkins_def demo_scanner_def)
  ultimately show ?thesis by (metis empty_iff list.set(1))
qed

theorem honest_checkin_succeeds_witness:
  "\<exists>db' row. scan_qr_code demo_scan_world demo_clock demo_scan demo_checkins = (db', Recorded row)
    \<and> ar_badge row = ''7'' \<and> ar_device_id row = 1 \<and> fst (scan_qr_code demo_scan_world demo_clock demo_scan db') = db'"
proof -
  have "\<exists>db' row row'. scan_qr_code demo_scan_world demo_clock demo_scan demo_checkins
        = (db', if db' = demo_checkins then AlreadyRecorded row' else Recorded row)
      \<and> ar_badge row = badge_number demo_scanner \<and> ar_device_id row = 1 \<and> ar_timestamp row = sk_stamp demo_clock
      \<and> (if db' = demo_checkins then row' \<in> set (cd_records demo_checkins) \<and> qr_key row' = qr_key row
          else db' = demo_checkins\<lparr>cd_records := cd_records demo_checkins @ [row]\<rparr>)
      \<and> fst (scan_qr_code demo_scan_world demo_clock demo_scan db') = db'"
  proof (rule honest_checkin_succeeds [where ?t0.0 = 0 and nonce = "''n''" and who = demo_holder
        and p = "\<lparr>pl_latitude = 0, pl_longitude = 0, pl_radius = 200, pl_name = [0x48]\<rparr>"])
    show "verifies (sw_qr demo_scan_world) (jwt_secret (sw_cfg demo_scan_world)) (qr_payload 0 1 ''n'')"
      using demo_verifies by (simp add: demo_scan_world_def)
    show "unquote (sq_qr_token demo_scan)
        = qk_token (generate_qr_token (sw_qr demo_scan_world) (jwt_secret (sw_cfg demo_scan_world)) 0 ''n'' 1)"
      using demo_unquote by (simp add: demo_scan_def demo_scan_world_def demo_qr_def generate_qr_token_def)
    show "linked_holder (cd_employees demo_checkins) demo_holder = Some demo_scanner"
      using demo_linked by (simp add: demo_checkins_def)
    show "get_terminal_location (cd_terminals demo_checkins) (Some 1)
        = Inr \<lparr>pl_latitude = 0, pl_longitude = 0, pl_radius = 200, pl_name = [0x48]\<rparr>"
      using demo_place by (simp add: demo_checkins_def)
  qed (simp_all add: demo_clock_def demo_scan_def demo_scan_world_def verify_jwt_token_def well_formed_scan_def
      inaccurate_def MAX_ACCURACY_def distance_to_def demo_distance)
  moreover have "cd_records demo_checkins = []" "badge_number demo_scanner = ''7''"
    by (simp_all add: demo_checkins_def demo_scanner_def)
  ultimately show ?thesis by (metis empty_iff list.set(1))
qed


theorem feed_is_local_witness:
  "length ([] :: (qr_attendance \<times> shown_name) list) \<le> 50 \<and> get_recent_for_terminal 2026 739000 10 demo_checkins 1 = Inr []"
proof -
  have e: "get_recent_for_terminal 2026 739000 10 demo_checkins 1 = Inr []"
    by (simp add: get_recent_for_terminal_def demo_checkins_def find_terminal_def demo_terminal_def
        linked_fingerprint_device_ids_def get_attendance_records_def sql_limit_def)
  from feed_is_local [OF e] e show ?thesis by blast
qed

end
