(* ===== verification/Spec2Isabelle.thy ===== *)
theory Spec2Isabelle
  imports HandoffStore LeaveEffects LeaveForms Attendance LineAccount OidcTokens ZkDaemon SlackNotifier
    OnboardingFacts LineLoginFacts AdminFacts BotTextFacts BotFacts BotTicketFacts QrFacts
begin

text \<open>
  A verification library for the HF attendance server (\<open>app/\<close>): a FastAPI program in one
  process over one SQLite database, which collects punches from a fingerprint reader, keeps
  rosters, shifts and leaves, and is the identity provider of the hotel's other applications.

  \<^bold>\<open>The program and its theories.\<close> \<open>Prelude\<close> holds Python text, dictionaries, clocks and queries,
  \<open>WebText\<close> the text functions of the web endpoints, \<open>Tables\<close> the database schema
  (\<open>app/models\<close>), \<open>Interfaces\<close> the contracts that several components share, as locales: a machine
  with an invariant (\<open>machine\<close>), with an invariant about its history (\<open>traced_machine\<close>), a
  simulation, a store whose entries expire (\<open>expiring_store\<close>) and a credential that can be
  redeemed once (\<open>one_shot\<close>). The components interpret them on their own operations.

  Collecting punches. \<open>ZkIngest\<close> is the database half of \<open>app/services/zk_session.py\<close> (the realtime
  handler, the catch-up and the quarantine rule), \<open>ZkSession\<close> its operation queue, evictions and
  back-off, \<open>ZkDaemon\<close> the loop of its thread, which composes the two. \<open>SlackNotifier\<close> is
  \<open>app/services/slack_notifier.py\<close>. Theorems: the punch log refines the log a lossless reader
  would give, lost punches are recovered by the first successful catch-up, every waiting operation
  is answered, the thread survives.

  \<open>QrCheckin\<close> is check-in by QR code (\<open>app/api/qr_checkin.py\<close>, \<open>app/services/qr_service.py\<close>,
  \<open>location_service.py\<close>, \<open>attendance_service.py\<close>). \<open>QrFacts\<close>: the distance is the one on the sphere,
  a code lives 75 seconds, a punch needs a linked employee, a code of the terminal and a position
  within its radius.

  Reports. \<open>ShiftService\<close> is \<open>app/services/shift_service.py\<close> and \<open>app/api/shifts.py\<close>, \<open>Attendance\<close> the
  views of \<open>app/api/consolidated_attendance.py\<close>. Theorems: schedule history is stable, the
  monthly view agrees with the daily one, the totals of a month add up.

  Leaves. \<open>StaffLeave\<close> and \<open>LeaveForms\<close> are \<open>app/services/staff_leave.py\<close> with
  \<open>staff_leave_options.py\<close>, \<open>LeaveRoster\<close> is \<open>staff_leave_roster.py\<close> and \<open>staff_leave_manage.py\<close>,
  \<open>LeaveService\<close> composes them with \<open>app/api/leaves.py\<close> and \<open>app/api/staff_leave.py\<close> into one machine.
  \<open>LeaveLifecycle\<close>, \<open>LeaveBooking\<close> and \<open>LeaveEffects\<close> prove what it guarantees: the life of a
  request, that no day is booked twice, and what single operations do.

  Identity. \<open>LineAuth\<close> is \<open>app/services/line_auth_service.py\<close>, \<open>LineAccount\<close> the linking endpoints of
  \<open>app/api/line_auth.py\<close> with \<open>app/api/admin_line_codes.py\<close>, \<open>HandoffStore\<close>
  \<open>app/services/line_handoff_store.py\<close>, \<open>Oidc\<close> the provider (\<open>app/services/oidc_service.py\<close>,
  \<open>app/api/oidc.py\<close>) with its guarantees in \<open>OidcTokens\<close>, \<open>ReaderLogin\<close> the card and kiosk log-in of
  \<open>app/api/reader.py\<close>, \<open>LineLogin\<close> the log-in endpoints of \<open>app/api/line_auth.py\<close>, which compose all of
  them into one machine whose guarantees are in \<open>LineLoginFacts\<close>. Theorems: credentials are good once and only for the client, browser and
  employee they were made for; guessing is limited; the honest flows succeed.

  Employees. \<open>EmployeeRegistry\<close> is \<open>app/api/consolidated_employees.py\<close>, \<open>admin_employees.py\<close> and
  \<open>app/services/badge_service.py\<close>, \<open>Onboarding\<close> is \<open>app/api/public_onboarding.py\<close> and
  \<open>admin_onboarding.py\<close>. \<open>RegistryFacts\<close> shows what the registry keeps and how badges are merged and
  schedules applied, \<open>OnboardingFacts\<close> how a sign-up ends in a log-in and what goes wrong with
  reissued badges and cards.

  Administrators. \<open>AdminAccess\<close> is \<open>app/api/admin_auth.py\<close>, \<open>app/services/admin_auth_service.py\<close>,
  \<open>cf_access_service.py\<close>, \<open>manager_directory.py\<close>, \<open>app/api/deps.py\<close> and the guards of
  \<open>app/main_unified.py\<close>; \<open>AdminFacts\<close> shows who can pass those guards, how slow guessing the passcode
  is, how long lockouts and sessions last, and that the directory fails closed.

  The staff bot. \<open>app/services/staff_bot.py\<close> answers the staff in LINE, files repair tickets with
  housekeeping and posts a report into each group in four windows of the day. \<open>BotText\<close> is its
  grammar and the parser of repair reports, \<open>BotRender\<close> the texts it renders, \<open>BotRoute\<close> the routing
  of one webhook event, \<open>BotState\<close> the marks of the windows, the debouncer, the photo buffer, the
  attach windows and the handler that composes them, \<open>BotReply\<close> the ticket commands, the replies
  and the machine of webhooks, drain loop, replies and uploads. \<open>BotTextFacts\<close> shows what is read
  out of a message, \<open>BotFacts\<close> that a chat is answered, that groups can only report and that the
  report of a window is posted once, \<open>BotTicketFacts\<close> who may edit a ticket and which photos reach
  it. Message texts are lists of Unicode code points there.

  \<^bold>\<open>Conventions.\<close> A module-level dictionary is an association list in insertion order, a table the
  list of its rows; the handlers and services pass the state explicitly, and one handler call is
  one transaction. Events carry what the code reads from outside: every reading of a clock, every
  random token, the environment, the tables another component owns. Thai texts are constructors.
  HTTP errors and uncaught exceptions are constructors of each component's answer type. Strings
  are Python strings whose code points are below 256. What libraries compute (RSA, SHA-256, JWT,
  Base64) is a parameter; a theorem that needs more of it says so as a hypothesis.

  \<^bold>\<open>Bounds and fuel.\<close> No definition uses fuel. The loops whose recursion is not structural (the drain of
  the operation queue, the kick history, the decoder of percent-encoded text) have termination
  proofs by measures; a long poll is a sequence of events, so that any number of turns is covered.

  \<^bold>\<open>Not modelled.\<close> The LINE rich menus (\<open>staff_oa_*.py\<close>), the device administration, the scheduler, exports, image
  drawing and deployment hooks; pages, logging and HTTP clients; the interleaving of two handlers
  inside one transaction (SQLite serialises writers).
\<close>

end
